(* ===== verification/Prelude.thy ===== *)
theory Prelude
  imports Main "HOL-Library.Word"
begin

text \<open>
  Shared vocabulary of the development: the fixed-width integers of the Rust sources, the
  \<open>Result\<close> type, the checked and wrapping integer operations the sources call, a finite
  ordered map that behaves like \<open>std::collections::BTreeMap\<close>, and the generic lemmas on
  words, sums, lists and ordered maps that the component theories use.

  Arithmetic follows the release profile: \<open>u64\<close> and \<open>U256\<close> operators wrap around. In a debug
  build an overflowing \<open>u64\<close> operator panics instead; every theorem that excludes an overflow
  states the bound, so it holds for both profiles.
\<close>

section \<open>Machine integers and results\<close>

type_synonym u8 = "8 word"
type_synonym u16 = "16 word"
type_synonym u32 = "32 word"
type_synonym u64 = "64 word"
type_synonym u256 = "256 word"
type_synonym u512 = "512 word"

text \<open>A commitment is the 32-byte output of a hash, \<open>committable::Commitment\<close>.\<close>

type_synonym commitment = "256 word"

text \<open>\<open>Result<T, E>\<close>: \<open>Inl\<close> is the error, \<open>Inr\<close> the value.\<close>

type_synonym ('e, 'a) result = "'e + 'a"

abbreviation Ok :: "'a \<Rightarrow> ('e, 'a) result" where
  "Ok \<equiv> Inr"

abbreviation Err :: "'e \<Rightarrow> ('e, 'a) result" where
  "Err \<equiv> Inl"

definition is_ok :: "('e, 'a) result \<Rightarrow> bool" where
  "is_ok r = (case r of Inl e \<Rightarrow> False | Inr a \<Rightarrow> True)"

lemma is_ok_simps [simp]: "is_ok (Inl e) = False" "is_ok (Inr a) = True"
  by (simp_all add: is_ok_def)

lemma is_ok_iff: "is_ok r \<longleftrightarrow> (\<exists>a. r = Inr a)"
  by (cases r) simp_all

text \<open>The \<open>?\<close> operator: continue with the value, return the error unchanged.\<close>

definition try_bind :: "('e, 'a) result \<Rightarrow> ('a \<Rightarrow> ('e, 'b) result) \<Rightarrow> ('e, 'b) result" where
  "try_bind r f = (case r of Inl e \<Rightarrow> Inl e | Inr a \<Rightarrow> f a)"

lemma try_bind_simps [simp]:
  "try_bind (Inl e) f = Inl e"
  "try_bind (Inr a) f = f a"
  by (simp_all add: try_bind_def)

lemma try_bind_Inr_iff:
  "try_bind r f = Inr b \<longleftrightarrow> (\<exists>a. r = Inr a \<and> f a = Inr b)"
  by (cases r) simp_all

lemma try_bind_Inl_iff:
  "try_bind r f = Inl e \<longleftrightarrow> r = Inl e \<or> (\<exists>a. r = Inr a \<and> f a = Inl e)"
  by (cases r) simp_all

text \<open>\<open>Result::map_err\<close>.\<close>

definition map_err :: "('e \<Rightarrow> 'f) \<Rightarrow> ('e, 'a) result \<Rightarrow> ('f, 'a) result" where
  "map_err g r = (case r of Inl e \<Rightarrow> Inl (g e) | Inr a \<Rightarrow> Inr a)"

lemma map_err_simps [simp]: "map_err g (Inl e) = Inl (g e)" "map_err g (Inr a) = Inr a"
  by (simp_all add: map_err_def)

lemma map_err_Inr [simp]: "map_err g r = Inr a \<longleftrightarrow> r = Inr a"
  by (cases r) simp_all

section \<open>Checked and saturating operations\<close>

definition checked_add :: "'a::len word \<Rightarrow> 'a word \<Rightarrow> 'a word option" where
  "checked_add a b = (if unat a + unat b < 2 ^ LENGTH('a) then Some (a + b) else None)"

definition checked_sub :: "'a::len word \<Rightarrow> 'a word \<Rightarrow> 'a word option" where
  "checked_sub a b = (if b \<le> a then Some (a - b) else None)"

definition checked_mul :: "'a::len word \<Rightarrow> 'a word \<Rightarrow> 'a word option" where
  "checked_mul a b = (if unat a * unat b < 2 ^ LENGTH('a) then Some (a * b) else None)"

definition checked_div :: "'a::len word \<Rightarrow> 'a word \<Rightarrow> 'a word option" where
  "checked_div a b = (if b = 0 then None else Some (a div b))"

definition saturating_sub :: "'a::len word \<Rightarrow> 'a word \<Rightarrow> 'a word" where
  "saturating_sub a b = (if b \<le> a then a - b else 0)"

lemma unat_sub_le: "b \<le> a \<Longrightarrow> unat (a - b) = unat a - unat (b :: 'a::len word)"
  by (rule unat_sub)

lemma unat_add_no_overflow:
  "unat a + unat b < 2 ^ LENGTH('a) \<Longrightarrow> unat (a + b) = unat a + unat (b :: 'a::len word)"
  by (simp add: unat_word_ariths)

lemma unat_mult_no_overflow:
  "unat a * unat b < 2 ^ LENGTH('a) \<Longrightarrow> unat (a * b) = unat a * unat (b :: 'a::len word)"
  by (simp add: unat_word_ariths)

lemma unat_Suc_less: "a < b \<Longrightarrow> unat (a + 1) = Suc (unat (a :: 'a::len word))"
proof -
  assume "a < b"
  then have "unat a < unat b" by (simp add: word_less_nat_alt)
  moreover have "unat b < 2 ^ LENGTH('a)" by (rule unsigned_less)
  ultimately have "Suc (unat a) < 2 ^ LENGTH('a)" by linarith
  then have "unat a + unat (1 :: 'a word) < 2 ^ LENGTH('a)" by simp
  then show ?thesis by (simp add: unat_add_no_overflow)
qed

lemma len64: "LENGTH(64) = 64"
  by simp

lemma unat_of_nat_fits: "n < 2 ^ LENGTH('a) \<Longrightarrow> unat (of_nat n :: 'a::len word) = n"
  by (simp add: unat_of_nat)

lemma checked_add_Some_iff:
  "checked_add a b = Some c \<longleftrightarrow> unat c = unat a + unat (b :: 'a::len word)"
proof
  assume "checked_add a b = Some c"
  then show "unat c = unat a + unat b"
    by (auto simp: checked_add_def unat_add_no_overflow split: if_splits)
next
  assume c: "unat c = unat a + unat b"
  then have lt: "unat a + unat b < 2 ^ LENGTH('a)"
    by (metis unsigned_less)
  then have "unat (a + b) = unat c"
    using c by (simp add: unat_add_no_overflow)
  then have "a + b = c" by (simp only: word_unat_eq_iff)
  with lt show "checked_add a b = Some c" by (simp add: checked_add_def)
qed

lemma checked_sub_Some_iff:
  "checked_sub a b = Some c \<longleftrightarrow> unat a = unat b + unat (c :: 'a::len word)"
proof
  assume "checked_sub a b = Some c"
  then show "unat a = unat b + unat c"
    by (auto simp: checked_sub_def unat_sub word_le_nat_alt split: if_splits)
next
  assume a: "unat a = unat b + unat c"
  then have le: "b \<le> a" by (simp add: word_le_nat_alt)
  then have "unat (a - b) = unat c" using a by (simp add: unat_sub)
  then have "a - b = c" by (simp only: word_unat_eq_iff)
  with le show "checked_sub a b = Some c" by (simp add: checked_sub_def)
qed

lemma checked_mul_Some_iff:
  "checked_mul a b = Some c \<longleftrightarrow> unat c = unat a * unat (b :: 'a::len word)"
proof
  assume "checked_mul a b = Some c"
  then show "unat c = unat a * unat b"
    by (auto simp: checked_mul_def unat_mult_no_overflow split: if_splits)
next
  assume c: "unat c = unat a * unat b"
  then have lt: "unat a * unat b < 2 ^ LENGTH('a)"
    by (metis unsigned_less)
  then have "unat (a * b) = unat c"
    using c by (simp add: unat_mult_no_overflow)
  then have "a * b = c" by (simp only: word_unat_eq_iff)
  with lt show "checked_mul a b = Some c" by (simp add: checked_mul_def)
qed

lemma checked_div_Some_iff:
  "checked_div a b = Some c \<longleftrightarrow> b \<noteq> 0 \<and> unat c = unat a div unat (b :: 'a::len word)"
  by (auto simp: checked_div_def unat_div word_unat_eq_iff split: if_splits)

lemmas checked_iffs = checked_add_Some_iff checked_sub_Some_iff checked_mul_Some_iff
  checked_div_Some_iff

section \<open>Sums of words\<close>

text \<open>
  A wrapping sum agrees with the mathematical sum as long as the latter fits; this is the
  form in which every stake and weight sum of the sources is used.
\<close>

lemma unat_sum_list_no_overflow:
  "sum_list (map unat ws) < 2 ^ LENGTH('a) \<Longrightarrow>
   unat (sum_list ws) = sum_list (map unat (ws :: 'a::len word list))"
proof (induction ws)
  case Nil
  then show ?case by simp
next
  case (Cons w ws)
  from Cons.prems have "sum_list (map unat ws) < 2 ^ LENGTH('a)" by simp
  then have "unat (sum_list ws) = sum_list (map unat ws)" by (rule Cons.IH)
  with Cons.prems show ?case by (simp add: unat_add_no_overflow)
qed

lemma foldl_add_sum_list:
  "foldl (\<lambda>acc x. acc + f x) a xs = a + sum_list (map f (xs :: 'x list))"
  for a :: "'w::comm_monoid_add"
  by (induction xs arbitrary: a) (simp_all add: add.assoc)

lemma sum_list_filter_le:
  "sum_list (map f (filter P xs)) \<le> sum_list (map f (xs :: 'x list))"
  for f :: "'x \<Rightarrow> nat"
  by (induction xs) auto

lemma sum_list_filter_split:
  "sum_list (map f xs) = sum_list (map f (filter P xs)) + sum_list (map f (filter (\<lambda>x. \<not> P x) xs))"
  for f :: "'x \<Rightarrow> nat"
  by (induction xs) auto

section \<open>Ordered maps\<close>

text \<open>
  \<open>BTreeMap<K, V>\<close>: the entries in ascending key order. The order of iteration and the first
  and last entry are observable, so the representation is the list of entries; \<open>bt_wf\<close> is the
  invariant that every operation keeps. A \<open>HashMap\<close> whose iteration order is not observed is a
  partial function instead.
\<close>

type_synonym ('k, 'v) btree = "('k \<times> 'v) list"

definition bt_wf :: "('k::linorder, 'v) btree \<Rightarrow> bool" where
  "bt_wf m = sorted_wrt (<) (map fst m)"

definition bt_get :: "('k, 'v) btree \<Rightarrow> 'k \<Rightarrow> 'v option" where
  "bt_get m k = map_of m k"

definition bt_contains_key :: "('k, 'v) btree \<Rightarrow> 'k \<Rightarrow> bool" where
  "bt_contains_key m k = (bt_get m k \<noteq> None)"

fun bt_insert :: "'k::linorder \<Rightarrow> 'v \<Rightarrow> ('k, 'v) btree \<Rightarrow> ('k, 'v) btree" where
  "bt_insert k v [] = [(k, v)]"
| "bt_insert k v ((k', v') # m) =
     (if k < k' then (k, v) # (k', v') # m
      else if k = k' then (k, v) # m
      else (k', v') # bt_insert k v m)"

definition bt_split_off :: "'k::linorder \<Rightarrow> ('k, 'v) btree \<Rightarrow> ('k, 'v) btree" where
  "bt_split_off k m = filter (\<lambda>e. k \<le> fst e) m"

definition bt_range :: "'k::linorder \<Rightarrow> 'k \<Rightarrow> ('k, 'v) btree \<Rightarrow> ('k, 'v) btree" where
  "bt_range lo hi m = filter (\<lambda>e. lo \<le> fst e \<and> fst e < hi) m"

definition bt_first_key_value :: "('k, 'v) btree \<Rightarrow> ('k \<times> 'v) option" where
  "bt_first_key_value m = (case m of [] \<Rightarrow> None | e # _ \<Rightarrow> Some e)"

definition bt_last_key_value :: "('k, 'v) btree \<Rightarrow> ('k \<times> 'v) option" where
  "bt_last_key_value m = (case rev m of [] \<Rightarrow> None | e # _ \<Rightarrow> Some e)"

lemma bt_get_empty [simp]: "bt_get [] k = None"
  by (simp add: bt_get_def)

lemma bt_get_insert: "bt_get (bt_insert k v m) = (bt_get m)(k \<mapsto> v)"
  by (induction k v m rule: bt_insert.induct) (auto simp: bt_get_def fun_eq_iff)

lemma bt_get_filter: "bt_get (filter (\<lambda>e. P (fst e)) m) k = (if P k then bt_get m k else None)"
  by (induction m) (auto simp: bt_get_def)

lemma bt_get_split_off: "bt_get (bt_split_off lo m) k = (if lo \<le> k then bt_get m k else None)"
  by (simp add: bt_split_off_def bt_get_filter)

lemma bt_get_range:
  "bt_get (bt_range lo hi m) k = (if lo \<le> k \<and> k < hi then bt_get m k else None)"
  using bt_get_filter [of "\<lambda>k. lo \<le> k \<and> k < hi" m k] by (simp add: bt_range_def)

lemma bt_get_Some_in_set: "bt_get m k = Some v \<Longrightarrow> (k, v) \<in> set m"
  by (simp add: bt_get_def map_of_SomeD)

lemma bt_wf_distinct: "bt_wf m \<Longrightarrow> distinct (map fst m)"
  by (simp add: bt_wf_def strict_sorted_iff)

lemma bt_get_iff_in_set: "bt_wf m \<Longrightarrow> bt_get m k = Some v \<longleftrightarrow> (k, v) \<in> set m"
  by (simp add: bt_get_def bt_wf_distinct)

lemma bt_insert_keys: "fst ` set (bt_insert k v m) = insert k (fst ` set m)"
  by (induction k v m rule: bt_insert.induct) auto

lemma bt_wf_empty [simp]: "bt_wf []"
  by (simp add: bt_wf_def)

lemma bt_wf_insert: "bt_wf m \<Longrightarrow> bt_wf (bt_insert k v m)"
proof (induction k v m rule: bt_insert.induct)
  case (1 k v)
  then show ?case by (simp add: bt_wf_def)
next
  case (2 k v k' v' m)
  have wf: "bt_wf m" and lt: "\<forall>x \<in> fst ` set m. k' < x"
    using 2(2) by (auto simp: bt_wf_def)
  consider "k < k'" | "k = k'" | "k' < k" by fastforce
  then show ?case
  proof cases
    case 3
    with 2(1) wf have "bt_wf (bt_insert k v m)" by auto
    then show ?thesis
      using 3 lt bt_insert_keys [of k v m] by (auto simp: bt_wf_def)
  qed (use wf lt in \<open>auto simp: bt_wf_def\<close>)
qed

lemma bt_wf_filter: "bt_wf m \<Longrightarrow> bt_wf (filter P m)"
  by (induction m) (auto simp: bt_wf_def)

lemma bt_wf_split_off: "bt_wf m \<Longrightarrow> bt_wf (bt_split_off k m)"
  by (simp add: bt_split_off_def bt_wf_filter)

lemma bt_wf_range: "bt_wf m \<Longrightarrow> bt_wf (bt_range lo hi m)"
  by (simp add: bt_range_def bt_wf_filter)

lemma bt_last_key_value_max:
  assumes wf: "bt_wf m" and last: "bt_last_key_value m = Some (k, v)"
    and get: "bt_get m k' = Some v'"
  shows "k' \<le> k"
proof -
  from last obtain r where "rev m = (k, v) # r"
    by (auto simp: bt_last_key_value_def split: list.splits)
  then have m: "m = rev r @ [(k, v)]" by (simp add: rev_eq_Cons_iff)
  have "(k', v') \<in> set m" using get by (rule bt_get_Some_in_set)
  then show ?thesis using wf by (auto simp: m bt_wf_def sorted_wrt_append)
qed

lemma bt_last_key_value_None: "bt_last_key_value m = None \<longleftrightarrow> m = []"
  by (auto simp: bt_last_key_value_def split: list.splits)

lemmas bt_get_simps = bt_get_insert bt_get_split_off bt_get_range
lemmas bt_wf_intros = bt_wf_empty bt_wf_insert bt_wf_split_off bt_wf_range

section \<open>Searching a list\<close>

text \<open>\<open>Iterator::position\<close>: the index of the first element satisfying the predicate.\<close>

fun position :: "('a \<Rightarrow> bool) \<Rightarrow> 'a list \<Rightarrow> nat option" where
  "position P [] = None"
| "position P (x # xs) = (if P x then Some 0 else map_option Suc (position P xs))"

lemma position_SomeD: "position P xs = Some i \<Longrightarrow> i < length xs \<and> P (xs ! i)"
  by (induction xs arbitrary: i) (auto split: if_splits)

lemma position_None_iff: "position P xs = None \<longleftrightarrow> (\<forall>x \<in> set xs. \<not> P x)"
  by (induction xs) auto

section \<open>Little-endian bytes\<close>

definition to_le_bytes :: "nat \<Rightarrow> 'a::len word \<Rightarrow> u8 list" where
  "to_le_bytes n w = map (\<lambda>i. ucast (drop_bit (8 * i) w)) [0..<n]"

definition from_le_bytes :: "u8 list \<Rightarrow> 'a::len word" where
  "from_le_bytes bs = foldr (\<lambda>b acc. acc * 256 + ucast b) bs 0"

end
