(* ===== verification/Epochs.thy ===== *)
theory Epochs
  imports Prelude
begin

text \<open>
  The epoch arithmetic of \<open>crates/hotshot/types/src/utils.rs\<close>: which epoch a block belongs to
  and where the epoch root, the transition blocks and the last block of an epoch lie. All
  functions are on \<open>u64\<close> with the wrap-around of the source, so that small epoch heights behave
  as in the code; an epoch height of zero means that there are no epochs.
\<close>

named_theorems epoch_defs \<open>definitions of the block classification functions\<close>

section \<open>The functions\<close>

definition epoch_from_block_number :: "u64 \<Rightarrow> u64 \<Rightarrow> u64" where
  "epoch_from_block_number block_number epoch_height =
     (if epoch_height = 0 then 0
      else if block_number = 0 then 1
      else if block_number mod epoch_height = 0 then block_number div epoch_height
      else block_number div epoch_height + 1)"

definition root_block_in_epoch :: "u64 \<Rightarrow> u64 \<Rightarrow> u64" where
  "root_block_in_epoch epoch epoch_height =
     (if epoch_height = 0 \<or> epoch < 1 then 0 else epoch_height * epoch - 5)"

definition transition_block_for_epoch :: "u64 \<Rightarrow> u64 \<Rightarrow> u64" where
  "transition_block_for_epoch epoch epoch_height =
     (if epoch_height = 0 \<or> epoch < 1 then 0 else epoch_height * epoch - 3)"

definition option_epoch_from_block_number :: "bool \<Rightarrow> u64 \<Rightarrow> u64 \<Rightarrow> u64 option" where
  "option_epoch_from_block_number with_epoch block_number epoch_height =
     (if with_epoch then
        (if epoch_height = 0 then None
         else if block_number = 0 then Some 1
         else if block_number mod epoch_height = 0 then Some (block_number div epoch_height)
         else Some (block_number div epoch_height + 1))
      else None)"

definition is_transition_block :: "u64 \<Rightarrow> u64 \<Rightarrow> bool" where
  [epoch_defs]: "is_transition_block block_number epoch_height =
     (if block_number = 0 \<or> epoch_height = 0 then False
      else (block_number + 3) mod epoch_height = 0)"

definition is_first_transition_block :: "u64 \<Rightarrow> u64 \<Rightarrow> bool" where
  [epoch_defs]: "is_first_transition_block block_number epoch_height =
     (if block_number = 0 \<or> epoch_height = 0 then False
      else block_number mod epoch_height = epoch_height - 2)"

definition is_epoch_transition :: "u64 \<Rightarrow> u64 \<Rightarrow> bool" where
  [epoch_defs]: "is_epoch_transition block_number epoch_height =
     (if block_number = 0 \<or> epoch_height = 0 then False
      else block_number mod epoch_height \<ge> epoch_height - 3
         \<or> block_number mod epoch_height = 0)"

definition is_last_block :: "u64 \<Rightarrow> u64 \<Rightarrow> bool" where
  [epoch_defs]: "is_last_block block_number epoch_height =
     (if block_number = 0 \<or> epoch_height = 0 then False
      else block_number mod epoch_height = 0)"

definition is_middle_transition_block :: "u64 \<Rightarrow> u64 \<Rightarrow> bool" where
  [epoch_defs]: "is_middle_transition_block block_number epoch_height =
     (if block_number = 0 \<or> epoch_height = 0 then False
      else let blocks_left = epoch_height - (block_number mod epoch_height)
           in blocks_left = 1 \<or> blocks_left = 2)"

definition is_epoch_root :: "u64 \<Rightarrow> u64 \<Rightarrow> bool" where
  [epoch_defs]: "is_epoch_root block_number epoch_height =
     (if block_number = 0 \<or> epoch_height = 0 then False
      else (block_number + 5) mod epoch_height = 0)"

definition is_ge_epoch_root :: "u64 \<Rightarrow> u64 \<Rightarrow> bool" where
  [epoch_defs]: "is_ge_epoch_root block_number epoch_height =
     (if block_number = 0 \<or> epoch_height = 0 then False
      else block_number mod epoch_height = 0
         \<or> block_number mod epoch_height \<ge> epoch_height - 5)"

definition is_gt_epoch_root :: "u64 \<Rightarrow> u64 \<Rightarrow> bool" where
  [epoch_defs]: "is_gt_epoch_root block_number epoch_height =
     (if block_number = 0 \<or> epoch_height = 0 then False
      else block_number mod epoch_height = 0
         \<or> block_number mod epoch_height > epoch_height - 5)"

section \<open>Arithmetic on the naturals\<close>

text \<open>\<open>ceil_div\<close> is the reference definition of the epoch of a block.\<close>

definition ceil_div :: "nat \<Rightarrow> nat \<Rightarrow> nat" where
  "ceil_div b h = (b + h - 1) div h"

lemma ceil_div_unique:
  assumes "0 < h" "0 < b"
  shows "ceil_div b h = e \<longleftrightarrow> (e - 1) * h < b \<and> b \<le> e * h"
proof
  assume e: "ceil_div b h = e"
  define n where "n = b + h - 1"
  have "n = e * h + n mod h"
    using e by (metis ceil_div_def div_mult_mod_eq n_def)
  moreover have "n mod h < h" using assms by simp
  ultimately have "e * h \<le> n" "n < e * h + h" by linarith+
  then show "(e - 1) * h < b \<and> b \<le> e * h"
    using assms by (cases e) (auto simp: n_def algebra_simps)
next
  assume b: "(e - 1) * h < b \<and> b \<le> e * h"
  then have "e \<noteq> 0" using assms by (cases e) auto
  then obtain d where d: "e = Suc d" by (cases e) auto
  have "e * h \<le> b + h - 1" "b + h - 1 < Suc e * h"
    using b assms by (auto simp: d algebra_simps)
  then have "(b + h - 1) div h = e"
    using assms by (intro div_nat_eqI) (auto simp: mult.commute)
  then show "ceil_div b h = e" by (simp add: ceil_div_def)
qed

lemma mod_add_const_eq_0:
  fixes b k h :: nat
  assumes "0 < k" "k < h"
  shows "(b + k) mod h = 0 \<longleftrightarrow> b mod h = h - k"
proof -
  define r where "r = b mod h"
  have r: "r < h" using assms by (simp add: r_def)
  have "(b + k) mod h = (r + k) mod h" by (simp add: r_def mod_add_left_eq)
  also have "\<dots> = (if r + k < h then r + k else r + k - h)"
    using r assms by (simp add: mod_if)
  finally show ?thesis using assms r unfolding r_def [symmetric] by auto
qed

section \<open>From words to the naturals\<close>

lemma unat_epoch_from_block_number:
  assumes "h \<noteq> 0" "b \<noteq> 0"
  shows "unat (epoch_from_block_number b h) = ceil_div (unat b) (unat h)"
proof -
  define q where "q = unat b div unat h"
  define r where "r = unat b mod unat h"
  have h: "0 < unat h" and b0: "0 < unat b" using assms by (simp_all add: unat_gt_0)
  have b: "unat b = q * unat h + r" by (simp add: q_def r_def)
  have r: "r < unat h" using h by (simp add: r_def)
  have mod0: "b mod h = 0 \<longleftrightarrow> r = 0"
    by (simp add: r_def word_unat_eq_iff unat_mod)
  show ?thesis
  proof (cases "r = 0")
    case True
    then have "q \<noteq> 0" using b b0 by auto
    then have "ceil_div (unat b) (unat h) = q"
      using True h b b0 by (subst ceil_div_unique) (auto simp: algebra_simps)
    then show ?thesis
      using True assms mod0 by (simp add: epoch_from_block_number_def unat_div q_def)
  next
    case False
    then have "1 < unat h" using r by simp
    then have "q < unat b" using b0 by (simp add: q_def div_less_dividend)
    then have "b div h < b" by (simp add: word_less_nat_alt unat_div q_def)
    then have "unat (b div h + 1) = Suc q" by (simp add: unat_Suc_less unat_div q_def)
    moreover have "ceil_div (unat b) (unat h) = Suc q"
      using False h b b0 r by (subst ceil_div_unique) (auto simp: algebra_simps)
    ultimately show ?thesis
      using False assms mod0 by (simp add: epoch_from_block_number_def)
  qed
qed

text \<open>
  Where a block stands in its epoch, as the natural remainder: one lemma per predicate, for
  epoch heights above five (below that the regions overlap) and block numbers far enough from
  the end of \<open>u64\<close> for the additions not to wrap.
\<close>

lemma unat_sub_numeral:
  fixes h :: u64
  assumes "5 < h"
  shows "unat (h - 2) = unat h - 2" "unat (h - 3) = unat h - 3" "unat (h - 5) = unat h - 5"
  using assms by (subst unat_sub; auto simp: word_le_nat_alt word_less_nat_alt)+

lemma word_mod_eq_iff: "b mod h = c \<longleftrightarrow> unat b mod unat h = unat c"
  for b h c :: u64
  by (simp add: word_unat_eq_iff unat_mod)

lemma add_numeral_mod_eq_0:
  fixes b h k :: u64
  assumes "unat b + unat k < 2 ^ 64" "0 < k" "k < h"
  shows "(b + k) mod h = 0 \<longleftrightarrow> unat b mod unat h = unat h - unat k"
proof -
  have "unat (b + k) = unat b + unat k"
    using assms by (simp add: unat_add_no_overflow)
  moreover have "0 < unat k" "unat k < unat h"
    using assms by (simp_all add: word_less_nat_alt)
  ultimately show ?thesis
    by (simp add: word_mod_eq_iff mod_add_const_eq_0)
qed

lemma block_position:
  fixes b h :: u64
  assumes b: "b \<noteq> 0" and h: "5 < h" and bound: "unat b + unat h < 2 ^ 64"
  defines "r \<equiv> unat b mod unat h"
  shows is_transition_block_iff: "is_transition_block b h \<longleftrightarrow> r = unat h - 3"
    and is_first_transition_block_iff: "is_first_transition_block b h \<longleftrightarrow> r = unat h - 2"
    and is_epoch_transition_iff: "is_epoch_transition b h \<longleftrightarrow> r = 0 \<or> unat h - 3 \<le> r"
    and is_last_block_iff: "is_last_block b h \<longleftrightarrow> r = 0"
    and is_middle_transition_block_iff:
      "is_middle_transition_block b h \<longleftrightarrow> r = unat h - 1 \<or> r = unat h - 2"
    and is_epoch_root_iff: "is_epoch_root b h \<longleftrightarrow> r = unat h - 5"
    and is_ge_epoch_root_iff: "is_ge_epoch_root b h \<longleftrightarrow> r = 0 \<or> unat h - 5 \<le> r"
    and is_gt_epoch_root_iff: "is_gt_epoch_root b h \<longleftrightarrow> r = 0 \<or> unat h - 5 < r"
proof -
  have h0: "h \<noteq> 0" using h by auto
  have h5: "5 < unat h" using h by (simp add: word_less_nat_alt)
  have r: "r < unat h" using h5 by (simp add: r_def)
  have rw: "unat (b mod h) = r" by (simp add: r_def unat_mod)
  have lt: "b mod h < h" using h0 by (simp add: word_mod_less_divisor word_neq_0_conv)
  have left: "unat (h - b mod h) = unat h - r"
    using lt rw by (simp add: unat_sub word_le_nat_alt word_less_nat_alt)
  note ks = unat_sub_numeral [OF h] word_le_nat_alt word_less_nat_alt word_unat_eq_iff rw
  show "is_transition_block b h \<longleftrightarrow> r = unat h - 3"
    using b h0 add_numeral_mod_eq_0 [of b 3 h] bound h5
    by (simp add: is_transition_block_def r_def word_less_nat_alt)
  show "is_epoch_root b h \<longleftrightarrow> r = unat h - 5"
    using b h0 add_numeral_mod_eq_0 [of b 5 h] bound h5
    by (simp add: is_epoch_root_def r_def word_less_nat_alt)
  show "is_first_transition_block b h \<longleftrightarrow> r = unat h - 2"
    using b h0 by (simp add: is_first_transition_block_def ks)
  show "is_epoch_transition b h \<longleftrightarrow> r = 0 \<or> unat h - 3 \<le> r"
    using b h0 by (simp add: is_epoch_transition_def ks) blast
  show "is_last_block b h \<longleftrightarrow> r = 0"
    using b h0 by (simp add: is_last_block_def ks)
  show "is_middle_transition_block b h \<longleftrightarrow> r = unat h - 1 \<or> r = unat h - 2"
    using b h0 r h5 by (auto simp: is_middle_transition_block_def Let_def word_unat_eq_iff left)
  show "is_ge_epoch_root b h \<longleftrightarrow> r = 0 \<or> unat h - 5 \<le> r"
    using b h0 by (simp add: is_ge_epoch_root_def ks)
  show "is_gt_epoch_root b h \<longleftrightarrow> r = 0 \<or> unat h - 5 < r"
    using b h0 by (simp add: is_gt_epoch_root_def ks)
qed

lemma option_epoch_eq:
  "option_epoch_from_block_number we b h =
     (if we \<and> h \<noteq> 0 then Some (epoch_from_block_number b h) else None)"
  by (simp add: option_epoch_from_block_number_def epoch_from_block_number_def)

lemma epoch_from_block_number_pos: "h \<noteq> 0 \<Longrightarrow> epoch_from_block_number b h \<noteq> 0"
proof (cases "b = 0")
  case False
  assume h: "h \<noteq> 0"
  have "0 < unat b" "0 < unat h" using False h by (simp_all add: unat_gt_0)
  then have "ceil_div (unat b) (unat h) \<noteq> 0" by (simp add: ceil_div_unique)
  then show ?thesis using unat_epoch_from_block_number [OF h False] by auto
qed (simp add: epoch_from_block_number_def)

text \<open>The last block of the epoch of \<open>b\<close>, as a natural number.\<close>

lemma epoch_end_bounds:
  fixes b h :: u64
  assumes "b \<noteq> 0" "h \<noteq> 0" "unat b + unat h < 2 ^ 64"
  defines "e \<equiv> epoch_from_block_number b h"
  shows "unat (h * e) = unat h * unat e"
    and "unat h * unat e = unat b + (if unat b mod unat h = 0 then 0 else unat h - unat b mod unat h)"
proof -
  have pos: "0 < unat b" "0 < unat h" using assms by (simp_all add: unat_gt_0)
  have e: "unat e = ceil_div (unat b) (unat h)"
    using assms by (simp add: unat_epoch_from_block_number)
  define q where "q = unat b div unat h"
  define r where "r = unat b mod unat h"
  have b: "unat b = q * unat h + r" by (simp add: q_def r_def)
  have r: "r < unat h" using pos by (simp add: r_def)
  have "unat e = (if r = 0 then q else Suc q)"
  proof (cases "r = 0")
    case True
    then have "q \<noteq> 0" using b pos by auto
    then show ?thesis
      using True b pos unfolding e by (subst ceil_div_unique) (auto simp: algebra_simps)
  next
    case False
    then show ?thesis
      using b r pos unfolding e by (subst ceil_div_unique) (auto simp: algebra_simps)
  qed
  then show 2: "unat h * unat e = unat b + (if unat b mod unat h = 0 then 0 else unat h - unat b mod unat h)"
    using b r unfolding r_def [symmetric] by (auto simp: algebra_simps)
  have "unat h * unat e < 2 ^ 64"
    unfolding 2 using assms by auto
  then show "unat (h * e) = unat h * unat e"
    by (simp add: unat_mult_no_overflow)
qed

section \<open>Properties\<close>

text \<open>
  \<open>epoch_from_block_number\<close> is ceiling division: block \<open>b > 0\<close> is in epoch \<open>e\<close> exactly when
  \<open>(e - 1) * h < b \<le> e * h\<close>, over the whole range of \<open>u64\<close>, without wrap-around.
\<close>

theorem epoch_from_block_number_iff:
  assumes "epoch_height \<noteq> 0" "block_number \<noteq> 0"
  shows "epoch_from_block_number block_number epoch_height = e \<longleftrightarrow>
    (unat e - 1) * unat epoch_height < unat block_number \<and>
    unat block_number \<le> unat e * unat epoch_height"
proof -
  have "0 < unat epoch_height" "0 < unat block_number" using assms by (simp_all add: unat_gt_0)
  then show ?thesis
    by (simp add: word_unat_eq_iff unat_epoch_from_block_number [OF assms] ceil_div_unique)
qed

theorem epoch_from_block_number_iff_witness:
  "epoch_from_block_number 21 10 = 3"
  using epoch_from_block_number_iff [of 10 21 3] by simp

text \<open>
  The epoch advances exactly after a last block: going from block \<open>b\<close> to \<open>b + 1\<close> adds one to
  the epoch if \<open>b\<close> is the last block of its epoch and leaves it unchanged otherwise.
\<close>

theorem epoch_advances_after_last_block:
  assumes h: "epoch_height \<noteq> 0" and b: "block_number \<noteq> 0" and max: "block_number < - 1"
  shows "epoch_from_block_number (block_number + 1) epoch_height =
    epoch_from_block_number block_number epoch_height
      + (if is_last_block block_number epoch_height then 1 else 0)"
proof -
  let ?b = "unat block_number" and ?h = "unat epoch_height"
  let ?e = "epoch_from_block_number block_number epoch_height"
  let ?d = "if is_last_block block_number epoch_height then 1 else 0 :: u64"
  have pos: "0 < ?h" "0 < ?b" using h b by (simp_all add: unat_gt_0)
  have b1: "unat (block_number + 1) = Suc ?b" using max by (rule unat_Suc_less)
  then have nz: "block_number + 1 \<noteq> 0" by (metis nat.distinct(1) unat_0)
  have e: "(unat ?e - 1) * ?h < ?b" "?b \<le> unat ?e * ?h" "?e \<noteq> 0"
    using ceil_div_unique [OF pos] unat_epoch_from_block_number [OF h b]
      epoch_from_block_number_pos [OF h] by auto
  have e0: "0 < unat ?e" using e(3) by (simp add: unat_gt_0)
  have last: "is_last_block block_number epoch_height \<longleftrightarrow> ?b = unat ?e * ?h"
  proof -
    have "?b mod ?h = 0 \<longleftrightarrow> ?b = unat ?e * ?h"
    proof
      assume "?b mod ?h = 0"
      then obtain q where q: "?b = q * ?h" by (metis dvd_def mod_0_imp_dvd mult.commute)
      then have "q \<le> unat ?e" "unat ?e - 1 < q" using e pos by auto
      then show "?b = unat ?e * ?h" using e0 q by (metis Suc_diff_1 Suc_leI le_antisym)
    qed simp
    then show ?thesis using h b by (simp add: is_last_block_def word_mod_eq_iff)
  qed
  have le: "unat ?e \<le> ?b"
  proof -
    have "unat ?e - 1 \<le> (unat ?e - 1) * ?h" using pos by simp
    then show ?thesis using e(1) e0 by linarith
  qed
  have "?e < - 1"
    using le max by (simp add: word_less_nat_alt)
  then have sum: "unat (?e + ?d) = unat ?e + (if ?b = unat ?e * ?h then 1 else 0)"
    using last by (simp add: unat_Suc_less)
  have "(unat (?e + ?d) - 1) * ?h < Suc ?b \<and> Suc ?b \<le> unat (?e + ?d) * ?h"
    unfolding sum using e e0 pos by (auto simp: algebra_simps)
  then show ?thesis
    using ceil_div_unique [of ?h "Suc ?b"] pos unat_epoch_from_block_number [OF h nz] b1
    by (simp add: word_unat_eq_iff)
qed

theorem epoch_advances_after_last_block_witness:
  "epoch_from_block_number 11 10 = epoch_from_block_number 10 10 + 1"
  using epoch_advances_after_last_block [of 10 10] by (simp add: is_last_block_def)

text \<open>
  The phases of an epoch of more than five blocks: a block is in the epoch transition exactly
  when it is the transition block, one of the two middle blocks or the last block, these three
  cases exclude each other, and every block of the transition lies strictly after the epoch root;
  a block at or after the root is the root itself or strictly after it.
\<close>

theorem epoch_phases:
  assumes "block_number \<noteq> 0" "5 < epoch_height" "unat block_number + unat epoch_height < 2 ^ 64"
  shows "(is_epoch_transition block_number epoch_height \<longleftrightarrow>
      is_transition_block block_number epoch_height
      \<or> is_middle_transition_block block_number epoch_height
      \<or> is_last_block block_number epoch_height)
    \<and> \<not> (is_transition_block block_number epoch_height
        \<and> is_middle_transition_block block_number epoch_height)
    \<and> \<not> (is_transition_block block_number epoch_height
        \<and> is_last_block block_number epoch_height)
    \<and> \<not> (is_middle_transition_block block_number epoch_height
        \<and> is_last_block block_number epoch_height)
    \<and> (is_epoch_transition block_number epoch_height \<longrightarrow>
        is_gt_epoch_root block_number epoch_height)
    \<and> (is_ge_epoch_root block_number epoch_height \<longleftrightarrow>
        is_epoch_root block_number epoch_height \<or> is_gt_epoch_root block_number epoch_height)"
proof -
  have h: "5 < unat epoch_height" using assms(2) by (simp add: word_less_nat_alt)
  define r where "r = unat block_number mod unat epoch_height"
  have "r < unat epoch_height" using h by (simp add: r_def)
  then show ?thesis
    unfolding block_position [OF assms] r_def [symmetric] using h by auto
qed

theorem epoch_phases_witness:
  "is_transition_block 7 10 \<and> is_middle_transition_block 8 10 \<and> is_last_block 10 10
   \<and> \<not> is_epoch_transition 6 10"
  using epoch_phases [of 7 10] epoch_phases [of 8 10] epoch_phases [of 10 10]
    epoch_phases [of 6 10] by (simp add: epoch_defs)

text \<open>
  The predicates agree with the block numbers the code computes for an epoch: a block is the
  epoch root exactly when it is \<open>root_block_in_epoch\<close> of its own epoch, and the transition block
  exactly when it is \<open>transition_block_for_epoch\<close> of its own epoch.
\<close>

theorem epoch_root_and_transition_block_exact:
  assumes "block_number \<noteq> 0" "5 < epoch_height" "unat block_number + unat epoch_height < 2 ^ 64"
  shows "(is_epoch_root block_number epoch_height \<longleftrightarrow>
      block_number =
        root_block_in_epoch (epoch_from_block_number block_number epoch_height) epoch_height)
    \<and> (is_transition_block block_number epoch_height \<longleftrightarrow>
      block_number =
        transition_block_for_epoch (epoch_from_block_number block_number epoch_height) epoch_height)"
proof -
  let ?b = "unat block_number" and ?h = "unat epoch_height"
  let ?e = "epoch_from_block_number block_number epoch_height"
  have h: "5 < ?h" "epoch_height \<noteq> 0" using assms(2) by (auto simp: word_less_nat_alt)
  define r where "r = ?b mod ?h"
  have r: "r < ?h" using h by (simp add: r_def)
  have e: "?e \<noteq> 0" using h by (simp add: epoch_from_block_number_pos)
  then have e1: "\<not> ?e < 1" by (simp add: word_less_1)
  note ends = epoch_end_bounds [OF assms(1) h(2) assms(3)]
  have he: "?h \<le> ?h * unat ?e" using e by (simp add: unat_gt_0 Suc_le_eq)
  then have "5 \<le> unat (epoch_height * ?e)" using h ends(1) by linarith
  then have sub: "unat (epoch_height * ?e - 5) = ?h * unat ?e - 5"
    "unat (epoch_height * ?e - 3) = ?h * unat ?e - 3"
    using ends(1) by (subst unat_sub; simp add: word_le_nat_alt)+
  have blocks: "unat (root_block_in_epoch ?e epoch_height) = ?h * unat ?e - 5"
    "unat (transition_block_for_epoch ?e epoch_height) = ?h * unat ?e - 3"
    using h e1 sub by (simp_all add: root_block_in_epoch_def transition_block_for_epoch_def)
  have b: "?h * unat ?e = ?b + (if r = 0 then 0 else ?h - r)" using ends(2) by (simp add: r_def)
  show ?thesis
    unfolding block_position [OF assms] word_unat_eq_iff blocks b r_def [symmetric]
    using h r assms(1) unat_gt_0 [of block_number] by auto
qed

theorem epoch_root_and_transition_block_exact_witness:
  "is_epoch_root 25 10 \<and> root_block_in_epoch 3 10 = 25 \<and> is_transition_block 27 10"
  using epoch_root_and_transition_block_exact [of 25 10]
    epoch_root_and_transition_block_exact [of 27 10]
  by (simp add: epoch_defs epoch_from_block_number_def root_block_in_epoch_def
      transition_block_for_epoch_def)

end
