(* ===== verification/Stake_Table.thy ===== *)
theory Stake_Table
  imports Prelude
begin

text \<open>
  Stake tables (\<open>crates/hotshot/types/src/stake_table.rs\<close>, \<open>PeerConfig\<close> of
  \<open>crates/hotshot/types/src/lib.rs\<close>) and the contract between a \<open>Membership\<close> implementation and
  the consensus code that relies on it (\<open>crates/hotshot/types/src/traits/election.rs\<close>), stated
  as the locale \<open>stake_membership\<close>: the thresholds a committee hands out are large enough for
  any two quorums to share more than a third of the stake.
\<close>

section \<open>Tables\<close>

record 'k StakeTableEntry =
  stake_key :: 'k
  stake_amount :: u256

record ('k, 's) PeerConfig =
  stake_table_entry :: "'k StakeTableEntry"
  state_ver_key :: 's

type_synonym ('k, 's) HSStakeTable = "('k, 's) PeerConfig list"

definition total_stakes :: "('k, 's) HSStakeTable \<Rightarrow> u256" where
  "total_stakes table = sum_list (map (\<lambda>peer. stake_amount (stake_table_entry peer)) table)"

definition one_honest_threshold :: "u256 \<Rightarrow> u256" where
  "one_honest_threshold total_stake = total_stake div 3 + 1"

definition stake_table_entries :: "('k, 's) HSStakeTable \<Rightarrow> 'k StakeTableEntry list" where
  "stake_table_entries peers = map stake_table_entry peers"

section \<open>Stake as a natural number\<close>

text \<open>
  The sources add stakes in \<open>U256\<close>, which wraps. \<open>stake_sum\<close> is the mathematical sum;
  \<open>stake_fits\<close> says that it is representable, in which case the two agree.
\<close>

definition stake_sum :: "'k StakeTableEntry list \<Rightarrow> nat" where
  "stake_sum entries = sum_list (map (\<lambda>e. unat (stake_amount e)) entries)"

definition stake_fits :: "'k StakeTableEntry list \<Rightarrow> bool" where
  "stake_fits entries = (stake_sum entries < 2 ^ 256)"

lemma stake_sum_Nil [simp]: "stake_sum [] = 0"
  by (simp add: stake_sum_def)

lemma stake_sum_Cons [simp]: "stake_sum (e # es) = unat (stake_amount e) + stake_sum es"
  by (simp add: stake_sum_def)

lemma stake_sum_append [simp]: "stake_sum (xs @ ys) = stake_sum xs + stake_sum ys"
  by (simp add: stake_sum_def)

lemma stake_sum_filter_le: "stake_sum (filter P es) \<le> stake_sum es"
  by (induction es) auto

lemma unat_stake_sum:
  "stake_fits es \<Longrightarrow> unat (sum_list (map stake_amount es)) = stake_sum es"
  using unat_sum_list_no_overflow [of "map stake_amount es"]
  by (simp add: stake_fits_def stake_sum_def comp_def)

lemma total_stakes_eq: "total_stakes t = sum_list (map stake_amount (stake_table_entries t))"
  by (simp add: total_stakes_def stake_table_entries_def comp_def)

lemma unat_total_stakes:
  "stake_fits (stake_table_entries t) \<Longrightarrow> unat (total_stakes t) = stake_sum (stake_table_entries t)"
  by (simp add: total_stakes_eq unat_stake_sum)

section \<open>Selecting signers with a bit vector\<close>

definition selected :: "'k StakeTableEntry list \<Rightarrow> bool list \<Rightarrow> 'k StakeTableEntry list" where
  "selected entries signers = map fst (filter snd (zip entries signers))"

definition common_signers :: "bool list \<Rightarrow> bool list \<Rightarrow> bool list" where
  "common_signers a b = map2 (\<and>) a b"

lemma selected_simps [simp]:
  "selected [] bs = []"
  "selected es [] = []"
  "selected (e # es) (b # bs) = (if b then e # selected es bs else selected es bs)"
  by (simp_all add: selected_def)

lemma common_signers_simps [simp]:
  "common_signers [] bs = []"
  "common_signers as [] = []"
  "common_signers (a # as) (b # bs) = (a \<and> b) # common_signers as bs"
  by (simp_all add: common_signers_def)

lemma selected_le_total: "stake_sum (selected es bs) \<le> stake_sum es"
proof (induction es arbitrary: bs)
  case (Cons e es)
  then show ?case by (cases bs) (auto intro: trans_le_add2)
qed simp

lemma set_selected_subset: "set (selected es bs) \<subseteq> set es"
  by (auto simp: selected_def dest: set_zip_leftD)

text \<open>Inclusion-exclusion for two signer sets over one table.\<close>

lemma selected_overlap:
  "length a = length es \<Longrightarrow> length b = length es \<Longrightarrow>
   stake_sum (selected es a) + stake_sum (selected es b)
     \<le> stake_sum es + stake_sum (selected es (common_signers a b))"
proof (induction es arbitrary: a b)
  case Nil
  then show ?case by simp
next
  case (Cons e es)
  then obtain x xs y ys where "a = x # xs" "b = y # ys"
    by (cases a; cases b) auto
  then show ?case using Cons.IH [of xs ys] Cons.prems by auto
qed

section \<open>The membership contract\<close>

locale stake_membership =
  fixes table :: "'m \<Rightarrow> ('k, 's) HSStakeTable"
    and success failure upgrade :: "'m \<Rightarrow> u256"
  assumes success_two_thirds:
      "stake_fits (stake_table_entries (table m)) \<Longrightarrow>
       2 * stake_sum (stake_table_entries (table m)) < 3 * unat (success m)"
    and failure_one_third:
      "stake_fits (stake_table_entries (table m)) \<Longrightarrow>
       stake_sum (stake_table_entries (table m)) < 3 * unat (failure m)"
    and upgrade_ge_success: "success m \<le> upgrade m"
begin

lemma quorums_overlap:
  assumes fits: "stake_fits (stake_table_entries (table m))"
    and len: "length a = length (table m)" "length b = length (table m)"
    and a: "unat (success m) \<le> stake_sum (selected (stake_table_entries (table m)) a)"
    and b: "unat (success m) \<le> stake_sum (selected (stake_table_entries (table m)) b)"
  shows "stake_sum (stake_table_entries (table m)) <
    3 * stake_sum (selected (stake_table_entries (table m)) (common_signers a b))"
proof -
  let ?es = "stake_table_entries (table m)"
  have "length a = length ?es" "length b = length ?es"
    using len by (simp_all add: stake_table_entries_def)
  then have "stake_sum (selected ?es a) + stake_sum (selected ?es b)
      \<le> stake_sum ?es + stake_sum (selected ?es (common_signers a b))"
    by (rule selected_overlap)
  with a b success_two_thirds [OF fits] show ?thesis by linarith
qed

lemma quorum_meets_one_honest:
  assumes fits: "stake_fits (stake_table_entries (table m))"
    and len: "length a = length (table m)" "length b = length (table m)"
    and a: "unat (success m) \<le> stake_sum (selected (stake_table_entries (table m)) a)"
    and b: "unat (failure m) \<le> stake_sum (selected (stake_table_entries (table m)) b)"
  shows "0 < stake_sum (selected (stake_table_entries (table m)) (common_signers a b))"
proof -
  let ?es = "stake_table_entries (table m)"
  have "length a = length ?es" "length b = length ?es"
    using len by (simp_all add: stake_table_entries_def)
  then have "stake_sum (selected ?es a) + stake_sum (selected ?es b)
      \<le> stake_sum ?es + stake_sum (selected ?es (common_signers a b))"
    by (rule selected_overlap)
  with a b success_two_thirds [OF fits] failure_one_third [OF fits] show ?thesis by linarith
qed

end

end
