(* ===== verification/Quorum_Cert.thy ===== *)
theory Quorum_Cert
  imports Stake_Table
begin

text \<open>
  Quorum certificates: the bit-vector aggregate of \<open>crates/hotshot/types/src/qc.rs\<close>, the
  certificates of \<open>crates/hotshot/types/src/simple_certificate.rs\<close> built on it, and the
  \<open>UpgradeLock\<close> of \<open>crates/hotshot/types/src/message.rs\<close> that selects the protocol version of a
  view. The BLS scheme (\<open>aggregate\<close>, \<open>multi_sig_verify\<close>) and the hash behind a vote commitment are
  third-party code and stay parameters.
\<close>

section \<open>BitVectorQc\<close>

datatype SignatureError = ParameterError | VerificationError

record 'k QcParams =
  stake_entries :: "'k StakeTableEntry list"
  threshold :: u256

type_synonym 'g Qc = "'g \<times> bool list"

type_synonym ('k, 'g) aggregate_fn = "'k list \<Rightarrow> 'g list \<Rightarrow> (SignatureError, 'g) result"
type_synonym ('k, 'g) multi_verify_fn =
  "'k list \<Rightarrow> commitment \<Rightarrow> 'g \<Rightarrow> (SignatureError, unit) result"

definition total_weight :: "'k StakeTableEntry list \<Rightarrow> bool list \<Rightarrow> u256" where
  "total_weight entries signers =
     foldl (\<lambda>acc eb. if snd eb then acc + stake_amount (fst eb) else acc) 0 (zip entries signers)"

definition ver_keys :: "'k StakeTableEntry list \<Rightarrow> bool list \<Rightarrow> 'k list" where
  "ver_keys entries signers = map (\<lambda>eb. stake_key (fst eb)) (filter snd (zip entries signers))"

definition qc_assemble ::
  "('k, 'g) aggregate_fn \<Rightarrow> 'k QcParams \<Rightarrow> bool list \<Rightarrow> 'g list
     \<Rightarrow> (SignatureError, 'g Qc) result" where
  "qc_assemble aggregate qc_pp signers sigs =
     (if length signers \<noteq> length (stake_entries qc_pp) then Err ParameterError
      else if total_weight (stake_entries qc_pp) signers < threshold qc_pp then Err ParameterError
      else let keys = ver_keys (stake_entries qc_pp) signers
           in if length keys \<noteq> length sigs then Err ParameterError
              else try_bind (aggregate keys sigs) (\<lambda>sig. Ok (sig, signers)))"

definition qc_check ::
  "('k, 'g) multi_verify_fn \<Rightarrow> 'k QcParams \<Rightarrow> commitment \<Rightarrow> 'g Qc
     \<Rightarrow> (SignatureError, u256) result" where
  "qc_check multi_sig_verify qc_vp message qc =
     (let (sig, signers) = qc in
      if length signers \<noteq> length (stake_entries qc_vp) then Err ParameterError
      else if total_weight (stake_entries qc_vp) signers < threshold qc_vp then Err ParameterError
      else try_bind (multi_sig_verify (ver_keys (stake_entries qc_vp) signers) message sig)
             (\<lambda>_. Ok (total_weight (stake_entries qc_vp) signers)))"

definition qc_trace ::
  "('k, 'g) multi_verify_fn \<Rightarrow> 'k QcParams \<Rightarrow> commitment \<Rightarrow> 'g Qc
     \<Rightarrow> (SignatureError, 'k list) result" where
  "qc_trace multi_sig_verify qc_vp message qc =
     (let (sig, signers) = qc in
      if length signers \<noteq> length (stake_entries qc_vp) then Err ParameterError
      else try_bind (qc_check multi_sig_verify qc_vp message qc)
             (\<lambda>_. Ok (map (\<lambda>eb. stake_key (fst eb))
                        (filter snd (zip (stake_entries qc_vp) signers)))))"

section \<open>Versions and the upgrade lock\<close>

type_synonym Version = "u16 \<times> u16"

definition version_ge :: "Version \<Rightarrow> Version \<Rightarrow> bool" where
  "version_ge v w = (fst v > fst w \<or> (fst v = fst w \<and> snd v \<ge> snd w))"

text \<open>The associated constants of the \<open>Versions\<close> trait.\<close>

record Versions =
  base_version :: Version
  upgrade_version :: Version
  epochs_version :: Version

record UpgradeProposalData =
  old_version :: Version
  new_version :: Version
  decide_by :: u64
  new_version_hash :: "u8 list"
  old_version_last_view :: u64
  new_version_first_view :: u64

record ('d, 'g) SimpleCertificate =
  cert_data :: 'd
  cert_vote_commitment :: commitment
  cert_view_number :: u64
  cert_signatures :: "'g Qc option"

type_synonym 'g UpgradeCertificate = "(UpgradeProposalData, 'g) SimpleCertificate"

datatype CertError =
    UnsupportedVersion
  | SignatureCheckFailed SignatureError
  | MissingSignaturePanic
  | EpochMismatch
  | NoLongerRelevant

text \<open>\<open>UpgradeLock\<close>: the decided upgrade certificate, if any, and the version constants.\<close>

record 'g UpgradeLock =
  decided_upgrade_certificate :: "'g UpgradeCertificate option"
  lock_versions :: Versions

definition upgrade_view :: "'g UpgradeLock \<Rightarrow> u64 option" where
  "upgrade_view lock =
     map_option (\<lambda>cert. new_version_first_view (cert_data cert)) (decided_upgrade_certificate lock)"

definition lock_version :: "'g UpgradeLock \<Rightarrow> u64 \<Rightarrow> (CertError, Version) result" where
  "lock_version lock view =
     (case decided_upgrade_certificate lock of
        Some cert \<Rightarrow>
          (if view \<ge> new_version_first_view (cert_data cert) then
             (if new_version (cert_data cert) = upgrade_version (lock_versions lock)
              then Ok (upgrade_version (lock_versions lock))
              else Err UnsupportedVersion)
           else Ok (base_version (lock_versions lock)))
      | None \<Rightarrow> Ok (base_version (lock_versions lock)))"

definition version_infallible :: "'g UpgradeLock \<Rightarrow> u64 \<Rightarrow> Version" where
  "version_infallible lock view =
     (case decided_upgrade_certificate lock of
        Some cert \<Rightarrow>
          (if view \<ge> new_version_first_view (cert_data cert) then new_version (cert_data cert)
           else old_version (cert_data cert))
      | None \<Rightarrow> base_version (lock_versions lock))"

definition epochs_enabled :: "'g UpgradeLock \<Rightarrow> u64 \<Rightarrow> bool" where
  "epochs_enabled lock view =
     version_ge (version_infallible lock view) (epochs_version (lock_versions lock))"

section \<open>Certificates\<close>

text \<open>
  \<open>vote_commit\<close> is the commitment of a \<open>VersionedVoteData\<close>: the hash of the data commitment and
  the view. It does not include the version, but computing it fails if the version is unknown.
\<close>

definition data_commitment ::
  "('d \<Rightarrow> u64 \<Rightarrow> commitment) \<Rightarrow> ('d, 'g) SimpleCertificate \<Rightarrow> 'h UpgradeLock
     \<Rightarrow> (CertError, commitment) result" where
  "data_commitment vote_commit cert lock =
     try_bind (lock_version lock (cert_view_number cert))
       (\<lambda>_. Ok (vote_commit (cert_data cert) (cert_view_number cert)))"

definition is_valid_cert ::
  "('k, 'g) multi_verify_fn \<Rightarrow> ('d \<Rightarrow> u64 \<Rightarrow> commitment) \<Rightarrow> ('d, 'g) SimpleCertificate
     \<Rightarrow> 'k StakeTableEntry list \<Rightarrow> u256 \<Rightarrow> 'h UpgradeLock \<Rightarrow> (CertError, unit) result" where
  "is_valid_cert multi_sig_verify vote_commit cert stake_table thr lock =
     (if cert_view_number cert = 0 then Ok ()
      else let real_qc_pp = \<lparr>stake_entries = stake_table, threshold = thr\<rparr>
           in try_bind (data_commitment vote_commit cert lock)
                (\<lambda>commit. case cert_signatures cert of
                    None \<Rightarrow> Err MissingSignaturePanic
                  | Some qc \<Rightarrow>
                      (case qc_check multi_sig_verify real_qc_pp commit qc of
                         Inl e \<Rightarrow> Err (SignatureCheckFailed e)
                       | Inr _ \<Rightarrow> Ok ())))"

definition create_signed_certificate ::
  "commitment \<Rightarrow> 'd \<Rightarrow> 'g Qc \<Rightarrow> u64 \<Rightarrow> ('d, 'g) SimpleCertificate" where
  "create_signed_certificate vote_commitment data sig view =
     \<lparr>cert_data = data, cert_vote_commitment = vote_commitment, cert_view_number = view,
      cert_signatures = Some sig\<rparr>"

text \<open>
  \<open>EpochMembership\<close> (\<open>crates/hotshot/types/src/epoch_membership.rs\<close>) as its clients see it: the
  answers of the \<open>Membership\<close> implementation for one epoch.
\<close>

record ('k, 's) EpochMembership =
  em_epoch :: "u64 option"
  em_stake_table :: "('k, 's) HSStakeTable"
  em_da_stake_table :: "('k, 's) HSStakeTable"
  em_stake :: "'k \<Rightarrow> ('k, 's) PeerConfig option"
  em_da_stake :: "'k \<Rightarrow> ('k, 's) PeerConfig option"
  em_has_stake :: "'k \<Rightarrow> bool"
  em_da_committee_members :: "u64 \<Rightarrow> 'k list"
  em_total_nodes :: nat
  em_da_total_nodes :: nat
  em_success_threshold :: u256
  em_da_success_threshold :: u256
  em_failure_threshold :: u256
  em_upgrade_threshold :: u256
  em_leader :: "u64 \<Rightarrow> 'k option"

definition upgrade_is_relevant :: "'g UpgradeCertificate \<Rightarrow> u64 \<Rightarrow> (CertError, unit) result" where
  "upgrade_is_relevant cert view_number =
     (if new_version_first_view (cert_data cert) \<ge> view_number then Ok () else Err NoLongerRelevant)"

definition upgrade_cert_validate ::
  "('k, 'g) multi_verify_fn \<Rightarrow> (UpgradeProposalData \<Rightarrow> u64 \<Rightarrow> commitment)
     \<Rightarrow> 'g UpgradeCertificate option \<Rightarrow> ('k, 's) EpochMembership \<Rightarrow> u64 option \<Rightarrow> 'h UpgradeLock
     \<Rightarrow> (CertError, unit) result" where
  "upgrade_cert_validate multi_sig_verify vote_commit upgrade_certificate membership epoch lock =
     (if epoch \<noteq> em_epoch membership then Err EpochMismatch
      else case upgrade_certificate of
             None \<Rightarrow> Ok ()
           | Some cert \<Rightarrow>
               is_valid_cert multi_sig_verify vote_commit cert
                 (stake_table_entries (em_stake_table membership))
                 (em_upgrade_threshold membership) lock)"

definition upgrading_in :: "'g UpgradeCertificate \<Rightarrow> u64 \<Rightarrow> bool" where
  "upgrading_in cert view =
     (view > old_version_last_view (cert_data cert) \<and> view < new_version_first_view (cert_data cert))"

section \<open>Weights and keys of the selected signers\<close>

lemma foldl_if_add:
  fixes a :: "'w::comm_monoid_add"
  shows "foldl (\<lambda>acc x. if P x then acc + f x else acc) a xs = a + sum_list (map f (filter P xs))"
  by (induction xs arbitrary: a) (simp_all add: add.assoc)

lemma total_weight_eq: "total_weight es bs = sum_list (map stake_amount (selected es bs))"
  by (simp add: total_weight_def selected_def comp_def
      foldl_if_add [where P = snd and f = "\<lambda>eb. stake_amount (fst eb)"])

lemma ver_keys_eq: "ver_keys es bs = map stake_key (selected es bs)"
  by (simp add: ver_keys_def selected_def comp_def)

lemma stake_fits_selected: "stake_fits es \<Longrightarrow> stake_fits (selected es bs)"
  using selected_le_total [of es bs] by (simp add: stake_fits_def)

lemma unat_total_weight:
  "stake_fits es \<Longrightarrow> unat (total_weight es bs) = stake_sum (selected es bs)"
  by (simp add: total_weight_eq unat_stake_sum stake_fits_selected)

lemma qc_check_Inr_iff:
  "qc_check msv vp m (sig, bs) = Inr w \<longleftrightarrow>
     length bs = length (stake_entries vp)
     \<and> threshold vp \<le> total_weight (stake_entries vp) bs
     \<and> msv (ver_keys (stake_entries vp) bs) m sig = Inr ()
     \<and> w = total_weight (stake_entries vp) bs"
  by (auto simp: qc_check_def try_bind_Inr_iff not_less)

lemma qc_assemble_Inr_iff:
  "qc_assemble agg pp bs sigs = Inr (sig, bs') \<longleftrightarrow>
     bs' = bs \<and> length bs = length (stake_entries pp)
     \<and> threshold pp \<le> total_weight (stake_entries pp) bs
     \<and> length (ver_keys (stake_entries pp) bs) = length sigs
     \<and> agg (ver_keys (stake_entries pp) bs) sigs = Inr sig"
  by (auto simp: qc_assemble_def Let_def try_bind_Inr_iff not_less)

lemma is_ok_qc_check:
  "is_ok (qc_check msv vp m (sig, bs)) \<longleftrightarrow>
     length bs = length (stake_entries vp)
     \<and> threshold vp \<le> total_weight (stake_entries vp) bs
     \<and> msv (ver_keys (stake_entries vp) bs) m sig = Inr ()"
  by (auto simp: is_ok_iff qc_check_Inr_iff)

lemma is_valid_cert_eq:
  "is_valid_cert msv vc cert es thr lock = Inr () \<longleftrightarrow>
     cert_view_number cert = 0 \<or>
     is_ok (lock_version lock (cert_view_number cert)) \<and>
     (\<exists>qc. cert_signatures cert = Some qc \<and>
        is_ok (qc_check msv \<lparr>stake_entries = es, threshold = thr\<rparr>
          (vc (cert_data cert) (cert_view_number cert)) qc))"
  by (auto simp: is_valid_cert_def Let_def try_bind_Inr_iff data_commitment_def is_ok_iff
      split: option.splits sum.splits)

lemma is_valid_cert_Inr_iff:
  "is_valid_cert msv vc cert es thr lock = Inr () \<longleftrightarrow>
     cert_view_number cert = 0 \<or>
     is_ok (lock_version lock (cert_view_number cert)) \<and>
     (\<exists>sig bs. cert_signatures cert = Some (sig, bs)
        \<and> length bs = length es \<and> thr \<le> total_weight es bs
        \<and> msv (ver_keys es bs) (vc (cert_data cert) (cert_view_number cert)) sig = Inr ())"
  by (simp add: is_valid_cert_eq is_ok_qc_check split_paired_Ex)

end
