(* ===== verification/Vote_Accumulator.thy ===== *)
theory Vote_Accumulator
  imports Quorum_Cert "HOL-Library.Multiset"
begin

text \<open>
  Vote accumulation (\<open>crates/hotshot/types/src/vote.rs\<close>): \<open>VoteAccumulator\<close>, which turns the
  votes of one view into a certificate, and \<open>LightClientStateUpdateVoteAccumulator\<close> together with
  the check that a received light-client certificate undergoes
  (\<open>crates/hotshot/task-impls/src/helpers.rs\<close>). The signature scheme (\<open>validate\<close>, \<open>aggregate\<close>,
  \<open>multi_sig_verify\<close>, \<open>verify_state_sig\<close>) and the hash of the vote data are parameters.
\<close>

section \<open>State\<close>

record ('k, 'g, 'd) SimpleVote =
  vote_signing_key :: 'k
  vote_signature :: 'g
  vote_date :: 'd
  vote_view_number :: u64

record ('k, 'g, 'h) VoteAccumulator =
  vote_outcomes :: "commitment \<rightharpoonup> u256 \<times> ('k \<rightharpoonup> 'g \<times> commitment)"
  acc_signers :: "commitment \<rightharpoonup> bool list \<times> 'g list"
  acc_upgrade_lock :: "'h UpgradeLock"

text \<open>
  What a certificate type reads from the membership: a quorum certificate proxies to the stake
  table and its own threshold, a DA certificate to the DA committee.
\<close>

record ('k, 's) CertMembership =
  cm_stake_table_entry :: "'k \<Rightarrow> ('k, 's) PeerConfig option"
  cm_stake_table :: "('k, 's) HSStakeTable"
  cm_total_nodes :: nat
  cm_threshold :: u256

datatype ThresholdKind = SuccessThreshold | OneHonestThreshold | UpgradeThreshold

definition threshold_of :: "ThresholdKind \<Rightarrow> ('k, 's) EpochMembership \<Rightarrow> u256" where
  "threshold_of kind membership =
     (case kind of
        SuccessThreshold \<Rightarrow> em_success_threshold membership
      | OneHonestThreshold \<Rightarrow> em_failure_threshold membership
      | UpgradeThreshold \<Rightarrow> em_upgrade_threshold membership)"

definition quorum_cert_membership ::
  "ThresholdKind \<Rightarrow> ('k, 's) EpochMembership \<Rightarrow> ('k, 's) CertMembership" where
  "quorum_cert_membership kind membership =
     \<lparr>cm_stake_table_entry = em_stake membership, cm_stake_table = em_stake_table membership,
      cm_total_nodes = em_total_nodes membership, cm_threshold = threshold_of kind membership\<rparr>"

definition da_cert_membership :: "('k, 's) EpochMembership \<Rightarrow> ('k, 's) CertMembership" where
  "da_cert_membership membership =
     \<lparr>cm_stake_table_entry = em_da_stake membership, cm_stake_table = em_da_stake_table membership,
      cm_total_nodes = em_da_total_nodes membership,
      cm_threshold = em_da_success_threshold membership\<rparr>"

section \<open>VoteAccumulator::accumulate\<close>

text \<open>
  Every early return of the source is a branch: an unknown version, an invalid signature, a key
  outside the membership, a table without the entry, a repeated key, a repeated table index.
  \<open>vote_outcomes\<close> already holds an entry when the duplicate check returns, as the source's
  \<open>or_insert_with\<close> runs before it. \<open>signers.set\<close> panics out of bounds and
  \<open>SignatureKey::assemble\<close> panics when the certificate cannot be assembled.
\<close>

datatype AccumulatePanic = SignerIndexPanic | AssemblePanic SignatureError

definition accumulate ::
  "('d \<Rightarrow> u64 \<Rightarrow> commitment) \<Rightarrow> ('k \<Rightarrow> 'g \<Rightarrow> commitment \<Rightarrow> bool) \<Rightarrow> ('k, 'g) aggregate_fn
     \<Rightarrow> ('k, 'g, 'd) SimpleVote \<Rightarrow> ('k, 's) CertMembership \<Rightarrow> ('k, 'g, 'h) VoteAccumulator
     \<Rightarrow> ('k, 'g, 'h) VoteAccumulator
          \<times> (AccumulatePanic, ('d, 'g) SimpleCertificate option) result" where
  "accumulate vote_commit validate aggregate vote membership self =
     (let key = vote_signing_key vote in
      case lock_version (acc_upgrade_lock self) (vote_view_number vote) of
        Inl _ \<Rightarrow> (self, Ok None)
      | Inr _ \<Rightarrow>
       (let vote_commitment = vote_commit (vote_date vote) (vote_view_number vote) in
        if \<not> validate key (vote_signature vote) vote_commitment then (self, Ok None)
        else case cm_stake_table_entry membership key of
          None \<Rightarrow> (self, Ok None)
        | Some entry \<Rightarrow>
         (case position (\<lambda>x. x = entry) (cm_stake_table membership) of
            None \<Rightarrow> (self, Ok None)
          | Some vote_node_id \<Rightarrow>
           (let (total_stake_casted, total_vote_map) =
                  (case vote_outcomes self vote_commitment of
                     Some o1 \<Rightarrow> o1 | None \<Rightarrow> (0, Map.empty));
                self1 = self\<lparr>vote_outcomes := (vote_outcomes self)
                          (vote_commitment \<mapsto> (total_stake_casted, total_vote_map))\<rparr>
            in if total_vote_map key \<noteq> None then (self1, Ok None)
            else
             (let (signers, sig_list) =
                    (case acc_signers self1 vote_commitment of
                       Some s1 \<Rightarrow> s1
                     | None \<Rightarrow> (replicate (cm_total_nodes membership) False, []));
                  self2 = self1\<lparr>acc_signers := (acc_signers self1)
                            (vote_commitment \<mapsto> (signers, sig_list))\<rparr>
              in if vote_node_id < length signers \<and> signers ! vote_node_id then (self2, Ok None)
              else if \<not> vote_node_id < length signers then (self2, Err SignerIndexPanic)
              else
               (let signers' = signers[vote_node_id := True];
                    sig_list' = sig_list @ [vote_signature vote];
                    total' = total_stake_casted + stake_amount (stake_table_entry entry);
                    self3 = self2\<lparr>
                      acc_signers := (acc_signers self2)(vote_commitment \<mapsto> (signers', sig_list')),
                      vote_outcomes := (vote_outcomes self2)(vote_commitment \<mapsto>
                        (total', total_vote_map(key \<mapsto> (vote_signature vote, vote_commitment))))\<rparr>
                in if total' \<ge> cm_threshold membership then
                     (case qc_assemble aggregate
                             \<lparr>stake_entries = stake_table_entries (cm_stake_table membership),
                              threshold = cm_threshold membership\<rparr> signers' sig_list' of
                        Inl e \<Rightarrow> (self3, Err (AssemblePanic e))
                      | Inr real_qc_sig \<Rightarrow>
                          (self3, Ok (Some (create_signed_certificate vote_commitment
                             (vote_date vote) real_qc_sig (vote_view_number vote)))))
                   else (self3, Ok None)))))))"

section \<open>LightClientStateUpdateVoteAccumulator\<close>

record ('l, 't, 'q) LightClientStateUpdateVote =
  lcv_epoch :: u64
  lcv_light_client_state :: 'l
  lcv_next_stake_table_state :: 't
  lcv_signature :: 'q

record ('s, 'l, 't, 'q) LightClientStateUpdateCertificate =
  lcc_epoch :: u64
  lcc_light_client_state :: 'l
  lcc_next_stake_table_state :: 't
  lcc_signatures :: "('s \<times> 'q) list"

type_synonym ('s, 'l, 't, 'q) LCAccumulator = "'l \<times> 't \<rightharpoonup> u256 \<times> ('s \<times> 'q) list"

text \<open>
  The inner \<open>HashMap\<close> is the list of its entries, newest last; only membership of a key and the
  list of entries are observed, and the theorems below hold for every order of the entries.
\<close>

definition lc_accumulate ::
  "('s \<Rightarrow> 'q \<Rightarrow> 'l \<Rightarrow> 't \<Rightarrow> bool) \<Rightarrow> 'k \<Rightarrow> ('l, 't, 'q) LightClientStateUpdateVote
     \<Rightarrow> ('k, 's) EpochMembership \<Rightarrow> ('s, 'l, 't, 'q) LCAccumulator
     \<Rightarrow> ('s, 'l, 't, 'q) LCAccumulator \<times> ('s, 'l, 't, 'q) LightClientStateUpdateCertificate option" where
  "lc_accumulate verify_state_sig key vote membership self =
     (case em_epoch membership of
        None \<Rightarrow> (self, None)
      | Some epoch \<Rightarrow>
       (let thr = em_success_threshold membership in
        case em_stake membership key of
          None \<Rightarrow> (self, None)
        | Some config \<Rightarrow>
         (let lcs = lcv_light_client_state vote; sts = lcv_next_stake_table_state vote in
          if \<not> verify_state_sig (state_ver_key config) (lcv_signature vote) lcs sts
          then (self, None)
          else
           (let (total_stake_casted, vote_map) =
                  (case self (lcs, sts) of Some o1 \<Rightarrow> o1 | None \<Rightarrow> (0, []))
            in if map_of vote_map (state_ver_key config) \<noteq> None
               then (self((lcs, sts) \<mapsto> (total_stake_casted, vote_map)), None)
               else
                (let total' = total_stake_casted + stake_amount (stake_table_entry config);
                     vote_map' = vote_map @ [(state_ver_key config, lcv_signature vote)];
                     self' = self((lcs, sts) \<mapsto> (total', vote_map'))
                 in if total' \<ge> thr then
                      (self', Some \<lparr>lcc_epoch = epoch, lcc_light_client_state = lcs,
                                 lcc_next_stake_table_state = sts, lcc_signatures = vote_map'\<rparr>)
                    else (self', None))))))"

datatype LightClientCertError = InvalidStateSignature | BelowSuccessThreshold

definition state_key_map :: "('k, 's) HSStakeTable \<Rightarrow> 's \<rightharpoonup> u256" where
  "state_key_map table =
     foldl (\<lambda>m config. m(state_ver_key config \<mapsto> stake_amount (stake_table_entry config)))
       Map.empty table"

fun accumulate_state_sigs ::
  "('s \<Rightarrow> 'q \<Rightarrow> 'l \<Rightarrow> 't \<Rightarrow> bool) \<Rightarrow> ('s \<rightharpoonup> u256) \<Rightarrow> 'l \<Rightarrow> 't \<Rightarrow> u256 \<Rightarrow> ('s \<times> 'q) list
     \<Rightarrow> (LightClientCertError, u256) result" where
  "accumulate_state_sigs verify_state_sig keys lcs sts accumulated_stake [] = Ok accumulated_stake"
| "accumulate_state_sigs verify_state_sig keys lcs sts accumulated_stake ((key, sig) # rest) =
     (case keys key of
        Some stake \<Rightarrow>
          (if \<not> verify_state_sig key sig lcs sts then Err InvalidStateSignature
           else accumulate_state_sigs verify_state_sig keys lcs sts (accumulated_stake + stake) rest)
      | None \<Rightarrow> Err InvalidStateSignature)"

definition validate_light_client_state_update_certificate ::
  "('s \<Rightarrow> 'q \<Rightarrow> 'l \<Rightarrow> 't \<Rightarrow> bool) \<Rightarrow> ('s, 'l, 't, 'q) LightClientStateUpdateCertificate
     \<Rightarrow> ('k, 's) EpochMembership \<Rightarrow> (LightClientCertError, unit) result" where
  "validate_light_client_state_update_certificate verify_state_sig state_cert epoch_membership =
     try_bind
       (accumulate_state_sigs verify_state_sig (state_key_map (em_stake_table epoch_membership))
          (lcc_light_client_state state_cert) (lcc_next_stake_table_state state_cert) 0
          (lcc_signatures state_cert))
       (\<lambda>accumulated_stake.
          if accumulated_stake < em_success_threshold epoch_membership
          then Err BelowSuccessThreshold else Ok ())"

section \<open>Setting one bit of the signer vector\<close>

lemma mset_selected_set_bit:
  "length bs = length es \<Longrightarrow> i < length es \<Longrightarrow> \<not> bs ! i \<Longrightarrow>
   mset (selected es (bs[i := True])) = add_mset (es ! i) (mset (selected es bs))"
proof (induction es arbitrary: bs i)
  case (Cons e es)
  then obtain b bs' where bs: "bs = b # bs'" by (cases bs) auto
  with Cons show ?case by (cases i) auto
qed simp

lemma total_weight_set_bit:
  assumes "length bs = length es" "i < length es" "\<not> bs ! i"
  shows "total_weight es (bs[i := True]) = total_weight es bs + stake_amount (es ! i)"
proof -
  have sum: "total_weight es x = sum_mset (image_mset stake_amount (mset (selected es x)))" for x
    by (simp add: total_weight_eq flip: sum_mset_sum_list)
  show ?thesis by (simp add: sum mset_selected_set_bit [OF assms])
qed

lemma mset_ver_keys_set_bit:
  assumes "length bs = length es" "i < length es" "\<not> bs ! i"
  shows "mset (ver_keys es (bs[i := True])) = add_mset (stake_key (es ! i)) (mset (ver_keys es bs))"
  by (simp add: ver_keys_eq mset_selected_set_bit [OF assms])

lemma selected_nth:
  "i < length es \<Longrightarrow> length bs = length es \<Longrightarrow> bs ! i \<Longrightarrow> es ! i \<in> set (selected es bs)"
proof (induction es arbitrary: bs i)
  case (Cons e es)
  then obtain b bs' where bs: "bs = b # bs'" by (cases bs) auto
  with Cons show ?case by (cases i) auto
qed simp

lemma selected_replicate_False [simp]: "selected es (replicate n False) = []"
proof (induction es arbitrary: n)
  case (Cons e es)
  then show ?case by (cases n) auto
qed simp

section \<open>The tally invariant\<close>

definition cert_membership_ok :: "('k, 's) CertMembership \<Rightarrow> bool" where
  "cert_membership_ok membership \<longleftrightarrow>
     cm_total_nodes membership = length (cm_stake_table membership)
     \<and> (\<forall>k entry. cm_stake_table_entry membership k = Some entry \<longrightarrow>
          stake_key (stake_table_entry entry) = k)"

definition aggregate_complete ::
  "('k \<Rightarrow> 'g \<Rightarrow> commitment \<Rightarrow> bool) \<Rightarrow> ('k, 'g) aggregate_fn \<Rightarrow> ('k, 'g) multi_verify_fn \<Rightarrow> bool" where
  "aggregate_complete validate aggregate multi_sig_verify \<longleftrightarrow>
     (\<forall>keys signing_order sigs m. keys \<noteq> [] \<and> mset keys = mset signing_order
        \<and> list_all2 (\<lambda>k g. validate k g m) signing_order sigs
        \<longrightarrow> (\<exists>sig. aggregate keys sigs = Ok sig \<and> multi_sig_verify keys m sig = Ok ()))"

definition tally_ok ::
  "('k \<Rightarrow> 'g \<Rightarrow> commitment \<Rightarrow> bool) \<Rightarrow> 'k StakeTableEntry list \<Rightarrow> commitment
     \<Rightarrow> (u256 \<times> ('k \<rightharpoonup> 'g \<times> commitment)) option \<Rightarrow> (bool list \<times> 'g list) option \<Rightarrow> bool" where
  "tally_ok validate entries c outcome signers \<longleftrightarrow>
     (case signers of
        None \<Rightarrow> outcome = None \<or> outcome = Some (0, Map.empty)
      | Some (bs, sigs) \<Rightarrow>
          length bs = length entries \<and>
          (\<exists>m signing_order. outcome = Some (total_weight entries bs, m)
             \<and> dom m = set signing_order
             \<and> mset signing_order = mset (ver_keys entries bs)
             \<and> list_all2 (\<lambda>k g. validate k g c) signing_order sigs))"

definition accumulator_ok ::
  "('k \<Rightarrow> 'g \<Rightarrow> commitment \<Rightarrow> bool) \<Rightarrow> 'k StakeTableEntry list \<Rightarrow> ('k, 'g, 'h) VoteAccumulator \<Rightarrow> bool" where
  "accumulator_ok validate entries acc \<longleftrightarrow>
     (\<forall>c. tally_ok validate entries c (vote_outcomes acc c) (acc_signers acc c))"

definition empty_accumulator :: "'h UpgradeLock \<Rightarrow> ('k, 'g, 'h) VoteAccumulator" where
  "empty_accumulator lock =
     \<lparr>vote_outcomes = Map.empty, acc_signers = Map.empty, acc_upgrade_lock = lock\<rparr>"

lemma accumulator_ok_empty: "accumulator_ok validate entries (empty_accumulator lock)"
  by (simp add: accumulator_ok_def empty_accumulator_def tally_ok_def)

lemma tally_ok_open:
  assumes "tally_ok validate entries c outcome signers"
  obtains bs sigs m ks where
    "(case outcome of Some o1 \<Rightarrow> o1 | None \<Rightarrow> (0, Map.empty)) = (total_weight entries bs, m)"
    "(case signers of Some s1 \<Rightarrow> s1 | None \<Rightarrow> (replicate (length entries) False, [])) = (bs, sigs)"
    "length bs = length entries" "dom m = set ks" "mset ks = mset (ver_keys entries bs)"
    "list_all2 (\<lambda>k g. validate k g c) ks sigs"
proof (cases signers)
  case None
  show thesis
    by (rule that [of "replicate (length entries) False" Map.empty "[]" "[]"])
       (use assms None in \<open>auto simp: tally_ok_def total_weight_eq ver_keys_eq\<close>)
next
  case (Some s)
  obtain bs sigs where s: "s = (bs, sigs)" by (cases s)
  with assms Some obtain m ks where "length bs = length entries"
      "outcome = Some (total_weight entries bs, m)" "dom m = set ks"
      "mset ks = mset (ver_keys entries bs)" "list_all2 (\<lambda>k g. validate k g c) ks sigs"
    by (auto simp: tally_ok_def)
  then show thesis using Some s by (intro that [of bs m sigs ks]) simp_all
qed

lemma tally_ok_count:
  assumes ok: "length bs = length entries" "dom m = set ks"
      "mset ks = mset (ver_keys entries bs)" "list_all2 (\<lambda>k g. validate k g c) ks sigs"
    and i: "i < length entries" "\<not> bs ! i" and key: "stake_key (entries ! i) = k"
    and v: "validate k sig c"
  shows "tally_ok validate entries c
     (Some (total_weight entries bs + stake_amount (entries ! i), m(k \<mapsto> (sig, c))))
     (Some (bs[i := True], sigs @ [sig]))"
proof -
  have "list_all2 (\<lambda>k g. validate k g c) (ks @ [k]) (sigs @ [sig])"
    using ok(4) v by (simp add: list_all2_appendI)
  moreover have "mset (ks @ [k]) = mset (ver_keys entries (bs[i := True]))"
    using ok i key by (simp add: mset_ver_keys_set_bit)
  moreover have "dom (m(k \<mapsto> (sig, c))) = set (ks @ [k])"
    using ok by auto
  ultimately show ?thesis
    using ok i by (auto simp: tally_ok_def total_weight_set_bit
        intro!: exI [of _ "ks @ [k]"])
qed

lemma tally_assembles:
  assumes agg: "aggregate_complete validate aggregate msv"
    and ok: "tally_ok validate entries c (Some (total_weight entries bs, m)) (Some (bs, sigs))"
    and thr: "thr \<le> total_weight entries bs" and ne: "sigs \<noteq> []"
  shows "\<exists>sig. qc_assemble aggregate \<lparr>stake_entries = entries, threshold = thr\<rparr> bs sigs = Ok (sig, bs)
     \<and> length bs = length entries \<and> msv (ver_keys entries bs) c sig = Ok ()"
proof -
  from ok obtain ks where ks: "length bs = length entries" "mset ks = mset (ver_keys entries bs)"
      "list_all2 (\<lambda>k g. validate k g c) ks sigs"
    by (auto simp: tally_ok_def)
  have len: "length (ver_keys entries bs) = length sigs"
    using ks by (metis size_mset list_all2_lengthD)
  with ne have "ver_keys entries bs \<noteq> []" by auto
  with agg ks obtain sig where "aggregate (ver_keys entries bs) sigs = Ok sig"
      "msv (ver_keys entries bs) c sig = Ok ()"
    unfolding aggregate_complete_def by metis
  with ks len thr show ?thesis by (auto simp: qc_assemble_Inr_iff)
qed

lemma accumulator_ok_update:
  assumes "accumulator_ok validate entries acc" "tally_ok validate entries c out sg"
  shows "accumulator_ok validate entries
     (acc\<lparr>vote_outcomes := (vote_outcomes acc)(c := out), acc_signers := (acc_signers acc)(c := sg)\<rparr>)"
  using assms by (simp add: accumulator_ok_def)


lemma accumulator_ok_touch:
  assumes "accumulator_ok validate entries acc"
    and "(case vote_outcomes acc c of Some o1 \<Rightarrow> o1 | None \<Rightarrow> (0, Map.empty)) = out"
  shows "accumulator_ok validate entries
     (acc\<lparr>vote_outcomes := (vote_outcomes acc)(c \<mapsto> out)\<rparr>)"
proof -
  have "tally_ok validate entries c (vote_outcomes acc c) (acc_signers acc c)"
    using assms(1) by (simp add: accumulator_ok_def)
  then have "tally_ok validate entries c (Some out) (acc_signers acc c)"
    using assms(2) by (auto simp: tally_ok_def split: option.splits)
  with assms(1) show ?thesis by (simp add: accumulator_ok_def)
qed

text \<open>
  The last stage of \<open>accumulate\<close>: the vote is new, its bit is set and the tally is compared with
  the threshold.
\<close>

definition vote_accepted where
  "vote_accepted vote_commit validate vote membership acc \<longleftrightarrow>
     is_ok (lock_version (acc_upgrade_lock acc) (vote_view_number vote))
     \<and> validate (vote_signing_key vote) (vote_signature vote)
         (vote_commit (vote_date vote) (vote_view_number vote))
     \<and> (\<exists>entry. cm_stake_table_entry membership (vote_signing_key vote) = Some entry
          \<and> entry \<in> set (cm_stake_table membership))
     \<and> (case vote_outcomes acc (vote_commit (vote_date vote) (vote_view_number vote)) of
           None \<Rightarrow> True | Some (_, m) \<Rightarrow> m (vote_signing_key vote) = None)"

definition recorded :: "('k, 'g, 'h) VoteAccumulator \<Rightarrow> commitment \<Rightarrow> 'k set" where
  "recorded acc c = (case vote_outcomes acc c of None \<Rightarrow> {} | Some (_, m) \<Rightarrow> dom m)"

lemma accumulate_rejected:
  assumes ok: "accumulator_ok validate (stake_table_entries (cm_stake_table membership)) acc"
    and na: "\<not> vote_accepted vote_commit validate vote membership acc"
  shows "\<exists>acc'. accumulate vote_commit validate aggregate vote membership acc = (acc', Ok None)
     \<and> accumulator_ok validate (stake_table_entries (cm_stake_table membership)) acc'
     \<and> acc_upgrade_lock acc' = acc_upgrade_lock acc \<and> recorded acc' = recorded acc"
proof (cases "lock_version (acc_upgrade_lock acc) (vote_view_number vote)")
  case (Inl e)
  then show ?thesis using ok by (simp add: accumulate_def)
next
  case (Inr ver)
  let ?c = "vote_commit (vote_date vote) (vote_view_number vote)"
  let ?k = "vote_signing_key vote"
  show ?thesis
  proof (cases "validate ?k (vote_signature vote) ?c \<and>
      (\<exists>entry. cm_stake_table_entry membership ?k = Some entry
         \<and> entry \<in> set (cm_stake_table membership))")
    case False
    then show ?thesis using ok Inr
      by (auto simp: accumulate_def Let_def position_None_iff split: option.splits
          dest!: position_SomeD)
  next
    case True
    then obtain entry i where e: "cm_stake_table_entry membership ?k = Some entry"
        "position (\<lambda>x. x = entry) (cm_stake_table membership) = Some i"
      by (metis (mono_tags, lifting) position_None_iff option.exhaust)
    obtain t m where o: "vote_outcomes acc ?c = Some (t, m)" "m ?k \<noteq> None"
      using na True Inr by (auto simp: vote_accepted_def split: option.splits)
    have "accumulator_ok validate (stake_table_entries (cm_stake_table membership))
        (acc\<lparr>vote_outcomes := (vote_outcomes acc)(?c \<mapsto> (t, m))\<rparr>)"
      by (rule accumulator_ok_touch [OF ok]) (simp add: o)
    then show ?thesis using True Inr e o
      by (simp add: accumulate_def Let_def recorded_def fun_eq_iff)
  qed
qed

text \<open>The state and result of the last stage of \<open>accumulate\<close>.\<close>

definition counted ::
  "('k, 'g) aggregate_fn \<Rightarrow> ('k, 'g, 'd) SimpleVote \<Rightarrow> commitment \<Rightarrow> 'k StakeTableEntry list \<Rightarrow> u256
     \<Rightarrow> bool list \<Rightarrow> 'g list \<Rightarrow> ('k \<rightharpoonup> 'g \<times> commitment) \<Rightarrow> ('k, 'g, 'h) VoteAccumulator
     \<Rightarrow> ('k, 'g, 'h) VoteAccumulator
          \<times> (AccumulatePanic, ('d, 'g) SimpleCertificate option) result" where
  "counted aggregate vote c es thr bs sigs m acc =
     (acc\<lparr>vote_outcomes := (vote_outcomes acc)(c \<mapsto> (total_weight es bs, m)),
          acc_signers := (acc_signers acc)(c \<mapsto> (bs, sigs))\<rparr>,
      if thr \<le> total_weight es bs then
        (case qc_assemble aggregate \<lparr>stake_entries = es, threshold = thr\<rparr> bs sigs of
           Inl e \<Rightarrow> Err (AssemblePanic e)
         | Inr qc \<Rightarrow>
             Ok (Some (create_signed_certificate c (vote_date vote) qc (vote_view_number vote))))
      else Ok None)"

lemma accumulate_accepted:
  assumes mem: "cert_membership_ok membership"
    and ok: "accumulator_ok validate (stake_table_entries (cm_stake_table membership)) acc"
    and a: "vote_accepted vote_commit validate vote membership acc"
  obtains bs sigs m where
    "tally_ok validate (stake_table_entries (cm_stake_table membership))
       (vote_commit (vote_date vote) (vote_view_number vote))
       (Some (total_weight (stake_table_entries (cm_stake_table membership)) bs, m))
       (Some (bs, sigs))"
    "sigs \<noteq> []"
    "dom m = insert (vote_signing_key vote) (recorded acc
       (vote_commit (vote_date vote) (vote_view_number vote)))"
    "accumulate vote_commit validate aggregate vote membership acc =
       counted aggregate vote (vote_commit (vote_date vote) (vote_view_number vote))
         (stake_table_entries (cm_stake_table membership)) (cm_threshold membership) bs sigs m acc"
proof -
  let ?c = "vote_commit (vote_date vote) (vote_view_number vote)"
  let ?k = "vote_signing_key vote"
  let ?t = "cm_stake_table membership"
  let ?es = "stake_table_entries ?t"
  have len: "length ?es = length ?t" by (simp add: stake_table_entries_def)
  from a obtain ver entry where e: "lock_version (acc_upgrade_lock acc) (vote_view_number vote) = Inr ver"
      "validate ?k (vote_signature vote) ?c" "cm_stake_table_entry membership ?k = Some entry"
      "entry \<in> set ?t"
    by (auto simp: vote_accepted_def is_ok_iff)
  then obtain i where i: "position (\<lambda>x. x = entry) ?t = Some i"
    by (metis (mono_tags, lifting) position_None_iff option.exhaust)
  then have il: "i < length ?t" "?t ! i = entry" by (auto dest: position_SomeD)
  have key: "stake_key (?es ! i) = ?k"
    using mem e il by (simp add: cert_membership_ok_def stake_table_entries_def)
  have "tally_ok validate ?es ?c (vote_outcomes acc ?c) (acc_signers acc ?c)"
    using ok by (simp add: accumulator_ok_def)
  then obtain bs sigs m ks where t:
      "(case vote_outcomes acc ?c of Some o1 \<Rightarrow> o1 | None \<Rightarrow> (0, Map.empty)) = (total_weight ?es bs, m)"
      "(case acc_signers acc ?c of Some s1 \<Rightarrow> s1 | None \<Rightarrow> (replicate (length ?es) False, [])) = (bs, sigs)"
      "length bs = length ?es" "dom m = set ks" "mset ks = mset (ver_keys ?es bs)"
      "list_all2 (\<lambda>k g. validate k g ?c) ks sigs"
    by (rule tally_ok_open)
  have n: "cm_total_nodes membership = length ?es"
    using mem len by (simp add: cert_membership_ok_def)
  have sg: "(case acc_signers acc ?c of
        Some s1 \<Rightarrow> s1 | None \<Rightarrow> (replicate (cm_total_nodes membership) False, [])) = (bs, sigs)"
    using t(2) unfolding n .
  have mk: "m ?k = None"
    using a t(1) by (auto simp: vote_accepted_def split: option.splits)
  have nbs: "\<not> bs ! i"
  proof
    assume "bs ! i"
    then have "stake_key (?es ! i) \<in> set (ver_keys ?es bs)"
      using selected_nth [of i ?es bs] il t(3) len by (simp add: ver_keys_eq)
    with key t(4,5) mk show False by (metis domIff set_mset_mset)
  qed
  have tot: "total_weight ?es bs + stake_amount (stake_table_entry entry)
      = total_weight ?es (bs[i := True])"
    using total_weight_set_bit [of bs ?es i] il nbs t(3) len by (simp add: stake_table_entries_def)
  have ok': "tally_ok validate ?es ?c
      (Some (total_weight ?es (bs[i := True]), m(?k \<mapsto> (vote_signature vote, ?c))))
      (Some (bs[i := True], sigs @ [vote_signature vote]))"
    using tally_ok_count [of bs ?es m ks validate ?c sigs i ?k "vote_signature vote"]
      t(3-6) nbs key e(2) il len
    by (simp add: total_weight_set_bit)
  have dm: "dom m = recorded acc ?c"
    using t(1) by (auto simp: recorded_def split: option.splits)
  show thesis
  proof (rule that [OF ok'], goal_cases)
    case 3
    show ?case using e(1-3) i il t(1,3) sg mk nbs len tot
      by (simp add: accumulate_def counted_def Let_def split: sum.splits)
  qed (use dm in auto)
qed

lemma accumulate_accepted_result:
  assumes mem: "cert_membership_ok membership"
    and agg: "aggregate_complete validate aggregate msv"
    and ok: "accumulator_ok validate (stake_table_entries (cm_stake_table membership)) acc"
    and a: "vote_accepted vote_commit validate vote membership acc"
    and run: "accumulate vote_commit validate aggregate vote membership acc = (acc', r)"
  obtains t m where
    "accumulator_ok validate (stake_table_entries (cm_stake_table membership)) acc'"
    "acc_upgrade_lock acc' = acc_upgrade_lock acc"
    "vote_outcomes acc' = (vote_outcomes acc)
       (vote_commit (vote_date vote) (vote_view_number vote) \<mapsto> (t, m))"
    "dom m = insert (vote_signing_key vote) (recorded acc
       (vote_commit (vote_date vote) (vote_view_number vote)))"
    "t < cm_threshold membership \<longrightarrow> r = Ok None"
    "cm_threshold membership \<le> t \<longrightarrow> (\<exists>cert. r = Ok (Some cert)
       \<and> cert_data cert = vote_date vote \<and> cert_view_number cert = vote_view_number vote
       \<and> is_valid_cert msv vote_commit cert (stake_table_entries (cm_stake_table membership))
           (cm_threshold membership) (acc_upgrade_lock acc) = Ok ())"
proof -
  let ?es = "stake_table_entries (cm_stake_table membership)"
  let ?c = "vote_commit (vote_date vote) (vote_view_number vote)"
  from mem ok a obtain bs sigs m where
    tally: "tally_ok validate ?es ?c (Some (total_weight ?es bs, m)) (Some (bs, sigs))"
    and ne: "sigs \<noteq> []"
    and dm: "dom m = insert (vote_signing_key vote) (recorded acc ?c)"
    and eq: "accumulate vote_commit validate aggregate vote membership acc =
       counted aggregate vote ?c ?es (cm_threshold membership) bs sigs m acc"
    by (rule accumulate_accepted)
  have lock: "is_ok (lock_version (acc_upgrade_lock acc) (vote_view_number vote))"
    using a by (simp add: vote_accepted_def)
  show thesis
  proof (rule that [of "total_weight ?es bs" m], goal_cases)
    case 1
    then show ?case
      using run eq accumulator_ok_update [OF ok tally] by (auto simp: counted_def)
  next
    case 6
    show ?case
    proof
      assume thr: "cm_threshold membership \<le> total_weight ?es bs"
      then obtain sig where
        "qc_assemble aggregate \<lparr>stake_entries = ?es, threshold = cm_threshold membership\<rparr> bs sigs
           = Ok (sig, bs)" "length bs = length ?es" "msv (ver_keys ?es bs) ?c sig = Ok ()"
        using tally_assembles [OF agg tally _ ne] by blast
      then show "\<exists>cert. r = Ok (Some cert)
         \<and> cert_data cert = vote_date vote \<and> cert_view_number cert = vote_view_number vote
         \<and> is_valid_cert msv vote_commit cert ?es (cm_threshold membership) (acc_upgrade_lock acc)
             = Ok ()"
        using run eq thr lock
        by (auto simp: counted_def is_valid_cert_Inr_iff create_signed_certificate_def)
    qed
  qed (use run eq dm in \<open>auto simp: counted_def\<close>)
qed


section \<open>Runs of the accumulator\<close>

fun accumulate_run ::
  "('d \<Rightarrow> u64 \<Rightarrow> commitment) \<Rightarrow> ('k \<Rightarrow> 'g \<Rightarrow> commitment \<Rightarrow> bool) \<Rightarrow> ('k, 'g) aggregate_fn
     \<Rightarrow> ('k, 's) CertMembership \<Rightarrow> ('k, 'g, 'd) SimpleVote list \<Rightarrow> ('k, 'g, 'h) VoteAccumulator
     \<Rightarrow> ('k, 'g, 'h) VoteAccumulator
          \<times> (AccumulatePanic, ('d, 'g) SimpleCertificate option) result list" where
  "accumulate_run vote_commit validate aggregate membership [] acc = (acc, [])"
| "accumulate_run vote_commit validate aggregate membership (vote # votes) acc =
     (let (acc1, r) = accumulate vote_commit validate aggregate vote membership acc;
          (acc2, rs) = accumulate_run vote_commit validate aggregate membership votes acc1
      in (acc2, r # rs))"

definition voters ::
  "('d \<Rightarrow> u64 \<Rightarrow> commitment) \<Rightarrow> ('k \<Rightarrow> 'g \<Rightarrow> commitment \<Rightarrow> bool) \<Rightarrow> ('k, 's) CertMembership
     \<Rightarrow> 'h UpgradeLock \<Rightarrow> ('k, 'g, 'd) SimpleVote list \<Rightarrow> commitment \<Rightarrow> 'k set" where
  "voters vote_commit validate membership lock votes c =
     vote_signing_key ` set (filter (\<lambda>v.
        vote_commit (vote_date v) (vote_view_number v) = c
        \<and> is_ok (lock_version lock (vote_view_number v))
        \<and> validate (vote_signing_key v) (vote_signature v) c
        \<and> (case cm_stake_table_entry membership (vote_signing_key v) of
              None \<Rightarrow> False | Some e \<Rightarrow> e \<in> set (cm_stake_table membership))) votes)"

definition stake_of :: "'k set \<Rightarrow> 'k StakeTableEntry list \<Rightarrow> u256" where
  "stake_of ks es = sum_list (map stake_amount (filter (\<lambda>e. stake_key e \<in> ks) es))"

definition tally :: "('k, 'g, 'h) VoteAccumulator \<Rightarrow> commitment \<Rightarrow> u256" where
  "tally acc c = (case vote_outcomes acc c of None \<Rightarrow> 0 | Some (t, _) \<Rightarrow> t)"

lemma selected_by_key:
  "length bs = length es \<Longrightarrow> distinct (map stake_key es) \<Longrightarrow>
   filter (\<lambda>e. stake_key e \<in> set (ver_keys es bs)) es = selected es bs"
proof (induction es arbitrary: bs)
  case (Cons e es)
  then obtain b bs' where bs: "bs = b # bs'" by (cases bs) auto
  have sub: "set (ver_keys es bs') \<subseteq> stake_key ` set es"
    using set_selected_subset [of es bs'] by (auto simp: ver_keys_eq)
  with Cons.prems have "stake_key e \<notin> set (ver_keys es bs')" by auto
  moreover have "filter (\<lambda>x. stake_key x = stake_key e \<or> stake_key x \<in> set (ver_keys es bs')) es
      = filter (\<lambda>x. stake_key x \<in> set (ver_keys es bs')) es"
    using Cons.prems by (intro filter_cong) (auto simp: image_iff)
  ultimately show ?case
    using Cons bs by (auto simp: ver_keys_eq)
qed simp

lemma tally_eq_stake_of_recorded:
  assumes ok: "accumulator_ok validate es acc" and d: "distinct (map stake_key es)"
  shows "tally acc c = stake_of (recorded acc c) es"
proof -
  have "tally_ok validate es c (vote_outcomes acc c) (acc_signers acc c)"
    using ok by (simp add: accumulator_ok_def)
  then show ?thesis
  proof (cases "acc_signers acc c")
    case None
    with \<open>tally_ok validate es c (vote_outcomes acc c) (acc_signers acc c)\<close>
    show ?thesis by (auto simp: tally_ok_def tally_def recorded_def stake_of_def)
  next
    case (Some s)
    with \<open>tally_ok validate es c (vote_outcomes acc c) (acc_signers acc c)\<close>
    obtain bs sigs m ks where t: "length bs = length es"
        "vote_outcomes acc c = Some (total_weight es bs, m)" "dom m = set ks"
        "mset ks = mset (ver_keys es bs)"
      by (cases s) (auto simp: tally_ok_def)
    have "dom m = set (ver_keys es bs)" using t(3,4) by (metis set_mset_mset)
    then show ?thesis using t(1,2) selected_by_key [OF t(1) d]
      by (simp add: tally_def recorded_def stake_of_def total_weight_eq)
  qed
qed

lemma voters_Nil [simp]: "voters vote_commit validate membership lock [] c = {}"
  by (simp add: voters_def)

lemma voters_snoc:
  "voters vote_commit validate membership lock (votes @ [v]) c =
   voters vote_commit validate membership lock votes c \<union>
   voters vote_commit validate membership lock [v] c"
  by (auto simp: voters_def)

lemma vote_accepted_iff_voters:
  "vote_accepted vote_commit validate vote membership acc \<longleftrightarrow>
     (let c = vote_commit (vote_date vote) (vote_view_number vote) in
      vote_signing_key vote \<in> voters vote_commit validate membership (acc_upgrade_lock acc) [vote] c
      \<and> vote_signing_key vote \<notin> recorded acc c)"
  by (auto simp: vote_accepted_def voters_def recorded_def Let_def split: option.splits)


definition good_outcome ::
  "('k, 'g) multi_verify_fn \<Rightarrow> ('d \<Rightarrow> u64 \<Rightarrow> commitment) \<Rightarrow> ('k, 's) CertMembership \<Rightarrow> 'h UpgradeLock
     \<Rightarrow> (AccumulatePanic, ('d, 'g) SimpleCertificate option) result \<Rightarrow> bool" where
  "good_outcome msv vote_commit membership lock r \<longleftrightarrow>
     (case r of
        Inl _ \<Rightarrow> False
      | Inr None \<Rightarrow> True
      | Inr (Some cert) \<Rightarrow>
          is_valid_cert msv vote_commit cert (stake_table_entries (cm_stake_table membership))
            (cm_threshold membership) lock = Ok ())"

lemma accumulate_step:
  assumes mem: "cert_membership_ok membership"
    and agg: "aggregate_complete validate aggregate msv"
    and ok: "accumulator_ok validate (stake_table_entries (cm_stake_table membership)) acc"
    and run: "accumulate vote_commit validate aggregate vote membership acc = (acc', r)"
  shows "accumulator_ok validate (stake_table_entries (cm_stake_table membership)) acc'
    \<and> acc_upgrade_lock acc' = acc_upgrade_lock acc
    \<and> (\<forall>c. recorded acc' c = recorded acc c
          \<union> voters vote_commit validate membership (acc_upgrade_lock acc) [vote] c)
    \<and> good_outcome msv vote_commit membership (acc_upgrade_lock acc) r"
proof (cases "vote_accepted vote_commit validate vote membership acc")
  case False
  moreover from False have "voters vote_commit validate membership (acc_upgrade_lock acc) [vote] c
      \<subseteq> recorded acc c" for c
    by (auto simp: vote_accepted_iff_voters Let_def voters_def)
  ultimately show ?thesis
    using accumulate_rejected [OF ok False, of aggregate] run by (auto simp: good_outcome_def)
next
  case True
  let ?c = "vote_commit (vote_date vote) (vote_view_number vote)"
  from mem agg ok True run obtain t m where
    "accumulator_ok validate (stake_table_entries (cm_stake_table membership)) acc'"
    "acc_upgrade_lock acc' = acc_upgrade_lock acc"
    and out: "vote_outcomes acc' = (vote_outcomes acc)(?c \<mapsto> (t, m))"
    and dom: "dom m = insert (vote_signing_key vote) (recorded acc ?c)"
    and r: "t < cm_threshold membership \<longrightarrow> r = Ok None"
    "cm_threshold membership \<le> t \<longrightarrow> (\<exists>cert. r = Ok (Some cert)
       \<and> cert_data cert = vote_date vote \<and> cert_view_number cert = vote_view_number vote
       \<and> is_valid_cert msv vote_commit cert (stake_table_entries (cm_stake_table membership))
           (cm_threshold membership) (acc_upgrade_lock acc) = Ok ())"
    by (rule accumulate_accepted_result)
  moreover have "recorded acc' c = recorded acc c
      \<union> voters vote_commit validate membership (acc_upgrade_lock acc) [vote] c" for c
  proof (cases "c = ?c")
    case True
    with \<open>vote_accepted vote_commit validate vote membership acc\<close> show ?thesis
      using dom by (auto simp: recorded_def [of acc'] out vote_accepted_iff_voters Let_def voters_def)
  next
    case False
    then show ?thesis by (auto simp: recorded_def out voters_def)
  qed
  moreover have "good_outcome msv vote_commit membership (acc_upgrade_lock acc) r"
    using r by (cases "t < cm_threshold membership") (auto simp: good_outcome_def not_less)
  ultimately show ?thesis by blast
qed

lemma accumulate_run_invariant:
  assumes mem: "cert_membership_ok membership"
    and agg: "aggregate_complete validate aggregate msv"
  shows "accumulator_ok validate (stake_table_entries (cm_stake_table membership)) acc \<Longrightarrow>
    accumulate_run vote_commit validate aggregate membership votes acc = (acc', rs) \<Longrightarrow>
    accumulator_ok validate (stake_table_entries (cm_stake_table membership)) acc'
    \<and> acc_upgrade_lock acc' = acc_upgrade_lock acc
    \<and> (\<forall>c. recorded acc' c = recorded acc c
          \<union> voters vote_commit validate membership (acc_upgrade_lock acc) votes c)
    \<and> list_all (good_outcome msv vote_commit membership (acc_upgrade_lock acc)) rs"
proof (induction votes arbitrary: acc rs)
  case Nil
  then show ?case by simp
next
  case (Cons vote votes)
  obtain acc1 r where s: "accumulate vote_commit validate aggregate vote membership acc = (acc1, r)"
    by fastforce
  obtain rs' where r: "accumulate_run vote_commit validate aggregate membership votes acc1 = (acc', rs')"
      "rs = r # rs'"
    using Cons.prems(2) s by (auto simp: Let_def split: prod.splits)
  note step = accumulate_step [OF mem agg Cons.prems(1) s]
  have "accumulator_ok validate (stake_table_entries (cm_stake_table membership)) acc1"
    using step by blast
  from Cons.IH [OF this r(1)] step r(2) show ?case by (auto simp: voters_def)
qed

lemma accumulate_run_snoc:
  "accumulate_run vote_commit validate aggregate membership (votes @ [v]) acc =
     (let (acc1, rs) = accumulate_run vote_commit validate aggregate membership votes acc;
          (acc2, r) = accumulate vote_commit validate aggregate v membership acc1
      in (acc2, rs @ [r]))"
  by (induction votes arbitrary: acc) (auto simp: Let_def split: prod.splits)

text \<open>
  C3: feeding any sequence of votes to a fresh accumulator never panics, and every certificate it
  hands out passes \<open>is_valid_cert\<close> against the same stake table, threshold and upgrade lock. The
  hypotheses are the consistency of the membership (it reports as many nodes as the table has and
  looks keys up correctly) and the completeness of the aggregate signature scheme.
\<close>

theorem accumulate_run_certificates_valid:
  assumes "cert_membership_ok membership"
    and "aggregate_complete validate aggregate multi_sig_verify"
    and "accumulate_run vote_commit validate aggregate membership votes (empty_accumulator lock)
           = (acc, outcomes)"
  shows "list_all (good_outcome multi_sig_verify vote_commit membership lock) outcomes"
  using accumulate_run_invariant [OF assms(1,2) accumulator_ok_empty assms(3)]
  by (simp add: empty_accumulator_def)

text \<open>
  after any sequence of votes the tally of a commitment is exactly the stake of the distinct
  members that cast a validly signed vote for it: repeated, forged and foreign votes count nothing.
\<close>

theorem accumulate_counts_each_member_once:
  assumes "cert_membership_ok membership"
    and "aggregate_complete validate aggregate multi_sig_verify"
    and "distinct (map stake_key (stake_table_entries (cm_stake_table membership)))"
    and "accumulate_run vote_commit validate aggregate membership votes (empty_accumulator lock)
           = (acc, outcomes)"
  shows "tally acc c = stake_of (voters vote_commit validate membership lock votes c)
           (stake_table_entries (cm_stake_table membership))"
proof -
  have inv: "accumulator_ok validate (stake_table_entries (cm_stake_table membership)) acc"
      "recorded acc c = voters vote_commit validate membership lock votes c"
    using accumulate_run_invariant [OF assms(1,2) accumulator_ok_empty assms(4)]
    by (simp_all add: empty_accumulator_def recorded_def)
  show ?thesis using tally_eq_stake_of_recorded [OF inv(1) assms(3)] inv(2) by simp
qed

text \<open>
  a vote produces a certificate if and only if it is the first valid vote of its key for its
  commitment and the stake of the distinct voters for that commitment, this vote included, reaches
  the threshold.
\<close>

theorem accumulate_certificate_iff_threshold:
  assumes mem: "cert_membership_ok membership"
    and agg: "aggregate_complete validate aggregate multi_sig_verify"
    and d: "distinct (map stake_key (stake_table_entries (cm_stake_table membership)))"
    and run: "accumulate_run vote_commit validate aggregate membership (votes @ [vote])
      (empty_accumulator lock) = (acc, outcomes)"
    and c: "c = vote_commit (vote_date vote) (vote_view_number vote)"
  shows "(\<exists>cert. last outcomes = Ok (Some cert)) \<longleftrightarrow>
     vote_signing_key vote \<in> voters vote_commit validate membership lock [vote] c
     \<and> vote_signing_key vote \<notin> voters vote_commit validate membership lock votes c
     \<and> cm_threshold membership \<le>
         stake_of (voters vote_commit validate membership lock (votes @ [vote]) c)
           (stake_table_entries (cm_stake_table membership))"
proof -
  let ?es = "stake_table_entries (cm_stake_table membership)"
  obtain acc1 rs r where
    run1: "accumulate_run vote_commit validate aggregate membership votes (empty_accumulator lock)
       = (acc1, rs)" and
    step: "accumulate vote_commit validate aggregate vote membership acc1 = (acc, r)"
    and out: "outcomes = rs @ [r]"
    using run by (auto simp: accumulate_run_snoc Let_def split: prod.splits)
  have inv: "accumulator_ok validate ?es acc1" "acc_upgrade_lock acc1 = lock"
      "recorded acc1 c = voters vote_commit validate membership lock votes c"
    using accumulate_run_invariant [OF mem agg accumulator_ok_empty run1]
    by (simp_all add: empty_accumulator_def recorded_def)
  have fin: "accumulator_ok validate ?es acc"
      "recorded acc c = voters vote_commit validate membership lock (votes @ [vote]) c"
    using accumulate_step [OF mem agg inv(1) step] inv(2,3) by (simp_all add: voters_snoc)
  show ?thesis
  proof (cases "vote_accepted vote_commit validate vote membership acc1")
    case False
    then have "r = Ok None"
      using accumulate_rejected [OF inv(1) False, of aggregate] step by auto
    then show ?thesis
      using False inv by (simp add: out vote_accepted_iff_voters Let_def c)
  next
    case True
    obtain t m where
      "vote_outcomes acc = (vote_outcomes acc1)(c \<mapsto> (t, m))"
      and r: "t < cm_threshold membership \<longrightarrow> r = Ok None"
        "cm_threshold membership \<le> t \<longrightarrow> (\<exists>cert. r = Ok (Some cert))"
      unfolding c by (rule accumulate_accepted_result [OF mem agg inv(1) True step]) blast
    then have "t = stake_of (voters vote_commit validate membership lock (votes @ [vote]) c) ?es"
      using tally_eq_stake_of_recorded [OF fin(1) d, of c] fin(2) by (simp add: tally_def)
    moreover have "(\<exists>cert. r = Ok (Some cert)) \<longleftrightarrow> cm_threshold membership \<le> t"
      using r by (cases "t < cm_threshold membership") (auto simp: not_less)
    ultimately show ?thesis
      using True inv by (simp add: out vote_accepted_iff_voters Let_def c)
  qed
qed

section \<open>A concrete signature scheme and committee\<close>

text \<open>
  An additive scheme over the naturals shows that the hypotheses on the signature scheme can hold:
  a signature is the key itself, an aggregate is the sum.
\<close>

definition sum_validate :: "nat \<Rightarrow> nat \<Rightarrow> commitment \<Rightarrow> bool" where
  "sum_validate k g c = (g = k)"

definition sum_aggregate :: "(nat, nat) aggregate_fn" where
  "sum_aggregate keys sigs = Ok (sum_list sigs)"

definition sum_multi_verify :: "(nat, nat) multi_verify_fn" where
  "sum_multi_verify keys m sig = (if sig = sum_list keys then Ok () else Err VerificationError)"

lemma sum_scheme_complete: "aggregate_complete sum_validate sum_aggregate sum_multi_verify"
  unfolding aggregate_complete_def
proof (intro allI impI, elim conjE)
  fix keys order sigs :: "nat list" and m
  assume "mset keys = mset order" "list_all2 (\<lambda>k g. sum_validate k g m) order sigs"
  then have "sum_list sigs = sum_list keys"
    by (metis (mono_tags, lifting) sum_mset_sum_list sum_validate_def list_all2_mono list_all2_eq)
  then show "\<exists>sig. sum_aggregate keys sigs = Ok sig \<and> sum_multi_verify keys m sig = Ok ()"
    by (simp add: sum_aggregate_def sum_multi_verify_def)
qed

definition sample_table :: "(nat, nat) HSStakeTable" where
  "sample_table = map (\<lambda>k. \<lparr>stake_table_entry = \<lparr>stake_key = k, stake_amount = 1\<rparr>,
     state_ver_key = k\<rparr>) [1, 2, 3, 4]"

definition sample_membership :: "(nat, nat) EpochMembership" where
  "sample_membership =
     \<lparr>em_epoch = Some 1, em_stake_table = sample_table, em_da_stake_table = sample_table,
      em_stake = (\<lambda>k. find (\<lambda>p. stake_key (stake_table_entry p) = k) sample_table),
      em_da_stake = (\<lambda>k. find (\<lambda>p. stake_key (stake_table_entry p) = k) sample_table),
      em_has_stake = (\<lambda>k. k \<in> {1, 2, 3, 4}), em_da_committee_members = (\<lambda>view. [1, 2, 3, 4]),
      em_total_nodes = 4, em_da_total_nodes = 4,
      em_success_threshold = 3, em_da_success_threshold = 3,
      em_failure_threshold = 2, em_upgrade_threshold = 4,
      em_leader = (\<lambda>view. Some (unat view mod 4 + 1))\<rparr>"

definition sample_lock :: "nat UpgradeLock" where
  "sample_lock = \<lparr>decided_upgrade_certificate = None,
     lock_versions = \<lparr>base_version = (0, 1), upgrade_version = (0, 2), epochs_version = (0, 3)\<rparr>\<rparr>"

definition sample_commit :: "u64 \<Rightarrow> u64 \<Rightarrow> commitment" where
  "sample_commit d v = ucast d + ucast v"

definition sample_vote :: "nat \<Rightarrow> (nat, nat, u64) SimpleVote" where
  "sample_vote k = \<lparr>vote_signing_key = k, vote_signature = k, vote_date = 7, vote_view_number = 5\<rparr>"

lemmas sample_defs = sample_table_def sample_membership_def sample_lock_def sample_commit_def
  sample_vote_def sum_validate_def sum_aggregate_def sum_multi_verify_def

lemma sample_cert_membership_ok:
  "cert_membership_ok (quorum_cert_membership SuccessThreshold sample_membership)"
  by (auto simp: cert_membership_ok_def quorum_cert_membership_def sample_membership_def
      sample_table_def split: if_splits)

lemma sample_distinct: 
  "distinct (map stake_key (stake_table_entries (cm_stake_table
     (quorum_cert_membership SuccessThreshold sample_membership))))"
  by (simp add: quorum_cert_membership_def sample_defs stake_table_entries_def)

definition sample_run where
  "sample_run ks = accumulate_run sample_commit sum_validate sum_aggregate
     (quorum_cert_membership SuccessThreshold sample_membership) (map sample_vote ks)
     (empty_accumulator sample_lock)"


lemma sample_run_pair:
  "accumulate_run sample_commit sum_validate sum_aggregate
     (quorum_cert_membership SuccessThreshold sample_membership) (map sample_vote ks)
     (empty_accumulator sample_lock) = (fst (sample_run ks), snd (sample_run ks))"
  by (simp add: sample_run_def)

lemma sample_run_outcomes:
  "map (case_sum (\<lambda>_. None) (Some \<circ> map_option cert_signatures)) (snd (sample_run [1, 2, 1, 4]))
     = [Some None, Some None, Some None, Some (Some (Some (7, [True, True, False, True])))]"
  by code_simp

theorem accumulate_run_certificates_valid_witness:
  "list_all (good_outcome sum_multi_verify sample_commit
     (quorum_cert_membership SuccessThreshold sample_membership) sample_lock)
     (snd (sample_run [1, 2, 1, 4]))
   \<and> length (snd (sample_run [1, 2, 1, 4])) = 4"
proof -
  have "length (snd (sample_run [1, 2, 1, 4])) = 4"
    using arg_cong [OF sample_run_outcomes, of length] by simp
  then show ?thesis
    using accumulate_run_certificates_valid [OF sample_cert_membership_ok sum_scheme_complete
        sample_run_pair] by blast
qed

theorem accumulate_counts_each_member_once_witness:
  "tally (fst (sample_run [1, 2, 1, 4])) 12 = 3"
proof -
  have "voters sample_commit sum_validate (quorum_cert_membership SuccessThreshold sample_membership)
      sample_lock (map sample_vote [1, 2, 1, 4]) 12 = {1, 2, 4}"
    by (auto simp: voters_def sample_defs lock_version_def quorum_cert_membership_def)
  then show ?thesis
    using accumulate_counts_each_member_once [OF sample_cert_membership_ok sum_scheme_complete
        sample_distinct sample_run_pair, of "[1, 2, 1, 4]" 12]
    by (simp add: stake_of_def quorum_cert_membership_def stake_table_entries_def sample_defs)
qed

theorem accumulate_certificate_iff_threshold_witness:
  "\<exists>cert. last (snd (sample_run [1, 2, 1, 4])) = Ok (Some cert)"
proof -
  have run: "accumulate_run sample_commit sum_validate sum_aggregate
     (quorum_cert_membership SuccessThreshold sample_membership)
     (map sample_vote [1, 2, 1] @ [sample_vote 4])
     (empty_accumulator sample_lock) = (fst (sample_run [1, 2, 1, 4]), snd (sample_run [1, 2, 1, 4]))"
    using sample_run_pair [of "[1, 2, 1, 4]"] by simp
  have c: "12 = sample_commit (vote_date (sample_vote 4)) (vote_view_number (sample_vote 4))"
    by (simp add: sample_defs)
  show ?thesis
    using accumulate_certificate_iff_threshold [OF sample_cert_membership_ok sum_scheme_complete
        sample_distinct run c]
    by (simp add: stake_of_def quorum_cert_membership_def stake_table_entries_def sample_defs
        voters_def lock_version_def threshold_of_def)
qed


section \<open>Light-client certificates\<close>

definition state_stake_of :: "'s set \<Rightarrow> ('k, 's) HSStakeTable \<Rightarrow> u256" where
  "state_stake_of ks table =
     sum_list (map (\<lambda>p. stake_amount (stake_table_entry p))
       (filter (\<lambda>p. state_ver_key p \<in> ks) table))"

lemma state_key_map_foldl:
  "foldl (\<lambda>m config. m(state_ver_key config \<mapsto> stake_amount (stake_table_entry config))) m table
   = m ++ map_of (map (\<lambda>p. (state_ver_key p, stake_amount (stake_table_entry p))) (rev table))"
  by (induction table arbitrary: m) (auto simp: map_add_def fun_eq_iff split: option.splits)

lemma state_key_map_distinct:
  assumes "distinct (map state_ver_key table)"
  shows "state_key_map table =
    map_of (map (\<lambda>p. (state_ver_key p, stake_amount (stake_table_entry p))) table)"
proof -
  have "map_of (rev (map (\<lambda>p. (state_ver_key p, stake_amount (stake_table_entry p))) table)) =
      map_of (map (\<lambda>p. (state_ver_key p, stake_amount (stake_table_entry p))) table)"
    using assms by (intro map_of_inject_set [THEN iffD2]) (auto simp: comp_def rev_map [symmetric])
  then show ?thesis by (simp add: state_key_map_def state_key_map_foldl rev_map)
qed

lemma accumulate_state_sigs_Ok:
  "accumulate_state_sigs verify keys lcs sts a sigs = Ok r \<longleftrightarrow>
     (\<forall>(k, g) \<in> set sigs. keys k \<noteq> None \<and> verify k g lcs sts)
     \<and> r = a + sum_list (map (\<lambda>(k, g). the (keys k)) sigs)"
proof (induction sigs arbitrary: a)
  case (Cons x sigs)
  obtain k g where "x = (k, g)" by (cases x)
  then show ?case using Cons.IH by (auto split: option.splits simp: add.assoc)
qed auto

lemma sum_list_distinct_stake:
  assumes t: "distinct (map state_ver_key table)" and s: "distinct ks"
    and sub: "set ks \<subseteq> state_ver_key ` set table"
  shows "sum_list (map (\<lambda>k. the (state_key_map table k)) ks) = state_stake_of (set ks) table"
  using t s sub
proof (induction ks)
  case Nil
  then show ?case by (simp add: state_stake_of_def)
next
  case (Cons k ks)
  have split: "state_stake_of (insert k (set ks)) table =
      state_stake_of {k} table + state_stake_of (set ks) table"
    using Cons.prems(2) unfolding state_stake_of_def by (induction table) auto
  obtain p where p: "p \<in> set table" "state_ver_key p = k" using Cons.prems by auto
  have "filter (\<lambda>q. state_ver_key q \<in> {k}) table = [p]"
    using p Cons.prems(1)
    by (induction table) (auto simp: filter_empty_conv image_iff)
  then have "state_stake_of {k} table = stake_amount (stake_table_entry p)"
    by (simp add: state_stake_of_def)
  moreover have "state_key_map table k = Some (stake_amount (stake_table_entry p))"
    using p Cons.prems(1) by (auto simp: state_key_map_distinct comp_def intro!: map_of_is_SomeI)
  ultimately show ?case using Cons split by simp
qed

lemma light_client_cert_accepts:
  assumes t: "distinct (map state_ver_key (em_stake_table membership))"
    and d: "distinct (map fst (lcc_signatures cert))"
  shows "validate_light_client_state_update_certificate verify_state_sig cert membership = Ok () \<longleftrightarrow>
     (\<forall>(k, g) \<in> set (lcc_signatures cert). k \<in> state_ver_key ` set (em_stake_table membership)
        \<and> verify_state_sig k g (lcc_light_client_state cert) (lcc_next_stake_table_state cert))
     \<and> em_success_threshold membership
         \<le> state_stake_of (fst ` set (lcc_signatures cert)) (em_stake_table membership)"
proof -
  let ?t = "em_stake_table membership" and ?s = "lcc_signatures cert"
  have dom: "state_key_map ?t k \<noteq> None \<longleftrightarrow> k \<in> state_ver_key ` set ?t" for k
    using t by (auto simp: state_key_map_distinct map_of_eq_None_iff image_iff)
  have sum: "sum_list (map (\<lambda>(k, g). the (state_key_map ?t k)) ?s)
      = state_stake_of (fst ` set ?s) ?t"
    if "\<forall>(k, g) \<in> set ?s. k \<in> state_ver_key ` set ?t"
  proof -
    have eq: "map (\<lambda>(k, g). the (state_key_map ?t k)) ?s = map (\<lambda>k. the (state_key_map ?t k)) (map fst ?s)"
      by auto
    have "set (map fst ?s) \<subseteq> state_ver_key ` set ?t" using that by auto
    from sum_list_distinct_stake [OF t d this] show ?thesis by (simp only: eq set_map)
  qed
  have "validate_light_client_state_update_certificate verify_state_sig cert membership = Ok () \<longleftrightarrow>
     (\<forall>(k, g) \<in> set ?s. state_key_map ?t k \<noteq> None
        \<and> verify_state_sig k g (lcc_light_client_state cert) (lcc_next_stake_table_state cert))
     \<and> em_success_threshold membership \<le> sum_list (map (\<lambda>(k, g). the (state_key_map ?t k)) ?s)"
    unfolding validate_light_client_state_update_certificate_def
    by (simp add: try_bind_Inr_iff accumulate_state_sigs_Ok not_less) (meson leD)
  then show ?thesis unfolding dom using sum by (auto simp: case_prod_beta)
qed

text \<open>
  C31: \<open>validate_light_client_state_update_certificate\<close> adds the stake of a key once per occurrence
  in the signature list: a certificate that repeats the one valid signature of a single member often
  enough is accepted, whatever share of the stake that member holds.
\<close>

theorem light_client_cert_repeated_signature_accepted:
  assumes k: "config \<in> set (em_stake_table membership)"
    and t: "distinct (map state_ver_key (em_stake_table membership))"
    and s: "verify_state_sig (state_ver_key config) g lcs sts"
    and n: "n * unat (stake_amount (stake_table_entry config)) < 2 ^ 256"
      "unat (em_success_threshold membership) \<le> n * unat (stake_amount (stake_table_entry config))"
  shows "validate_light_client_state_update_certificate verify_state_sig
     \<lparr>lcc_epoch = e, lcc_light_client_state = lcs, lcc_next_stake_table_state = sts,
      lcc_signatures = replicate n (state_ver_key config, g)\<rparr> membership = Ok ()"
proof -
  let ?st = "stake_amount (stake_table_entry config)"
  have m: "state_key_map (em_stake_table membership) (state_ver_key config) = Some ?st"
    using k t by (auto simp: state_key_map_distinct comp_def intro!: map_of_is_SomeI)
  have "unat (sum_list (replicate n ?st)) = n * unat ?st"
    using unat_sum_list_no_overflow [of "replicate n ?st"] n(1)
    by (simp add: sum_list_replicate map_replicate_const)
  then have "em_success_threshold membership \<le> sum_list (replicate n ?st)"
    using n(2) by (simp add: word_le_nat_alt)
  then show ?thesis
    using m s by (auto simp: validate_light_client_state_update_certificate_def try_bind_Inr_iff
        accumulate_state_sigs_Ok not_less map_replicate_const)
qed


fun lc_run ::
  "('s \<Rightarrow> 'q \<Rightarrow> 'l \<Rightarrow> 't \<Rightarrow> bool) \<Rightarrow> ('k, 's) EpochMembership
     \<Rightarrow> ('k \<times> ('l, 't, 'q) LightClientStateUpdateVote) list \<Rightarrow> ('s, 'l, 't, 'q) LCAccumulator
     \<Rightarrow> ('s, 'l, 't, 'q) LCAccumulator
          \<times> ('s, 'l, 't, 'q) LightClientStateUpdateCertificate option list" where
  "lc_run verify_state_sig membership [] acc = (acc, [])"
| "lc_run verify_state_sig membership ((key, vote) # votes) acc =
     (let (acc1, r) = lc_accumulate verify_state_sig key vote membership acc;
          (acc2, rs) = lc_run verify_state_sig membership votes acc1
      in (acc2, r # rs))"

definition lc_ok ::
  "('s \<Rightarrow> 'q \<Rightarrow> 'l \<Rightarrow> 't \<Rightarrow> bool) \<Rightarrow> ('k, 's) HSStakeTable \<Rightarrow> ('s, 'l, 't, 'q) LCAccumulator \<Rightarrow> bool" where
  "lc_ok verify_state_sig table acc \<longleftrightarrow>
     (\<forall>lcs sts total sigs. acc (lcs, sts) = Some (total, sigs) \<longrightarrow>
        distinct (map fst sigs) \<and> total = state_stake_of (fst ` set sigs) table
        \<and> (\<forall>(k, g) \<in> set sigs. k \<in> state_ver_key ` set table \<and> verify_state_sig k g lcs sts))"

lemma state_stake_of_insert:
  assumes "distinct (map state_ver_key table)" "p \<in> set table" "state_ver_key p \<notin> ks"
  shows "state_stake_of (insert (state_ver_key p) ks) table =
    state_stake_of ks table + stake_amount (stake_table_entry p)"
  using assms
proof (induction table)
  case (Cons q table)
  have "state_stake_of (insert (state_ver_key p) ks) table = state_stake_of ks table"
    if "state_ver_key p \<notin> state_ver_key ` set table"
    unfolding state_stake_of_def using that
    by (intro arg_cong [where f = "\<lambda>xs. sum_list (map _ xs)"] filter_cong)
       (auto simp: image_iff)
  with Cons show ?case
    by (auto simp: state_stake_of_def algebra_simps)
qed simp

lemma lc_accumulate_step:
  assumes t: "distinct (map state_ver_key (em_stake_table membership))"
    and mem: "\<forall>k config. em_stake membership k = Some config \<longrightarrow>
      config \<in> set (em_stake_table membership)"
    and ok: "lc_ok verify (em_stake_table membership) acc"
    and run: "lc_accumulate verify key vote membership acc = (acc', r)"
  shows "lc_ok verify (em_stake_table membership) acc' \<and>
    (\<forall>cert sigs. r = Some cert \<and> mset sigs = mset (lcc_signatures cert) \<longrightarrow>
       validate_light_client_state_update_certificate verify (cert\<lparr>lcc_signatures := sigs\<rparr>) membership
         = Ok ())"
proof -
  let ?t = "em_stake_table membership"
  let ?l = "lcv_light_client_state vote" and ?s = "lcv_next_stake_table_state vote"
  show ?thesis
  proof (cases "r = None \<and> acc' = acc \<or> em_epoch membership = None \<or> em_stake membership key = None")
    case True
    then show ?thesis using run ok by (auto simp: lc_accumulate_def split: option.splits)
  next
    case False
    then obtain config epoch where c: "em_stake membership key = Some config"
        "em_epoch membership = Some epoch" by auto
    then have ct: "config \<in> set ?t" using mem by blast
    let ?k = "state_ver_key config"
    have v: "verify ?k (lcv_signature vote) ?l ?s"
      using False run c by (auto simp: lc_accumulate_def Let_def split: if_splits)
    obtain total sigs where o: "(case acc (?l, ?s) of Some o1 \<Rightarrow> o1 | None \<Rightarrow> (0, [])) = (total, sigs)"
      by fastforce
    have inv: "distinct (map fst sigs)" "total = state_stake_of (fst ` set sigs) ?t"
        "\<forall>(k, g) \<in> set sigs. k \<in> state_ver_key ` set ?t \<and> verify k g ?l ?s"
      using o ok by (auto simp: lc_ok_def state_stake_of_def split: option.splits)
    show ?thesis
    proof (cases "map_of sigs ?k = None")
      case False
      then have "r = None" "acc' = acc((?l, ?s) \<mapsto> (total, sigs))"
        using run c v o by (auto simp: lc_accumulate_def Let_def)
      then show ?thesis using ok inv by (auto simp: lc_ok_def)
    next
      case new: True
      let ?sigs = "sigs @ [(?k, lcv_signature vote)]"
      have nk: "?k \<notin> fst ` set sigs" using new by (simp add: map_of_eq_None_iff)
      have inv': "distinct (map fst ?sigs)"
          "\<forall>(k, g) \<in> set ?sigs. k \<in> state_ver_key ` set ?t \<and> verify k g ?l ?s"
          "total + stake_amount (stake_table_entry config) = state_stake_of (fst ` set ?sigs) ?t"
        using inv nk v ct t by (auto simp: state_stake_of_insert)
      have res: "acc' = acc((?l, ?s) \<mapsto> (state_stake_of (fst ` set ?sigs) ?t, ?sigs))"
        "r = (if em_success_threshold membership \<le> state_stake_of (fst ` set ?sigs) ?t then
           Some \<lparr>lcc_epoch = epoch, lcc_light_client_state = ?l,
             lcc_next_stake_table_state = ?s, lcc_signatures = ?sigs\<rparr> else None)"
        using run c v o new by (auto simp: lc_accumulate_def Let_def inv'(3) split: if_splits)
      have "validate_light_client_state_update_certificate verify
          \<lparr>lcc_epoch = epoch, lcc_light_client_state = ?l, lcc_next_stake_table_state = ?s,
           lcc_signatures = sg\<rparr> membership = Ok ()"
        if "em_success_threshold membership \<le> state_stake_of (fst ` set ?sigs) ?t"
          "mset sg = mset ?sigs" for sg
      proof -
        have "distinct (map fst sg)" "set sg = set ?sigs"
          using that(2) inv'(1) by (metis mset_map mset_eq_imp_distinct_iff, metis set_mset_mset)
        then show ?thesis
          using that(1) inv'(2) by (subst light_client_cert_accepts [OF t]) simp_all
      qed
      then show ?thesis using res inv' ok by (auto simp: lc_ok_def)
    qed
  qed
qed


lemma lc_run_invariant:
  assumes t: "distinct (map state_ver_key (em_stake_table membership))"
    and mem: "\<forall>k config. em_stake membership k = Some config \<longrightarrow>
      config \<in> set (em_stake_table membership)"
  shows "lc_ok verify (em_stake_table membership) acc \<Longrightarrow>
    lc_run verify membership votes acc = (acc', rs) \<Longrightarrow> Some cert \<in> set rs \<Longrightarrow>
    mset sigs = mset (lcc_signatures cert) \<Longrightarrow>
    validate_light_client_state_update_certificate verify (cert\<lparr>lcc_signatures := sigs\<rparr>) membership
      = Ok ()"
proof (induction votes arbitrary: acc rs)
  case (Cons kv votes)
  obtain key vote where kv: "kv = (key, vote)" by (cases kv)
  obtain acc1 r where s: "lc_accumulate verify key vote membership acc = (acc1, r)" by fastforce
  obtain rs' where r: "lc_run verify membership votes acc1 = (acc', rs')" "rs = r # rs'"
    using Cons.prems(2) s kv by (auto simp: Let_def split: prod.splits)
  note step = lc_accumulate_step [OF t mem Cons.prems(1) s]
  show ?case
  proof (cases "r = Some cert")
    case True
    then show ?thesis using step Cons.prems(4) by blast
  next
    case False
    then show ?thesis using Cons.IH [of acc1 rs'] step r Cons.prems(3,4) by auto
  qed
qed simp

text \<open>
  every certificate that \<open>LightClientStateUpdateVoteAccumulator\<close> emits is accepted by
  \<open>validate_light_client_state_update_certificate\<close>, in whatever order the signature map is listed.
\<close>

theorem light_client_accumulated_cert_valid:
  assumes "distinct (map state_ver_key (em_stake_table membership))"
    and "\<forall>k config. em_stake membership k = Some config \<longrightarrow>
      config \<in> set (em_stake_table membership)"
    and "lc_run verify_state_sig membership votes Map.empty = (acc, certs)"
    and "Some cert \<in> set certs"
    and "mset sigs = mset (lcc_signatures cert)"
  shows "validate_light_client_state_update_certificate verify_state_sig
     (cert\<lparr>lcc_signatures := sigs\<rparr>) membership = Ok ()"
  by (rule lc_run_invariant [OF assms(1,2) _ assms(3-5)]) (simp add: lc_ok_def)

text \<open>
  on a certificate without repeated keys the check accepts exactly when all signatures are
  valid signatures of members and the signers hold the success threshold of stake.
\<close>

theorem light_client_cert_accepts_iff:
  assumes "distinct (map state_ver_key (em_stake_table membership))"
    and "distinct (map fst (lcc_signatures cert))"
  shows "validate_light_client_state_update_certificate verify_state_sig cert membership = Ok () \<longleftrightarrow>
     (\<forall>(k, g) \<in> set (lcc_signatures cert). k \<in> state_ver_key ` set (em_stake_table membership)
        \<and> verify_state_sig k g (lcc_light_client_state cert) (lcc_next_stake_table_state cert))
     \<and> em_success_threshold membership
         \<le> state_stake_of (fst ` set (lcc_signatures cert)) (em_stake_table membership)"
  using assms by (rule light_client_cert_accepts)

definition sample_verify_state_sig :: "nat \<Rightarrow> nat \<Rightarrow> u64 \<Rightarrow> u64 \<Rightarrow> bool" where
  "sample_verify_state_sig k g l t = (g = k + unat l + unat t)"

definition sample_lc_cert :: "(nat \<times> nat) list \<Rightarrow> (nat, u64, u64, nat) LightClientStateUpdateCertificate" where
  "sample_lc_cert sigs = \<lparr>lcc_epoch = 1, lcc_light_client_state = 8, lcc_next_stake_table_state = 9,
     lcc_signatures = sigs\<rparr>"

definition sample_lc_vote :: "nat \<Rightarrow> nat \<times> (u64, u64, nat) LightClientStateUpdateVote" where
  "sample_lc_vote k = (k, \<lparr>lcv_epoch = 1, lcv_light_client_state = 8,
     lcv_next_stake_table_state = 9, lcv_signature = k + 17\<rparr>)"

lemma sample_state_keys_distinct: "distinct (map state_ver_key (em_stake_table sample_membership))"
  by (simp add: sample_defs)

lemma sample_stake_in_table:
  "\<forall>k config. em_stake sample_membership k = Some config \<longrightarrow>
     config \<in> set (em_stake_table sample_membership)"
  by (auto simp: sample_membership_def find_Some_iff)

lemma sample_lc_run:
  "snd (lc_run sample_verify_state_sig sample_membership
     (map sample_lc_vote [1, 1, 4, 2]) Map.empty)
   = [None, None, None, Some (sample_lc_cert [(1, 18), (4, 21), (2, 19)])]"
  by code_simp

theorem light_client_accumulated_cert_valid_witness:
  "validate_light_client_state_update_certificate sample_verify_state_sig
     (sample_lc_cert [(2, 19), (1, 18), (4, 21)]) sample_membership = Ok ()"
proof -
  let ?cert = "sample_lc_cert [(1, 18), (4, 21), (2, 19)]"
  have "lc_run sample_verify_state_sig sample_membership (map sample_lc_vote [1, 1, 4, 2]) Map.empty
      = (fst (lc_run sample_verify_state_sig sample_membership (map sample_lc_vote [1, 1, 4, 2]) Map.empty),
         [None, None, None, Some ?cert])"
    using sample_lc_run by (metis prod.collapse)
  from light_client_accumulated_cert_valid [OF sample_state_keys_distinct sample_stake_in_table this,
      of ?cert "[(2, 19), (1, 18), (4, 21)]"]
  show ?thesis by (simp add: sample_lc_cert_def)
qed

theorem light_client_cert_accepts_iff_witness:
  "validate_light_client_state_update_certificate sample_verify_state_sig
     (sample_lc_cert [(2, 19), (1, 18), (4, 21)]) sample_membership = Ok ()
   \<and> validate_light_client_state_update_certificate sample_verify_state_sig
     (sample_lc_cert [(2, 19), (1, 18)]) sample_membership \<noteq> Ok ()"
  using light_client_cert_accepts_iff [OF sample_state_keys_distinct,
      of "sample_lc_cert [(2, 19), (1, 18), (4, 21)]" sample_verify_state_sig]
    light_client_cert_accepts_iff [OF sample_state_keys_distinct,
      of "sample_lc_cert [(2, 19), (1, 18)]" sample_verify_state_sig]
  by (simp add: sample_lc_cert_def sample_verify_state_sig_def state_stake_of_def sample_defs)

theorem light_client_cert_repeated_signature_accepted_witness:
  "validate_light_client_state_update_certificate sample_verify_state_sig
     (sample_lc_cert [(1, 18), (1, 18), (1, 18)]) sample_membership = Ok ()"
  using light_client_cert_repeated_signature_accepted [OF _ sample_state_keys_distinct,
      of "sample_table ! 0" sample_verify_state_sig 18 8 9 3 1]
  by (simp add: sample_lc_cert_def sample_verify_state_sig_def sample_defs numeral_3_eq_3)

end
