(* ===== verification/Drb.thy ===== *)
theory Drb
  imports Stake_Table "HOL-Library.List_Lexorder" "HOL-Library.Multiset"
begin

text \<open>
  The distributed random beacon and the stake-weighted leader election
  (\<open>crates/hotshot/types/src/drb.rs\<close>). SHA-256 and SHA-512 are parameters on byte lists, and so are
  the storage callbacks that load and save the progress of a computation. A Rust panic is \<open>None\<close>.
\<close>

unbundle bit_operations_syntax

section \<open>Computing the beacon\<close>

record DrbInput =
  drb_epoch :: u64
  drb_iteration :: u64
  drb_value :: "u8 list"
  drb_difficulty_level :: u64

definition DRB_CHECKPOINT_INTERVAL :: u64 where
  "DRB_CHECKPOINT_INTERVAL = 1000000"

definition INITIAL_DRB_RESULT :: "u8 list" where
  "INITIAL_DRB_RESULT = replicate 32 0"

definition KEEP_PREVIOUS_RESULT_COUNT :: u64 where
  "KEEP_PREVIOUS_RESULT_COUNT = 8"

text \<open>\<open>copy_from_slice\<close> into a 32-byte array panics on any other length.\<close>

definition copy_32 :: "u8 list \<Rightarrow> u8 list option" where
  "copy_32 bytes = (if length bytes = 32 then Some bytes else None)"

fun hash_loop :: "('b \<Rightarrow> 'b) \<Rightarrow> nat \<Rightarrow> 'b \<Rightarrow> 'b" where
  "hash_loop sha256 0 hash = hash"
| "hash_loop sha256 (Suc n) hash = hash_loop sha256 n (sha256 hash)"

text \<open>
  One round of the checkpoint loop hashes \<open>DRB_CHECKPOINT_INTERVAL\<close> times and hands the new progress
  to the storage; the list collects what is handed over.
\<close>

fun checkpoint_loop ::
  "(u8 list \<Rightarrow> u8 list) \<Rightarrow> u64 \<Rightarrow> u64 \<Rightarrow> nat \<Rightarrow> u8 list \<Rightarrow> u64 \<Rightarrow> DrbInput list
     \<Rightarrow> (u8 list \<times> u64 \<times> DrbInput list) option" where
  "checkpoint_loop sha256 epoch difficulty 0 hash iteration stored = Some (hash, iteration, stored)"
| "checkpoint_loop sha256 epoch difficulty (Suc n) hash iteration stored =
     (let hash' = hash_loop sha256 (unat DRB_CHECKPOINT_INTERVAL) hash in
      case copy_32 hash' of
        None \<Rightarrow> None
      | Some partial_drb_result \<Rightarrow>
         (let iteration' = iteration + DRB_CHECKPOINT_INTERVAL in
          checkpoint_loop sha256 epoch difficulty n hash' iteration'
            (stored @ [\<lparr>drb_epoch = epoch, drb_iteration = iteration',
                        drb_value = partial_drb_result, drb_difficulty_level = difficulty\<rparr>])))"

definition compute_drb_result ::
  "(u8 list \<Rightarrow> u8 list) \<Rightarrow> (u64 \<Rightarrow> DrbInput option) \<Rightarrow> DrbInput
     \<Rightarrow> (DrbInput list \<times> u8 list) option" where
  "compute_drb_result sha256 load_drb_progress drb_input0 =
     (let drb_input =
            (case load_drb_progress (drb_epoch drb_input0) of
               Some loaded \<Rightarrow>
                 (if drb_iteration loaded \<ge> drb_iteration drb_input0 then loaded else drb_input0)
             | None \<Rightarrow> drb_input0);
          iteration = drb_iteration drb_input
      in case checked_sub (drb_difficulty_level drb_input) iteration of
           None \<Rightarrow> None
         | Some remaining_iterations \<Rightarrow>
            (let final_checkpoint = remaining_iterations div DRB_CHECKPOINT_INTERVAL in
             case checkpoint_loop sha256 (drb_epoch drb_input) (drb_difficulty_level drb_input)
                    (unat final_checkpoint) (drb_value drb_input) iteration [] of
               None \<Rightarrow> None
             | Some (hash, final_checkpoint_iteration, stored) \<Rightarrow>
                 map_option (\<lambda>drb_result. (stored, drb_result))
                   (copy_32 (hash_loop sha256
                      (unat (drb_difficulty_level drb_input) - unat final_checkpoint_iteration)
                      hash))))"

section \<open>Stored results\<close>

type_synonym DrbResults = "(u64, u8 list) btree"

definition drb_results_new :: DrbResults where
  "drb_results_new = [(1, INITIAL_DRB_RESULT), (2, INITIAL_DRB_RESULT)]"

definition store_result :: "u64 \<Rightarrow> u8 list \<Rightarrow> DrbResults \<Rightarrow> DrbResults" where
  "store_result epoch result results = bt_insert epoch result results"

definition drb_garbage_collect :: "u64 \<Rightarrow> DrbResults \<Rightarrow> DrbResults" where
  "drb_garbage_collect epoch results =
     (if epoch < KEEP_PREVIOUS_RESULT_COUNT then results
      else bt_split_off (epoch - KEEP_PREVIOUS_RESULT_COUNT) results)"

section \<open>Leader election\<close>

definition cyclic_xor :: "u8 list \<Rightarrow> u8 list \<Rightarrow> u8 list" where
  "cyclic_xor drb public_key =
     map (\<lambda>(i, public_key_byte). public_key_byte XOR drb ! (i mod length drb))
       (enumerate 0 public_key)"

record 'k RandomizedCommittee =
  cdf :: "('k StakeTableEntry \<times> u256) list"
  stake_table_hash :: "u8 list"
  committee_drb :: "u8 list"

fun stake_cdf :: "u256 \<Rightarrow> 'k StakeTableEntry list \<Rightarrow> ('k StakeTableEntry \<times> u256) list" where
  "stake_cdf cumulative_stake [] = []"
| "stake_cdf cumulative_stake (entry # rest) =
     (let cumulative_stake' = cumulative_stake + stake_amount entry in
      (entry, cumulative_stake') # stake_cdf cumulative_stake' rest)"

definition generate_stake_cdf ::
  "(u8 list \<Rightarrow> u8 list) \<Rightarrow> ('k \<Rightarrow> u8 list) \<Rightarrow> 'k StakeTableEntry list \<Rightarrow> u8 list
     \<Rightarrow> 'k RandomizedCommittee" where
  "generate_stake_cdf sha256 to_bytes stake_table drb =
     (let sorted_table = sort_key (\<lambda>e. cyclic_xor drb (to_bytes (stake_key e))) stake_table in
      \<lparr>cdf = stake_cdf 0 sorted_table,
       stake_table_hash = sha256 (concat (map (\<lambda>e. to_bytes (stake_key e)) sorted_table)),
       committee_drb = drb\<rparr>)"

text \<open>
  \<open>partition_point\<close> on a slice that the predicate partitions: the number of leading elements that
  satisfy it. \<open>cdf[index]\<close> panics past the end, \<open>last().unwrap()\<close> on the empty table and \<open>%\<close> on a
  zero total.
\<close>

definition partition_point :: "('a \<Rightarrow> bool) \<Rightarrow> 'a list \<Rightarrow> nat" where
  "partition_point P xs = length (takeWhile P xs)"

definition leader_index :: "('k StakeTableEntry \<times> u256) list \<Rightarrow> u256 \<Rightarrow> nat" where
  "leader_index cdf' breakpoint =
     partition_point (\<lambda>(_, cumulative_stake). breakpoint \<ge> cumulative_stake) cdf'"

definition select_randomized_leader ::
  "(u8 list \<Rightarrow> u8 list) \<Rightarrow> 'k RandomizedCommittee \<Rightarrow> u64 \<Rightarrow> 'k StakeTableEntry option" where
  "select_randomized_leader sha512 randomized_committee view =
     (let cdf' = cdf randomized_committee;
          raw_breakpoint = sha512 (committee_drb randomized_committee @ to_le_bytes 8 view
                                     @ stake_table_hash randomized_committee)
      in if cdf' = [] then None
         else if snd (last cdf') = 0 then None
         else
          (let remainder = (from_le_bytes raw_breakpoint :: u512) mod ucast (snd (last cdf'));
               breakpoint = (ucast remainder :: u256);
               index = leader_index cdf' breakpoint
           in if index < length cdf' then Some (fst (cdf' ! index)) else None))"

section \<open>The beacon is an iterated hash\<close>

lemma hash_loop_funpow: "hash_loop f n h = (f ^^ n) h"
  by (induction n arbitrary: h) (simp_all add: funpow_swap1)

lemma funpow_length:
  fixes f :: "'b list \<Rightarrow> 'b list"
  assumes "\<And>x. length (f x) = k" "length h = k"
  shows "length ((f ^^ n) h) = k"
  using assms by (induction n) simp_all

lemma checkpoint_loop_result:
  assumes sha: "\<And>x. length (sha256 x) = 32" and len: "length hash = 32"
    and fits: "unat it + n * unat DRB_CHECKPOINT_INTERVAL < 2 ^ 64"
  shows "checkpoint_loop sha256 epoch difficulty n hash it stored =
    Some ((sha256 ^^ (n * unat DRB_CHECKPOINT_INTERVAL)) hash,
      it + of_nat n * DRB_CHECKPOINT_INTERVAL,
      stored @ map (\<lambda>k. \<lparr>drb_epoch = epoch, drb_iteration = it + of_nat k * DRB_CHECKPOINT_INTERVAL,
        drb_value = (sha256 ^^ (k * unat DRB_CHECKPOINT_INTERVAL)) hash,
        drb_difficulty_level = difficulty\<rparr>) [1..<Suc n])"
  using len fits
proof (induction n arbitrary: hash it stored)
  case 0
  then show ?case by simp
next
  case (Suc n)
  let ?d = "unat DRB_CHECKPOINT_INTERVAL"
  let ?h = "(sha256 ^^ ?d) hash"
  have len: "length ?h = 32" by (rule funpow_length [OF sha Suc.prems(1)])
  have it: "unat (it + DRB_CHECKPOINT_INTERVAL) = unat it + ?d"
    using Suc.prems(2) by (intro unat_add_no_overflow) simp
  have fits: "unat (it + DRB_CHECKPOINT_INTERVAL) + n * ?d < 2 ^ 64"
    using Suc.prems(2) it by simp
  have pow: "(sha256 ^^ (k * ?d)) ?h = (sha256 ^^ (Suc k * ?d)) hash" for k
    by (simp add: funpow_add add.commute [of ?d])
  have upt: "[1..<Suc (Suc n)] = 1 # map Suc [1..<Suc n]"
    by (simp add: upt_conv_Cons map_Suc_upt del: upt_Suc)
  have word: "it + DRB_CHECKPOINT_INTERVAL + of_nat k * DRB_CHECKPOINT_INTERVAL
      = it + of_nat (Suc k) * DRB_CHECKPOINT_INTERVAL" for k
    by (simp add: distrib_right add.assoc)
  have "checkpoint_loop sha256 epoch difficulty (Suc n) hash it stored =
      checkpoint_loop sha256 epoch difficulty n ?h (it + DRB_CHECKPOINT_INTERVAL)
        (stored @ [\<lparr>drb_epoch = epoch, drb_iteration = it + DRB_CHECKPOINT_INTERVAL,
          drb_value = ?h, drb_difficulty_level = difficulty\<rparr>])"
    by (simp add: hash_loop_funpow copy_32_def len Let_def)
  then show ?case
    unfolding Suc.IH [OF len fits] pow word upt by (simp add: comp_def del: upt_Suc)
qed


definition drb_start :: "(u64 \<Rightarrow> DrbInput option) \<Rightarrow> DrbInput \<Rightarrow> DrbInput" where
  "drb_start load input =
     (case load (drb_epoch input) of
        Some loaded \<Rightarrow> (if drb_iteration loaded \<ge> drb_iteration input then loaded else input)
      | None \<Rightarrow> input)"

lemma compute_drb_result_eq:
  assumes sha: "\<And>x. length (sha256 x) = 32"
    and len: "length (drb_value (drb_start load input)) = 32"
    and le: "drb_iteration (drb_start load input) \<le> drb_difficulty_level (drb_start load input)"
  shows "compute_drb_result sha256 load input =
    (let s = drb_start load input;
         n = unat (drb_difficulty_level s) - unat (drb_iteration s)
     in Some (map (\<lambda>k. s\<lparr>drb_iteration := drb_iteration s + of_nat k * DRB_CHECKPOINT_INTERVAL,
                         drb_value := (sha256 ^^ (k * unat DRB_CHECKPOINT_INTERVAL)) (drb_value s)\<rparr>)
                [1..<Suc (n div unat DRB_CHECKPOINT_INTERVAL)],
              (sha256 ^^ n) (drb_value s)))"
proof -
  define s where "s = drb_start load input"
  define d where "d = unat DRB_CHECKPOINT_INTERVAL"
  define n where "n = unat (drb_difficulty_level s) - unat (drb_iteration s)"
  have le': "unat (drb_iteration s) \<le> unat (drb_difficulty_level s)"
    using le by (simp add: s_def word_le_nat_alt)
  have rem: "unat (drb_difficulty_level s - drb_iteration s) = n"
    using le by (simp add: s_def n_def unat_sub)
  have fc: "unat ((drb_difficulty_level s - drb_iteration s) div DRB_CHECKPOINT_INTERVAL) = n div d"
    by (simp add: unat_div rem d_def)
  have dn: "n div d * d \<le> n" by (rule div_times_less_eq_dividend)
  have "unat (drb_difficulty_level s) < 2 ^ 64" using unsigned_less [of "drb_difficulty_level s"] by simp
  then have fits: "unat (drb_iteration s) + n div d * d < 2 ^ 64"
    using dn le' n_def by linarith
  have it: "unat (drb_iteration s + of_nat (n div d) * DRB_CHECKPOINT_INTERVAL)
      = unat (drb_iteration s) + n div d * d"
  proof -
    have "drb_iteration s + of_nat (n div d) * DRB_CHECKPOINT_INTERVAL
        = of_nat (unat (drb_iteration s) + n div d * d)"
      by (simp add: d_def)
    with fits show ?thesis by (simp only: unat_of_nat_fits len64)
  qed
  have last: "unat (drb_difficulty_level s) - (unat (drb_iteration s) + n div d * d) = n - n div d * d"
    by (simp add: n_def)
  have pow: "(sha256 ^^ (n - n div d * d)) ((sha256 ^^ (n div d * d)) x) = (sha256 ^^ n) x" for x
    using dn by (metis funpow_add comp_apply le_add_diff_inverse2)
  have len': "length (drb_value s) = 32" "length ((sha256 ^^ n) (drb_value s)) = 32"
    using len by (simp_all add: s_def funpow_length sha)
  have loop: "checkpoint_loop sha256 (drb_epoch s) (drb_difficulty_level s) (n div d) (drb_value s)
      (drb_iteration s) [] = Some ((sha256 ^^ (n div d * d)) (drb_value s),
        drb_iteration s + of_nat (n div d) * DRB_CHECKPOINT_INTERVAL,
        map (\<lambda>k. s\<lparr>drb_iteration := drb_iteration s + of_nat k * DRB_CHECKPOINT_INTERVAL,
          drb_value := (sha256 ^^ (k * d)) (drb_value s)\<rparr>) [1..<Suc (n div d)])"
    using checkpoint_loop_result [OF sha len'(1), where n = "n div d" and stored = "[]"] fits
    by (cases s) (simp add: d_def del: upt_Suc)
  have "compute_drb_result sha256 load input =
    (case checked_sub (drb_difficulty_level s) (drb_iteration s) of
       None \<Rightarrow> None
     | Some r \<Rightarrow> (case checkpoint_loop sha256 (drb_epoch s) (drb_difficulty_level s)
           (unat (r div DRB_CHECKPOINT_INTERVAL)) (drb_value s) (drb_iteration s) [] of
          None \<Rightarrow> None
        | Some (hash, fi, stored) \<Rightarrow> map_option (\<lambda>r. (stored, r))
            (copy_32 (hash_loop sha256 (unat (drb_difficulty_level s) - unat fi) hash))))"
    by (simp only: compute_drb_result_def Let_def s_def drb_start_def)
  also have "\<dots> = Some (map (\<lambda>k. s\<lparr>drb_iteration := drb_iteration s + of_nat k * DRB_CHECKPOINT_INTERVAL,
          drb_value := (sha256 ^^ (k * d)) (drb_value s)\<rparr>) [1..<Suc (n div d)],
       (sha256 ^^ n) (drb_value s))"
    using le by (simp add: checked_sub_def fc loop it last pow hash_loop_funpow copy_32_def len'
        flip: s_def del: upt_Suc)
  finally show ?thesis by (simp add: Let_def d_def n_def s_def del: upt_Suc)
qed

text \<open>
  started without saved progress, the checkpointed computation terminates without a panic and
  its result is the hash applied exactly \<open>difficulty_level - iteration\<close> times to the seed.
\<close>

theorem compute_drb_result_iterated_hash:
  assumes "\<forall>x. length (sha256 x) = 32" and "length (drb_value input) = 32"
    and "drb_iteration input \<le> drb_difficulty_level input"
    and "load (drb_epoch input) = None"
  shows "\<exists>stored. compute_drb_result sha256 load input = Some (stored,
    (sha256 ^^ (unat (drb_difficulty_level input) - unat (drb_iteration input))) (drb_value input))"
  using compute_drb_result_eq [of sha256 load input] assms by (simp add: drb_start_def Let_def)

text \<open>
  restarting from any checkpoint that an interrupted run handed to the storage gives the same
  beacon as the uninterrupted run.
\<close>

theorem compute_drb_result_resumes:
  assumes sha: "\<forall>x. length (sha256 x) = 32" and len: "length (drb_value input) = 32"
    and le: "drb_iteration input \<le> drb_difficulty_level input"
    and fresh: "load (drb_epoch input) = None"
    and run: "compute_drb_result sha256 load input = Some (stored, result)"
    and cp: "checkpoint \<in> set stored" and load': "load' (drb_epoch input) = Some checkpoint"
  shows "\<exists>stored'. compute_drb_result sha256 load' input = Some (stored', result)"
proof -
  define d where "d = unat DRB_CHECKPOINT_INTERVAL"
  define n where "n = unat (drb_difficulty_level input) - unat (drb_iteration input)"
  have start: "drb_start load input = input" using fresh by (simp add: drb_start_def)
  from run have res: "result = (sha256 ^^ n) (drb_value input)"
    and st: "stored = map (\<lambda>k. input\<lparr>drb_iteration := drb_iteration input + of_nat k * DRB_CHECKPOINT_INTERVAL,
          drb_value := (sha256 ^^ (k * d)) (drb_value input)\<rparr>) [1..<Suc (n div d)]"
    using compute_drb_result_eq [of sha256 load input] sha len le
    by (simp_all add: start Let_def n_def d_def del: upt_Suc)
  from cp st obtain k where k: "1 \<le> k" "k \<le> n div d"
    and c: "checkpoint = input\<lparr>drb_iteration := drb_iteration input + of_nat k * DRB_CHECKPOINT_INTERVAL,
          drb_value := (sha256 ^^ (k * d)) (drb_value input)\<rparr>"
    by (auto simp del: upt_Suc)
  have kd: "k * d \<le> n"
    using k(2) by (metis div_times_less_eq_dividend mult_le_mono1 order_trans)
  have lt: "unat (drb_difficulty_level input) < 2 ^ 64"
    using unsigned_less [of "drb_difficulty_level input"] by simp
  have it: "unat (drb_iteration checkpoint) = unat (drb_iteration input) + k * d"
  proof -
    have "drb_iteration checkpoint = of_nat (unat (drb_iteration input) + k * d)"
      by (simp add: c d_def)
    moreover have "unat (drb_iteration input) + k * d < 2 ^ 64"
      using lt kd le by (simp add: n_def word_le_nat_alt)
    ultimately show ?thesis by (simp only: unat_of_nat_fits len64)
  qed
  have start': "drb_start load' input = checkpoint"
    using load' it by (simp add: drb_start_def word_le_nat_alt)
  have le2: "drb_iteration checkpoint \<le> drb_difficulty_level checkpoint"
    using it kd le by (simp add: c word_le_nat_alt n_def)
  have "length (drb_value checkpoint) = 32"
    using sha len by (simp add: c funpow_length)
  then obtain stored' where "compute_drb_result sha256 load' input = Some (stored',
      (sha256 ^^ (unat (drb_difficulty_level checkpoint) - unat (drb_iteration checkpoint)))
        (drb_value checkpoint))"
    using compute_drb_result_eq [of sha256 load' input] sha le2 by (simp add: start' Let_def)
  moreover have "(sha256 ^^ (unat (drb_difficulty_level checkpoint) - unat (drb_iteration checkpoint)))
        (drb_value checkpoint) = (sha256 ^^ (n - k * d)) ((sha256 ^^ (k * d)) (drb_value input))"
    using it by (simp add: c n_def)
  moreover have "\<dots> = (sha256 ^^ n) (drb_value input)"
    using kd by (metis funpow_add comp_apply le_add_diff_inverse2)
  ultimately show ?thesis by (auto simp: res)
qed

section \<open>Garbage collection of results\<close>

lemma drb_garbage_collect_get:
  "bt_get (drb_garbage_collect epoch results) e =
     (if unat e + 8 < unat epoch then None else bt_get results e)"
proof (cases "epoch < 8")
  case True
  then have "unat epoch < 8" by (simp add: word_less_nat_alt)
  then show ?thesis by (simp add: drb_garbage_collect_def KEEP_PREVIOUS_RESULT_COUNT_def True)
next
  case False
  then have "(8::u64) \<le> epoch" by simp
  then have "unat (epoch - 8) = unat epoch - 8" "8 \<le> unat epoch"
    by (simp_all add: unat_sub word_le_nat_alt)
  then have "epoch - 8 \<le> e \<longleftrightarrow> \<not> unat e + 8 < unat epoch"
    by (auto simp: word_le_nat_alt)
  then show ?thesis
    using False
    by (simp add: drb_garbage_collect_def KEEP_PREVIOUS_RESULT_COUNT_def bt_get_split_off)
qed

section \<open>The cumulative stake table\<close>

fun cum_index :: "nat \<Rightarrow> nat list \<Rightarrow> nat" where
  "cum_index b [] = 0"
| "cum_index b (s # ss) = (if b < s then 0 else Suc (cum_index (b - s) ss))"

lemma cum_index_less: "b < sum_list ss \<Longrightarrow> cum_index b ss < length ss"
  by (induction b ss rule: cum_index.induct) auto

lemma cum_index_positive: "b < sum_list ss \<Longrightarrow> 0 < ss ! cum_index b ss"
  by (induction b ss rule: cum_index.induct) auto

lemma cum_index_count:
  "i < length ss \<Longrightarrow> card {b. b < sum_list ss \<and> cum_index b ss = i} = ss ! i"
proof (induction ss arbitrary: i)
  case (Cons s ss)
  show ?case
  proof (cases i)
    case 0
    then have "{b. b < sum_list (s # ss) \<and> cum_index b (s # ss) = i} = {..<s}" by auto
    then show ?thesis using 0 by simp
  next
    case (Suc j)
    have "{b. b < sum_list (s # ss) \<and> cum_index b (s # ss) = i}
        = (\<lambda>b. b + s) ` {b. b < sum_list ss \<and> cum_index b ss = j}"
    proof (intro equalityI subsetI)
      fix x assume "x \<in> {b. b < sum_list (s # ss) \<and> cum_index b (s # ss) = i}"
      then show "x \<in> (\<lambda>b. b + s) ` {b. b < sum_list ss \<and> cum_index b ss = j}"
        using Suc by (auto intro!: image_eqI [of _ _ "x - s"] split: if_splits)
    qed (use Suc in auto)
    then show ?thesis using Cons Suc by (simp add: card_image)
  qed
qed simp

lemma stake_cdf_entries [simp]: "map fst (stake_cdf c es) = es"
  by (induction c es rule: stake_cdf.induct) (simp_all add: Let_def)

lemma length_stake_cdf [simp]: "length (stake_cdf c es) = length es"
  by (induction c es rule: stake_cdf.induct) (simp_all add: Let_def)

lemma stake_cdf_Nil_iff [simp]: "stake_cdf c es = [] \<longleftrightarrow> es = []"
  by (cases es) (simp_all add: Let_def)

lemma unat_last_stake_cdf:
  "unat c + stake_sum es < 2 ^ 256 \<Longrightarrow> es \<noteq> [] \<Longrightarrow>
   unat (snd (last (stake_cdf c es))) = unat c + stake_sum es"
proof (induction c es rule: stake_cdf.induct)
  case (2 c e es)
  have "unat (c + stake_amount e) = unat c + unat (stake_amount e)"
    using 2(2) by (intro unat_add_no_overflow) simp
  with 2 show ?case by (cases es) (auto simp: Let_def)
qed simp

lemma leader_index_stake_cdf:
  "unat c + stake_sum es < 2 ^ 256 \<Longrightarrow> c \<le> b \<Longrightarrow>
   leader_index (stake_cdf c es) b =
     cum_index (unat b - unat c) (map (\<lambda>e. unat (stake_amount e)) es)"
proof (induction c es rule: stake_cdf.induct)
  case (2 c e es)
  have s: "unat (c + stake_amount e) = unat c + unat (stake_amount e)"
    using 2(2) by (intro unat_add_no_overflow) simp
  show ?case
  proof (cases "c + stake_amount e \<le> b")
    case True
    then have "leader_index (stake_cdf (c + stake_amount e) es) b =
        cum_index (unat b - unat (c + stake_amount e)) (map (\<lambda>e. unat (stake_amount e)) es)"
      using 2(1) [OF refl] 2(2) s by simp
    moreover have "unat c + unat (stake_amount e) \<le> unat b"
      using True s by (simp add: word_le_nat_alt)
    ultimately show ?thesis
      using True s by (simp add: leader_index_def partition_point_def Let_def)
  next
    case False
    then have "unat b - unat c < unat (stake_amount e)"
      using s 2(3) by (auto simp: word_le_nat_alt not_le)
    then show ?thesis
      using False by (simp add: leader_index_def partition_point_def Let_def)
  qed
qed (simp add: leader_index_def partition_point_def)

lemma generate_stake_cdf_permutes:
  "mset (map fst (cdf (generate_stake_cdf sha256 to_bytes table drb))) = mset table"
  by (simp add: generate_stake_cdf_def Let_def)

lemma stake_sum_mset: "mset xs = mset ys \<Longrightarrow> stake_sum xs = stake_sum ys"
  unfolding stake_sum_def by (metis mset_map sum_mset_sum_list)

definition sorted_table where
  "sorted_table to_bytes table drb =
     sort_key (\<lambda>e. cyclic_xor drb (to_bytes (stake_key e))) table"

lemma sorted_table_props:
  "cdf (generate_stake_cdf sha256 to_bytes table drb) = stake_cdf 0 (sorted_table to_bytes table drb)"
  "mset (sorted_table to_bytes table drb) = mset table"
  "stake_sum (sorted_table to_bytes table drb) = stake_sum table"
  "set (sorted_table to_bytes table drb) = set table"
  "length (sorted_table to_bytes table drb) = length table"
  by (simp_all add: generate_stake_cdf_def Let_def sorted_table_def stake_sum_mset [of "sort_key _ _" table])

lemma leader_index_committee:
  assumes "stake_fits table"
  shows "leader_index (cdf (generate_stake_cdf sha256 to_bytes table drb)) b =
    cum_index (unat b) (map (\<lambda>e. unat (stake_amount e)) (sorted_table to_bytes table drb))"
  using leader_index_stake_cdf [of 0 "sorted_table to_bytes table drb" b] assms
  by (simp add: sorted_table_props stake_fits_def)

text \<open>
  C32: among the breakpoints below the total stake, exactly as many elect the \<open>i\<close>-th member of the
  shuffled table as that member has stake: the election is proportional to stake.
\<close>

theorem leader_election_proportional:
  assumes fits: "stake_fits table" and i: "i < length table"
    and c: "committee = generate_stake_cdf sha256 to_bytes table drb"
  shows "card {b. unat b < stake_sum table \<and> leader_index (cdf committee) b = i} =
    unat (stake_amount (fst (cdf committee ! i)))"
proof -
  let ?t = "sorted_table to_bytes table drb"
  let ?ss = "map (\<lambda>e. unat (stake_amount e)) ?t"
  have sum: "sum_list ?ss = stake_sum table"
    using sorted_table_props(3) [of to_bytes table drb] by (simp add: stake_sum_def)
  have idx: "leader_index (cdf committee) b = cum_index (unat b) ?ss" for b
    unfolding c by (rule leader_index_committee [OF fits])
  have "bij_betw unat {b::u256. unat b < stake_sum table \<and> cum_index (unat b) ?ss = i}
      {b. b < sum_list ?ss \<and> cum_index b ?ss = i}"
  proof (rule bij_betw_byWitness [where f' = of_nat])
    have "unat (of_nat b :: u256) = b" if "b < sum_list ?ss" for b
      using that fits by (intro unat_of_nat_fits) (simp add: sum stake_fits_def)
    then show "\<forall>b \<in> {b. b < sum_list ?ss \<and> cum_index b ?ss = i}. unat (of_nat b :: u256) = b"
      "of_nat ` {b. b < sum_list ?ss \<and> cum_index b ?ss = i}
         \<subseteq> {b::u256. unat b < stake_sum table \<and> cum_index (unat b) ?ss = i}"
      by (auto simp: sum)
  qed (auto simp: sum)
  then have "card {b::u256. unat b < stake_sum table \<and> cum_index (unat b) ?ss = i} = ?ss ! i"
    using cum_index_count [of i ?ss] i by (simp add: bij_betw_same_card sorted_table_props)
  moreover have "fst (cdf committee ! i) = ?t ! i"
    using i by (metis c nth_map sorted_table_props(1,5) stake_cdf_entries length_stake_cdf)
  ultimately show ?thesis using i by (simp add: idx sorted_table_props)
qed

lemma ucast_512: "unat (ucast (x :: u256) :: u512) = unat x"
proof -
  have "unat x < 2 ^ 256" using unsigned_less [of x] by simp
  then have "unat x < 2 ^ 512" by (rule less_le_trans) simp
  then show ?thesis by (simp add: unsigned_ucast_eq take_bit_nat_eq_self_iff)
qed

text \<open>
  leader selection panics only when the table holds no stake at all; otherwise the leader is a
  member of the table with positive stake.
\<close>

theorem select_randomized_leader_total:
  assumes fits: "stake_fits table"
  shows "case select_randomized_leader sha512 (generate_stake_cdf sha256 to_bytes table drb) view of
      None \<Rightarrow> stake_sum table = 0
    | Some leader \<Rightarrow> leader \<in> set table \<and> 0 < stake_amount leader"
proof -
  let ?t = "sorted_table to_bytes table drb"
  let ?cdf = "stake_cdf 0 ?t"
  let ?ss = "map (\<lambda>e. unat (stake_amount e)) ?t"
  have sum: "sum_list ?ss = stake_sum table"
    using sorted_table_props(3) [of to_bytes table drb] by (simp add: stake_sum_def)
  show ?thesis
  proof (cases "stake_sum table = 0")
    case True
    then have "\<forall>e \<in> set ?t. stake_amount e = 0"
      using sum by (auto simp: unat_eq_0)
    have "?t = [] \<or> snd (last ?cdf) = 0"
      using unat_last_stake_cdf [of 0 ?t] True by (auto simp: sorted_table_props unat_eq_0)
    then show ?thesis
      using True by (auto simp: select_randomized_leader_def Let_def sorted_table_props)
  next
    case False
    then have ne: "?t \<noteq> []" using sum by auto
    have tot: "unat (snd (last ?cdf)) = stake_sum table"
      using unat_last_stake_cdf [of 0 ?t] fits ne by (simp add: sorted_table_props stake_fits_def)
    define r where "r = from_le_bytes (sha512 (committee_drb (generate_stake_cdf sha256 to_bytes table drb)
       @ to_le_bytes 8 view @ stake_table_hash (generate_stake_cdf sha256 to_bytes table drb)))
       mod (ucast (snd (last ?cdf)) :: u512)"
    have uc: "unat (ucast (snd (last ?cdf)) :: u512) = stake_sum table"
      using tot ucast_512 [of "snd (last ?cdf)"] by simp
    have r: "unat r < stake_sum table"
      using False uc by (simp add: r_def unat_mod)
    have b: "unat (ucast r :: u256) < stake_sum table"
    proof -
      have "unat (ucast r :: u256) \<le> unat r" by (simp add: unsigned_ucast_eq take_bit_nat_less_eq_self)
      with r show ?thesis by simp
    qed
    let ?i = "cum_index (unat (ucast r :: u256)) ?ss"
    have il: "?i < length ?t"
      using cum_index_less [of "unat (ucast r :: u256)" ?ss] b sum by simp
    moreover have "0 < ?ss ! ?i"
      using b sum by (intro cum_index_positive) simp
    ultimately have i: "?i < length ?t" "0 < stake_amount (?t ! ?i)"
      by (simp_all add: unat_gt_0 word_less_nat_alt)
    have idx: "leader_index ?cdf (ucast r) = ?i"
      using leader_index_stake_cdf [of 0 ?t "ucast r"] fits
      by (simp add: sorted_table_props stake_fits_def)
    have "select_randomized_leader sha512 (generate_stake_cdf sha256 to_bytes table drb) view
        = Some (fst (?cdf ! ?i))"
      using ne tot False i idx
      by (auto simp: select_randomized_leader_def Let_def sorted_table_props(1) r_def)
    moreover have "fst (?cdf ! ?i) = ?t ! ?i"
      using i by (metis nth_map stake_cdf_entries length_stake_cdf)
    ultimately show ?thesis
      using i by (auto simp flip: sorted_table_props(4) [of to_bytes table drb])
  qed
qed

lemma cyclic_xor_inj:
  assumes "cyclic_xor drb a = cyclic_xor drb b" shows "a = b"
proof (rule nth_equalityI)
  show len: "length a = length b"
    using arg_cong [OF assms, of length] by (simp add: cyclic_xor_def)
  fix i assume i: "i < length a"
  have "a ! i XOR drb ! (i mod length drb) = b ! i XOR drb ! (i mod length drb)"
    using arg_cong [OF assms, of "\<lambda>xs. xs ! i"] i len by (simp add: cyclic_xor_def nth_enumerate_eq)
  then have "(a ! i XOR drb ! (i mod length drb)) XOR drb ! (i mod length drb)
      = (b ! i XOR drb ! (i mod length drb)) XOR drb ! (i mod length drb)" by simp
  then show "a ! i = b ! i" by (simp add: xor.assoc)
qed

text \<open>
  two nodes that hold the same stake table in different orders compute the same randomized
  committee, hence the same leader for every view.
\<close>

theorem generate_stake_cdf_order_independent:
  assumes perm: "mset table = mset table'" and inj: "inj to_bytes"
    and d: "distinct (map stake_key table)"
  shows "generate_stake_cdf sha256 to_bytes table drb = generate_stake_cdf sha256 to_bytes table' drb"
proof -
  let ?f = "\<lambda>e. cyclic_xor drb (to_bytes (stake_key e))"
  have "inj_on ?f (set table)"
    using d inj by (auto simp: inj_on_def distinct_map dest!: cyclic_xor_inj dest: injD)
  then have "sort_key ?f table = sort_key ?f table'"
    using perm by (intro sort_key_inj_key_eq) simp_all
  then show ?thesis by (simp add: generate_stake_cdf_def)
qed


section \<open>Witnesses\<close>

definition toy_hash :: "u8 list \<Rightarrow> u8 list" where
  "toy_hash bs = replicate 32 (fold (\<lambda>b acc. 3 * acc + b + 1) bs 0)"

lemma toy_hash_length: "\<forall>x. length (toy_hash x) = 32"
  by (simp add: toy_hash_def)

definition sample_drb_input :: DrbInput where
  "sample_drb_input = \<lparr>drb_epoch = 3, drb_iteration = 0, drb_value = replicate 32 7,
     drb_difficulty_level = 2000003\<rparr>"

theorem compute_drb_result_iterated_hash_witness:
  "\<exists>stored. compute_drb_result toy_hash (\<lambda>_. None) sample_drb_input =
     Some (stored, (toy_hash ^^ 2000003) (replicate 32 7))"
  using compute_drb_result_iterated_hash [OF toy_hash_length,
      of sample_drb_input "\<lambda>_. None"]
  by (simp add: sample_drb_input_def word_le_nat_alt)

theorem compute_drb_result_resumes_witness:
  "\<exists>checkpoint stored'. drb_iteration checkpoint = 1000000 \<and>
     compute_drb_result toy_hash (\<lambda>_. Some checkpoint) sample_drb_input =
       Some (stored', (toy_hash ^^ 2000003) (replicate 32 7))"
proof -
  define cp where "cp = sample_drb_input\<lparr>drb_iteration := 1000000,
    drb_value := (toy_hash ^^ 1000000) (replicate 32 7)\<rparr>"
  have start: "drb_start (\<lambda>_. None) sample_drb_input = sample_drb_input"
    by (simp add: drb_start_def)
  define stored where "stored = map (\<lambda>k. sample_drb_input\<lparr>drb_iteration := of_nat k * 1000000,
    drb_value := (toy_hash ^^ (k * 1000000)) (replicate 32 7)\<rparr>) [1..<3]"
  have run: "compute_drb_result toy_hash (\<lambda>_. None) sample_drb_input =
      Some (stored, (toy_hash ^^ 2000003) (replicate 32 7))"
    using compute_drb_result_eq [of toy_hash "\<lambda>_. None" sample_drb_input] toy_hash_length
    unfolding start
    by (simp add: sample_drb_input_def word_le_nat_alt Let_def DRB_CHECKPOINT_INTERVAL_def
        stored_def del: upt_Suc)
  have cp: "cp \<in> set stored"
    unfolding stored_def set_map by (rule image_eqI [of _ _ 1]) (simp_all add: cp_def)
  show ?thesis
    using compute_drb_result_resumes [OF toy_hash_length _ _ _ run cp, of "\<lambda>_. Some cp"]
    by (auto simp: sample_drb_input_def word_le_nat_alt cp_def intro!: exI [of _ cp])
qed

definition sample_stakes :: "u8 StakeTableEntry list" where
  "sample_stakes = [\<lparr>stake_key = 1, stake_amount = 4\<rparr>, \<lparr>stake_key = 2, stake_amount = 0\<rparr>,
     \<lparr>stake_key = 3, stake_amount = 6\<rparr>]"

lemma sample_stakes_fit: "stake_fits sample_stakes"
  by (simp add: stake_fits_def sample_stakes_def)

theorem leader_election_proportional_witness:
  "card {b. unat b < 10 \<and>
     leader_index (cdf (generate_stake_cdf toy_hash (\<lambda>k. [k]) sample_stakes (replicate 32 2))) b = 1} = 6"
proof -
  have "fst (cdf (generate_stake_cdf toy_hash (\<lambda>k. [k]) sample_stakes (replicate 32 2)) ! 1)
      = \<lparr>stake_key = 3, stake_amount = 6\<rparr>"
    by (simp add: generate_stake_cdf_def Let_def sample_stakes_def cyclic_xor_def sort_key_def
        word_less_nat_alt)
  then show ?thesis
    using leader_election_proportional [OF sample_stakes_fit _ refl, of 1 toy_hash "\<lambda>k. [k]"
        "replicate 32 2"]
    by (simp add: sample_stakes_def)
qed

theorem select_randomized_leader_total_witness:
  "case select_randomized_leader toy_hash
      (generate_stake_cdf toy_hash (\<lambda>k. [k]) sample_stakes (replicate 32 2)) 5 of
      None \<Rightarrow> stake_sum sample_stakes = 0
    | Some leader \<Rightarrow> leader \<in> set sample_stakes \<and> 0 < stake_amount leader"
  by (rule select_randomized_leader_total [OF sample_stakes_fit])

theorem generate_stake_cdf_order_independent_witness:
  "generate_stake_cdf toy_hash (\<lambda>k. [k]) sample_stakes (replicate 32 2) =
   generate_stake_cdf toy_hash (\<lambda>k. [k]) (rev sample_stakes) (replicate 32 2)"
  by (rule generate_stake_cdf_order_independent) (simp_all add: sample_stakes_def inj_def)

end
