(* ===== verification/Leaf.thy ===== *)
theory Leaf
  imports Epochs Vote_Accumulator Drb
begin

text \<open>
  Leaves, quorum proposals and the views that hold them (\<open>crates/hotshot/types/src/data.rs\<close>,
  \<open>simple_vote.rs\<close>, \<open>light_client.rs\<close> and the \<open>ViewInner\<close> of \<open>utils.rs\<close>). Block headers keep
  the fields that consensus reads; the application's other header fields, its state and its state
  delta are type parameters. Keys and signatures of the light client, payloads and VID shares are
  opaque byte strings. \<open>commit\<close>, the hash of a leaf, is a parameter of what uses it.
\<close>

section \<open>Certificates over leaves\<close>

record QuorumData2 =
  leaf_commit :: commitment
  qd_epoch :: "u64 option"
  qd_block_number :: "u64 option"

record DaData2 =
  payload_commit :: commitment
  next_epoch_payload_commit :: "commitment option"
  da_epoch :: "u64 option"

record TimeoutData2 =
  td_view :: u64
  td_epoch :: "u64 option"

record ViewSyncFinalizeData2 =
  vs_relay :: u64
  vs_round :: u64
  vs_epoch :: "u64 option"

type_synonym 'g QuorumCertificate2 = "(QuorumData2, 'g) SimpleCertificate"
type_synonym 'g NextEpochQuorumCertificate2 = "(QuorumData2, 'g) SimpleCertificate"
type_synonym 'g DaCertificate2 = "(DaData2, 'g) SimpleCertificate"
type_synonym 'g TimeoutCertificate2 = "(TimeoutData2, 'g) SimpleCertificate"
type_synonym 'g ViewSyncFinalizeCertificate2 = "(ViewSyncFinalizeData2, 'g) SimpleCertificate"

datatype 'g ViewChangeEvidence2 =
    TimeoutEvidence "'g TimeoutCertificate2"
  | ViewSyncEvidence "'g ViewSyncFinalizeCertificate2"

definition is_valid_for_view :: "'g ViewChangeEvidence2 \<Rightarrow> u64 \<Rightarrow> bool" where
  "is_valid_for_view evidence view =
     (case evidence of
        TimeoutEvidence timeout_cert \<Rightarrow> td_view (cert_data timeout_cert) = view - 1
      | ViewSyncEvidence view_sync_cert \<Rightarrow> cert_view_number view_sync_cert = view)"

record LightClientState =
  lcs_view_number :: u64
  lcs_block_height :: u64
  lcs_block_comm_root :: u256

record StakeTableState =
  sts_bls_key_comm :: u256
  sts_schnorr_key_comm :: u256
  sts_amount_comm :: u256
  sts_threshold :: u256

type_synonym StateCert =
  "(u8 list, LightClientState, StakeTableState, u8 list) LightClientStateUpdateCertificate"

section \<open>Leaves and proposals\<close>

record 'h BlockHeader =
  hdr_block_number :: u64
  hdr_payload_commitment :: commitment
  hdr_fields :: 'h

record ('g, 'h) Leaf2 =
  leaf_view_number :: u64
  justify_qc :: "'g QuorumCertificate2"
  next_epoch_justify_qc :: "'g NextEpochQuorumCertificate2 option"
  parent_commitment :: commitment
  block_header :: "'h BlockHeader"
  upgrade_certificate :: "'g UpgradeCertificate option"
  block_payload :: "u8 list option"
  view_change_evidence :: "'g ViewChangeEvidence2 option"
  next_drb_result :: "u8 list option"
  with_epoch :: bool

record ('g, 'h) QuorumProposal2 =
  qp_block_header :: "'h BlockHeader"
  qp_view_number :: u64
  qp_epoch :: "u64 option"
  qp_justify_qc :: "'g QuorumCertificate2"
  qp_next_epoch_justify_qc :: "'g NextEpochQuorumCertificate2 option"
  qp_upgrade_certificate :: "'g UpgradeCertificate option"
  qp_view_change_evidence :: "'g ViewChangeEvidence2 option"
  qp_next_drb_result :: "u8 list option"
  qp_state_cert :: "StateCert option"

record ('a, 'g) Proposal =
  proposal_data :: 'a
  proposal_signature :: 'g

definition from_quorum_proposal :: "('g, 'h) QuorumProposal2 \<Rightarrow> ('g, 'h) Leaf2" where
  "from_quorum_proposal quorum_proposal =
     \<lparr>leaf_view_number = qp_view_number quorum_proposal,
      justify_qc = qp_justify_qc quorum_proposal,
      next_epoch_justify_qc = qp_next_epoch_justify_qc quorum_proposal,
      parent_commitment = leaf_commit (cert_data (qp_justify_qc quorum_proposal)),
      block_header = qp_block_header quorum_proposal,
      upgrade_certificate = qp_upgrade_certificate quorum_proposal,
      block_payload = None,
      view_change_evidence = qp_view_change_evidence quorum_proposal,
      next_drb_result = qp_next_drb_result quorum_proposal,
      with_epoch = (qp_epoch quorum_proposal \<noteq> None)\<rparr>"

definition leaf_height :: "('g, 'h) Leaf2 \<Rightarrow> u64" where
  "leaf_height leaf = hdr_block_number (block_header leaf)"

definition leaf_epoch :: "('g, 'h) Leaf2 \<Rightarrow> u64 \<Rightarrow> u64 option" where
  "leaf_epoch leaf epoch_height =
     option_epoch_from_block_number (with_epoch leaf) (hdr_block_number (block_header leaf))
       epoch_height"

datatype LeafError =
    InconsistentPayloadCommitment
  | MissingUpgradeCertificate
  | DifferentUpgradeCertificate
  | InconsistentEpoch

text \<open>\<open>vid_commitment\<close> of the payload under the version and committee size is external code.\<close>

definition fill_block_payload ::
  "(u8 list \<Rightarrow> commitment) \<Rightarrow> u8 list \<Rightarrow> ('g, 'h) Leaf2 \<Rightarrow> (LeafError, ('g, 'h) Leaf2) result" where
  "fill_block_payload vid_commitment payload leaf =
     (if vid_commitment payload \<noteq> hdr_payload_commitment (block_header leaf)
      then Err InconsistentPayloadCommitment
      else Ok (leaf\<lparr>block_payload := Some payload\<rparr>))"

definition fill_block_payload_unchecked :: "u8 list \<Rightarrow> ('g, 'h) Leaf2 \<Rightarrow> ('g, 'h) Leaf2" where
  "fill_block_payload_unchecked payload leaf = leaf\<lparr>block_payload := Some payload\<rparr>"

definition unfill_block_payload :: "('g, 'h) Leaf2 \<Rightarrow> ('g, 'h) Leaf2 \<times> u8 list option" where
  "unfill_block_payload leaf = (leaf\<lparr>block_payload := None\<rparr>, block_payload leaf)"

definition extends_upgrade ::
  "('g, 'h) Leaf2 \<Rightarrow> ('g, 'h) Leaf2 \<Rightarrow> 'g UpgradeCertificate option \<Rightarrow> (LeafError, unit) result" where
  "extends_upgrade leaf parent decided_upgrade_certificate' =
     (case (upgrade_certificate leaf, upgrade_certificate parent) of
        (_, None) \<Rightarrow> Ok ()
      | (None, Some parent_cert) \<Rightarrow>
          (if leaf_view_number leaf > new_version_first_view (cert_data parent_cert)
              \<or> (leaf_view_number leaf > decide_by (cert_data parent_cert)
                 \<and> decided_upgrade_certificate' = None)
           then Ok () else Err MissingUpgradeCertificate)
      | (Some cert, Some parent_cert) \<Rightarrow>
          (if cert = parent_cert then Ok () else Err DifferentUpgradeCertificate))"

definition validate_epoch ::
  "('g, 'h) QuorumProposal2 \<Rightarrow> 'g UpgradeLock \<Rightarrow> u64 \<Rightarrow> (LeafError, unit) result" where
  "validate_epoch proposal lock epoch_height =
     (if option_epoch_from_block_number (epochs_enabled lock (qp_view_number proposal))
           (hdr_block_number (qp_block_header proposal)) epoch_height = qp_epoch proposal
      then Ok () else Err InconsistentEpoch)"

section \<open>Views of the state map\<close>

datatype ('st, 'dl) ViewInner =
    DaView (da_payload_commitment: commitment) (da_view_epoch: "u64 option")
  | LeafView (lv_leaf: commitment) (lv_state: 'st) (lv_delta: "'dl option") (lv_epoch: "u64 option")
  | FailedView

definition leaf_and_state :: "('st, 'dl) ViewInner \<Rightarrow> (commitment \<times> 'st) option" where
  "leaf_and_state view = (case view of LeafView leaf state _ _ \<Rightarrow> Some (leaf, state) | _ \<Rightarrow> None)"

definition leaf_commitment :: "('st, 'dl) ViewInner \<Rightarrow> commitment option" where
  "leaf_commitment view = (case view of LeafView leaf _ _ _ \<Rightarrow> Some leaf | _ \<Rightarrow> None)"

definition view_state :: "('st, 'dl) ViewInner \<Rightarrow> 'st option" where
  "view_state view = (case view of LeafView _ state _ _ \<Rightarrow> Some state | _ \<Rightarrow> None)"

definition view_state_and_delta :: "('st, 'dl) ViewInner \<Rightarrow> 'st option \<times> 'dl option" where
  "view_state_and_delta view =
     (case view of LeafView _ state delta _ \<Rightarrow> (Some state, delta) | _ \<Rightarrow> (None, None))"

definition view_payload_commitment :: "('st, 'dl) ViewInner \<Rightarrow> commitment option" where
  "view_payload_commitment view =
     (case view of DaView payload_commitment' _ \<Rightarrow> Some payload_commitment' | _ \<Rightarrow> None)"

definition view_epoch :: "('st, 'dl) ViewInner \<Rightarrow> u64 option option" where
  "view_epoch view =
     (case view of
        DaView _ epoch \<Rightarrow> Some epoch
      | LeafView _ _ _ epoch \<Rightarrow> Some epoch
      | FailedView \<Rightarrow> None)"

lemmas view_inner_defs = leaf_and_state_def leaf_commitment_def view_state_def
  view_state_and_delta_def view_payload_commitment_def view_epoch_def

end
