(* ===== verification/Consensus_State.thy ===== *)
theory Consensus_State
  imports Leaf
begin

text \<open>
  The shared consensus state of a node (\<open>crates/hotshot/types/src/consensus.rs\<close>): the record
  \<open>Consensus\<close> and every operation on it. Metrics are observers and are left out. An operation that
  returns \<open>Result<()>\<close> returns the new state or the error, in which case the state is unchanged,
  as in the source, where every \<open>ensure!\<close> precedes the assignments. A panic is \<open>None\<close>.
\<close>

section \<open>State\<close>

record HotShotActionViews =
  act_proposed :: u64
  act_voted :: u64
  act_da_proposed :: u64
  act_da_vote :: u64

definition action_views_from_view :: "u64 \<Rightarrow> HotShotActionViews" where
  "action_views_from_view view =
     \<lparr>act_proposed = view, act_voted = view, act_da_proposed = view, act_da_vote = view\<rparr>"

definition action_views_default :: HotShotActionViews where
  "action_views_default = action_views_from_view 0"

datatype HotShotAction =
    VoteAction | TimeoutVoteAction | ViewSyncVoteAction | ProposeAction | DaProposeAction
  | DaVoteAction | DaCertAction | VidDisperseAction | UpgradeVoteAction | UpgradeProposeAction

record 'k VidDisperseShare =
  vid_view_number :: u64
  vid_recipient_key :: 'k
  vid_target_epoch :: "u64 option"
  vid_epoch :: "u64 option"
  vid_payload_commitment :: commitment
  vid_payload_byte_len :: u32
  vid_share_bytes :: "u8 list"

type_synonym ('k, 'g) VidShares =
  "(u64, 'k \<rightharpoonup> (u64 option \<rightharpoonup> ('k VidDisperseShare, 'g) Proposal)) btree"

record ('k, 'g, 'h, 'st, 'dl) Consensus =
  validated_state_map :: "(u64, ('st, 'dl) ViewInner) btree"
  vid_shares :: "('k, 'g) VidShares"
  saved_da_certs :: "u64 \<rightharpoonup> 'g DaCertificate2"
  cur_view :: u64
  cur_epoch :: "u64 option"
  last_proposals :: "(u64, (('g, 'h) QuorumProposal2, 'g) Proposal) btree"
  last_decided_view :: u64
  locked_view :: u64
  saved_leaves :: "commitment \<rightharpoonup> ('g, 'h) Leaf2"
  last_actions :: HotShotActionViews
  saved_payloads :: "(u64, u8 list) btree"
  high_qc :: "'g QuorumCertificate2"
  next_epoch_high_qc :: "'g NextEpochQuorumCertificate2 option"
  epoch_height :: u64
  drb_difficulty :: u64
  drb_results :: DrbResults
  transition_qc :: "('g QuorumCertificate2 \<times> 'g NextEpochQuorumCertificate2) option"
  highest_block :: u64
  state_cert :: "StateCert option"

datatype ConsensusError =
    ViewNotNewer | EpochNotNewer | ProposedViewNotNewer | DecidedViewNotNewer | LockedViewNotNewer
  | WouldDropDelta | WouldDropLeaf | PayloadExists | HighQcNotNewer | NextEpochHighQcNotNewer
  | LeafCommitMismatch | NotTransitionQc | StateCertNotNewer

definition consensus_new ::
  "(u64, ('st, 'dl) ViewInner) btree \<Rightarrow> ('k, 'g) VidShares option \<Rightarrow> u64 \<Rightarrow> u64 option \<Rightarrow> u64 \<Rightarrow> u64
     \<Rightarrow> u64 \<Rightarrow> (u64, (('g, 'h) QuorumProposal2, 'g) Proposal) btree
     \<Rightarrow> (commitment \<rightharpoonup> ('g, 'h) Leaf2) \<Rightarrow> (u64, u8 list) btree \<Rightarrow> 'g QuorumCertificate2
     \<Rightarrow> 'g NextEpochQuorumCertificate2 option \<Rightarrow> u64 \<Rightarrow> StateCert option \<Rightarrow> u64
     \<Rightarrow> ('k, 'g, 'h, 'st, 'dl) Consensus" where
  "consensus_new validated_state_map' vid_shares' cur_view' cur_epoch' locked_view' last_decided_view'
     last_actioned_view last_proposals' saved_leaves' saved_payloads' high_qc' next_epoch_high_qc'
     epoch_height' state_cert' drb_difficulty' =
     \<lparr>validated_state_map = validated_state_map',
      vid_shares = (case vid_shares' of Some v \<Rightarrow> v | None \<Rightarrow> []),
      saved_da_certs = Map.empty, cur_view = cur_view', cur_epoch = cur_epoch',
      last_proposals = last_proposals', last_decided_view = last_decided_view',
      locked_view = locked_view', saved_leaves = saved_leaves',
      last_actions = action_views_from_view last_actioned_view, saved_payloads = saved_payloads',
      high_qc = high_qc', next_epoch_high_qc = next_epoch_high_qc', epoch_height = epoch_height',
      drb_difficulty = drb_difficulty', drb_results = drb_results_new,
      transition_qc =
        (case next_epoch_high_qc' of
           Some next_qc \<Rightarrow>
             (case qd_block_number (cert_data high_qc') of
                Some bn \<Rightarrow>
                  (if is_transition_block bn epoch_height' then
                     (if leaf_commit (cert_data high_qc') = leaf_commit (cert_data next_qc)
                      then Some (high_qc', next_qc) else None)
                   else None)
              | None \<Rightarrow> None)
         | None \<Rightarrow> None),
      highest_block = 0, state_cert = state_cert'\<rparr>"

section \<open>Views, epochs and actions\<close>

definition update_highest_block ::
  "u64 \<Rightarrow> ('k, 'g, 'h, 'st, 'dl) Consensus \<Rightarrow> ('k, 'g, 'h, 'st, 'dl) Consensus" where
  "update_highest_block block_number self =
     (if block_number > highest_block self then self\<lparr>highest_block := block_number\<rparr>
      else if is_epoch_transition block_number (epoch_height self) then
        (if epoch_from_block_number block_number (epoch_height self)
              \<ge> epoch_from_block_number (highest_block self) (epoch_height self)
         then self\<lparr>highest_block := block_number\<rparr> else self)
      else self)"

definition update_transition_qc ::
  "'g QuorumCertificate2 \<Rightarrow> 'g NextEpochQuorumCertificate2 \<Rightarrow> ('k, 'g, 'h, 'st, 'dl) Consensus
     \<Rightarrow> ('k, 'g, 'h, 'st, 'dl) Consensus" where
  "update_transition_qc qc next_epoch_qc self =
     (if leaf_commit (cert_data next_epoch_qc) \<noteq> leaf_commit (cert_data qc) then self
      else case transition_qc self of
             Some (tqc, _) \<Rightarrow>
               (if cert_view_number tqc \<ge> cert_view_number qc then self
                else self\<lparr>transition_qc := Some (qc, next_epoch_qc)\<rparr>)
           | None \<Rightarrow> self\<lparr>transition_qc := Some (qc, next_epoch_qc)\<rparr>)"

definition update_view ::
  "u64 \<Rightarrow> ('k, 'g, 'h, 'st, 'dl) Consensus
     \<Rightarrow> (ConsensusError, ('k, 'g, 'h, 'st, 'dl) Consensus) result" where
  "update_view view_number self =
     (if view_number > cur_view self then Ok (self\<lparr>cur_view := view_number\<rparr>) else Err ViewNotNewer)"

definition update_epoch ::
  "u64 \<Rightarrow> ('k, 'g, 'h, 'st, 'dl) Consensus
     \<Rightarrow> (ConsensusError, ('k, 'g, 'h, 'st, 'dl) Consensus) result" where
  "update_epoch epoch_number self =
     (if (case cur_epoch self of None \<Rightarrow> True | Some e \<Rightarrow> epoch_number > e)
      then Ok (self\<lparr>cur_epoch := Some epoch_number\<rparr>) else Err EpochNotNewer)"

definition update_action ::
  "HotShotAction \<Rightarrow> u64 \<Rightarrow> ('k, 'g, 'h, 'st, 'dl) Consensus
     \<Rightarrow> ('k, 'g, 'h, 'st, 'dl) Consensus \<times> bool" where
  "update_action action view self =
     (let acts = last_actions self in
      case action of
        VoteAction \<Rightarrow>
          (if view > act_voted acts then (self\<lparr>last_actions := acts\<lparr>act_voted := view\<rparr>\<rparr>, True)
           else (self, False))
      | ProposeAction \<Rightarrow>
          (if view > act_proposed acts then (self\<lparr>last_actions := acts\<lparr>act_proposed := view\<rparr>\<rparr>, True)
           else (self, False))
      | DaProposeAction \<Rightarrow>
          (if view > act_da_proposed acts
           then (self\<lparr>last_actions := acts\<lparr>act_da_proposed := view\<rparr>\<rparr>, True) else (self, False))
      | DaVoteAction \<Rightarrow>
          (if view > act_da_vote acts then (self\<lparr>last_actions := acts\<lparr>act_da_vote := view\<rparr>\<rparr>, True)
           else (self, True))
      | _ \<Rightarrow> (self, True))"

definition reset_actions ::
  "('k, 'g, 'h, 'st, 'dl) Consensus \<Rightarrow> ('k, 'g, 'h, 'st, 'dl) Consensus" where
  "reset_actions self = self\<lparr>last_actions := action_views_default\<rparr>"

definition update_proposed_view ::
  "(('g, 'h) QuorumProposal2, 'g) Proposal \<Rightarrow> ('k, 'g, 'h, 'st, 'dl) Consensus
     \<Rightarrow> (ConsensusError, ('k, 'g, 'h, 'st, 'dl) Consensus) result" where
  "update_proposed_view proposal self =
     (let view = qp_view_number (proposal_data proposal);
          last = (case bt_last_key_value (last_proposals self) of Some (k, _) \<Rightarrow> k | None \<Rightarrow> 0)
      in if view > last
         then Ok (self\<lparr>last_proposals := bt_insert view proposal (last_proposals self)\<rparr>)
         else Err ProposedViewNotNewer)"

definition update_last_decided_view ::
  "u64 \<Rightarrow> ('k, 'g, 'h, 'st, 'dl) Consensus
     \<Rightarrow> (ConsensusError, ('k, 'g, 'h, 'st, 'dl) Consensus) result" where
  "update_last_decided_view view_number self =
     (if view_number > last_decided_view self then Ok (self\<lparr>last_decided_view := view_number\<rparr>)
      else Err DecidedViewNotNewer)"

definition update_locked_view ::
  "u64 \<Rightarrow> ('k, 'g, 'h, 'st, 'dl) Consensus
     \<Rightarrow> (ConsensusError, ('k, 'g, 'h, 'st, 'dl) Consensus) result" where
  "update_locked_view view_number self =
     (if view_number > locked_view self then Ok (self\<lparr>locked_view := view_number\<rparr>)
      else Err LockedViewNotNewer)"

section \<open>The state map and the saved leaves\<close>

definition update_validated_state_map ::
  "u64 \<Rightarrow> ('st, 'dl) ViewInner \<Rightarrow> ('k, 'g, 'h, 'st, 'dl) Consensus
     \<Rightarrow> (ConsensusError, ('k, 'g, 'h, 'st, 'dl) Consensus) result" where
  "update_validated_state_map view_number new_view self =
     (let insert_view =
            Ok (self\<lparr>validated_state_map := bt_insert view_number new_view (validated_state_map self)\<rparr>)
      in case bt_get (validated_state_map self) view_number of
           Some (LeafView _ _ existing_delta _) \<Rightarrow>
             (case new_view of
                LeafView _ _ new_delta _ \<Rightarrow>
                  (if new_delta \<noteq> None \<or> existing_delta = None then insert_view
                   else Err WouldDropDelta)
              | _ \<Rightarrow> Err WouldDropLeaf)
         | _ \<Rightarrow> insert_view)"

definition update_da_view ::
  "u64 \<Rightarrow> u64 option \<Rightarrow> commitment \<Rightarrow> ('k, 'g, 'h, 'st, 'dl) Consensus
     \<Rightarrow> (ConsensusError, ('k, 'g, 'h, 'st, 'dl) Consensus) result" where
  "update_da_view view_number epoch payload_commitment' self =
     update_validated_state_map view_number (DaView payload_commitment' epoch) self"

definition update_saved_leaves ::
  "(('g, 'h) Leaf2 \<Rightarrow> commitment) \<Rightarrow> ('g, 'h) Leaf2 \<Rightarrow> ('k, 'g, 'h, 'st, 'dl) Consensus
     \<Rightarrow> ('k, 'g, 'h, 'st, 'dl) Consensus" where
  "update_saved_leaves commit leaf self =
     self\<lparr>saved_leaves := (saved_leaves self)(commit leaf \<mapsto> leaf)\<rparr>"

definition update_leaf ::
  "(('g, 'h) Leaf2 \<Rightarrow> commitment) \<Rightarrow> ('g, 'h) Leaf2 \<Rightarrow> 'st \<Rightarrow> 'dl option
     \<Rightarrow> ('k, 'g, 'h, 'st, 'dl) Consensus
     \<Rightarrow> (ConsensusError, ('k, 'g, 'h, 'st, 'dl) Consensus) result" where
  "update_leaf commit leaf state delta self =
     (let epoch = option_epoch_from_block_number (with_epoch leaf) (leaf_height leaf)
                    (epoch_height self);
          view = LeafView (commit leaf) state delta epoch
      in try_bind (update_validated_state_map (leaf_view_number leaf) view self)
           (\<lambda>self'. Ok (update_saved_leaves commit leaf self')))"

definition update_saved_payloads ::
  "u64 \<Rightarrow> u8 list \<Rightarrow> ('k, 'g, 'h, 'st, 'dl) Consensus
     \<Rightarrow> (ConsensusError, ('k, 'g, 'h, 'st, 'dl) Consensus) result" where
  "update_saved_payloads view_number payload self =
     (if bt_contains_key (saved_payloads self) view_number then Err PayloadExists
      else Ok (self\<lparr>saved_payloads := bt_insert view_number payload (saved_payloads self)\<rparr>))"

section \<open>Certificates\<close>

definition update_high_qc ::
  "'g QuorumCertificate2 \<Rightarrow> ('k, 'g, 'h, 'st, 'dl) Consensus
     \<Rightarrow> (ConsensusError, ('k, 'g, 'h, 'st, 'dl) Consensus) result" where
  "update_high_qc qc self =
     (if high_qc self = qc then Ok self
      else if cert_view_number qc > cert_view_number (high_qc self) then Ok (self\<lparr>high_qc := qc\<rparr>)
      else Err HighQcNotNewer)"

definition update_next_epoch_high_qc ::
  "'g NextEpochQuorumCertificate2 \<Rightarrow> ('k, 'g, 'h, 'st, 'dl) Consensus
     \<Rightarrow> (ConsensusError, ('k, 'g, 'h, 'st, 'dl) Consensus) result" where
  "update_next_epoch_high_qc qc self =
     (if next_epoch_high_qc self = Some qc then Ok self
      else case next_epoch_high_qc self of
             Some existing \<Rightarrow>
               (if cert_view_number qc > cert_view_number existing
                then Ok (self\<lparr>next_epoch_high_qc := Some qc\<rparr>) else Err NextEpochHighQcNotNewer)
           | None \<Rightarrow> Ok (self\<lparr>next_epoch_high_qc := Some qc\<rparr>))"

definition reset_high_qc ::
  "'g QuorumCertificate2 \<Rightarrow> 'g NextEpochQuorumCertificate2 \<Rightarrow> ('k, 'g, 'h, 'st, 'dl) Consensus
     \<Rightarrow> (ConsensusError, ('k, 'g, 'h, 'st, 'dl) Consensus) result" where
  "reset_high_qc qc next_epoch_qc self =
     (if leaf_commit (cert_data qc) \<noteq> leaf_commit (cert_data next_epoch_qc)
      then Err LeafCommitMismatch
      else if high_qc self = qc then Ok self
      else
       (let same_epoch =
              (case qd_block_number (cert_data qc) of
                 Some bn \<Rightarrow>
                   (case qd_block_number (cert_data (high_qc self)) of
                      Some high_bn \<Rightarrow>
                        epoch_from_block_number (bn + 1) (epoch_height self)
                          = epoch_from_block_number (high_bn + 1) (epoch_height self)
                    | None \<Rightarrow> False)
               | None \<Rightarrow> False);
            transition =
              (case qd_block_number (cert_data qc) of
                 Some bn \<Rightarrow> is_transition_block bn (epoch_height self)
               | None \<Rightarrow> False)
        in if transition \<and> same_epoch
           then Ok (self\<lparr>high_qc := qc, next_epoch_high_qc := Some next_epoch_qc\<rparr>)
           else Err NotTransitionQc))"

definition update_state_cert ::
  "StateCert \<Rightarrow> ('k, 'g, 'h, 'st, 'dl) Consensus
     \<Rightarrow> (ConsensusError, ('k, 'g, 'h, 'st, 'dl) Consensus) result" where
  "update_state_cert cert self =
     (case state_cert self of
        Some existing \<Rightarrow>
          (if lcc_epoch cert > lcc_epoch existing then Ok (self\<lparr>state_cert := Some cert\<rparr>)
           else Err StateCertNotNewer)
      | None \<Rightarrow> Ok (self\<lparr>state_cert := Some cert\<rparr>))"

definition update_vid_shares ::
  "u64 \<Rightarrow> ('k VidDisperseShare, 'g) Proposal \<Rightarrow> ('k, 'g, 'h, 'st, 'dl) Consensus
     \<Rightarrow> ('k, 'g, 'h, 'st, 'dl) Consensus" where
  "update_vid_shares view_number disperse self =
     (let key_map = (case bt_get (vid_shares self) view_number of Some m \<Rightarrow> m | None \<Rightarrow> Map.empty);
          key = vid_recipient_key (proposal_data disperse);
          epoch_map = (case key_map key of Some m \<Rightarrow> m | None \<Rightarrow> Map.empty);
          epoch_map' = epoch_map(vid_target_epoch (proposal_data disperse) \<mapsto> disperse)
      in self\<lparr>vid_shares := bt_insert view_number (key_map(key \<mapsto> epoch_map')) (vid_shares self)\<rparr>)"

definition update_saved_da_certs ::
  "u64 \<Rightarrow> 'g DaCertificate2 \<Rightarrow> ('k, 'g, 'h, 'st, 'dl) Consensus
     \<Rightarrow> ('k, 'g, 'h, 'st, 'dl) Consensus" where
  "update_saved_da_certs view_number cert self =
     self\<lparr>saved_da_certs := (saved_da_certs self)(view_number \<mapsto> cert)\<rparr>"

section \<open>Reading the state\<close>

definition consensus_state ::
  "('k, 'g, 'h, 'st, 'dl) Consensus \<Rightarrow> u64 \<Rightarrow> 'st option" where
  "consensus_state self view_number =
     (case bt_get (validated_state_map self) view_number of
        Some view \<Rightarrow> view_state view | None \<Rightarrow> None)"

definition state_and_delta ::
  "('k, 'g, 'h, 'st, 'dl) Consensus \<Rightarrow> u64 \<Rightarrow> 'st option \<times> 'dl option" where
  "state_and_delta self view_number =
     (case bt_get (validated_state_map self) view_number of
        Some view \<Rightarrow> view_state_and_delta view | None \<Rightarrow> (None, None))"

definition decided_leaf :: "('k, 'g, 'h, 'st, 'dl) Consensus \<Rightarrow> ('g, 'h) Leaf2 option" where
  "decided_leaf self =
     (case bt_get (validated_state_map self) (last_decided_view self) of
        None \<Rightarrow> None
      | Some view \<Rightarrow>
         (case leaf_commitment view of
            None \<Rightarrow> None
          | Some leaf \<Rightarrow> saved_leaves self leaf))"

definition decided_state :: "('k, 'g, 'h, 'st, 'dl) Consensus \<Rightarrow> 'st option" where
  "decided_state self = fst (state_and_delta self (last_decided_view self))"

definition undecided_leaves :: "('k, 'g, 'h, 'st, 'dl) Consensus \<Rightarrow> ('g, 'h) Leaf2 set" where
  "undecided_leaves self = ran (saved_leaves self)"

record ('k, 'g, 'h, 'st, 'dl) LeafInfo =
  li_leaf :: "('g, 'h) Leaf2"
  li_state :: 'st
  li_delta :: "'dl option"
  li_vid_share :: "'k VidDisperseShare option"
  li_state_cert :: "StateCert option"

definition stored_vid_share ::
  "('k, 'g, 'h, 'st, 'dl) Consensus \<Rightarrow> u64 \<Rightarrow> 'k \<Rightarrow> u64 option \<Rightarrow> 'k VidDisperseShare option" where
  "stored_vid_share self view public_key epoch =
     (case bt_get (vid_shares self) view of
        None \<Rightarrow> None
      | Some key_map \<Rightarrow>
         (case key_map public_key of
            None \<Rightarrow> None
          | Some epoch_map \<Rightarrow> map_option proposal_data (epoch_map epoch)))"

definition parent_leaf_info ::
  "('g, 'h) Leaf2 \<Rightarrow> 'k \<Rightarrow> ('k, 'g, 'h, 'st, 'dl) Consensus
     \<Rightarrow> ('k, 'g, 'h, 'st, 'dl) LeafInfo option" where
  "parent_leaf_info leaf public_key self =
     (let parent_view_number = cert_view_number (justify_qc leaf);
          parent_epoch = qd_epoch (cert_data (justify_qc leaf))
      in case saved_leaves self (leaf_commit (cert_data (justify_qc leaf))) of
           None \<Rightarrow> None
         | Some parent_leaf \<Rightarrow>
            (case state_and_delta self parent_view_number of
               (None, _) \<Rightarrow> None
             | (Some state, delta) \<Rightarrow>
                (let parent_vid = stored_vid_share self parent_view_number public_key parent_epoch;
                     state_cert' =
                       (if with_epoch parent_leaf
                           \<and> is_epoch_root (leaf_height parent_leaf) (epoch_height self)
                        then (case state_cert self of
                                Some cert \<Rightarrow>
                                  (if lcs_view_number (lcc_light_client_state cert)
                                        = parent_view_number
                                   then Some cert else None)
                              | None \<Rightarrow> None)
                        else None)
                 in Some \<lparr>li_leaf = parent_leaf, li_state = state, li_delta = delta,
                          li_vid_share = parent_vid, li_state_cert = state_cert'\<rparr>)))"

definition consensus_is_epoch_transition ::
  "commitment \<Rightarrow> ('k, 'g, 'h, 'st, 'dl) Consensus \<Rightarrow> bool" where
  "consensus_is_epoch_transition commit' self =
     (case saved_leaves self commit' of
        None \<Rightarrow> False
      | Some leaf \<Rightarrow> is_epoch_transition (leaf_height leaf) (epoch_height self))"

definition is_high_qc_for_epoch_transition :: "('k, 'g, 'h, 'st, 'dl) Consensus \<Rightarrow> bool" where
  "is_high_qc_for_epoch_transition self =
     (case qd_block_number (cert_data (high_qc self)) of
        None \<Rightarrow> False
      | Some block_height \<Rightarrow> is_epoch_transition block_height (epoch_height self))"

definition check_eqc ::
  "('g, 'h) Leaf2 \<Rightarrow> ('g, 'h) Leaf2 \<Rightarrow> ('k, 'g, 'h, 'st, 'dl) Consensus \<Rightarrow> bool" where
  "check_eqc proposed_leaf parent_leaf self =
     (if leaf_view_number parent_leaf = 0 then True
      else epoch_from_block_number (leaf_height proposed_leaf) (epoch_height self) - 1
             = epoch_from_block_number (leaf_height parent_leaf) (epoch_height self)
           \<and> is_last_block (leaf_height parent_leaf) (epoch_height self))"

definition is_high_qc_ge_root_block :: "('k, 'g, 'h, 'st, 'dl) Consensus \<Rightarrow> bool" where
  "is_high_qc_ge_root_block self =
     (case saved_leaves self (leaf_commit (cert_data (high_qc self))) of
        None \<Rightarrow> False
      | Some leaf \<Rightarrow> is_ge_epoch_root (leaf_height leaf) (epoch_height self))"

section \<open>Walking the chain of leaves\<close>

datatype Terminator = Exclusive u64 | Inclusive u64

datatype HotShotError = VisitedFailedView | ViewNotInStateMap | StateNotInStateMap u64 | MissingLeaf commitment

text \<open>
  The visitor is a closure that may mutate what it captures; it threads an accumulator and returns
  whether to go on. The walk follows parent commitments through \<open>saved_leaves\<close> and would not end on
  a cyclic map, so it is a partial function.
\<close>

partial_function (option) visit_leaves ::
  "('k, 'g, 'h, 'st, 'dl) Consensus \<Rightarrow> Terminator \<Rightarrow> bool
     \<Rightarrow> (('g, 'h) Leaf2 \<Rightarrow> 'st \<Rightarrow> 'dl option \<Rightarrow> 'a \<Rightarrow> bool \<times> 'a) \<Rightarrow> commitment \<Rightarrow> 'a
     \<Rightarrow> ((HotShotError, unit) result \<times> 'a) option" where
  "visit_leaves self terminator ok_when_finished f next_leaf acc =
     (case saved_leaves self next_leaf of
        None \<Rightarrow> Some (Err (MissingLeaf next_leaf), acc)
      | Some leaf \<Rightarrow>
         (case state_and_delta self (leaf_view_number leaf) of
            (maybe_state, delta) \<Rightarrow>
             (case maybe_state of
                None \<Rightarrow> Some (Err (StateNotInStateMap (leaf_view_number leaf)), acc)
              | Some state \<Rightarrow>
                 (if terminator = Exclusive (leaf_view_number leaf) then
                    Some (if ok_when_finished then Ok () else Err (MissingLeaf next_leaf), acc)
                  else case f leaf state delta acc of
                    (continue, acc') \<Rightarrow>
                     (if \<not> continue then Some (Ok (), acc')
                      else if terminator = Inclusive (leaf_view_number leaf) then
                        Some (if ok_when_finished then Ok ()
                              else Err (MissingLeaf (parent_commitment leaf)), acc')
                      else visit_leaves self terminator ok_when_finished f
                             (parent_commitment leaf) acc')))))"

declare visit_leaves.simps [code]

definition visit_leaf_ancestors ::
  "('k, 'g, 'h, 'st, 'dl) Consensus \<Rightarrow> u64 \<Rightarrow> Terminator \<Rightarrow> bool
     \<Rightarrow> (('g, 'h) Leaf2 \<Rightarrow> 'st \<Rightarrow> 'dl option \<Rightarrow> 'a \<Rightarrow> bool \<times> 'a) \<Rightarrow> 'a
     \<Rightarrow> ((HotShotError, unit) result \<times> 'a) option" where
  "visit_leaf_ancestors self start_from terminator ok_when_finished f acc =
     (case bt_get (validated_state_map self) start_from of
        None \<Rightarrow> Some (Err ViewNotInStateMap, acc)
      | Some view \<Rightarrow>
         (case leaf_commitment view of
            None \<Rightarrow> Some (Err VisitedFailedView, acc)
          | Some next_leaf \<Rightarrow> visit_leaves self terminator ok_when_finished f next_leaf acc))"

section \<open>Garbage collection\<close>

text \<open>The \<open>expect\<close> on the first entry of the state map panics when the map is empty.\<close>

definition collect_garbage ::
  "u64 \<Rightarrow> u64 \<Rightarrow> ('k, 'g, 'h, 'st, 'dl) Consensus \<Rightarrow> ('k, 'g, 'h, 'st, 'dl) Consensus option" where
  "collect_garbage old_anchor_view new_anchor_view self =
     (if new_anchor_view \<le> old_anchor_view then Some self
      else
       (let gc_view = saturating_sub new_anchor_view 1 in
        case bt_first_key_value (validated_state_map self) of
          None \<Rightarrow> None
        | Some _ \<Rightarrow>
           (let collected =
                  List.map_filter (\<lambda>(_, view). leaf_commitment view)
                    (bt_range old_anchor_view gc_view (validated_state_map self))
            in Some (self\<lparr>
                 saved_da_certs := (saved_da_certs self) |` {v. old_anchor_view \<le> v},
                 saved_leaves := foldl (\<lambda>m leaf. m(leaf := None)) (saved_leaves self) collected,
                 validated_state_map := bt_split_off gc_view (validated_state_map self),
                 saved_payloads := bt_split_off gc_view (saved_payloads self),
                 vid_shares := bt_split_off gc_view (vid_shares self),
                 last_proposals := bt_split_off gc_view (last_proposals self)\<rparr>))))"

section \<open>VID dispersal\<close>

text \<open>
  \<open>calculate_vid_disperse\<close> computes the shares of a payload for a target epoch and \<open>to_proposal\<close>
  signs one; both are external. \<open>None\<close> is the function's early return.
\<close>

definition calculate_and_update_vid ::
  "(u8 list \<Rightarrow> u64 \<Rightarrow> u64 option \<Rightarrow> u64 option \<Rightarrow> 'k VidDisperseShare list option)
     \<Rightarrow> ('k VidDisperseShare \<Rightarrow> ('k VidDisperseShare, 'g) Proposal option)
     \<Rightarrow> u64 \<Rightarrow> u64 option \<Rightarrow> ('k, 'g, 'h, 'st, 'dl) Consensus
     \<Rightarrow> ('k, 'g, 'h, 'st, 'dl) Consensus \<times> unit option" where
  "calculate_and_update_vid calculate_vid_disperse to_proposal view target_epoch consensus =
     (case bt_get (saved_payloads consensus) view of
        None \<Rightarrow> (consensus, None)
      | Some payload \<Rightarrow>
         (case bt_get (validated_state_map consensus) view of
            None \<Rightarrow> (consensus, None)
          | Some view_inner \<Rightarrow>
             (case view_epoch view_inner of
                None \<Rightarrow> (consensus, None)
              | Some epoch \<Rightarrow>
                 (case calculate_vid_disperse payload view target_epoch epoch of
                    None \<Rightarrow> (consensus, None)
                  | Some shares \<Rightarrow>
                      (foldl (\<lambda>c share. case to_proposal share of
                                Some prop \<Rightarrow> update_vid_shares view prop c
                              | None \<Rightarrow> c) consensus shares,
                       Some ())))))"

section \<open>Registers that only grow\<close>

text \<open>
  Several fields of \<open>Consensus\<close> are written only through an operation that accepts a value
  exactly when it is larger than the current one. The locale states that contract; its lemmas are
  used for the view counters and for the record of actions.
\<close>

fun offer_all :: "('v \<Rightarrow> 's \<Rightarrow> ('e, 's) result) \<Rightarrow> 'v list \<Rightarrow> 's \<Rightarrow> 's \<times> 'v list" where
  "offer_all upd [] s = (s, [])"
| "offer_all upd (v # vs) s =
     (case upd v s of
        Inl _ \<Rightarrow> offer_all upd vs s
      | Inr s1 \<Rightarrow> (let (s2, accepted) = offer_all upd vs s1 in (s2, v # accepted)))"

locale monotone_register =
  fixes get :: "'s \<Rightarrow> 'v::linorder" and upd :: "'v \<Rightarrow> 's \<Rightarrow> ('e, 's) result"
  assumes accepted: "upd v s = Ok s' \<Longrightarrow> get s < v \<and> get s' = v"
    and newer_accepted: "get s < v \<Longrightarrow> is_ok (upd v s)"
begin

lemma upd_cases:
  obtains (newer) s' where "get s < v" "upd v s = Ok s'" "get s' = v"
  | (stale) e where "v \<le> get s" "upd v s = Err e"
proof (cases "get s < v")
  case True
  then obtain s' where "upd v s = Ok s'" using newer_accepted [of s v] by (auto simp: is_ok_iff)
  then show thesis using accepted True newer by blast
next
  case False
  then have "\<not> (\<exists>s'. upd v s = Ok s')" using accepted by blast
  then obtain e where "upd v s = Err e" by (cases "upd v s") auto
  then show thesis using False stale by auto
qed

lemma offer_all_accepts:
  "offer_all upd vs s = (s', vs') \<Longrightarrow>
     sorted_wrt (<) (get s # vs') \<and> get s' = last (get s # vs') \<and> get s' = Max (set (get s # vs))
     \<and> set vs' \<subseteq> set vs"
proof (induction vs arbitrary: s vs')
  case Nil
  then show ?case by simp
next
  case (Cons v vs)
  show ?case
  proof (cases rule: upd_cases [where s = s and v = v])
    case (newer s1)
    obtain vs1 where r: "offer_all upd vs s1 = (s', vs1)" "vs' = v # vs1"
      using Cons.prems newer by (auto split: prod.splits)
    have ih: "sorted_wrt (<) (v # vs1)" "get s' = last (v # vs1)" "get s' = Max (set (v # vs))"
        "set vs1 \<subseteq> set vs"
      using Cons.IH [OF r(1)] newer by auto
    have "\<forall>x \<in> set vs1. get s < x" using ih(1) newer(1) by auto
    moreover have "Max (insert (get s) (insert v (set vs))) = Max (insert v (set vs))"
      using newer(1) by (cases "vs = []") (auto simp: max_def Max_insert)
    ultimately show ?thesis using ih newer r by (auto simp: insert_commute)
  next
    case (stale e)
    then have "offer_all upd vs s = (s', vs')" using Cons.prems by simp
    from Cons.IH [OF this]
    have ih: "sorted_wrt (<) (get s # vs')" "get s' = last (get s # vs')"
        "get s' = Max (set (get s # vs))" "set vs' \<subseteq> set vs" by auto
    have "Max (insert (get s) (insert v (set vs))) = Max (insert (get s) (set vs))"
      using stale(1) by (cases "vs = []") (auto simp: max_def Max_insert insert_commute)
    then show ?thesis using ih by (auto simp: insert_commute)
  qed
qed

lemma offer_all_distinct: "offer_all upd vs s = (s', vs') \<Longrightarrow> distinct vs'"
  using offer_all_accepts [of vs s s' vs'] by (simp add: strict_sorted_iff)

end

interpretation view_register: monotone_register cur_view update_view
  by unfold_locales (auto simp: update_view_def split: if_splits)

interpretation locked_register: monotone_register locked_view update_locked_view
  by unfold_locales (auto simp: update_locked_view_def split: if_splits)

interpretation decided_register: monotone_register last_decided_view update_last_decided_view
  by unfold_locales (auto simp: update_last_decided_view_def split: if_splits)

definition action_register :: "HotShotAction \<Rightarrow> u64 \<Rightarrow> ('k, 'g, 'h, 'st, 'dl) Consensus
     \<Rightarrow> (unit, ('k, 'g, 'h, 'st, 'dl) Consensus) result" where
  "action_register action view self =
     (case update_action action view self of (self', True) \<Rightarrow> Ok self' | (_, False) \<Rightarrow> Err ())"

interpretation vote_register: monotone_register "\<lambda>s. act_voted (last_actions s)" "action_register VoteAction"
  by unfold_locales (auto simp: action_register_def update_action_def Let_def split: if_splits)

interpretation propose_register: monotone_register "\<lambda>s. act_proposed (last_actions s)"
  "action_register ProposeAction"
  by unfold_locales (auto simp: action_register_def update_action_def Let_def split: if_splits)

interpretation da_propose_register: monotone_register "\<lambda>s. act_da_proposed (last_actions s)"
  "action_register DaProposeAction"
  by unfold_locales (auto simp: action_register_def update_action_def Let_def split: if_splits)

section \<open>Steps of the consensus state\<close>

datatype ConsensusEvent = Internal | Approved HotShotAction u64

inductive consensus_step ::
  "(('g, 'h) Leaf2 \<Rightarrow> commitment) \<Rightarrow> ('k, 'g, 'h, 'st, 'dl) Consensus \<Rightarrow> ConsensusEvent
     \<Rightarrow> ('k, 'g, 'h, 'st, 'dl) Consensus \<Rightarrow> bool"
  for commit :: "('g, 'h) Leaf2 \<Rightarrow> commitment" where
  step_view: "update_view v s = Ok s' \<Longrightarrow> consensus_step commit s Internal s'"
| step_epoch: "update_epoch e s = Ok s' \<Longrightarrow> consensus_step commit s Internal s'"
| step_highest_block: "consensus_step commit s Internal (update_highest_block b s)"
| step_set_highest_block: "consensus_step commit s Internal (s\<lparr>highest_block := b\<rparr>)"
| step_transition_qc: "consensus_step commit s Internal (update_transition_qc qc nqc s)"
| step_action: "update_action a v s = (s', True) \<Longrightarrow> consensus_step commit s (Approved a v) s'"
| step_proposed: "update_proposed_view p s = Ok s' \<Longrightarrow> consensus_step commit s Internal s'"
| step_decided: "update_last_decided_view v s = Ok s' \<Longrightarrow> consensus_step commit s Internal s'"
| step_locked: "update_locked_view v s = Ok s' \<Longrightarrow> consensus_step commit s Internal s'"
| step_da_view: "update_da_view v e pc s = Ok s' \<Longrightarrow> consensus_step commit s Internal s'"
| step_leaf: "update_leaf commit l st d s = Ok s' \<Longrightarrow> consensus_step commit s Internal s'"
| step_payload: "update_saved_payloads v p s = Ok s' \<Longrightarrow> consensus_step commit s Internal s'"
| step_high_qc: "update_high_qc qc s = Ok s' \<Longrightarrow> consensus_step commit s Internal s'"
| step_next_epoch_high_qc: "update_next_epoch_high_qc qc s = Ok s' \<Longrightarrow> consensus_step commit s Internal s'"
| step_reset_high_qc: "reset_high_qc qc nqc s = Ok s' \<Longrightarrow> consensus_step commit s Internal s'"
| step_state_cert: "update_state_cert sc s = Ok s' \<Longrightarrow> consensus_step commit s Internal s'"
| step_vid_shares: "consensus_step commit s Internal (update_vid_shares v share s)"
| step_da_certs: "consensus_step commit s Internal (update_saved_da_certs v dac s)"
| step_drb_results: "consensus_step commit s Internal (s\<lparr>drb_results := drbs\<rparr>)"
| step_garbage: "collect_garbage old new s = Some s' \<Longrightarrow> consensus_step commit s Internal s'"

inductive consensus_trace ::
  "(('g, 'h) Leaf2 \<Rightarrow> commitment) \<Rightarrow> ('k, 'g, 'h, 'st, 'dl) Consensus \<Rightarrow> ConsensusEvent list
     \<Rightarrow> ('k, 'g, 'h, 'st, 'dl) Consensus \<Rightarrow> bool"
  for commit :: "('g, 'h) Leaf2 \<Rightarrow> commitment" where
  trace_refl: "consensus_trace commit s [] s"
| trace_step: "consensus_step commit s ev s1 \<Longrightarrow> consensus_trace commit s1 evs s2 \<Longrightarrow>
    consensus_trace commit s (ev # evs) s2"

definition opt_le :: "'a::linorder option \<Rightarrow> 'a option \<Rightarrow> bool" where
  "opt_le a b = (case a of None \<Rightarrow> True | Some x \<Rightarrow> (case b of None \<Rightarrow> False | Some y \<Rightarrow> x \<le> y))"

lemma opt_le_refl [simp]: "opt_le a a"
  by (cases a) (simp_all add: opt_le_def)

lemma opt_le_trans: "opt_le a b \<Longrightarrow> opt_le b c \<Longrightarrow> opt_le a c"
  by (auto simp: opt_le_def split: option.splits)

definition views_le ::
  "('k, 'g, 'h, 'st, 'dl) Consensus \<Rightarrow> ('k, 'g, 'h, 'st, 'dl) Consensus \<Rightarrow> bool" where
  "views_le s s' \<longleftrightarrow>
     cur_view s \<le> cur_view s' \<and> locked_view s \<le> locked_view s'
     \<and> last_decided_view s \<le> last_decided_view s'
     \<and> opt_le (cur_epoch s) (cur_epoch s')
     \<and> act_voted (last_actions s) \<le> act_voted (last_actions s')
     \<and> act_proposed (last_actions s) \<le> act_proposed (last_actions s')
     \<and> act_da_proposed (last_actions s) \<le> act_da_proposed (last_actions s')
     \<and> act_da_vote (last_actions s) \<le> act_da_vote (last_actions s')
     \<and> opt_le (map_option lcc_epoch (state_cert s)) (map_option lcc_epoch (state_cert s'))
     \<and> opt_le (map_option (cert_view_number \<circ> fst) (transition_qc s))
              (map_option (cert_view_number \<circ> fst) (transition_qc s'))"

lemma views_le_refl [simp]: "views_le s s"
  by (simp add: views_le_def)

lemma views_le_trans: "views_le a b \<Longrightarrow> views_le b c \<Longrightarrow> views_le a c"
  by (auto simp: views_le_def intro: order_trans opt_le_trans)

lemma update_validated_state_map_Ok:
  "update_validated_state_map v view s = Ok s' \<Longrightarrow>
   s' = s\<lparr>validated_state_map := bt_insert v view (validated_state_map s)\<rparr>"
  by (auto simp: update_validated_state_map_def Let_def split: option.splits ViewInner.splits if_splits)

lemma update_leaf_Ok:
  "update_leaf commit l st d s = Ok s' \<Longrightarrow>
   s' = s\<lparr>validated_state_map := bt_insert (leaf_view_number l)
            (LeafView (commit l) st d (leaf_epoch l (epoch_height s))) (validated_state_map s),
         saved_leaves := (saved_leaves s)(commit l \<mapsto> l)\<rparr>"
  by (auto simp: update_leaf_def Let_def try_bind_Inr_iff update_saved_leaves_def leaf_epoch_def
      leaf_height_def dest!: update_validated_state_map_Ok)

lemma update_action_views_le:
  "update_action a v s = (s', b) \<Longrightarrow> views_le s s'"
  by (cases a) (auto simp: update_action_def Let_def views_le_def split: if_splits)

lemma collect_garbage_Some:
  assumes "collect_garbage old new s = Some s'"
  shows "s' = s \<and> new \<le> old \<or>
    old < new \<and> validated_state_map s \<noteq> [] \<and>
    s' = s\<lparr>saved_da_certs := (saved_da_certs s) |` {v. old \<le> v},
       saved_leaves := foldl (\<lambda>m leaf. m(leaf := None)) (saved_leaves s)
         (List.map_filter (\<lambda>(_, view). leaf_commitment view)
           (bt_range old (saturating_sub new 1) (validated_state_map s))),
       validated_state_map := bt_split_off (saturating_sub new 1) (validated_state_map s),
       saved_payloads := bt_split_off (saturating_sub new 1) (saved_payloads s),
       vid_shares := bt_split_off (saturating_sub new 1) (vid_shares s),
       last_proposals := bt_split_off (saturating_sub new 1) (last_proposals s)\<rparr>"
  using assms
  by (auto simp: collect_garbage_def Let_def bt_first_key_value_def not_le
      split: if_splits option.splits list.splits)

lemma consensus_step_views_le: "consensus_step commit s ev s' \<Longrightarrow> views_le s s'"
proof (induction rule: consensus_step.induct)
  case (step_da_view v e pc s s')
  then show ?case
    by (auto simp: update_da_view_def views_le_def dest!: update_validated_state_map_Ok)
next
  case (step_leaf l st d s s')
  then show ?case by (auto simp: views_le_def dest!: update_leaf_Ok)
next
  case (step_garbage old new s s')
  then show ?case by (auto simp: views_le_def dest!: collect_garbage_Some)
next
  case (step_epoch e s s')
  then show ?case by (auto simp: update_epoch_def views_le_def opt_le_def split: if_splits option.splits)
next
  case (step_transition_qc s qc nqc)
  then show ?case
    by (auto simp: update_transition_qc_def views_le_def opt_le_def split: option.splits)
next
  case (step_state_cert sc s s')
  then show ?case
    by (auto simp: update_state_cert_def views_le_def opt_le_def split: if_splits option.splits)
next
  case (step_reset_high_qc qc nqc s s')
  then show ?case by (auto simp: reset_high_qc_def views_le_def Let_def split: if_splits)
next
  case (step_next_epoch_high_qc qc s s')
  then show ?case
    by (auto simp: update_next_epoch_high_qc_def views_le_def split: if_splits option.splits)
next
  case (step_action a v s s')
  then show ?case by (rule update_action_views_le)
qed (auto simp: views_le_def update_view_def update_highest_block_def update_proposed_view_def
      update_last_decided_view_def update_locked_view_def update_saved_payloads_def
      update_high_qc_def update_vid_shares_def update_saved_da_certs_def Let_def split: if_splits)

text \<open>
  C33: along any interleaving of the operations of the consensus state the current view, the locked
  view, the decided view, the epoch, the views of the last actions, the epoch of the light-client
  certificate and the view of the transition certificate never decrease.
\<close>

theorem consensus_views_monotone:
  assumes "consensus_trace commit s evs s'"
  shows "views_le s s'"
  using assms
  by (induction rule: consensus_trace.induct)
     (auto intro: views_le_trans dest: consensus_step_views_le)


section \<open>One action per view\<close>

fun approved_views :: "HotShotAction \<Rightarrow> ConsensusEvent list \<Rightarrow> u64 list" where
  "approved_views a [] = []"
| "approved_views a (Internal # evs) = approved_views a evs"
| "approved_views a (Approved b v # evs) =
     (if a = b then v # approved_views a evs else approved_views a evs)"

definition action_view :: "HotShotAction \<Rightarrow> HotShotActionViews \<Rightarrow> u64" where
  "action_view a acts =
     (case a of
        VoteAction \<Rightarrow> act_voted acts
      | ProposeAction \<Rightarrow> act_proposed acts
      | DaProposeAction \<Rightarrow> act_da_proposed acts
      | _ \<Rightarrow> 0)"

lemma views_le_action_view: "views_le s s' \<Longrightarrow> action_view a (last_actions s) \<le> action_view a (last_actions s')"
  by (cases a) (auto simp: views_le_def action_view_def)

lemma approved_action_newer:
  assumes "consensus_step commit s (Approved a v) s'"
    and "a \<in> {VoteAction, ProposeAction, DaProposeAction}"
  shows "action_view a (last_actions s) < v \<and> action_view a (last_actions s') = v"
  using assms
  by (auto elim!: consensus_step.cases simp: update_action_def action_view_def Let_def split: if_splits)

text \<open>
  C13: along any interleaving of operations the views in which \<open>update_action\<close> approves a quorum vote
  (and likewise a proposal or a DA proposal) strictly increase: a node never votes twice in a view.
\<close>

theorem at_most_one_action_per_view:
  assumes "consensus_trace commit s evs s'"
    and "a \<in> {VoteAction, ProposeAction, DaProposeAction}"
  shows "sorted_wrt (<) (action_view a (last_actions s) # approved_views a evs)"
  using assms
proof (induction rule: consensus_trace.induct)
  case (trace_step s ev s1 evs s2)
  have ih: "sorted_wrt (<) (action_view a (last_actions s1) # approved_views a evs)"
    using trace_step by blast
  have le: "action_view a (last_actions s) \<le> action_view a (last_actions s1)"
    using consensus_step_views_le [OF trace_step(1)] by (rule views_le_action_view)
  show ?case
  proof (cases "\<exists>v. ev = Approved a v")
    case True
    then obtain v where v: "ev = Approved a v" by blast
    have "action_view a (last_actions s) < v" "action_view a (last_actions s1) = v"
      using approved_action_newer [of commit s a v s1] trace_step(1,4) v by auto
    then show ?thesis using ih v by auto
  next
    case False
    then have "approved_views a (ev # evs) = approved_views a evs" by (cases ev) auto
    then show ?thesis using ih le by auto
  qed
qed simp

section \<open>Leaves and the state map agree\<close>

text \<open>
  The commitment of a leaf is a hash of its fields; what the invariant needs of it is that leaves
  with the same commitment have the same view, height and epoch flag.
\<close>

definition commit_binds :: "(('g, 'h) Leaf2 \<Rightarrow> commitment) \<Rightarrow> bool" where
  "commit_binds commit \<longleftrightarrow>
     (\<forall>l l'. commit l = commit l' \<longrightarrow>
        leaf_view_number l = leaf_view_number l' \<and> leaf_height l = leaf_height l'
        \<and> with_epoch l = with_epoch l')"

definition leaves_consistent ::
  "(('g, 'h) Leaf2 \<Rightarrow> commitment) \<Rightarrow> ('k, 'g, 'h, 'st, 'dl) Consensus \<Rightarrow> bool" where
  "leaves_consistent commit s \<longleftrightarrow>
     bt_wf (validated_state_map s)
     \<and> (\<forall>c l. saved_leaves s c = Some l \<longrightarrow> commit l = c)
     \<and> (\<forall>v c st d e. bt_get (validated_state_map s) v = Some (LeafView c st d e) \<longrightarrow>
          (\<exists>l. saved_leaves s c = Some l \<and> leaf_view_number l = v
               \<and> e = leaf_epoch l (epoch_height s)))"

lemma commit_bindsD:
  assumes "commit_binds commit" "commit l = commit l'"
  shows "leaf_view_number l = leaf_view_number l'" "leaf_epoch l h = leaf_epoch l' h"
proof -
  have "leaf_view_number l = leaf_view_number l' \<and> leaf_height l = leaf_height l'
      \<and> with_epoch l = with_epoch l'"
    using assms unfolding commit_binds_def by blast
  then show "leaf_view_number l = leaf_view_number l'" "leaf_epoch l h = leaf_epoch l' h"
    by (simp_all add: leaf_epoch_def flip: leaf_height_def)
qed

lemma leaves_consistent_commit:
  "leaves_consistent commit s \<Longrightarrow> saved_leaves s c = Some l \<Longrightarrow> commit l = c"
  by (simp add: leaves_consistent_def)

lemma leaves_consistentE:
  assumes "leaves_consistent commit s"
    and "bt_get (validated_state_map s) v = Some (LeafView c st d e)"
  obtains l where "saved_leaves s c = Some l" "leaf_view_number l = v"
    "e = leaf_epoch l (epoch_height s)"
  using assms unfolding leaves_consistent_def by blast

lemma leaves_consistent_wf: "leaves_consistent commit s \<Longrightarrow> bt_wf (validated_state_map s)"
  by (simp add: leaves_consistent_def)

lemma leaves_consistent_cong:
  "validated_state_map s' = validated_state_map s \<Longrightarrow> saved_leaves s' = saved_leaves s \<Longrightarrow>
   epoch_height s' = epoch_height s \<Longrightarrow> leaves_consistent commit s' = leaves_consistent commit s"
  by (simp add: leaves_consistent_def)

lemma leaves_consistent_da:
  assumes "leaves_consistent commit s" "update_da_view v e pc s = Ok s'"
  shows "leaves_consistent commit s'"
proof -
  have s': "s' = s\<lparr>validated_state_map := bt_insert v (DaView pc e) (validated_state_map s)\<rparr>"
    using assms(2) unfolding update_da_view_def by (rule update_validated_state_map_Ok)
  show ?thesis
    unfolding leaves_consistent_def
  proof (intro conjI allI impI)
    fix w c st d e' assume "bt_get (validated_state_map s') w = Some (LeafView c st d e')"
    then have "bt_get (validated_state_map s) w = Some (LeafView c st d e')"
      by (auto simp: s' bt_get_insert split: if_splits)
    then obtain l where "saved_leaves s c = Some l" "leaf_view_number l = w"
        "e' = leaf_epoch l (epoch_height s)"
      by (rule leaves_consistentE [OF assms(1)])
    then show "\<exists>l. saved_leaves s' c = Some l \<and> leaf_view_number l = w
        \<and> e' = leaf_epoch l (epoch_height s')" by (auto simp: s')
  qed (use assms(1) in \<open>auto simp: s' bt_wf_insert leaves_consistent_wf leaves_consistent_commit\<close>)
qed

lemma leaves_consistent_leaf:
  assumes b: "commit_binds commit" and c: "leaves_consistent commit s"
    and u: "update_leaf commit l st d s = Ok s'"
  shows "leaves_consistent commit s'"
proof -
  note s' = update_leaf_Ok [OF u]
  have bind: "leaf_view_number l = leaf_view_number l0 \<and> leaf_epoch l h = leaf_epoch l0 h"
    if "saved_leaves s (commit l) = Some l0" for l0 h
    using commit_bindsD [OF b, of l l0] leaves_consistent_commit [OF c that] by simp
  show ?thesis
    unfolding leaves_consistent_def
  proof (intro conjI allI impI)
    show "bt_wf (validated_state_map s')"
      using leaves_consistent_wf [OF c] by (simp add: s' bt_wf_insert)
  next
    fix c' l' assume "saved_leaves s' c' = Some l'"
    then show "commit l' = c'" using leaves_consistent_commit [OF c] by (auto simp: s' split: if_splits)
  next
    fix v c' st' d' e' assume g: "bt_get (validated_state_map s') v = Some (LeafView c' st' d' e')"
    show "\<exists>l'. saved_leaves s' c' = Some l' \<and> leaf_view_number l' = v
        \<and> e' = leaf_epoch l' (epoch_height s')"
    proof (cases "v = leaf_view_number l")
      case True
      then show ?thesis using g by (simp add: s' bt_get_insert)
    next
      case False
      then have "bt_get (validated_state_map s) v = Some (LeafView c' st' d' e')"
        using g by (simp add: s' bt_get_insert)
      then obtain l0 where l0: "saved_leaves s c' = Some l0" "leaf_view_number l0 = v"
          "e' = leaf_epoch l0 (epoch_height s)"
        by (rule leaves_consistentE [OF c])
      then show ?thesis using bind [of l0] False by (auto simp: s')
    qed
  qed
qed

lemma foldl_remove:
  "foldl (\<lambda>m x. m(x := None)) m xs = (\<lambda>x. if x \<in> set xs then None else m x)"
  by (induction xs arbitrary: m) auto

lemma in_collected_iff:
  assumes "bt_wf m"
  shows "c \<in> set (List.map_filter (\<lambda>(_, view). leaf_commitment view) (bt_range lo hi m)) \<longleftrightarrow>
    (\<exists>v view. lo \<le> v \<and> v < hi \<and> bt_get m v = Some view \<and> leaf_commitment view = Some c)"
  using assms
  by (force simp: List.map_filter_def bt_range_def bt_get_iff_in_set)

lemma leaves_consistent_garbage:
  assumes c: "leaves_consistent commit s" and g: "collect_garbage old new s = Some s'"
  shows "leaves_consistent commit s'"
proof (cases "s' = s")
  case False
  then have s': "s' = s\<lparr>saved_da_certs := (saved_da_certs s) |` {v. old \<le> v},
       saved_leaves := foldl (\<lambda>m leaf. m(leaf := None)) (saved_leaves s)
         (List.map_filter (\<lambda>(_, view). leaf_commitment view)
           (bt_range old (saturating_sub new 1) (validated_state_map s))),
       validated_state_map := bt_split_off (saturating_sub new 1) (validated_state_map s),
       saved_payloads := bt_split_off (saturating_sub new 1) (saved_payloads s),
       vid_shares := bt_split_off (saturating_sub new 1) (vid_shares s),
       last_proposals := bt_split_off (saturating_sub new 1) (last_proposals s)\<rparr>"
    using collect_garbage_Some [OF g] by auto
  have wf: "bt_wf (validated_state_map s)" using c by (simp add: leaves_consistent_def)
  show ?thesis
    unfolding leaves_consistent_def
  proof (intro conjI allI impI)
    fix v c' st d e assume a: "bt_get (validated_state_map s') v = Some (LeafView c' st d e)"
    then have v: "saturating_sub new 1 \<le> v" "bt_get (validated_state_map s) v = Some (LeafView c' st d e)"
      by (auto simp: s' bt_get_split_off split: if_splits)
    obtain l where l: "saved_leaves s c' = Some l" "leaf_view_number l = v"
        "e = leaf_epoch l (epoch_height s)"
      by (rule leaves_consistentE [OF c v(2)])
    have "c' \<notin> set (List.map_filter (\<lambda>(_, view). leaf_commitment view)
        (bt_range old (saturating_sub new 1) (validated_state_map s)))"
    proof
      assume "c' \<in> set (List.map_filter (\<lambda>(_, view). leaf_commitment view)
        (bt_range old (saturating_sub new 1) (validated_state_map s)))"
      then obtain w view where w: "w < saturating_sub new 1"
          "bt_get (validated_state_map s) w = Some view" "leaf_commitment view = Some c'"
        using in_collected_iff [OF wf] by blast
      then obtain st' d' e' where "view = LeafView c' st' d' e'"
        by (cases view) (auto simp: leaf_commitment_def)
      then have "leaf_view_number l = w" using leaves_consistentE [OF c] w(2) l(1) by force
      then show False using l(2) w(1) v(1) by simp
    qed
    then show "\<exists>l. saved_leaves s' c' = Some l \<and> leaf_view_number l = v
        \<and> e = leaf_epoch l (epoch_height s')"
      using l by (auto simp: s' foldl_remove)
  qed (use c wf in \<open>auto simp: s' foldl_remove leaves_consistent_commit bt_wf_split_off split: if_splits\<close>)
qed (use c in simp)


text \<open>Only three operations touch the state map or the saved leaves.\<close>

definition same_leaves ::
  "('k, 'g, 'h, 'st, 'dl) Consensus \<Rightarrow> ('k, 'g, 'h, 'st, 'dl) Consensus \<Rightarrow> bool" where
  "same_leaves s s' \<longleftrightarrow> validated_state_map s' = validated_state_map s
     \<and> saved_leaves s' = saved_leaves s \<and> epoch_height s' = epoch_height s"

lemma consensus_step_leaves_cases:
  assumes "consensus_step commit s ev s'"
  obtains (same) "same_leaves s s'"
  | (da) v e pc where "update_da_view v e pc s = Ok s'"
  | (leaf) l st d where "update_leaf commit l st d s = Ok s'"
  | (garbage) old new where "collect_garbage old new s = Some s'"
  using assms
proof cases
  case (step_action a v)
  then show thesis
    by (intro same) (auto simp: same_leaves_def update_action_def Let_def
        split: HotShotAction.splits if_splits)
next
  case (step_transition_qc qc nqc)
  then show thesis
    by (intro same) (auto simp: same_leaves_def update_transition_qc_def split: option.splits)
next
  case (step_reset_high_qc qc nqc)
  then show thesis
    by (intro same) (auto simp: same_leaves_def reset_high_qc_def Let_def split: if_splits)
next
  case (step_next_epoch_high_qc qc)
  then show thesis
    by (intro same)
       (auto simp: same_leaves_def update_next_epoch_high_qc_def split: if_splits option.splits)
next
  case (step_state_cert sc)
  then show thesis
    by (intro same) (auto simp: same_leaves_def update_state_cert_def split: if_splits option.splits)
qed (auto simp: same_leaves_def update_view_def update_epoch_def
      update_highest_block_def update_proposed_view_def update_last_decided_view_def
      update_locked_view_def update_saved_payloads_def update_high_qc_def update_vid_shares_def
      update_saved_da_certs_def Let_def split: if_splits
      intro: same da leaf garbage)

lemma consensus_step_leaves_consistent:
  assumes b: "commit_binds commit" and s: "consensus_step commit s ev s'"
    and c: "leaves_consistent commit s"
  shows "leaves_consistent commit s'"
  using s
proof (cases rule: consensus_step_leaves_cases)
  case same
  then show ?thesis using c leaves_consistent_cong [of s' s commit] by (simp add: same_leaves_def)
next
  case (leaf l st d)
  show ?thesis by (rule leaves_consistent_leaf [OF b c leaf])
qed (rule leaves_consistent_da [OF c] leaves_consistent_garbage [OF c], assumption)+

text \<open>
  every leaf view of the state map points to a saved leaf of that very view and epoch, in every
  reachable state, provided that the leaf commitment binds view, height and epoch flag.
\<close>

theorem consensus_leaves_consistent:
  assumes "commit_binds commit" and "leaves_consistent commit s" and "consensus_trace commit s evs s'"
  shows "leaves_consistent commit s'"
  using assms(3,2)
  by (induction rule: consensus_trace.induct)
     (auto dest: consensus_step_leaves_consistent [OF assms(1)])

section \<open>What garbage collection keeps\<close>

lemma collect_garbage_total:
  "validated_state_map s \<noteq> [] \<Longrightarrow> \<exists>s'. collect_garbage old new s = Some s'"
  by (auto simp: collect_garbage_def Let_def bt_first_key_value_def split: list.splits)

lemma collect_garbage_fields:
  assumes g: "collect_garbage old new s = Some s'" and lt: "old < new"
  shows "bt_get (validated_state_map s') v =
      (if new - 1 \<le> v then bt_get (validated_state_map s) v else None)"
    and "bt_get (saved_payloads s') v = (if new - 1 \<le> v then bt_get (saved_payloads s) v else None)"
    and "bt_get (vid_shares s') v = (if new - 1 \<le> v then bt_get (vid_shares s) v else None)"
    and "bt_get (last_proposals s') v = (if new - 1 \<le> v then bt_get (last_proposals s) v else None)"
    and "saved_da_certs s' v = (if old \<le> v then saved_da_certs s v else None)"
    and "last_decided_view s' = last_decided_view s"
    and "saved_leaves s' = foldl (\<lambda>m leaf. m(leaf := None)) (saved_leaves s)
         (List.map_filter (\<lambda>(_, view). leaf_commitment view)
           (bt_range old (new - 1) (validated_state_map s)))"
proof -
  have "new \<noteq> 0" using lt by auto
  then have "1 \<le> new" by (simp add: word_le_nat_alt Suc_le_eq unat_gt_0)
  then have "saturating_sub new 1 = new - 1" by (simp add: saturating_sub_def)
  then have s': "s' = s\<lparr>saved_da_certs := (saved_da_certs s) |` {v. old \<le> v},
       saved_leaves := foldl (\<lambda>m leaf. m(leaf := None)) (saved_leaves s)
         (List.map_filter (\<lambda>(_, view). leaf_commitment view)
           (bt_range old (new - 1) (validated_state_map s))),
       validated_state_map := bt_split_off (new - 1) (validated_state_map s),
       saved_payloads := bt_split_off (new - 1) (saved_payloads s),
       vid_shares := bt_split_off (new - 1) (vid_shares s),
       last_proposals := bt_split_off (new - 1) (last_proposals s)\<rparr>"
    using collect_garbage_Some [OF g] lt by auto
  show "bt_get (validated_state_map s') v =
      (if new - 1 \<le> v then bt_get (validated_state_map s) v else None)"
    "bt_get (saved_payloads s') v = (if new - 1 \<le> v then bt_get (saved_payloads s) v else None)"
    "bt_get (vid_shares s') v = (if new - 1 \<le> v then bt_get (vid_shares s) v else None)"
    "bt_get (last_proposals s') v = (if new - 1 \<le> v then bt_get (last_proposals s) v else None)"
    "saved_da_certs s' v = (if old \<le> v then saved_da_certs s v else None)"
    "last_decided_view s' = last_decided_view s"
    "saved_leaves s' = foldl (\<lambda>m leaf. m(leaf := None)) (saved_leaves s)
         (List.map_filter (\<lambda>(_, view). leaf_commitment view)
           (bt_range old (new - 1) (validated_state_map s)))"
    by (simp_all add: s' bt_get_split_off restrict_map_def)
qed

lemma collect_garbage_keeps_leaf:
  assumes c: "leaves_consistent commit s" and g: "collect_garbage old new s = Some s'"
    and lt: "old < new" and v: "new - 1 \<le> v"
    and get: "bt_get (validated_state_map s) v = Some (LeafView lc st d e)"
  shows "saved_leaves s' lc = saved_leaves s lc"
proof -
  have "leaves_consistent commit s'" by (rule leaves_consistent_garbage [OF c g])
  moreover have "bt_get (validated_state_map s') v = Some (LeafView lc st d e)"
    using collect_garbage_fields(1) [OF g lt] v get by simp
  ultimately obtain l where "saved_leaves s' lc = Some l" by (rule leaves_consistentE)
  moreover have "saved_leaves s' lc = None \<or> saved_leaves s' lc = saved_leaves s lc"
    by (simp add: collect_garbage_fields(7) [OF g lt] foldl_remove)
  ultimately show ?thesis by auto
qed

text \<open>
  garbage collection up to an anchor at or below the last decided view keeps the decided leaf and
  its state, so \<open>decided_leaf\<close> and \<open>decided_state\<close> answer as before and cannot start to panic.
\<close>

theorem collect_garbage_keeps_decided_leaf:
  assumes c: "leaves_consistent commit s" and g: "collect_garbage old new s = Some s'"
    and new: "new \<le> last_decided_view s"
  shows "decided_leaf s' = decided_leaf s \<and> decided_state s' = decided_state s"
proof (cases "old < new")
  case False
  then show ?thesis using g by (simp add: collect_garbage_def not_less)
next
  case lt: True
  let ?v = "last_decided_view s"
  have "new \<noteq> 0" using lt by auto
  then have v: "new - 1 \<le> ?v"
    using new by (simp add: word_le_nat_alt unat_minus_one)
  note f = collect_garbage_fields [OF g lt]
  have get: "bt_get (validated_state_map s') ?v = bt_get (validated_state_map s) ?v"
    using v by (simp add: f(1))
  have "decided_state s' = decided_state s"
    by (simp add: decided_state_def state_and_delta_def f(6) get)
  moreover have "decided_leaf s' = decided_leaf s"
    using collect_garbage_keeps_leaf [OF c g lt v]
    by (auto simp: decided_leaf_def f(6) get leaf_commitment_def split: option.splits ViewInner.splits)
  ultimately show ?thesis by simp
qed

text \<open>A run of decides, each one view after the other, with the collection each of them triggers.\<close>

fun gc_run :: "u64 \<Rightarrow> nat \<Rightarrow> ('k, 'g, 'h, 'st, 'dl) Consensus
     \<Rightarrow> ('k, 'g, 'h, 'st, 'dl) Consensus option" where
  "gc_run anchor 0 s = Some s"
| "gc_run anchor (Suc n) s =
     (case collect_garbage anchor (anchor + 1) s of
        None \<Rightarrow> None | Some s' \<Rightarrow> gc_run (anchor + 1) n s')"

text \<open>
  when every decide advances the anchor by one view, the collections remove no leaf at all from
  \<open>saved_leaves\<close>, although the views of all those leaves leave the state map: the leaves stay
  behind for ever.
\<close>

theorem consecutive_decides_never_free_leaves:
  assumes "gc_run anchor n s = Some s'" and "unat anchor + n < 2 ^ 64"
  shows "saved_leaves s' = saved_leaves s \<and>
    (\<forall>v. unat v + 1 < unat anchor + n \<and> 0 < n \<longrightarrow> bt_get (validated_state_map s') v = None)"
  using assms
proof (induction n arbitrary: anchor s)
  case (Suc n)
  then obtain s1 where s1: "collect_garbage anchor (anchor + 1) s = Some s1"
      "gc_run (anchor + 1) n s1 = Some s'"
    by (auto split: option.splits)
  have a: "unat (anchor + 1) = unat anchor + 1"
    using Suc.prems(2) unat_add_no_overflow [of anchor 1] by simp
  then have lt: "anchor < anchor + 1" by (simp add: word_less_nat_alt)
  have "bt_range anchor anchor (validated_state_map s) = []"
    by (auto simp: bt_range_def filter_empty_conv)
  then have l: "saved_leaves s1 = saved_leaves s"
    by (simp add: collect_garbage_fields(7) [OF s1(1) lt] List.map_filter_def)
  have v1: "bt_get (validated_state_map s1) v = (if anchor \<le> v then bt_get (validated_state_map s) v else None)" for v
    using collect_garbage_fields(1) [OF s1(1) lt] by simp
  have ih: "saved_leaves s' = saved_leaves s1 \<and>
      (\<forall>v. unat v + 1 < unat (anchor + 1) + n \<and> 0 < n \<longrightarrow> bt_get (validated_state_map s') v = None)"
    using Suc.IH [OF s1(2)] Suc.prems(2) a by simp
  show ?case
  proof (cases "n = 0")
    case True
    then have "s' = s1" using s1(2) by simp
    then show ?thesis using l v1 True by (auto simp: word_le_nat_alt)
  next
    case False
    then show ?thesis using l ih a by auto
  qed
qed simp

section \<open>The state map never loses information\<close>

definition view_rank :: "('st, 'dl) ViewInner option \<Rightarrow> nat" where
  "view_rank view =
     (case view of
        None \<Rightarrow> 0
      | Some (LeafView _ _ None _) \<Rightarrow> 2
      | Some (LeafView _ _ (Some _) _) \<Rightarrow> 3
      | Some _ \<Rightarrow> 1)"

lemma update_validated_state_map_rank:
  assumes "update_validated_state_map v view s = Ok s'"
  shows "view_rank (bt_get (validated_state_map s) w) \<le> view_rank (bt_get (validated_state_map s') w)"
proof -
  have s': "s' = s\<lparr>validated_state_map := bt_insert v view (validated_state_map s)\<rparr>"
    by (rule update_validated_state_map_Ok [OF assms])
  show ?thesis
  proof (cases "w = v")
    case True
    then show ?thesis using assms unfolding s' update_validated_state_map_def
      by (auto simp: bt_get_insert view_rank_def Let_def
          split: option.splits ViewInner.splits if_splits)
  next
    case False
    then show ?thesis by (simp add: s' bt_get_insert)
  qed
qed

lemma consensus_step_rank:
  assumes "consensus_step commit s ev s'"
  shows "view_rank (bt_get (validated_state_map s) v) \<le> view_rank (bt_get (validated_state_map s') v)
    \<or> bt_get (validated_state_map s') v = None"
  using assms
proof (cases rule: consensus_step_leaves_cases)
  case (leaf l st d)
  then obtain s1 where "update_validated_state_map (leaf_view_number l)
      (LeafView (commit l) st d (leaf_epoch l (epoch_height s))) s = Ok s1"
    "s' = update_saved_leaves commit l s1"
    by (auto simp: update_leaf_def Let_def try_bind_Inr_iff leaf_epoch_def leaf_height_def)
  then show ?thesis using update_validated_state_map_rank [of _ _ s s1 v]
    by (simp add: update_saved_leaves_def)
next
  case (garbage old new)
  then show ?thesis
  proof (cases "old < new")
    case True
    then show ?thesis using collect_garbage_fields(1) [OF garbage] by simp
  next
    case False
    then have "s' = s" using garbage by (simp add: collect_garbage_def not_less)
    then show ?thesis by simp
  qed
qed (auto simp: same_leaves_def update_da_view_def dest: update_validated_state_map_rank)

text \<open>
  an operation never replaces the entry of a view by one with less information (nothing, DA or
  failed view, leaf without delta, leaf with delta); entries only disappear through collection.
\<close>

theorem validated_state_never_downgraded:
  assumes "consensus_step commit s ev s'"
  shows "view_rank (bt_get (validated_state_map s) v) \<le> view_rank (bt_get (validated_state_map s') v)
    \<or> bt_get (validated_state_map s') v = None"
  using assms by (rule consensus_step_rank)

section \<open>Walks terminate and follow the chain\<close>

text \<open>
  A commitment is a hash over the parent commitment, so a cycle through parents would be a
  collision. \<open>acyclic_leaves\<close> excludes it for the leaves that are saved.
\<close>

definition leaf_rank :: "(commitment \<Rightarrow> nat) \<Rightarrow> (commitment \<rightharpoonup> ('g, 'h) Leaf2) \<Rightarrow> bool" where
  "leaf_rank rank leaves \<longleftrightarrow>
     (\<forall>c l. leaves c = Some l \<longrightarrow> rank (parent_commitment l) < rank c)"

definition acyclic_leaves :: "('k, 'g, 'h, 'st, 'dl) Consensus \<Rightarrow> bool" where
  "acyclic_leaves s \<longleftrightarrow> (\<exists>rank. leaf_rank rank (saved_leaves s))"

lemma visit_leaves_terminates:
  assumes "acyclic_leaves s"
  shows "\<exists>r. visit_leaves s t ok f c acc = Some r"
proof -
  obtain rank where rank: "leaf_rank rank (saved_leaves s)"
    using assms by (auto simp: acyclic_leaves_def)
  show ?thesis
  proof (induction "rank c" arbitrary: c acc rule: less_induct)
    case less
    show ?case
    proof (cases "saved_leaves s c")
      case None
      then show ?thesis by (simp add: visit_leaves.simps)
    next
      case (Some l)
      have "rank (parent_commitment l) < rank c" using rank Some by (simp add: leaf_rank_def)
      then have ih: "\<exists>r. visit_leaves s t ok f (parent_commitment l) acc' = Some r" for acc'
        by (rule less)
      show ?thesis
        using Some ih by (subst visit_leaves.simps) (auto split: option.splits prod.splits)
    qed
  qed
qed

lemma visit_leaf_ancestors_total:
  assumes "acyclic_leaves s"
  shows "\<exists>r. visit_leaf_ancestors s start_from terminator ok_when_finished f acc = Some r"
  using visit_leaves_terminates [OF assms]
  by (auto simp: visit_leaf_ancestors_def split: option.splits)

text \<open>
  the walk over the ancestors of a leaf returns, for every visitor and terminator, when the
  saved leaves contain no cycle of parents.
\<close>

theorem visit_leaf_ancestors_terminates:
  assumes "acyclic_leaves s"
  shows "\<exists>r. visit_leaf_ancestors s start_from terminator ok_when_finished f acc = Some r"
  using assms by (rule visit_leaf_ancestors_total)

text \<open>\<open>collect_leaf\<close> is the visitor that records every leaf it is shown.\<close>

definition collect_leaf :: "('g, 'h) Leaf2 \<Rightarrow> 'st \<Rightarrow> 'dl option \<Rightarrow> ('g, 'h) Leaf2 list \<Rightarrow> bool \<times> ('g, 'h) Leaf2 list" where
  "collect_leaf leaf state delta acc = (True, acc @ [leaf])"

fun parent_chain :: "(('g, 'h) Leaf2 \<Rightarrow> commitment) \<Rightarrow> ('g, 'h) Leaf2 list \<Rightarrow> bool" where
  "parent_chain commit [] = True"
| "parent_chain commit [l] = True"
| "parent_chain commit (l # p # ls) = (parent_commitment l = commit p \<and> parent_chain commit (p # ls))"

lemma visit_leaves_parent_chain:
  assumes rank: "leaf_rank rank (saved_leaves s)"
    and c: "\<forall>c l. saved_leaves s c = Some l \<longrightarrow> commit l = c"
  shows "\<exists>r ls. visit_leaves s t ok collect_leaf lc acc = Some (r, acc @ ls)
    \<and> parent_chain commit ls \<and> (\<forall>l \<in> set ls. saved_leaves s (commit l) = Some l)
    \<and> (ls \<noteq> [] \<longrightarrow> commit (hd ls) = lc)"
proof (induction "rank lc" arbitrary: lc acc rule: less_induct)
  case less
  show ?case
  proof (cases "saved_leaves s lc")
    case None
    then show ?thesis by (auto simp: visit_leaves.simps intro!: exI [of _ "[]"])
  next
    case (Some l)
    have cl: "commit l = lc" using c Some by blast
    have "rank (parent_commitment l) < rank lc" using rank Some by (simp add: leaf_rank_def)
    from less [OF this, of "acc @ [l]"] obtain r ls where
      ih: "visit_leaves s t ok collect_leaf (parent_commitment l) (acc @ [l]) = Some (r, acc @ l # ls)"
        "parent_chain commit ls" "\<forall>l \<in> set ls. saved_leaves s (commit l) = Some l"
        "ls \<noteq> [] \<longrightarrow> commit (hd ls) = parent_commitment l" by auto
    have chain: "parent_chain commit (l # ls)" using ih(2,4) by (cases ls) auto
    obtain st d where sd: "state_and_delta s (leaf_view_number l) = (st, d)" by fastforce
    show ?thesis
    proof (cases "st = None \<or> t = Exclusive (leaf_view_number l)")
      case True
      then show ?thesis using Some sd
        by (subst visit_leaves.simps) (auto split: option.splits intro!: exI [of _ "[]"])
    next
      case False
      then obtain st' where st': "st = Some st'" by auto
      show ?thesis
      proof (cases "t = Inclusive (leaf_view_number l)")
        case True
        then show ?thesis using Some sd st' cl
          by (subst visit_leaves.simps) (auto simp: collect_leaf_def intro!: exI [of _ "[l]"])
      next
        case go: False
        have "visit_leaves s t ok collect_leaf lc acc = Some (r, acc @ l # ls)"
          using Some sd st' False go ih(1) by (subst visit_leaves.simps) (simp add: collect_leaf_def)
        then show ?thesis using chain ih(3) Some cl by (auto intro!: exI [of _ "l # ls"])
      qed
    qed
  qed
qed

text \<open>
  a walk shows its visitor the saved leaf of the start view and then, one after the other, leaves
  each of which is the parent of the one before.
\<close>

theorem visit_leaf_ancestors_parent_chain:
  assumes p: "acyclic_leaves s" and c: "leaves_consistent commit s"
    and start: "bt_get (validated_state_map s) start_from = Some (LeafView lc st d e)"
  shows "\<exists>r ls. visit_leaf_ancestors s start_from terminator ok_when_finished collect_leaf []
      = Some (r, ls) \<and> parent_chain commit ls
    \<and> (\<forall>l \<in> set ls. saved_leaves s (commit l) = Some l)
    \<and> (ls \<noteq> [] \<longrightarrow> commit (hd ls) = lc \<and> leaf_view_number (hd ls) = start_from)"
proof -
  have cc: "\<forall>c l. saved_leaves s c = Some l \<longrightarrow> commit l = c"
    using leaves_consistent_commit [OF c] by blast
  obtain rank where rank: "leaf_rank rank (saved_leaves s)"
    using p by (auto simp: acyclic_leaves_def)
  obtain r ls where v: "visit_leaves s terminator ok_when_finished collect_leaf lc [] = Some (r, ls)"
      "parent_chain commit ls" "\<forall>l \<in> set ls. saved_leaves s (commit l) = Some l"
      "ls \<noteq> [] \<longrightarrow> commit (hd ls) = lc"
    using visit_leaves_parent_chain [OF rank cc, of terminator ok_when_finished lc "[]"] by auto
  obtain l where l: "saved_leaves s lc = Some l" "leaf_view_number l = start_from"
    by (rule leaves_consistentE [OF c start])
  have "leaf_view_number (hd ls) = start_from" if "ls \<noteq> []"
    using that v(3,4) l by (metis list.set_sel(1) option.inject)
  then show ?thesis
    using v by (auto simp: visit_leaf_ancestors_def start leaf_commitment_def)
qed


section \<open>Witnesses\<close>

definition sample_leaf_commit :: "(nat, unit) Leaf2 \<Rightarrow> commitment" where
  "sample_leaf_commit l = ucast (leaf_view_number l)
     + 0x10000000000000000 * (ucast (leaf_height l)
          + 0x10000000000000000 * (if with_epoch l then 1 else 0))"

lemma digits_eq:
  fixes a b x y :: nat
  assumes "a + 2 ^ 64 * x = b + 2 ^ 64 * y" "a < 2 ^ 64" "b < 2 ^ 64"
  shows "a = b \<and> x = y"
proof -
  have "a = (a + 2 ^ 64 * x) mod 2 ^ 64" "b = (b + 2 ^ 64 * y) mod 2 ^ 64"
    using assms(2,3) by simp_all
  then have "a = b" using assms(1) by metis
  then show ?thesis using assms(1) by simp
qed

lemma len256: "LENGTH(256) = 256"
  by simp

lemma sample_commit_binds: "commit_binds sample_leaf_commit"
proof -
  have bound: "unat (v :: u64) < 2 ^ 64" for v using unsigned_less [of v] by simp
  have fits: "unat (v :: u64) + 2 ^ 64 * (unat (h :: u64) + 2 ^ 64 * (if b then 1 else 0)) < 2 ^ 256"
    for v h b
    using bound [of v] bound [of h] by simp
  have u: "unat (sample_leaf_commit l) = unat (leaf_view_number l)
     + 2 ^ 64 * (unat (leaf_height l) + 2 ^ 64 * (if with_epoch l then 1 else 0))" for l
  proof -
    have "sample_leaf_commit l = of_nat (unat (leaf_view_number l)
        + 2 ^ 64 * (unat (leaf_height l) + 2 ^ 64 * (if with_epoch l then 1 else 0)))"
      by (simp add: sample_leaf_commit_def of_nat_unat)
    then show ?thesis
      using fits [of "leaf_view_number l" "leaf_height l" "with_epoch l"]
      by (simp only: unat_of_nat_fits len256)
  qed
  show ?thesis
    unfolding commit_binds_def
  proof (intro allI impI)
    fix l l' assume "sample_leaf_commit l = sample_leaf_commit l'"
    then have "unat (sample_leaf_commit l) = unat (sample_leaf_commit l')" by simp
    then have 1: "unat (leaf_view_number l) = unat (leaf_view_number l') \<and>
        unat (leaf_height l) + 2 ^ 64 * (if with_epoch l then 1 else 0) =
        unat (leaf_height l') + 2 ^ 64 * (if with_epoch l' then 1 else 0)"
      unfolding u by (rule digits_eq [OF _ bound bound])
    then have 2: "unat (leaf_height l) = unat (leaf_height l') \<and>
        (if with_epoch l then 1 else 0) = (if with_epoch l' then 1 else (0::nat))"
      by (intro digits_eq [OF _ bound bound]) simp
    show "leaf_view_number l = leaf_view_number l' \<and> leaf_height l = leaf_height l'
        \<and> with_epoch l = with_epoch l'"
      using 1 2 by (auto simp: word_unat_eq_iff split: if_splits)
  qed
qed

definition sample_qc :: "commitment \<Rightarrow> u64 \<Rightarrow> nat QuorumCertificate2" where
  "sample_qc c v = \<lparr>cert_data = \<lparr>leaf_commit = c, qd_epoch = Some 1, qd_block_number = Some v\<rparr>,
     cert_vote_commitment = c, cert_view_number = v, cert_signatures = Some (0, [])\<rparr>"

definition sample_leaf :: "commitment \<Rightarrow> u64 \<Rightarrow> (nat, unit) Leaf2" where
  "sample_leaf parent v =
     \<lparr>leaf_view_number = v, justify_qc = sample_qc parent (v - 1), next_epoch_justify_qc = None,
      parent_commitment = parent,
      block_header = \<lparr>hdr_block_number = v, hdr_payload_commitment = 0, hdr_fields = ()\<rparr>,
      upgrade_certificate = None, block_payload = None, view_change_evidence = None,
      next_drb_result = None, with_epoch = True\<rparr>"

definition sample_leaf1 :: "(nat, unit) Leaf2" where "sample_leaf1 = sample_leaf 0 1"

definition sample_leaf2 :: "(nat, unit) Leaf2" where
  "sample_leaf2 = sample_leaf (sample_leaf_commit sample_leaf1) 2"

definition sample_genesis :: "(nat, nat, unit, nat, nat) Consensus" where
  "sample_genesis = consensus_new [] None 0 None 0 0 0 [] Map.empty [] (sample_qc 0 0) None 10 None 10"

definition get_ok :: "'s \<Rightarrow> ('e, 's) result \<Rightarrow> 's" where
  "get_ok d r = (case r of Inl _ \<Rightarrow> d | Inr s \<Rightarrow> s)"

definition sample_state1 :: "(nat, nat, unit, nat, nat) Consensus" where
  "sample_state1 = get_ok sample_genesis (update_leaf sample_leaf_commit sample_leaf1 11 (Some 5) sample_genesis)"

definition sample_state2 :: "(nat, nat, unit, nat, nat) Consensus" where
  "sample_state2 = get_ok sample_genesis (update_leaf sample_leaf_commit sample_leaf2 12 None sample_state1)"

lemmas sample_state_defs = sample_genesis_def sample_state1_def sample_state2_def get_ok_def
  consensus_new_def sample_leaf1_def sample_leaf2_def sample_leaf_def

lemma sample_commits:
  "sample_leaf_commit sample_leaf1 \<noteq> sample_leaf_commit sample_leaf2"
proof
  assume "sample_leaf_commit sample_leaf1 = sample_leaf_commit sample_leaf2"
  then have "leaf_view_number sample_leaf1 = leaf_view_number sample_leaf2"
    by (rule commit_bindsD [OF sample_commit_binds])
  then show False by (simp add: sample_leaf1_def sample_leaf2_def sample_leaf_def)
qed

lemma sample_updates:
  "update_leaf sample_leaf_commit sample_leaf1 11 (Some 5) sample_genesis = Ok sample_state1"
  "update_leaf sample_leaf_commit sample_leaf2 12 None sample_state1 = Ok sample_state2"
  by (simp_all add: sample_state_defs update_leaf_def update_validated_state_map_def
      update_saved_leaves_def Let_def bt_get_def)

lemmas sample_steps = sample_updates [THEN step_leaf]

lemma sample_vote_step:
  "consensus_step sample_leaf_commit sample_state2 (Approved VoteAction 2)
     (sample_state2\<lparr>last_actions := (last_actions sample_state2)\<lparr>act_voted := 2\<rparr>\<rparr>)"
  by (rule step_action)
     (simp add: update_action_def Let_def sample_state_defs action_views_from_view_def
      update_leaf_def update_validated_state_map_def update_saved_leaves_def bt_get_def)

lemma sample_trace:
  "consensus_trace sample_leaf_commit sample_genesis [Internal, Internal, Approved VoteAction 2]
     (sample_state2\<lparr>last_actions := (last_actions sample_state2)\<lparr>act_voted := 2\<rparr>\<rparr>)"
  by (rule trace_step [OF sample_steps(1) trace_step [OF sample_steps(2)
        trace_step [OF sample_vote_step trace_refl]]])

lemma sample_genesis_consistent: "leaves_consistent sample_leaf_commit sample_genesis"
  by (simp add: leaves_consistent_def sample_genesis_def consensus_new_def)

theorem consensus_views_monotone_witness:
  "views_le sample_genesis (sample_state2\<lparr>last_actions := (last_actions sample_state2)\<lparr>act_voted := 2\<rparr>\<rparr>)"
  by (rule consensus_views_monotone [OF sample_trace])

theorem at_most_one_action_per_view_witness:
  "sorted_wrt (<) (action_view VoteAction (last_actions sample_genesis)
     # approved_views VoteAction [Internal, Internal, Approved VoteAction 2])"
  by (rule at_most_one_action_per_view [OF sample_trace]) simp

theorem consensus_leaves_consistent_witness: "leaves_consistent sample_leaf_commit
    (sample_state2\<lparr>last_actions := (last_actions sample_state2)\<lparr>act_voted := 2\<rparr>\<rparr>)"
  by (rule consensus_leaves_consistent [OF sample_commit_binds sample_genesis_consistent sample_trace])

theorem validated_state_never_downgraded_witness:
  "view_rank (bt_get (validated_state_map sample_state1) 1)
     \<le> view_rank (bt_get (validated_state_map sample_state2) 1)
   \<or> bt_get (validated_state_map sample_state2) 1 = None"
  by (rule validated_state_never_downgraded [OF sample_steps(2)])


definition sample_decided :: "(nat, nat, unit, nat, nat) Consensus" where
  "sample_decided = sample_state2\<lparr>last_decided_view := 2\<rparr>"

lemma sample_state2_eq:
  "sample_state2 = sample_genesis\<lparr>
     validated_state_map := [(1, LeafView (sample_leaf_commit sample_leaf1) 11 (Some 5) (Some 1)),
                             (2, LeafView (sample_leaf_commit sample_leaf2) 12 None (Some 1))],
     saved_leaves := [sample_leaf_commit sample_leaf1 \<mapsto> sample_leaf1,
                      sample_leaf_commit sample_leaf2 \<mapsto> sample_leaf2]\<rparr>"
proof -
  have f: "leaf_view_number sample_leaf1 = 1" "leaf_view_number sample_leaf2 = 2"
    "leaf_epoch sample_leaf1 10 = Some 1" "leaf_epoch sample_leaf2 10 = Some 1"
    by (simp_all add: sample_leaf1_def sample_leaf2_def sample_leaf_def leaf_epoch_def
        option_epoch_from_block_number_def epoch_defs)
  have s1: "sample_state1 = sample_genesis\<lparr>
     validated_state_map := [(1, LeafView (sample_leaf_commit sample_leaf1) 11 (Some 5) (Some 1))],
     saved_leaves := [sample_leaf_commit sample_leaf1 \<mapsto> sample_leaf1]\<rparr>"
    unfolding update_leaf_Ok [OF sample_updates(1)]
    by (simp add: f sample_genesis_def consensus_new_def)
  show ?thesis
    unfolding update_leaf_Ok [OF sample_updates(2)]
    by (simp add: f s1 sample_genesis_def consensus_new_def)
qed

lemma sample_state2_facts:
  "validated_state_map sample_state2 =
     [(1, LeafView (sample_leaf_commit sample_leaf1) 11 (Some 5) (Some 1)),
      (2, LeafView (sample_leaf_commit sample_leaf2) 12 None (Some 1))]"
  "saved_leaves sample_state2 = [sample_leaf_commit sample_leaf1 \<mapsto> sample_leaf1,
                      sample_leaf_commit sample_leaf2 \<mapsto> sample_leaf2]"
  by (simp_all add: sample_state2_eq)

lemma sample_state2_consistent: "leaves_consistent sample_leaf_commit sample_state2"
  by (rule consensus_step_leaves_consistent [OF sample_commit_binds sample_steps(2)
        consensus_step_leaves_consistent [OF sample_commit_binds sample_steps(1)
          sample_genesis_consistent]])

lemma sample_decided_consistent: "leaves_consistent sample_leaf_commit sample_decided"
  using sample_state2_consistent by (simp add: leaves_consistent_def sample_decided_def)

theorem collect_garbage_keeps_decided_leaf_witness:
  "\<exists>s'. collect_garbage 1 2 sample_decided = Some s' \<and> decided_leaf s' = Some sample_leaf2
     \<and> decided_state s' = Some 12"
proof -
  obtain s' where g: "collect_garbage 1 2 sample_decided = Some s'"
    using collect_garbage_total [of sample_decided 1 2]
    by (auto simp: sample_decided_def sample_state2_facts)
  moreover have "decided_leaf s' = decided_leaf sample_decided \<and> decided_state s' = decided_state sample_decided"
    by (rule collect_garbage_keeps_decided_leaf [OF sample_decided_consistent g])
       (simp add: sample_decided_def)
  moreover have "decided_leaf sample_decided = Some sample_leaf2" "decided_state sample_decided = Some 12"
    by (simp_all add: decided_leaf_def decided_state_def state_and_delta_def sample_decided_def
        sample_state2_facts bt_get_def view_inner_defs)
  ultimately show ?thesis by auto
qed

theorem consecutive_decides_never_free_leaves_witness:
  "\<exists>s'. gc_run 2 1 sample_state2 = Some s'
     \<and> saved_leaves s' (sample_leaf_commit sample_leaf1) = Some sample_leaf1
     \<and> bt_get (validated_state_map s') 1 = None"
proof -
  obtain s' where g: "gc_run 2 1 sample_state2 = Some s'"
    using collect_garbage_total [of sample_state2 2 3] by (auto simp: sample_state2_facts)
  from consecutive_decides_never_free_leaves [OF g]
  have "saved_leaves s' = saved_leaves sample_state2" "bt_get (validated_state_map s') 1 = None"
    by auto
  then show ?thesis using g sample_commits by (simp add: sample_state2_facts)
qed

lemma sample_acyclic: "acyclic_leaves sample_state2"
proof -
  have ne: "sample_leaf_commit sample_leaf1 \<noteq> 0"
    by (simp add: sample_leaf_commit_def sample_leaf1_def sample_leaf_def leaf_height_def)
  have "parent_commitment sample_leaf1 = 0"
    "parent_commitment sample_leaf2 = sample_leaf_commit sample_leaf1"
    by (simp_all add: sample_leaf1_def sample_leaf2_def sample_leaf_def)
  then have "leaf_rank (\<lambda>c. if c = 0 then 0 else if c = sample_leaf_commit sample_leaf1 then 1 else 2)
      (saved_leaves sample_state2)"
    using ne sample_commits
    by (auto simp: leaf_rank_def sample_state2_facts sample_leaf_commit_def sample_leaf2_def
        sample_leaf_def leaf_height_def split: if_splits)
  then show ?thesis unfolding acyclic_leaves_def by blast
qed

theorem visit_leaf_ancestors_terminates_witness:
  "\<exists>r. visit_leaf_ancestors sample_state2 2 (Inclusive 1) True collect_leaf [] = Some r"
  by (rule visit_leaf_ancestors_terminates [OF sample_acyclic])

theorem visit_leaf_ancestors_parent_chain_witness:
  "\<exists>r ls. visit_leaf_ancestors sample_state2 2 (Inclusive 1) True collect_leaf [] = Some (r, ls)
     \<and> parent_chain sample_leaf_commit ls"
proof -
  have "bt_get (validated_state_map sample_state2) 2 =
      Some (LeafView (sample_leaf_commit sample_leaf2) 12 None (Some 1))"
    by (simp add: sample_state2_facts bt_get_def)
  from visit_leaf_ancestors_parent_chain [OF sample_acyclic sample_state2_consistent this,
      of "Inclusive 1" True]
  show ?thesis by blast
qed

end
