(* ===== verification/Events.thy ===== *)
theory Events
  imports Leaf
begin

text \<open>
  The part of \<open>HotShotEvent\<close> (\<open>crates/hotshot/task-impls/src/events.rs\<close>) that vote collection, view
  synchronisation and the consensus task exchange, and the vote data of view synchronisation
  (\<open>crates/hotshot/types/src/simple_vote.rs\<close>). State keys and state signatures of the light client
  are byte strings, as in \<open>Leaf\<close>.
\<close>

section \<open>Votes and certificates\<close>

record ViewSyncPreCommitData2 =
  vsp_relay :: u64
  vsp_round :: u64
  vsp_epoch :: "u64 option"

record ViewSyncCommitData2 =
  vsc_relay :: u64
  vsc_round :: u64
  vsc_epoch :: "u64 option"

type_synonym 'g ViewSyncPreCommitCertificate2 = "(ViewSyncPreCommitData2, 'g) SimpleCertificate"
type_synonym 'g ViewSyncCommitCertificate2 = "(ViewSyncCommitData2, 'g) SimpleCertificate"

type_synonym ('k, 'g) QuorumVote2 = "('k, 'g, QuorumData2) SimpleVote"
type_synonym ('k, 'g) NextEpochQuorumVote2 = "('k, 'g, QuorumData2) SimpleVote"
type_synonym ('k, 'g) DaVote2 = "('k, 'g, DaData2) SimpleVote"
type_synonym ('k, 'g) TimeoutVote2 = "('k, 'g, TimeoutData2) SimpleVote"
type_synonym ('k, 'g) UpgradeVote = "('k, 'g, UpgradeProposalData) SimpleVote"
type_synonym ('k, 'g) ViewSyncPreCommitVote2 = "('k, 'g, ViewSyncPreCommitData2) SimpleVote"
type_synonym ('k, 'g) ViewSyncCommitVote2 = "('k, 'g, ViewSyncCommitData2) SimpleVote"
type_synonym ('k, 'g) ViewSyncFinalizeVote2 = "('k, 'g, ViewSyncFinalizeData2) SimpleVote"

type_synonym LCStateVote = "(LightClientState, StakeTableState, u8 list) LightClientStateUpdateVote"

text \<open>
  \<open>SimpleVote::create_signed_vote\<close> for any vote data: it fails when the version of the view is not
  supported or signing fails.
\<close>

definition create_vote ::
  "('d \<Rightarrow> u64 \<Rightarrow> commitment) \<Rightarrow> (commitment \<Rightarrow> 'g option) \<Rightarrow> 'd \<Rightarrow> u64 \<Rightarrow> 'k \<Rightarrow> 'g UpgradeLock
     \<Rightarrow> ('k, 'g, 'd) SimpleVote option" where
  "create_vote vote_commit sign data view pub_key upgrade_lock =
     (case lock_version upgrade_lock view of
        Inl _ \<Rightarrow> None
      | Inr _ \<Rightarrow>
          map_option (\<lambda>signature. \<lparr>vote_signing_key = pub_key, vote_signature = signature,
              vote_date = data, vote_view_number = view\<rparr>)
            (sign (vote_commit data view)))"

lemma create_vote_SomeD:
  "create_vote vote_commit sign data view k lock = Some vote \<Longrightarrow>
     vote_signing_key vote = k \<and> vote_date vote = data \<and> vote_view_number vote = view"
  by (auto simp: create_vote_def split: sum.splits)

record ('k, 'g) EpochRootQuorumVote =
  erv_vote :: "('k, 'g) QuorumVote2"
  erv_state_vote :: LCStateVote

record 'g EpochRootQuorumCertificate =
  erc_qc :: "'g QuorumCertificate2"
  erc_state_cert :: StateCert

section \<open>Events\<close>

datatype ViewSyncPhase = PhaseNone | PhasePreCommit | PhaseCommit | PhaseFinalize

datatype EpochTransitionIndicator = InTransition | NotInTransition

datatype ('k, 'g) HotShotEvent =
    QuorumVoteRecv "('k, 'g) QuorumVote2"
  | EpochRootQuorumVoteRecv "('k, 'g) EpochRootQuorumVote"
  | TimeoutVoteRecv "('k, 'g) TimeoutVote2"
  | TimeoutVoteSend "('k, 'g) TimeoutVote2"
  | DaVoteRecv "('k, 'g) DaVote2"
  | DacSend "'g DaCertificate2" 'k
  | UpgradeVoteRecv "('k, 'g) UpgradeVote"
  | UpgradeCertificateFormed "'g UpgradeCertificate"
  | Qc2Formed "'g QuorumCertificate2 + 'g TimeoutCertificate2"
  | NextEpochQc2Formed "'g NextEpochQuorumCertificate2"
  | EpochRootQcFormed "'g EpochRootQuorumCertificate"
  | ExtendedQc2Formed "'g QuorumCertificate2"
  | ExtendedQcRecv "'g QuorumCertificate2" "'g NextEpochQuorumCertificate2" 'k
  | ExtendedQcSend "'g QuorumCertificate2" "'g NextEpochQuorumCertificate2" 'k
  | HighQcSend "'g QuorumCertificate2" "'g NextEpochQuorumCertificate2 option" 'k 'k
  | EpochRootQcSend "'g EpochRootQuorumCertificate" 'k 'k
  | ViewChange u64 "u64 option"
  | Timeout u64 "u64 option"
  | SetFirstEpoch u64 u64
  | ViewSyncTimeout u64 u64 ViewSyncPhase
  | ViewSyncTrigger u64
  | ViewSyncPreCommitVoteRecv "('k, 'g) ViewSyncPreCommitVote2"
  | ViewSyncCommitVoteRecv "('k, 'g) ViewSyncCommitVote2"
  | ViewSyncFinalizeVoteRecv "('k, 'g) ViewSyncFinalizeVote2"
  | ViewSyncPreCommitVoteSend "('k, 'g) ViewSyncPreCommitVote2"
  | ViewSyncCommitVoteSend "('k, 'g) ViewSyncCommitVote2"
  | ViewSyncFinalizeVoteSend "('k, 'g) ViewSyncFinalizeVote2"
  | ViewSyncPreCommitCertificateRecv "'g ViewSyncPreCommitCertificate2"
  | ViewSyncCommitCertificateRecv "'g ViewSyncCommitCertificate2"
  | ViewSyncFinalizeCertificateRecv "'g ViewSyncFinalizeCertificate2"
  | ViewSyncPreCommitCertificateSend "'g ViewSyncPreCommitCertificate2" 'k
  | ViewSyncCommitCertificateSend "'g ViewSyncCommitCertificate2" 'k
  | ViewSyncFinalizeCertificateSend "'g ViewSyncFinalizeCertificate2" 'k

text \<open>
  Epochs are compared as \<open>Option<Epoch>\<close>: \<open>None\<close> is below every epoch.
\<close>

fun epoch_less :: "u64 option \<Rightarrow> u64 option \<Rightarrow> bool" where
  "epoch_less None None = False"
| "epoch_less None (Some e) = True"
| "epoch_less (Some e) None = False"
| "epoch_less (Some e) (Some f) = (e < f)"

definition broadcast_epoch :: "u64 \<Rightarrow> u64 option \<Rightarrow> (u64 \<times> u64) option \<Rightarrow> u64 option" where
  "broadcast_epoch new_view_number epoch first_epoch =
     (case first_epoch of
        Some (first_epoch_view, first_epoch') \<Rightarrow>
          (if new_view_number = first_epoch_view \<and> epoch \<noteq> Some first_epoch'
           then Some first_epoch' else epoch)
      | None \<Rightarrow> epoch)"

definition broadcast_view_change ::
  "u64 \<Rightarrow> u64 option \<Rightarrow> (u64 \<times> u64) option \<Rightarrow> ('k, 'g) HotShotEvent" where
  "broadcast_view_change new_view_number epoch first_epoch =
     ViewChange new_view_number (broadcast_epoch new_view_number epoch first_epoch)"

end
