(* ===== verification/Proposal_Validation.thy ===== *)
theory Proposal_Validation
  imports Consensus_State Events
begin

text \<open>
  Validation of a received quorum proposal: the checks of
  \<open>crates/hotshot/task-impls/src/helpers.rs\<close> and
  \<open>crates/hotshot/task-impls/src/quorum_proposal_recv/handlers.rs\<close>, up to the whole handler
  \<open>handle_quorum_proposal_recv\<close>. The handlers change the shared consensus state before some of
  their checks, so they return the state together with the result. What a handler sends on its
  channels is a list of events. Signature schemes, hashes, the application's \<open>from_header\<close>, the
  membership coordinator and the persistent storage are the fields of \<open>Env\<close>.
\<close>

section \<open>Environment\<close>

record ('k, 'g, 'h, 'st) Env =
  env_multi_sig_verify :: "('k, 'g) multi_verify_fn"
  env_qc_commit :: "QuorumData2 \<Rightarrow> u64 \<Rightarrow> commitment"
  env_next_epoch_qc_commit :: "QuorumData2 \<Rightarrow> u64 \<Rightarrow> commitment"
  env_timeout_commit :: "TimeoutData2 \<Rightarrow> u64 \<Rightarrow> commitment"
  env_view_sync_commit :: "ViewSyncFinalizeData2 \<Rightarrow> u64 \<Rightarrow> commitment"
  env_upgrade_commit :: "UpgradeProposalData \<Rightarrow> u64 \<Rightarrow> commitment"
  env_validate :: "'k \<Rightarrow> 'g \<Rightarrow> commitment \<Rightarrow> bool"
  env_verify_state_sig :: "u8 list \<Rightarrow> u8 list \<Rightarrow> LightClientState \<Rightarrow> StakeTableState \<Rightarrow> bool"
  env_leaf_commit :: "('g, 'h) Leaf2 \<Rightarrow> commitment"
  env_from_header :: "'h BlockHeader \<Rightarrow> 'st"
  env_block_is_empty :: "'h BlockHeader \<Rightarrow> bool"
  env_membership_for_epoch :: "u64 option \<Rightarrow> ('k, u8 list) EpochMembership option"
  env_stake_table_for_epoch :: "u64 option \<Rightarrow> ('k, u8 list) EpochMembership option"
  env_store_high_qc2 :: "'g QuorumCertificate2 \<Rightarrow> bool"
  env_store_state_cert :: "StateCert \<Rightarrow> bool"
  env_store_next_epoch_high_qc2 :: "'g NextEpochQuorumCertificate2 \<Rightarrow> bool"

record ('k, 'g) ValidationInfo =
  vi_membership :: "('k, u8 list) EpochMembership"
  vi_upgrade_lock :: "'g UpgradeLock"
  vi_epoch_height :: u64
  vi_first_epoch :: "(u64 \<times> u64) option"

datatype ProposalError =
    OlderView | NoLeader | InvalidProposalSignature | MissingViewChangeEvidence
  | TimeoutCertWrongView | ViewSyncCertWrongView | NoMembership | InvalidCert CertError
  | InvalidQc CertError | QcWithoutBlockNumber | MissingNextEpochQc | NextEpochQcDiffers
  | NoNextEpoch | InvalidNextEpochQc CertError
  | JustifyQcWithoutBlockNumber | NextEpochLeafCommitDiffers | TransitionQcTooOld
  | TransitionNotNewer | TransitionWithEvidence | TransitionNotDirect
  | StoreHighQcFailed | EpochRootWithoutStateCert | StoreStateCertFailed
  | StoreNextEpochHighQcFailed | StateUpdate ConsensusError
  | NoBlockNumberAfterUpgrade | NotExtendingParent | UpgradeInvalid LeafError
  | EpochSafetyFailed | NextEpochJustifyQcMissing | SafetyAndLivenessFailed | LivenessFailed
  | HighQcWithoutBlockNumber | InconsistentProposalEpoch LeafError | EpochTooOld
  | InconsistentBlockHeight | StateCertMismatch | StateCertInvalid LightClientCertError
  | BlockNotEmpty | ParentStateMissing

text \<open>\<open>ensure!(condition, error)\<close> followed by the rest of the function.\<close>

definition ensure_then :: "bool \<Rightarrow> 'e \<Rightarrow> ('e, 'a) result \<Rightarrow> ('e, 'a) result" where
  "ensure_then condition e rest = (if condition then rest else Err e)"

lemma ensure_then_Inr [simp]: "ensure_then c e r = Inr a \<longleftrightarrow> c \<and> r = Inr a"
  by (simp add: ensure_then_def)

section \<open>Signature and certificates of a proposal\<close>

definition validate_signature ::
  "('k, 'g, 'h, 'st) Env \<Rightarrow> (('g, 'h) QuorumProposal2, 'g) Proposal
     \<Rightarrow> ('k, u8 list) EpochMembership \<Rightarrow> (ProposalError, unit) result" where
  "validate_signature env proposal membership =
     (case em_leader membership (qp_view_number (proposal_data proposal)) of
        None \<Rightarrow> Err NoLeader
      | Some view_leader_key \<Rightarrow>
          ensure_then
            (env_validate env view_leader_key (proposal_signature proposal)
               (env_leaf_commit env (from_quorum_proposal (proposal_data proposal))))
            InvalidProposalSignature (Ok ()))"

definition validate_view_change_evidence ::
  "('k, 'g, 'h, 'st) Env \<Rightarrow> 'g UpgradeLock \<Rightarrow> u64 \<Rightarrow> 'g ViewChangeEvidence2
     \<Rightarrow> (ProposalError, unit) result" where
  "validate_view_change_evidence env lock view_number received_proposal_cert =
     (case received_proposal_cert of
        TimeoutEvidence timeout_cert \<Rightarrow>
          ensure_then (td_view (cert_data timeout_cert) = view_number - 1) TimeoutCertWrongView
            (case env_membership_for_epoch env (td_epoch (cert_data timeout_cert)) of
               None \<Rightarrow> Err NoMembership
             | Some membership \<Rightarrow>
                 map_err InvalidCert
                   (is_valid_cert (env_multi_sig_verify env) (env_timeout_commit env) timeout_cert
                      (stake_table_entries (em_stake_table membership))
                      (em_success_threshold membership) lock))
      | ViewSyncEvidence view_sync_cert \<Rightarrow>
          ensure_then (cert_view_number view_sync_cert = view_number) ViewSyncCertWrongView
            (case env_membership_for_epoch env (vs_epoch (cert_data view_sync_cert)) of
               None \<Rightarrow> Err NoMembership
             | Some membership \<Rightarrow>
                 map_err InvalidCert
                   (is_valid_cert (env_multi_sig_verify env) (env_view_sync_commit env)
                      view_sync_cert (stake_table_entries (em_stake_table membership))
                      (em_success_threshold membership) lock)))"

definition validate_proposal_view_and_certs ::
  "('k, 'g, 'h, 'st) Env \<Rightarrow> (('g, 'h) QuorumProposal2, 'g) Proposal \<Rightarrow> ('k, 'g) ValidationInfo
     \<Rightarrow> ('k, 'g, 'h, 'st, 'dl) Consensus \<Rightarrow> (ProposalError, unit) result" where
  "validate_proposal_view_and_certs env proposal info consensus =
     (let data = proposal_data proposal; view_number = qp_view_number data in
      ensure_then (view_number \<ge> cur_view consensus) OlderView
        (try_bind (validate_signature env proposal (vi_membership info)) (\<lambda>_.
         try_bind
           (if cert_view_number (qp_justify_qc data) \<noteq> view_number - 1 then
              (case qp_view_change_evidence data of
                 None \<Rightarrow> Err MissingViewChangeEvidence
               | Some cert \<Rightarrow>
                   validate_view_change_evidence env (vi_upgrade_lock info) view_number cert)
            else Ok ()) (\<lambda>_.
         map_err InvalidCert
           (upgrade_cert_validate (env_multi_sig_verify env) (env_upgrade_commit env)
              (qp_upgrade_certificate data) (vi_membership info)
              (option_epoch_from_block_number (qp_epoch data \<noteq> None)
                 (hdr_block_number (qp_block_header data)) (vi_epoch_height info))
              (vi_upgrade_lock info))))))"

definition validate_qc_and_next_epoch_qc ::
  "('k, 'g, 'h, 'st) Env \<Rightarrow> 'g QuorumCertificate2 \<Rightarrow> 'g NextEpochQuorumCertificate2 option
     \<Rightarrow> 'g UpgradeLock \<Rightarrow> u64 \<Rightarrow> (ProposalError, unit) result" where
  "validate_qc_and_next_epoch_qc env qc maybe_next_epoch_qc lock epoch_height' =
     (case env_stake_table_for_epoch env (qd_epoch (cert_data qc)) of
        None \<Rightarrow> Err NoMembership
      | Some epoch_membership \<Rightarrow>
         try_bind
           (map_err InvalidQc
              (is_valid_cert (env_multi_sig_verify env) (env_qc_commit env) qc
                 (stake_table_entries (em_stake_table epoch_membership))
                 (em_success_threshold epoch_membership) lock)) (\<lambda>_.
         ensure_then
           (\<not> epochs_enabled lock (cert_view_number qc) \<or> qd_block_number (cert_data qc) \<noteq> None)
           QcWithoutBlockNumber
         (ensure_then
           ((case qd_block_number (cert_data qc) of
               Some b \<Rightarrow> \<not> is_epoch_transition b epoch_height' | None \<Rightarrow> True)
            \<or> maybe_next_epoch_qc \<noteq> None)
           MissingNextEpochQc
         (case maybe_next_epoch_qc of
            None \<Rightarrow> Ok ()
          | Some next_epoch_qc \<Rightarrow>
             ensure_then
               (cert_view_number qc = cert_view_number next_epoch_qc
                \<and> cert_data qc = cert_data next_epoch_qc)
               NextEpochQcDiffers
             (case em_epoch epoch_membership of
                None \<Rightarrow> Err NoNextEpoch
              | Some e \<Rightarrow>
                 (case env_stake_table_for_epoch env (Some (e + 1)) of
                    None \<Rightarrow> Err NoMembership
                  | Some next_membership \<Rightarrow>
                      map_err InvalidNextEpochQc
                        (is_valid_cert (env_multi_sig_verify env) (env_next_epoch_qc_commit env)
                           next_epoch_qc
                           (stake_table_entries (em_stake_table next_membership))
                           (em_success_threshold next_membership) lock)))))))"

definition check_qc_state_cert_correspondence ::
  "'g QuorumCertificate2 \<Rightarrow> StateCert \<Rightarrow> u64 \<Rightarrow> bool" where
  "check_qc_state_cert_correspondence qc cert epoch_height' =
     ((case qd_block_number (cert_data qc) of
         Some bn \<Rightarrow> is_epoch_root bn epoch_height' | None \<Rightarrow> False)
      \<and> Some (lcc_epoch cert) = qd_epoch (cert_data qc)
      \<and> cert_view_number qc = lcs_view_number (lcc_light_client_state cert))"

section \<open>Storing the high QC\<close>

text \<open>
  \<open>update_high_qc\<close> of the helpers. An error of the state update propagates after the storage has
  been written, and after earlier state updates.
\<close>

definition in_transition_epoch :: "'g QuorumCertificate2 \<Rightarrow> u64 \<Rightarrow> bool" where
  "in_transition_epoch qc epoch_height' =
     (case qd_block_number (cert_data qc) of
        Some bn \<Rightarrow> \<not> is_transition_block bn epoch_height' \<and> is_epoch_transition bn epoch_height'
                    \<and> bn mod epoch_height' \<noteq> 0
      | None \<Rightarrow> False)"

definition qc_block_is :: "(u64 \<Rightarrow> u64 \<Rightarrow> bool) \<Rightarrow> 'g QuorumCertificate2 \<Rightarrow> u64 \<Rightarrow> bool" where
  "qc_block_is P qc epoch_height' =
     (case qd_block_number (cert_data qc) of Some bn \<Rightarrow> P bn epoch_height' | None \<Rightarrow> False)"

definition lift_update ::
  "(ConsensusError, 'c) result \<Rightarrow> 'c \<Rightarrow> 'c \<times> (ProposalError, unit) result" where
  "lift_update r old = (case r of Inl e \<Rightarrow> (old, Err (StateUpdate e)) | Inr new \<Rightarrow> (new, Ok ()))"

definition and_then ::
  "'c \<times> ('e, unit) result \<Rightarrow> ('c \<Rightarrow> 'c \<times> ('e, unit) result) \<Rightarrow> 'c \<times> ('e, unit) result" where
  "and_then cr f = (case cr of (c, Inl e) \<Rightarrow> (c, Inl e) | (c, Inr _) \<Rightarrow> f c)"

definition store_high_qc ::
  "('k, 'g, 'h, 'st) Env \<Rightarrow> ('g, 'h) QuorumProposal2 \<Rightarrow> u64 \<Rightarrow> ('k, 'g, 'h, 'st, 'dl) Consensus
     \<Rightarrow> ('k, 'g, 'h, 'st, 'dl) Consensus \<times> (ProposalError, unit) result" where
  "store_high_qc env data epoch_height' consensus =
     (let qc = qp_justify_qc data in
      if \<not> env_store_high_qc2 env qc then (consensus, Err StoreHighQcFailed)
      else and_then
        (if qc_block_is is_epoch_root qc epoch_height' then
           (case qp_state_cert data of
              None \<Rightarrow> (consensus, Err EpochRootWithoutStateCert)
            | Some cert \<Rightarrow>
                if \<not> env_store_state_cert env cert then (consensus, Err StoreStateCertFailed)
                else lift_update (update_state_cert cert consensus) consensus)
         else (consensus, Ok ())) (\<lambda>c.
        (case qp_next_epoch_justify_qc data of
           Some next_qc \<Rightarrow>
             (if env_store_next_epoch_high_qc2 env next_qc then (c, Ok ())
              else (c, Err StoreNextEpochHighQcFailed))
         | None \<Rightarrow> (c, Ok ()))))"

definition helpers_update_high_qc ::
  "('k, 'g, 'h, 'st) Env \<Rightarrow> ('g, 'h) QuorumProposal2 \<Rightarrow> u64 \<Rightarrow> ('k, 'g, 'h, 'st, 'dl) Consensus
     \<Rightarrow> ('k, 'g, 'h, 'st, 'dl) Consensus \<times> (ProposalError, unit) result" where
  "helpers_update_high_qc env data epoch_height' consensus =
     (let qc = qp_justify_qc data in
      and_then
        (if \<not> in_transition_epoch qc epoch_height' then store_high_qc env data epoch_height' consensus
         else (consensus, Ok ())) (\<lambda>c.
      case qp_next_epoch_justify_qc data of
        Some next_qc \<Rightarrow>
          (if qc_block_is is_transition_block qc epoch_height' then
             and_then (lift_update (reset_high_qc qc next_qc c) c) (\<lambda>c'.
               (update_transition_qc qc next_qc c', Ok ()))
           else
             and_then (lift_update (update_next_epoch_high_qc next_qc c) c) (\<lambda>c'.
               lift_update (update_high_qc qc c') c'))
      | None \<Rightarrow> lift_update (update_high_qc qc c) c))"

section \<open>Transition QCs\<close>

definition validate_epoch_transition_qc ::
  "('k, 'g, 'h, 'st) Env \<Rightarrow> ('g, 'h) QuorumProposal2 \<Rightarrow> u64 \<Rightarrow> ('k, 'g, 'h, 'st, 'dl) Consensus
     \<Rightarrow> ('k, 'g, 'h, 'st, 'dl) Consensus \<times> (ProposalError, unit) result" where
  "validate_epoch_transition_qc env data epoch_height' consensus =
     (let proposed_qc = qp_justify_qc data in
      case qd_block_number (cert_data proposed_qc) of
        None \<Rightarrow> (consensus, Err JustifyQcWithoutBlockNumber)
      | Some qc_block_number \<Rightarrow>
        (if \<not> is_epoch_transition qc_block_number epoch_height' \<or> qc_block_number mod epoch_height' = 0
         then (consensus, Ok ())
         else case qp_next_epoch_justify_qc data of
           None \<Rightarrow> (consensus, Err MissingNextEpochQc)
         | Some next_epoch_qc \<Rightarrow>
           (if leaf_commit (cert_data next_epoch_qc) \<noteq> leaf_commit (cert_data proposed_qc)
            then (consensus, Err NextEpochLeafCommitDiffers)
            else if is_transition_block qc_block_number epoch_height' then
              (if \<not> (case transition_qc consensus of
                       None \<Rightarrow> True
                     | Some (qc, _) \<Rightarrow> cert_view_number qc \<le> cert_view_number proposed_qc)
               then (consensus, Err TransitionQcTooOld)
               else helpers_update_high_qc env data epoch_height'
                      (update_transition_qc proposed_qc next_epoch_qc consensus))
            else if \<not> (case transition_qc consensus of
                         None \<Rightarrow> True
                       | Some (qc, _) \<Rightarrow> cert_view_number qc < cert_view_number proposed_qc)
            then (consensus, Err TransitionNotNewer)
            else if qp_view_change_evidence data \<noteq> None then (consensus, Err TransitionWithEvidence)
            else if \<not> (cert_view_number proposed_qc + 1 = qp_view_number data
                       \<or> (case transition_qc consensus of
                            None \<Rightarrow> False | Some (qc, _) \<Rightarrow> qc = proposed_qc))
            then (consensus, Err TransitionNotDirect)
            else (consensus, Ok ()))))"

section \<open>Safety and liveness\<close>

definition version_at_least_epochs :: "'g UpgradeLock \<Rightarrow> u64 \<Rightarrow> bool" where
  "version_at_least_epochs lock view =
     (case lock_version lock view of
        Inr v \<Rightarrow> version_ge v (epochs_version (lock_versions lock)) | Inl _ \<Rightarrow> False)"

definition epoch_transition_check ::
  "('k, 'g, 'h, 'st) Env \<Rightarrow> ('g, 'h) QuorumProposal2 \<Rightarrow> u64 \<Rightarrow> ('k, 'g) ValidationInfo
     \<Rightarrow> ('k, 'g, 'h, 'st, 'dl) Consensus
     \<Rightarrow> ('k, 'g, 'h, 'st, 'dl) Consensus \<times> (ProposalError, bool) result" where
  "epoch_transition_check env data view info consensus =
     (if version_at_least_epochs (vi_upgrade_lock info) view then
        (case qd_block_number (cert_data (qp_justify_qc data)) of
           None \<Rightarrow> (consensus, Err NoBlockNumberAfterUpgrade)
         | Some block_number \<Rightarrow>
            (if is_epoch_transition block_number (vi_epoch_height info) then
               (case validate_epoch_transition_qc env data (vi_epoch_height info) consensus of
                  (c, Inl e) \<Rightarrow> (c, Err e)
                | (c, Inr _) \<Rightarrow> (c, Ok True))
             else (consensus, Ok False)))
      else (consensus, Ok False))"

text \<open>Errors of \<open>update_leaf\<close> and \<open>update_proposed_view\<close> are logged and ignored.\<close>

definition ignore_err :: "'c \<Rightarrow> ('e, 'c) result \<Rightarrow> 'c" where
  "ignore_err old r = (case r of Inl _ \<Rightarrow> old | Inr new \<Rightarrow> new)"

definition validate_proposal_liveness ::
  "('k, 'g, 'h, 'st) Env \<Rightarrow> (('g, 'h) QuorumProposal2, 'g) Proposal \<Rightarrow> ('k, 'g) ValidationInfo
     \<Rightarrow> ('k, 'g, 'h, 'st, 'dl) Consensus
     \<Rightarrow> ('k, 'g, 'h, 'st, 'dl) Consensus \<times> (ProposalError, unit) result" where
  "validate_proposal_liveness env proposal info consensus =
     (let data = proposal_data proposal in
      case epoch_transition_check env data (qp_view_number data) info consensus of
        (c, Inl e) \<Rightarrow> (c, Err e)
      | (c, Inr valid_epoch_transition) \<Rightarrow>
         (let leaf = from_quorum_proposal data;
              c1 = ignore_err c (update_leaf (env_leaf_commit env) leaf
                     (env_from_header env (qp_block_header data)) None c);
              liveness_check = cert_view_number (qp_justify_qc data) > locked_view c1
          in and_then
               (if liveness_check
                   \<and> version_at_least_epochs (vi_upgrade_lock info) (leaf_view_number leaf)
                then lift_update (update_locked_view (cert_view_number (qp_justify_qc data)) c1) c1
                else (c1, Ok ())) (\<lambda>c2.
             if \<not> liveness_check \<and> \<not> valid_epoch_transition then (c2, Err LivenessFailed)
             else (c2, Ok ()))))"

text \<open>The visitor of the safety check: stop successfully at the locked view.\<close>

definition safety_visitor ::
  "u64 \<Rightarrow> ('g, 'h) Leaf2 \<Rightarrow> 'st \<Rightarrow> 'dl option \<Rightarrow> unit \<Rightarrow> bool \<times> unit" where
  "safety_visitor locked leaf state delta acc = (leaf_view_number leaf \<noteq> locked, ())"

definition safety_check ::
  "('k, 'g, 'h, 'st, 'dl) Consensus \<Rightarrow> 'g QuorumCertificate2 \<Rightarrow> bool option" where
  "safety_check consensus qc =
     map_option (\<lambda>(r, _). is_ok r)
       (visit_leaf_ancestors consensus (cert_view_number qc) (Inclusive (locked_view consensus)) False
          (safety_visitor (locked_view consensus)) ())"

definition validate_proposal_safety_and_liveness ::
  "('k, 'g, 'h, 'st) Env \<Rightarrow> (('g, 'h) QuorumProposal2, 'g) Proposal \<Rightarrow> ('g, 'h) Leaf2
     \<Rightarrow> ('k, 'g) ValidationInfo \<Rightarrow> ('k, 'g, 'h, 'st, 'dl) Consensus
     \<Rightarrow> (('k, 'g, 'h, 'st, 'dl) Consensus \<times> (ProposalError, unit) result) option" where
  "validate_proposal_safety_and_liveness env proposal parent_leaf info consensus =
     (let data = proposal_data proposal; view_number = qp_view_number data;
          lock = vi_upgrade_lock info; h = vi_epoch_height info in
      case epoch_transition_check env data (cert_view_number (qp_justify_qc data)) info consensus of
        (c, Inl e) \<Rightarrow> Some (c, Err e)
      | (c, Inr valid_epoch_transition) \<Rightarrow>
       (let proposed_leaf = from_quorum_proposal data in
        if parent_commitment proposed_leaf \<noteq> env_leaf_commit env parent_leaf
        then Some (c, Err NotExtendingParent)
        else
         (let proposal_epoch = option_epoch_from_block_number (epochs_enabled lock view_number)
                                 (leaf_height proposed_leaf) h;
              c1 = ignore_err c (update_leaf (env_leaf_commit env) proposed_leaf
                     (env_from_header env (qp_block_header data)) None c);
              c2 = ignore_err c1 (update_proposed_view proposal c1)
          in case map_err InvalidCert
                    (upgrade_cert_validate (env_multi_sig_verify env) (env_upgrade_commit env)
                       (qp_upgrade_certificate data) (vi_membership info) proposal_epoch lock) of
               Inl e \<Rightarrow> Some (c2, Err e)
             | Inr _ \<Rightarrow>
              (case extends_upgrade proposed_leaf parent_leaf (decided_upgrade_certificate lock) of
                 Inl e \<Rightarrow> Some (c2, Err (UpgradeInvalid e))
               | Inr _ \<Rightarrow>
                (let justify_qc_epoch = option_epoch_from_block_number
                       (epochs_enabled lock view_number) (leaf_height parent_leaf) h
                 in if \<not> (proposal_epoch = justify_qc_epoch \<or> check_eqc proposed_leaf parent_leaf c2)
                    then Some (c2, Err EpochSafetyFailed)
                    else if is_epoch_transition (leaf_height parent_leaf) h
                         \<and> epochs_enabled lock view_number \<and> qp_next_epoch_justify_qc data = None
                    then Some (c2, Err NextEpochJustifyQcMissing)
                    else
                     (let liveness_check =
                            cert_view_number (qp_justify_qc data) > locked_view c2
                            \<or> valid_epoch_transition
                      in map_option (\<lambda>safe.
                           if safe \<or> liveness_check then (c2, Ok ())
                           else (c2, Err SafetyAndLivenessFailed))
                           (safety_check c2 (qp_justify_qc data))))))))"

section \<open>The handler of a received proposal\<close>

definition validate_epoch_transition_block ::
  "('k, 'g, 'h, 'st) Env \<Rightarrow> ('g, 'h) QuorumProposal2 \<Rightarrow> ('k, 'g) ValidationInfo
     \<Rightarrow> (ProposalError, unit) result" where
  "validate_epoch_transition_block env data info =
     (if \<not> epochs_enabled (vi_upgrade_lock info) (qp_view_number data) then Ok ()
      else if \<not> is_epoch_transition (hdr_block_number (qp_block_header data)) (vi_epoch_height info)
      then Ok ()
      else if is_transition_block (hdr_block_number (qp_block_header data)) (vi_epoch_height info)
      then Ok ()
      else ensure_then (env_block_is_empty env (qp_block_header data)) BlockNotEmpty (Ok ()))"

definition validate_current_epoch ::
  "('g, 'h) QuorumProposal2 \<Rightarrow> ('k, 'g) ValidationInfo \<Rightarrow> ('k, 'g, 'h, 'st, 'dl) Consensus
     \<Rightarrow> (ProposalError, unit) result" where
  "validate_current_epoch data info consensus =
     (let upgrade_view' = (case upgrade_view (vi_upgrade_lock info) of Some v \<Rightarrow> v | None \<Rightarrow> 0) in
      if \<not> epochs_enabled (vi_upgrade_lock info) (qp_view_number data)
         \<or> cert_view_number (qp_justify_qc data) \<le> upgrade_view'
      then Ok ()
      else if cert_view_number (high_qc consensus) \<le> upgrade_view' then Ok ()
      else case qd_block_number (cert_data (high_qc consensus)) of
             None \<Rightarrow> Err HighQcWithoutBlockNumber
           | Some high_block_number \<Rightarrow>
               ensure_then
                 (epoch_from_block_number (hdr_block_number (qp_block_header data))
                    (vi_epoch_height info)
                  \<ge> epoch_from_block_number (high_block_number + 1) (vi_epoch_height info))
                 EpochTooOld (Ok ()))"

definition validate_block_height ::
  "('g, 'h) QuorumProposal2 \<Rightarrow> (ProposalError, unit) result" where
  "validate_block_height data =
     (case qd_block_number (cert_data (qp_justify_qc data)) of
        None \<Rightarrow> Ok ()
      | Some qc_block_number \<Rightarrow>
          ensure_then (qc_block_number + 1 = hdr_block_number (qp_block_header data))
            InconsistentBlockHeight (Ok ()))"

definition validate_state_cert ::
  "('k, 'g, 'h, 'st) Env \<Rightarrow> ('g, 'h) QuorumProposal2 \<Rightarrow> u64 \<Rightarrow> (ProposalError, unit) result" where
  "validate_state_cert env data h =
     (if qc_block_is is_epoch_root (qp_justify_qc data) h then
        (case qp_state_cert data of
           None \<Rightarrow> Err EpochRootWithoutStateCert
         | Some cert \<Rightarrow>
             ensure_then (check_qc_state_cert_correspondence (qp_justify_qc data) cert h)
               StateCertMismatch
               (case env_membership_for_epoch env (Some (lcc_epoch cert)) of
                  None \<Rightarrow> Err NoMembership
                | Some membership \<Rightarrow>
                    map_err StateCertInvalid
                      (validate_light_client_state_update_certificate (env_verify_state_sig env)
                         cert membership)))
      else Ok ())"

datatype ('g, 'h) HandlerEvent =
    QuorumProposalPreliminarilyValidated "(('g, 'h) QuorumProposal2, 'g) Proposal"
  | FetchProposal "'g QuorumCertificate2"
  | QuorumProposalValidated "(('g, 'h) QuorumProposal2, 'g) Proposal" "('g, 'h) Leaf2"
  | ProposalViewChange u64 "u64 option"

text \<open>The checks that precede the first event and read the state only.\<close>

definition validate_preliminary ::
  "('k, 'g, 'h, 'st) Env \<Rightarrow> (('g, 'h) QuorumProposal2, 'g) Proposal \<Rightarrow> ('k, 'g) ValidationInfo
     \<Rightarrow> ('k, 'g, 'h, 'st, 'dl) Consensus \<Rightarrow> (ProposalError, unit) result" where
  "validate_preliminary env proposal info consensus =
     (let data = proposal_data proposal; h = vi_epoch_height info; lock = vi_upgrade_lock info in
      try_bind (map_err InconsistentProposalEpoch (validate_epoch data lock h)) (\<lambda>_.
      try_bind (validate_current_epoch data info consensus) (\<lambda>_.
      try_bind (validate_proposal_view_and_certs env proposal info consensus) (\<lambda>_.
      try_bind (validate_block_height data) (\<lambda>_.
      try_bind (validate_state_cert env data h) (\<lambda>_.
      try_bind (validate_epoch_transition_block env data info) (\<lambda>_.
      validate_qc_and_next_epoch_qc env (qp_justify_qc data) (qp_next_epoch_justify_qc data)
        lock h)))))))"

definition handle_quorum_proposal_recv ::
  "('k, 'g, 'h, 'st) Env \<Rightarrow> (('g, 'h) QuorumProposal2, 'g) Proposal \<Rightarrow> ('k, 'g) ValidationInfo
     \<Rightarrow> ('k, 'g, 'h, 'st, 'dl) Consensus
     \<Rightarrow> (('k, 'g, 'h, 'st, 'dl) Consensus \<times> (ProposalError, unit) result
           \<times> ('g, 'h) HandlerEvent list) option" where
  "handle_quorum_proposal_recv env proposal info consensus =
     (let data = proposal_data proposal; h = vi_epoch_height info;
          justify_qc' = qp_justify_qc data;
          proposal_block_number = hdr_block_number (qp_block_header data);
          proposal_epoch = option_epoch_from_block_number (qp_epoch data \<noteq> None)
                             proposal_block_number h;
          view_change = ProposalViewChange (qp_view_number data)
                          (broadcast_epoch (qp_view_number data) proposal_epoch (vi_first_epoch info))
      in case validate_preliminary env proposal info consensus of
        Inl e \<Rightarrow> Some (consensus, Err e, [])
      | Inr _ \<Rightarrow>
       (let parent_leaf = saved_leaves consensus (leaf_commit (cert_data justify_qc'));
            events = [QuorumProposalPreliminarilyValidated proposal]
                       @ (if parent_leaf = None then [FetchProposal justify_qc'] else [])
        in if (case parent_leaf of
                 Some leaf \<Rightarrow> fst (state_and_delta consensus (leaf_view_number leaf)) = None
               | None \<Rightarrow> False)
           then Some (consensus, Err ParentStateMissing, events)
           else case (if cert_view_number justify_qc' > cert_view_number (high_qc consensus)
                      then helpers_update_high_qc env data h consensus
                      else (consensus, Ok ())) of
             (c, Inl e) \<Rightarrow> Some (c, Err e, events)
           | (c, Inr _) \<Rightarrow>
              (case parent_leaf of
                 None \<Rightarrow>
                  (case validate_proposal_liveness env proposal info c of
                     (c1, Inl e) \<Rightarrow> Some (c1, Err e, events)
                   | (c1, Inr _) \<Rightarrow>
                       Some (update_highest_block proposal_block_number c1, Ok (),
                             events @ [view_change]))
               | Some parent \<Rightarrow>
                  (case validate_proposal_safety_and_liveness env proposal parent info c of
                     None \<Rightarrow> None
                   | Some (c1, Inl e) \<Rightarrow> Some (c1, Err e, events)
                   | Some (c1, Inr _) \<Rightarrow>
                       Some ((update_highest_block proposal_block_number c1)
                               \<lparr>highest_block := proposal_block_number\<rparr>, Ok (),
                             events @ [QuorumProposalValidated proposal parent, view_change])))))"

section \<open>What the safety check establishes\<close>

inductive reaches_view :: "('k, 'g, 'h, 'st, 'dl) Consensus \<Rightarrow> u64 \<Rightarrow> commitment \<Rightarrow> bool"
  for s :: "('k, 'g, 'h, 'st, 'dl) Consensus" and v :: u64 where
  reaches_here: "saved_leaves s c = Some l \<Longrightarrow> leaf_view_number l = v \<Longrightarrow> reaches_view s v c"
| reaches_parent: "saved_leaves s c = Some l \<Longrightarrow> reaches_view s v (parent_commitment l) \<Longrightarrow>
    reaches_view s v c"

lemma visit_leaves_reaches:
  fixes s :: "('k, 'g, 'h, 'st, 'dl) Consensus"
  assumes "visit_leaves s (Inclusive v) False (safety_visitor v) c () = Some (Inr (), u)"
  shows "reaches_view s v c"
proof -
  let ?P = "\<lambda>self t ok (f :: ('g, 'h) Leaf2 \<Rightarrow> 'st \<Rightarrow> 'dl option \<Rightarrow> unit \<Rightarrow> bool \<times> unit) c acc
      (r :: (HotShotError, unit) result \<times> unit). self = s \<and> t = Inclusive v \<and> ok = False \<and> f = safety_visitor v \<longrightarrow> fst r = Inr () \<longrightarrow> reaches_view s v c"
  have "?P s (Inclusive v) False (safety_visitor v) c () (Inr (), u)"
  proof (rule visit_leaves.raw_induct [where P = ?P, OF _ assms], goal_cases)
    case (1 vl self t ok f c acc r)
    have ih: "reaches_view s v c'"
      if "vl s (Inclusive v) False (safety_visitor v) c' () = Some (Ok (), ())" for c'
      using 1(1) [OF that] by simp
    show ?case
    proof (intro impI)
      assume a: "self = s \<and> t = Inclusive v \<and> ok = False \<and> f = safety_visitor v"
        and r: "fst r = Ok ()"
      from r have r': "r = (Ok (), ())" by (cases r) simp
      show "reaches_view s v c"
        using 1(2) a r' by (auto simp: safety_visitor_def split: option.splits prod.splits if_splits
            intro: reaches_here reaches_parent [OF _ ih])
    qed
  qed
  then show ?thesis by simp
qed


lemma safety_check_reaches:
  assumes "safety_check c qc = Some True"
    and get: "bt_get (validated_state_map c) (cert_view_number qc) = Some (LeafView lc st d e)"
  shows "reaches_view c (locked_view c) lc"
proof -
  obtain u where "visit_leaves c (Inclusive (locked_view c)) False (safety_visitor (locked_view c)) lc ()
      = Some (Inr (), u)"
    using assms by (auto simp: safety_check_def visit_leaf_ancestors_def get leaf_commitment_def is_ok_iff)
  then show ?thesis by (rule visit_leaves_reaches)
qed

lemma safety_check_leaf:
  assumes "safety_check c qc = Some True"
  obtains lc st d e where
    "bt_get (validated_state_map c) (cert_view_number qc) = Some (LeafView lc st d e)"
proof (cases "bt_get (validated_state_map c) (cert_view_number qc)")
  case None
  then show thesis using assms by (simp add: safety_check_def visit_leaf_ancestors_def)
next
  case (Some view)
  then show thesis
    using assms that by (cases view) (simp_all add: safety_check_def visit_leaf_ancestors_def leaf_commitment_def)
qed

lemma safety_check_total: "acyclic_leaves c \<Longrightarrow> \<exists>b. safety_check c qc = Some b"
proof -
  assume "acyclic_leaves c"
  then obtain r where "visit_leaf_ancestors c (cert_view_number qc) (Inclusive (locked_view c)) False
      (safety_visitor (locked_view c)) () = Some r"
    using visit_leaf_ancestors_total [of c "cert_view_number qc" "Inclusive (locked_view c)" False
        "safety_visitor (locked_view c)" "()"] by auto
  then show ?thesis by (simp add: safety_check_def)
qed

section \<open>The handlers only use the operations of the consensus state\<close>

lemma trace_append:
  "consensus_trace commit s evs s1 \<Longrightarrow> consensus_trace commit s1 evs' s2 \<Longrightarrow>
   consensus_trace commit s (evs @ evs') s2"
  by (induction rule: consensus_trace.induct) (auto intro: consensus_trace.intros)

definition reachable :: "(('g, 'h) Leaf2 \<Rightarrow> commitment) \<Rightarrow> ('k, 'g, 'h, 'st, 'dl) Consensus
     \<Rightarrow> ('k, 'g, 'h, 'st, 'dl) Consensus \<Rightarrow> bool" where
  "reachable commit s s' \<longleftrightarrow> (\<exists>n. consensus_trace commit s (replicate n Internal) s')"

lemma reachable_refl [simp, intro]: "reachable commit s s"
  unfolding reachable_def by (rule exI [of _ 0]) (simp add: trace_refl)

lemma reachable_trans: "reachable commit s s1 \<Longrightarrow> reachable commit s1 s2 \<Longrightarrow> reachable commit s s2"
  unfolding reachable_def by (metis replicate_add trace_append)

lemma reachable_step: "consensus_step commit s Internal s' \<Longrightarrow> reachable commit s s'"
  unfolding reachable_def
  by (rule exI [of _ 1]) (simp add: trace_step [OF _ trace_refl])

lemma reachable_update_leaf:
  "reachable commit s (ignore_err s (update_leaf commit l st d s))"
  by (auto simp: ignore_err_def intro: reachable_step step_leaf split: sum.splits)

lemma reachable_proposed_view:
  "reachable commit s (ignore_err s (update_proposed_view p s))"
  by (auto simp: ignore_err_def intro: reachable_step step_proposed split: sum.splits)

lemma reachable_set_highest_block:
  "reachable commit s ((update_highest_block b s)\<lparr>highest_block := b\<rparr>)"
  by (rule reachable_trans [OF reachable_step [OF step_highest_block]
        reachable_step [OF step_set_highest_block]])

lemma reachable_lift_update:
  assumes "lift_update r s = (s', x)" and "\<And>t. r = Ok t \<Longrightarrow> consensus_step commit s Internal t"
  shows "reachable commit s s'"
  using assms by (auto simp: lift_update_def intro: reachable_step split: sum.splits)

lemma reachable_and_then:
  assumes "and_then cr f = (s', x)" and "reachable commit s (fst cr)"
    and "\<And>c t y. f c = (t, y) \<Longrightarrow> reachable commit c t"
  shows "reachable commit s s'"
  using assms by (auto simp: and_then_def split: prod.splits sum.splits intro: reachable_trans)

lemma store_high_qc_reachable:
  assumes "store_high_qc env data h c = (c', r)"
  shows "reachable commit c c'"
  using assms unfolding store_high_qc_def Let_def
  by (auto simp: and_then_def lift_update_def split: if_splits option.splits prod.splits sum.splits
      intro: reachable_step step_state_cert)

lemma helpers_update_high_qc_reachable:
  assumes "helpers_update_high_qc env data h c = (c', r)"
  shows "reachable commit c c'"
proof -
  let ?first = "if \<not> in_transition_epoch (qp_justify_qc data) h then store_high_qc env data h c else (c, Ok ())"
  have first: "reachable commit c (fst ?first)"
    using store_high_qc_reachable [of env data h c] by (cases "store_high_qc env data h c") auto
  obtain c1 x where f: "?first = (c1, x)" by fastforce
  have r1: "reachable commit c c1" using first f by simp
  note via = reachable_trans [OF r1 reachable_step]
  show ?thesis
  proof (cases x)
    case (Inl e)
    then show ?thesis
      using assms r1 f unfolding helpers_update_high_qc_def Let_def f by (simp add: and_then_def)
  next
    case (Inr u)
    then show ?thesis
      using assms r1 unfolding helpers_update_high_qc_def Let_def f
      by (auto simp: and_then_def lift_update_def split: option.splits if_splits sum.splits
          intro: via [OF step_high_qc] via [OF step_next_epoch_high_qc]
            reachable_trans [OF via [OF step_reset_high_qc] reachable_step [OF step_transition_qc]]
            reachable_trans [OF via [OF step_next_epoch_high_qc] reachable_step [OF step_high_qc]])
  qed
qed

lemma validate_epoch_transition_qc_reachable:
  assumes "validate_epoch_transition_qc env data h c = (c', r)"
  shows "reachable commit c c'"
  using assms unfolding validate_epoch_transition_qc_def Let_def
  by (auto split: option.splits if_splits dest!: helpers_update_high_qc_reachable [where commit = commit]
      intro: reachable_trans [OF reachable_step [OF step_transition_qc]])

lemma epoch_transition_check_reachable:
  assumes "epoch_transition_check env data v info c = (c', r)"
  shows "reachable commit c c'"
  using assms unfolding epoch_transition_check_def
  by (auto split: option.splits if_splits prod.splits sum.splits
      dest: validate_epoch_transition_qc_reachable [where commit = commit])

lemma validate_proposal_liveness_reachable:
  assumes "validate_proposal_liveness env p info c = (c', r)"
  shows "reachable (env_leaf_commit env) c c'"
proof -
  let ?commit = "env_leaf_commit env"
  obtain c0 x where e: "epoch_transition_check env (proposal_data p)
      (qp_view_number (proposal_data p)) info c = (c0, x)" by fastforce
  have r0: "reachable ?commit c c0" by (rule epoch_transition_check_reachable [OF e])
  show ?thesis
  proof (cases x)
    case (Inl err)
    then show ?thesis using assms e r0 by (simp add: validate_proposal_liveness_def Let_def)
  next
    case (Inr b)
    let ?c1 = "ignore_err c0 (update_leaf ?commit (from_quorum_proposal (proposal_data p))
                     (env_from_header env (qp_block_header (proposal_data p))) None c0)"
    have r1: "reachable ?commit c ?c1" by (rule reachable_trans [OF r0 reachable_update_leaf])
    show ?thesis
      using assms e Inr r1 unfolding validate_proposal_liveness_def Let_def
      by (auto simp: and_then_def lift_update_def split: if_splits sum.splits
          intro: reachable_trans [OF _ reachable_step [OF step_locked]])
  qed
qed

lemma validate_proposal_safety_and_liveness_reachable:
  assumes "validate_proposal_safety_and_liveness env p parent info c = Some (c', r)"
  shows "reachable (env_leaf_commit env) c c'"
proof -
  let ?commit = "env_leaf_commit env"
  obtain c0 x where e: "epoch_transition_check env (proposal_data p)
      (cert_view_number (qp_justify_qc (proposal_data p))) info c = (c0, x)" by fastforce
  have r0: "reachable ?commit c c0" by (rule epoch_transition_check_reachable [OF e])
  show ?thesis
  proof (cases x)
    case (Inl err)
    then show ?thesis
      using assms e r0 by (simp add: validate_proposal_safety_and_liveness_def Let_def)
  next
    case (Inr b)
    let ?c1 = "ignore_err c0 (update_leaf ?commit (from_quorum_proposal (proposal_data p))
                     (env_from_header env (qp_block_header (proposal_data p))) None c0)"
    let ?c2 = "ignore_err ?c1 (update_proposed_view p ?c1)"
    have r2: "reachable ?commit c ?c2"
      by (rule reachable_trans [OF reachable_trans [OF r0 reachable_update_leaf]
            reachable_proposed_view])
    have "c' = c0 \<or> c' = ?c2"
      using assms e Inr unfolding validate_proposal_safety_and_liveness_def Let_def
      by (auto split: if_splits sum.splits)
    then show ?thesis using r0 r2 by auto
  qed
qed

lemma handle_quorum_proposal_recv_reachable:
  assumes "handle_quorum_proposal_recv env p info c = Some (c', r, evs)"
  shows "reachable (env_leaf_commit env) c c'"
proof -
  let ?commit = "env_leaf_commit env"
  let ?upd = "if cert_view_number (qp_justify_qc (proposal_data p)) > cert_view_number (high_qc c)
     then helpers_update_high_qc env (proposal_data p) (vi_epoch_height info) c else (c, Ok ())"
  obtain c0 x where u: "?upd = (c0, x)" by fastforce
  have r0: "reachable ?commit c c0"
    using u helpers_update_high_qc_reachable [of env "proposal_data p" "vi_epoch_height info" c]
    by (auto split: if_splits)
  show ?thesis
  proof (cases "validate_preliminary env p info c")
    case (Inl e)
    then show ?thesis using assms by (simp add: handle_quorum_proposal_recv_def Let_def)
  next
    case (Inr ok)
    show ?thesis
    proof (cases "saved_leaves c (leaf_commit (cert_data (qp_justify_qc (proposal_data p))))")
      case None
      obtain c1 y where l: "validate_proposal_liveness env p info c0 = (c1, y)" by fastforce
      have "reachable ?commit c c1"
        by (rule reachable_trans [OF r0 validate_proposal_liveness_reachable [OF l]])
      then have "c' = c0 \<or> c' = c1 \<or> c' = update_highest_block (hdr_block_number
          (qp_block_header (proposal_data p))) c1"
        "reachable ?commit c c1"
        using assms Inr None l unfolding handle_quorum_proposal_recv_def Let_def u
        by (auto split: sum.splits)
      then show ?thesis using r0 by (auto intro: reachable_trans [OF _ reachable_step [OF step_highest_block]])
    next
      case (Some parent)
      have "c' = c \<or> c' = c0 \<or> (\<exists>c1 y. validate_proposal_safety_and_liveness env p parent info c0 = Some (c1, y)
          \<and> (c' = c1 \<or> c' = (update_highest_block (hdr_block_number (qp_block_header (proposal_data p))) c1)
               \<lparr>highest_block := hdr_block_number (qp_block_header (proposal_data p))\<rparr>))"
        using assms Inr Some unfolding handle_quorum_proposal_recv_def Let_def u
        by (auto split: sum.splits if_splits option.splits prod.splits)
      then show ?thesis
        using r0 by (auto dest!: validate_proposal_safety_and_liveness_reachable
            intro: reachable_trans reachable_set_highest_block)
    qed
  qed
qed


section \<open>What an accepted proposal satisfies\<close>

lemma reaches_view_cong:
  "reaches_view s v c \<Longrightarrow> saved_leaves s' = saved_leaves s \<Longrightarrow> reaches_view s' v c"
  by (induction rule: reaches_view.induct) (auto intro: reaches_view.intros)

lemma validate_preliminary_Ok:
  "validate_preliminary env p info c = Ok () \<longleftrightarrow>
     validate_epoch (proposal_data p) (vi_upgrade_lock info) (vi_epoch_height info) = Ok ()
     \<and> validate_current_epoch (proposal_data p) info c = Ok ()
     \<and> validate_proposal_view_and_certs env p info c = Ok ()
     \<and> validate_block_height (proposal_data p) = Ok ()
     \<and> validate_state_cert env (proposal_data p) (vi_epoch_height info) = Ok ()
     \<and> validate_epoch_transition_block env (proposal_data p) info = Ok ()
     \<and> validate_qc_and_next_epoch_qc env (qp_justify_qc (proposal_data p))
         (qp_next_epoch_justify_qc (proposal_data p)) (vi_upgrade_lock info) (vi_epoch_height info) = Ok ()"
  by (simp add: validate_preliminary_def Let_def try_bind_Inr_iff)

text \<open>The proposal carries the evidence that its view may start.\<close>

definition view_justified ::
  "('k, 'g, 'h, 'st) Env \<Rightarrow> ('g, 'h) QuorumProposal2 \<Rightarrow> 'g UpgradeLock \<Rightarrow> bool" where
  "view_justified env data lock \<longleftrightarrow>
     cert_view_number (qp_justify_qc data) = qp_view_number data - 1
     \<or> (\<exists>evidence. qp_view_change_evidence data = Some evidence
          \<and> validate_view_change_evidence env lock (qp_view_number data) evidence = Ok ())"

lemma validate_proposal_view_and_certs_Ok:
  assumes "validate_proposal_view_and_certs env p info c = Ok ()"
  shows "cur_view c \<le> qp_view_number (proposal_data p)"
    and "validate_signature env p (vi_membership info) = Ok ()"
    and "view_justified env (proposal_data p) (vi_upgrade_lock info)"
  using assms
  by (auto simp: validate_proposal_view_and_certs_def Let_def try_bind_Inr_iff view_justified_def
      split: if_splits option.splits)

definition qc_valid ::
  "('k, 'g, 'h, 'st) Env \<Rightarrow> 'g UpgradeLock \<Rightarrow> 'g QuorumCertificate2 \<Rightarrow> bool" where
  "qc_valid env lock qc \<longleftrightarrow>
     (\<exists>membership. env_stake_table_for_epoch env (qd_epoch (cert_data qc)) = Some membership
        \<and> is_valid_cert (env_multi_sig_verify env) (env_qc_commit env) qc
            (stake_table_entries (em_stake_table membership)) (em_success_threshold membership) lock
          = Ok ())"

lemma validate_qc_Ok:
  "validate_qc_and_next_epoch_qc env qc nqc lock h = Ok () \<Longrightarrow> qc_valid env lock qc"
  by (auto simp: validate_qc_and_next_epoch_qc_def qc_valid_def try_bind_Inr_iff split: option.splits)

definition safe_to_extend ::
  "('k, 'g, 'h, 'st, 'dl) Consensus \<Rightarrow> 'g QuorumCertificate2 \<Rightarrow> bool" where
  "safe_to_extend c qc \<longleftrightarrow>
     (\<exists>lc st d e. bt_get (validated_state_map c) (cert_view_number qc) = Some (LeafView lc st d e)
        \<and> reaches_view c (locked_view c) lc)"

lemma epoch_transition_check_True:
  assumes "epoch_transition_check env data v info c = (c', Ok True)"
  shows "qc_block_is is_epoch_transition (qp_justify_qc data) (vi_epoch_height info)"
  using assms
  by (auto simp: epoch_transition_check_def qc_block_is_def split: if_splits option.splits prod.splits sum.splits)

lemma validate_proposal_safety_and_liveness_Ok:
  assumes "validate_proposal_safety_and_liveness env p parent info c = Some (c', Ok u)"
  shows "leaf_commit (cert_data (qp_justify_qc (proposal_data p))) = env_leaf_commit env parent"
    and "locked_view c' < cert_view_number (qp_justify_qc (proposal_data p))
      \<or> safe_to_extend c' (qp_justify_qc (proposal_data p))
      \<or> qc_block_is is_epoch_transition (qp_justify_qc (proposal_data p)) (vi_epoch_height info)"
proof -
  obtain c0 b where e: "epoch_transition_check env (proposal_data p)
      (cert_view_number (qp_justify_qc (proposal_data p))) info c = (c0, Inr b)"
    using assms unfolding validate_proposal_safety_and_liveness_def Let_def
    by (auto split: prod.splits sum.splits)
  have pc: "parent_commitment (from_quorum_proposal (proposal_data p)) = env_leaf_commit env parent"
    using assms e unfolding validate_proposal_safety_and_liveness_def Let_def by (auto split: if_splits)
  then show "leaf_commit (cert_data (qp_justify_qc (proposal_data p))) = env_leaf_commit env parent"
    by (simp add: from_quorum_proposal_def)
  obtain safe where sc: "safety_check c' (qp_justify_qc (proposal_data p)) = Some safe" and
      ok: "safe \<or> locked_view c' < cert_view_number (qp_justify_qc (proposal_data p)) \<or> b"
    using assms e pc unfolding validate_proposal_safety_and_liveness_def Let_def
    by (auto split: if_splits sum.splits)
  have "safe_to_extend c' (qp_justify_qc (proposal_data p))" if "safe"
  proof -
    have t: "safety_check c' (qp_justify_qc (proposal_data p)) = Some True" using sc that by simp
    obtain lc st d e' where g: "bt_get (validated_state_map c')
        (cert_view_number (qp_justify_qc (proposal_data p))) = Some (LeafView lc st d e')"
      by (rule safety_check_leaf [OF t])
    show ?thesis unfolding safe_to_extend_def using g safety_check_reaches [OF t g] by blast
  qed
  moreover have "qc_block_is is_epoch_transition (qp_justify_qc (proposal_data p)) (vi_epoch_height info)"
    if "b"
    by (rule epoch_transition_check_True) (use e that in simp)
  ultimately show "locked_view c' < cert_view_number (qp_justify_qc (proposal_data p))
      \<or> safe_to_extend c' (qp_justify_qc (proposal_data p))
      \<or> qc_block_is is_epoch_transition (qp_justify_qc (proposal_data p)) (vi_epoch_height info)"
    using ok by blast
qed


lemma handle_validated_cases:
  assumes run: "handle_quorum_proposal_recv env p info c = Some (c', r, evs)"
    and ev: "QuorumProposalValidated p' parent \<in> set evs"
  obtains c0 c1 where "p' = p" "r = Ok ()" "validate_preliminary env p info c = Ok ()"
    "saved_leaves c (leaf_commit (cert_data (qp_justify_qc (proposal_data p)))) = Some parent"
    "validate_proposal_safety_and_liveness env p parent info c0 = Some (c1, Ok ())"
    "c' = (update_highest_block (hdr_block_number (qp_block_header (proposal_data p))) c1)
               \<lparr>highest_block := hdr_block_number (qp_block_header (proposal_data p))\<rparr>"
proof -
  let ?upd = "if cert_view_number (qp_justify_qc (proposal_data p)) > cert_view_number (high_qc c)
     then helpers_update_high_qc env (proposal_data p) (vi_epoch_height info) c else (c, Ok ())"
  obtain c0 x where u: "?upd = (c0, x)" by fastforce
  have pre: "validate_preliminary env p info c = Ok ()"
    using run ev by (cases "validate_preliminary env p info c")
      (auto simp: handle_quorum_proposal_recv_def Let_def)
  show thesis
  proof (cases "saved_leaves c (leaf_commit (cert_data (qp_justify_qc (proposal_data p))))")
    case None
    then show thesis
      using run ev pre unfolding handle_quorum_proposal_recv_def Let_def u
      by (auto split: sum.splits prod.splits)
  next
    case (Some q)
    then show thesis
      using run ev pre unfolding handle_quorum_proposal_recv_def Let_def u
      by (auto split: sum.splits prod.splits if_splits option.splits
          intro: that)
  qed
qed

lemma update_highest_block_frame:
  "saved_leaves (update_highest_block b c) = saved_leaves c"
  "validated_state_map (update_highest_block b c) = validated_state_map c"
  "locked_view (update_highest_block b c) = locked_view c"
  by (simp_all add: update_highest_block_def)


text \<open>
  C34: Every run of the proposal handler, whatever branch it takes and however it fails, changes the
  consensus state only by steps of the step relation of the consensus state, so every invariant
  of that relation holds after it.
\<close>

theorem proposal_handler_implements_consensus_steps:
  assumes run: "handle_quorum_proposal_recv env p info c = Some (c', r, evs)"
  shows "\<exists>n. consensus_trace (env_leaf_commit env) c (replicate n Internal) c'"
  using handle_quorum_proposal_recv_reachable [OF run] by (simp add: reachable_def)

lemma same_leaves_state_cert: "update_state_cert sc c = Ok c' \<Longrightarrow> saved_leaves c' = saved_leaves c"
  by (auto simp: update_state_cert_def split: option.splits if_splits)

lemma helpers_update_high_qc_leaves:
  assumes "helpers_update_high_qc env data h c = (c', r)"
  shows "saved_leaves c' = saved_leaves c"
proof -
  have store: "saved_leaves (fst (store_high_qc env data h c)) = saved_leaves c"
    unfolding store_high_qc_def Let_def
    by (auto simp: and_then_def lift_update_def same_leaves_state_cert
        split: if_splits option.splits sum.splits)
  let ?first = "if \<not> in_transition_epoch (qp_justify_qc data) h then store_high_qc env data h c else (c, Ok ())"
  obtain c1 x where f: "?first = (c1, x)" by fastforce
  have c1: "saved_leaves c1 = saved_leaves c" using f store by (auto split: if_splits)
  have step: "update_high_qc qc s = Ok t \<Longrightarrow> saved_leaves t = saved_leaves s"
    "update_next_epoch_high_qc nqc s = Ok t \<Longrightarrow> saved_leaves t = saved_leaves s"
    "reset_high_qc qc nqc s = Ok t \<Longrightarrow> saved_leaves t = saved_leaves s" for qc nqc s t
    by (auto simp: update_high_qc_def update_next_epoch_high_qc_def reset_high_qc_def Let_def
        split: if_splits option.splits)
  have trans: "saved_leaves (update_transition_qc qc nqc s) = saved_leaves s" for qc nqc s
    by (auto simp: update_transition_qc_def split: option.splits)
  show ?thesis
    using assms c1 unfolding helpers_update_high_qc_def Let_def f
    by (cases x) (auto simp: and_then_def lift_update_def trans
        split: option.splits if_splits sum.splits dest!: step)
qed

lemma epoch_transition_check_leaves:
  assumes "epoch_transition_check env data v info c = (c', r)"
  shows "saved_leaves c' = saved_leaves c"
proof -
  have "saved_leaves (update_transition_qc qc nqc s) = saved_leaves s" for qc nqc s
    by (auto simp: update_transition_qc_def split: option.splits)
  then have "saved_leaves c2 = saved_leaves c"
    if "validate_epoch_transition_qc env data (vi_epoch_height info) c = (c2, r2)" for c2 r2
    using that unfolding validate_epoch_transition_qc_def Let_def
    by (auto split: option.splits if_splits dest!: helpers_update_high_qc_leaves)
  then show ?thesis
    using assms unfolding epoch_transition_check_def
    by (auto split: option.splits if_splits prod.splits sum.splits)
qed

lemma proposed_leaf_states_acyclic:
  assumes rank: "leaf_rank rank (saved_leaves c)"
    and new: "rank (parent_commitment l) < rank (commit l)"
  shows "acyclic_leaves (ignore_err (ignore_err c (update_leaf commit l st d c))
    (update_proposed_view p (ignore_err c (update_leaf commit l st d c))))"
proof -
  let ?c1 = "ignore_err c (update_leaf commit l st d c)"
  have "leaf_rank rank (saved_leaves ?c1)"
  proof (cases "update_leaf commit l st d c")
    case (Inr s)
    then show ?thesis using update_leaf_Ok [OF Inr] rank new
      by (auto simp: ignore_err_def leaf_rank_def)
  qed (use rank in \<open>simp add: ignore_err_def\<close>)
  moreover have "saved_leaves (ignore_err ?c1 (update_proposed_view p ?c1)) = saved_leaves ?c1"
    by (auto simp: ignore_err_def update_proposed_view_def Let_def)
  ultimately show ?thesis unfolding acyclic_leaves_def by metis
qed

lemma validate_proposal_safety_and_liveness_total:
  assumes rank: "leaf_rank rank (saved_leaves c)"
    and new: "rank (parent_commitment (from_quorum_proposal (proposal_data p)))
      < rank (env_leaf_commit env (from_quorum_proposal (proposal_data p)))"
  shows "\<exists>out. validate_proposal_safety_and_liveness env p parent info c = Some out"
proof -
  obtain c0 x where e: "epoch_transition_check env (proposal_data p)
      (cert_view_number (qp_justify_qc (proposal_data p))) info c = (c0, x)" by fastforce
  have "leaf_rank rank (saved_leaves c0)"
    using rank epoch_transition_check_leaves [OF e] by simp
  then have "acyclic_leaves (ignore_err (ignore_err c0 (update_leaf (env_leaf_commit env)
      (from_quorum_proposal (proposal_data p)) st d c0)) (update_proposed_view p (ignore_err c0
      (update_leaf (env_leaf_commit env) (from_quorum_proposal (proposal_data p)) st d c0))))" for st d
    using new by (rule proposed_leaf_states_acyclic)
  from safety_check_total [OF this [of "env_from_header env (qp_block_header (proposal_data p))" None]]
  obtain b where b: "safety_check (ignore_err (ignore_err c0 (update_leaf (env_leaf_commit env)
      (from_quorum_proposal (proposal_data p))
      (env_from_header env (qp_block_header (proposal_data p))) None c0))
      (update_proposed_view p (ignore_err c0 (update_leaf (env_leaf_commit env)
      (from_quorum_proposal (proposal_data p))
      (env_from_header env (qp_block_header (proposal_data p))) None c0))))
      (qp_justify_qc (proposal_data p)) = Some b"
    by blast
  show ?thesis
    unfolding validate_proposal_safety_and_liveness_def Let_def e
    by (cases x) (simp_all add: b split: sum.split)
qed


section \<open>Effects on the consensus state that surprise\<close>

text \<open>
  After an accepted proposal the recorded highest block is the proposal's block number, even where
  the node knew a higher block before.
\<close>

theorem accepted_proposal_overwrites_highest_block:
  assumes run: "handle_quorum_proposal_recv env p info c = Some (c', r, evs)"
    and ev: "QuorumProposalValidated p' parent \<in> set evs"
  shows "highest_block c' = hdr_block_number (qp_block_header (proposal_data p))"
  using run ev by (rule handle_validated_cases) simp

lemma epoch_root_not_in_transition:
  assumes "qd_block_number (cert_data qc) = Some bn" "is_epoch_root bn h"
    and "5 < h" "unat bn + unat h < 2 ^ 64"
  shows "\<not> in_transition_epoch qc h"
proof -
  have b: "bn \<noteq> 0" using assms(2) by (auto simp: is_epoch_root_def)
  have h: "5 < unat h" using assms(3) by (simp add: word_less_nat_alt)
  have "unat bn mod unat h = unat h - 5"
    using assms(2) is_epoch_root_iff [OF b assms(3,4)] by simp
  then have "\<not> is_epoch_transition bn h"
    using is_epoch_transition_iff [OF b assms(3,4)] h by auto
  then show ?thesis using assms(1) by (simp add: in_transition_epoch_def)
qed

text \<open>
  A proposal whose justify QC is newer than the high QC and certifies an epoch root is rejected, and
  the high QC stays, when the node already holds a state certificate of the same or a later epoch.
\<close>

theorem second_epoch_root_qc_rejected:
  assumes run: "handle_quorum_proposal_recv env p info c = Some (c', r, evs)"
    and newer: "cert_view_number (high_qc c) < cert_view_number (qp_justify_qc (proposal_data p))"
    and root: "qd_block_number (cert_data (qp_justify_qc (proposal_data p))) = Some bn"
      "is_epoch_root bn (vi_epoch_height info)" "5 < vi_epoch_height info"
      "unat bn + unat (vi_epoch_height info) < 2 ^ 64"
    and cert: "qp_state_cert (proposal_data p) = Some cert" "state_cert c = Some known"
      "lcc_epoch cert \<le> lcc_epoch known"
  shows "\<not> is_ok r \<and> high_qc c' = high_qc c"
proof -
  let ?data = "proposal_data p" and ?h = "vi_epoch_height info"
  have nt: "\<not> in_transition_epoch (qp_justify_qc ?data) ?h"
    by (rule epoch_root_not_in_transition [OF root])
  have upd: "update_state_cert cert c = Err StateCertNotNewer"
    using cert by (simp add: update_state_cert_def not_less)
  have "\<exists>e. helpers_update_high_qc env ?data ?h c = (c, Err e)"
    unfolding helpers_update_high_qc_def store_high_qc_def Let_def
    using nt root cert upd
    by (auto simp: and_then_def qc_block_is_def lift_update_def split: if_splits)
  then obtain e where e: "helpers_update_high_qc env ?data ?h c = (c, Err e)" by blast
  show ?thesis
  proof (cases "validate_preliminary env p info c")
    case (Inl a)
    have "c' = c \<and> r = Err a" using run by (simp add: handle_quorum_proposal_recv_def Inl)
    then show ?thesis by simp
  next
    case (Inr u)
    have "c' = c \<and> \<not> is_ok r"
      using run [unfolded handle_quorum_proposal_recv_def Let_def] newer e
      by (simp add: Inr if_distrib [where f = "case_prod _"] split: if_splits option.splits) auto
    then show ?thesis by simp
  qed
qed

section \<open>Witnesses\<close>

definition demo_membership :: "(nat, u8 list) EpochMembership" where
  "demo_membership =
     (let table = [\<lparr>stake_table_entry = \<lparr>stake_key = 1, stake_amount = 5\<rparr>, state_ver_key = [1]\<rparr>] in
      \<lparr>em_epoch = Some 1, em_stake_table = table, em_da_stake_table = table,
       em_stake = (\<lambda>k. find (\<lambda>p. stake_key (stake_table_entry p) = k) table),
       em_da_stake = (\<lambda>k. find (\<lambda>p. stake_key (stake_table_entry p) = k) table),
       em_has_stake = (\<lambda>k. k = 1), em_da_committee_members = (\<lambda>view. [1]),
       em_total_nodes = 1, em_da_total_nodes = 1, em_success_threshold = 4,
       em_da_success_threshold = 4, em_failure_threshold = 2, em_upgrade_threshold = 5,
       em_leader = (\<lambda>view. Some 1)\<rparr>)"

definition demo_env :: "(nat, nat, unit, nat) Env" where
  "demo_env =
     \<lparr>env_multi_sig_verify = sum_multi_verify,
      env_qc_commit = (\<lambda>d v. leaf_commit d), env_next_epoch_qc_commit = (\<lambda>d v. leaf_commit d),
      env_timeout_commit = (\<lambda>d v. ucast v), env_view_sync_commit = (\<lambda>d v. ucast v),
      env_upgrade_commit = (\<lambda>d v. ucast v), env_validate = sum_validate,
      env_verify_state_sig = (\<lambda>k g l t. g = k), env_leaf_commit = sample_leaf_commit,
      env_from_header = (\<lambda>h. unat (hdr_block_number h)), env_block_is_empty = (\<lambda>h. True),
      env_membership_for_epoch = (\<lambda>e. Some demo_membership),
      env_stake_table_for_epoch = (\<lambda>e. Some demo_membership),
      env_store_high_qc2 = (\<lambda>qc. True), env_store_state_cert = (\<lambda>sc. True),
      env_store_next_epoch_high_qc2 = (\<lambda>qc. True)\<rparr>"

definition demo_info :: "(nat, nat) ValidationInfo" where
  "demo_info = \<lparr>vi_membership = demo_membership\<lparr>em_epoch := None\<rparr>, vi_upgrade_lock = sample_lock,
     vi_epoch_height = 10, vi_first_epoch = None\<rparr>"

definition demo_proposal :: "((nat, unit) QuorumProposal2, nat) Proposal" where
  "demo_proposal =
     \<lparr>proposal_data =
        \<lparr>qp_block_header = \<lparr>hdr_block_number = 3, hdr_payload_commitment = 0, hdr_fields = ()\<rparr>,
         qp_view_number = 3, qp_epoch = None,
         qp_justify_qc = (sample_qc (sample_leaf_commit sample_leaf2) 2)
           \<lparr>cert_signatures := Some (1, [True])\<rparr>,
         qp_next_epoch_justify_qc = None, qp_upgrade_certificate = None,
         qp_view_change_evidence = None, qp_next_drb_result = None, qp_state_cert = None\<rparr>,
      proposal_signature = 1\<rparr>"

definition demo_outcome where
  "demo_outcome = handle_quorum_proposal_recv demo_env demo_proposal demo_info
     (sample_state2\<lparr>highest_block := 9\<rparr>)"

lemma demo_run:
  "case demo_outcome of
     None \<Rightarrow> False
   | Some (c', r, evs) \<Rightarrow>
       is_ok r \<and> QuorumProposalValidated demo_proposal sample_leaf2 \<in> set evs \<and> highest_block c' = 3"
  by code_simp


lemma demo_runE:
  obtains c' r evs where
    "handle_quorum_proposal_recv demo_env demo_proposal demo_info (sample_state2\<lparr>highest_block := 9\<rparr>)
       = Some (c', r, evs)"
    "QuorumProposalValidated demo_proposal sample_leaf2 \<in> set evs"
  using demo_run by (auto simp: demo_outcome_def split: option.splits)


theorem proposal_handler_implements_consensus_steps_witness:
  "\<exists>c' n. consensus_trace sample_leaf_commit (sample_state2\<lparr>highest_block := 9\<rparr>)
     (replicate n Internal) c' \<and> bt_contains_key (validated_state_map c') 3"
proof -
  obtain c' r evs where
    run: "handle_quorum_proposal_recv demo_env demo_proposal demo_info
       (sample_state2\<lparr>highest_block := 9\<rparr>) = Some (c', r, evs)"
    by (rule demo_runE)
  have "case demo_outcome of None \<Rightarrow> False
      | Some (c', r, evs) \<Rightarrow> bt_contains_key (validated_state_map c') 3"
    by code_simp
  then have "bt_contains_key (validated_state_map c') 3" using run by (simp add: demo_outcome_def)
  then show ?thesis
    using proposal_handler_implements_consensus_steps [OF run] by (auto simp: demo_env_def)
qed

theorem accepted_proposal_overwrites_highest_block_witness:
  "\<exists>c' r evs. handle_quorum_proposal_recv demo_env demo_proposal demo_info
       (sample_state2\<lparr>highest_block := 9\<rparr>) = Some (c', r, evs) \<and> highest_block c' = 3"
proof -
  obtain c' r evs where run:
    "handle_quorum_proposal_recv demo_env demo_proposal demo_info (sample_state2\<lparr>highest_block := 9\<rparr>)
       = Some (c', r, evs)" "QuorumProposalValidated demo_proposal sample_leaf2 \<in> set evs"
    by (rule demo_runE)
  from accepted_proposal_overwrites_highest_block [OF this] run(1) show ?thesis
    by (simp add: demo_proposal_def)
qed


definition demo_state_cert :: StateCert where
  "demo_state_cert = \<lparr>lcc_epoch = 1,
     lcc_light_client_state = \<lparr>lcs_view_number = 2, lcs_block_height = 5, lcs_block_comm_root = 0\<rparr>,
     lcc_next_stake_table_state = \<lparr>sts_bls_key_comm = 0, sts_schnorr_key_comm = 0,
       sts_amount_comm = 0, sts_threshold = 0\<rparr>,
     lcc_signatures = [([1], [1])]\<rparr>"

definition demo_root_proposal :: "((nat, unit) QuorumProposal2, nat) Proposal" where
  "demo_root_proposal =
     \<lparr>proposal_data =
        \<lparr>qp_block_header = \<lparr>hdr_block_number = 6, hdr_payload_commitment = 0, hdr_fields = ()\<rparr>,
         qp_view_number = 3, qp_epoch = None,
         qp_justify_qc = \<lparr>cert_data = \<lparr>leaf_commit = sample_leaf_commit sample_leaf2,
             qd_epoch = Some 1, qd_block_number = Some 5\<rparr>,
           cert_vote_commitment = 0, cert_view_number = 2, cert_signatures = Some (1, [True])\<rparr>,
         qp_next_epoch_justify_qc = None, qp_upgrade_certificate = None,
         qp_view_change_evidence = None, qp_next_drb_result = None,
         qp_state_cert = Some demo_state_cert\<rparr>,
      proposal_signature = 1\<rparr>"

theorem second_epoch_root_qc_rejected_witness:
  "validate_preliminary demo_env demo_root_proposal demo_info sample_state2 = Ok () \<and>
   (\<exists>c' r evs. handle_quorum_proposal_recv demo_env demo_root_proposal demo_info
      (sample_state2\<lparr>state_cert := Some demo_state_cert\<rparr>) = Some (c', r, evs) \<and> \<not> is_ok r)"
proof -
  have "case handle_quorum_proposal_recv demo_env demo_root_proposal demo_info
      (sample_state2\<lparr>state_cert := Some demo_state_cert\<rparr>) of None \<Rightarrow> False | Some x \<Rightarrow> True"
    by code_simp
  then obtain c' r evs where run: "handle_quorum_proposal_recv demo_env demo_root_proposal demo_info
      (sample_state2\<lparr>state_cert := Some demo_state_cert\<rparr>) = Some (c', r, evs)"
    by (auto split: option.splits)
  have "high_qc sample_state2 = sample_qc 0 0"
    by (simp add: sample_state2_eq sample_genesis_def consensus_new_def)
  then have "\<not> is_ok r"
    using second_epoch_root_qc_rejected [OF run, of 5 demo_state_cert demo_state_cert]
    by (simp add: demo_root_proposal_def demo_info_def is_epoch_root_def sample_qc_def)
  moreover have "is_ok (validate_preliminary demo_env demo_root_proposal demo_info sample_state2)"
    by code_simp
  then have "validate_preliminary demo_env demo_root_proposal demo_info sample_state2 = Ok ()"
    by (auto simp: is_ok_iff)
  ultimately show ?thesis using run by blast
qed

end
