(* ===== verification/Decide.thy ===== *)
theory Decide
  imports Proposal_Validation
begin

text \<open>
  The decide rule: \<open>decide_from_proposal_2\<close> (HotStuff-2, two-chains, used once epochs are enabled)
  and \<open>decide_from_proposal\<close> (chained HotStuff, three-chains) of
  \<open>crates/hotshot/task-impls/src/helpers.rs\<close>, the epoch root and random beacon work they start, and
  the handler \<open>handle_quorum_proposal_validated\<close> of
  \<open>crates/hotshot/task-impls/src/quorum_vote/handlers.rs\<close> that applies their outcome to the consensus
  state. Storage and membership calls whose errors the code only logs are effects of the outcome.
  \<open>None\<close> stands for a run that panics or does not return. \<open>bincode::serialize\<close> and the payload's
  \<open>transaction_commitments\<close> are parameters.
\<close>

section \<open>Epoch roots and the random beacon\<close>

record ('g, 'h) DecideEnv =
  de_transaction_commitments :: "u8 list \<Rightarrow> 'h BlockHeader \<Rightarrow> commitment list"
  de_serialize_signatures :: "'g Qc option \<Rightarrow> u8 list option"

datatype ('k, 'g, 'h, 'st, 'dl) DecideEffect =
    StoreEpochRoot u64 "'h BlockHeader"
  | AddEpochRoot u64 "'h BlockHeader"
  | StartDrbTask DrbInput
  | StoreDrbResult u64 "u8 list"
  | AddDrbResult u64 "u8 list"
  | MembershipSetFirstEpoch u64 "u8 list"
  | SetFirstEpoch u64 u64
  | StoreDecidedUpgradeCertificate "'g UpgradeCertificate"
  | DecideEvent u64 "('k, 'g, 'h, 'st, 'dl) LeafInfo list" "'g QuorumCertificate2" "nat option"

definition handle_drb_result ::
  "u64 \<Rightarrow> u8 list \<Rightarrow> ('k, 'g, 'h, 'st, 'dl) Consensus
     \<Rightarrow> ('k, 'g, 'h, 'st, 'dl) Consensus \<times> ('k, 'g, 'h, 'st, 'dl) DecideEffect list" where
  "handle_drb_result epoch drb_result consensus =
     (consensus\<lparr>drb_results := store_result epoch drb_result (drb_results consensus)\<rparr>,
      [StoreDrbResult epoch drb_result, AddDrbResult epoch drb_result])"

definition start_drb_task ::
  "u8 list \<Rightarrow> u64 \<Rightarrow> ('k, 'g, 'h, 'st, 'dl) Consensus \<Rightarrow> ('k, 'g, 'h, 'st, 'dl) DecideEffect" where
  "start_drb_task seed epoch consensus =
     StartDrbTask \<lparr>drb_epoch = epoch, drb_iteration = 0, drb_value = seed,
       drb_difficulty_level = drb_difficulty consensus\<rparr>"

definition drb_seed_input :: "u8 list \<Rightarrow> u8 list" where
  "drb_seed_input bytes =
     (let len = min (length bytes) 32 in take len bytes @ replicate (32 - len) 0)"

definition decide_epoch_root ::
  "('g, 'h) DecideEnv \<Rightarrow> ('g, 'h) Leaf2 \<Rightarrow> u64 \<Rightarrow> ('k, 'g, 'h, 'st, 'dl) Consensus
     \<Rightarrow> ('k, 'g, 'h, 'st, 'dl) Consensus \<times> ('k, 'g, 'h, 'st, 'dl) DecideEffect list" where
  "decide_epoch_root denv dleaf epoch_height' consensus =
     (let decided_block_number = hdr_block_number (block_header dleaf) in
      if epoch_height' \<noteq> 0 \<and> is_epoch_root decided_block_number epoch_height' then
        (let next_epoch_number = epoch_from_block_number decided_block_number epoch_height' + 2;
             root = [StoreEpochRoot next_epoch_number (block_header dleaf),
                     AddEpochRoot next_epoch_number (block_header dleaf)];
             consensus' = consensus\<lparr>drb_results :=
                            drb_garbage_collect next_epoch_number (drb_results consensus)\<rparr>
         in case de_serialize_signatures denv (cert_signatures (justify_qc dleaf)) of
              None \<Rightarrow> (consensus', root)
            | Some bytes \<Rightarrow>
                (consensus',
                 root @ [start_drb_task (drb_seed_input bytes) next_epoch_number consensus']))
      else (consensus, []))"

fun decide_epoch_roots ::
  "('g, 'h) DecideEnv \<Rightarrow> u64 \<Rightarrow> ('k, 'g, 'h, 'st, 'dl) LeafInfo list
     \<Rightarrow> ('k, 'g, 'h, 'st, 'dl) Consensus
     \<Rightarrow> ('k, 'g, 'h, 'st, 'dl) Consensus \<times> ('k, 'g, 'h, 'st, 'dl) DecideEffect list" where
  "decide_epoch_roots denv h [] consensus = (consensus, [])"
| "decide_epoch_roots denv h (info # infos) consensus =
     (let (c1, e1) = decide_epoch_root denv (li_leaf info) h consensus;
          (c2, e2) = decide_epoch_roots denv h infos c1
      in (c2, e1 @ e2))"

section \<open>The outcome of a traversal\<close>

record ('k, 'g, 'h, 'st, 'dl) LeafChainTraversalOutcome =
  new_locked_view_number :: "u64 option"
  new_decided_view_number :: "u64 option"
  new_decide_qc :: "'g QuorumCertificate2 option"
  leaf_views :: "('k, 'g, 'h, 'st, 'dl) LeafInfo list"
  included_txns :: "commitment set option"
  decided_upgrade_cert :: "'g UpgradeCertificate option"

definition outcome_default :: "('k, 'g, 'h, 'st, 'dl) LeafChainTraversalOutcome" where
  "outcome_default = \<lparr>new_locked_view_number = None, new_decided_view_number = None,
     new_decide_qc = None, leaf_views = [], included_txns = None, decided_upgrade_cert = None\<rparr>"

text \<open>The upgrade certificate of a decided leaf and its payload, shared by both decide rules.\<close>

definition newly_decided_upgrade ::
  "'g UpgradeCertificate option \<Rightarrow> u64 \<Rightarrow> ('g, 'h) Leaf2 \<Rightarrow> 'g UpgradeCertificate option
     \<Rightarrow> 'g UpgradeCertificate option" where
  "newly_decided_upgrade existing_upgrade_cert bound leaf decided =
     (case upgrade_certificate leaf of
        None \<Rightarrow> decided
      | Some cert \<Rightarrow>
          (if upgrade_certificate leaf \<noteq> existing_upgrade_cert then
             (if decide_by (cert_data cert) < bound then decided else Some cert)
           else decided))"

definition with_saved_payload ::
  "('k, 'g, 'h, 'st, 'dl) Consensus \<Rightarrow> ('g, 'h) Leaf2 \<Rightarrow> ('g, 'h) Leaf2" where
  "with_saved_payload consensus leaf =
     (case bt_get (saved_payloads consensus) (leaf_view_number leaf) of
        Some payload \<Rightarrow> fill_block_payload_unchecked payload leaf
      | None \<Rightarrow> leaf)"

section \<open>HotStuff-2\<close>

text \<open>
  The \<open>while\<close> loop of \<open>decide_from_proposal_2\<close>. Its state is the current leaf, the leaves pushed so
  far, the transaction set and the upgrade certificate.
\<close>

partial_function (option) decide_loop ::
  "('g, 'h) DecideEnv \<Rightarrow> ('k, 'g, 'h, 'st, 'dl) Consensus \<Rightarrow> 'k \<Rightarrow> 'g UpgradeCertificate option
     \<Rightarrow> u64 \<Rightarrow> ('k, 'g, 'h, 'st, 'dl) LeafInfo option \<Rightarrow> ('k, 'g, 'h, 'st, 'dl) LeafInfo list
     \<Rightarrow> commitment set \<Rightarrow> 'g UpgradeCertificate option
     \<Rightarrow> (('k, 'g, 'h, 'st, 'dl) LeafInfo list \<times> commitment set \<times> 'g UpgradeCertificate option) option"
where
  "decide_loop denv consensus public_key existing decided_view current views txns cert =
     (case current of
        None \<Rightarrow> Some (views, txns, cert)
      | Some info \<Rightarrow>
         (if leaf_view_number (li_leaf info) > last_decided_view consensus then
            (let cert' = newly_decided_upgrade existing decided_view (li_leaf info) cert;
                 leaf = with_saved_payload consensus (li_leaf info);
                 txns' = (case block_payload leaf of
                            Some payload \<Rightarrow>
                              txns \<union> set (de_transaction_commitments denv payload (block_header leaf))
                          | None \<Rightarrow> txns)
             in decide_loop denv consensus public_key existing decided_view
                  (parent_leaf_info leaf public_key consensus)
                  (views @ [info\<lparr>li_leaf := leaf\<rparr>]) txns' cert')
          else Some (views, txns, cert)))"

declare decide_loop.simps [code]

definition decide_from_proposal_2 ::
  "('g, 'h) DecideEnv \<Rightarrow> ('g, 'h) QuorumProposal2 \<Rightarrow> 'g UpgradeCertificate option \<Rightarrow> 'k \<Rightarrow> bool
     \<Rightarrow> ('k, 'g, 'h, 'st, 'dl) Consensus
     \<Rightarrow> (('k, 'g, 'h, 'st, 'dl) LeafChainTraversalOutcome \<times> ('k, 'g, 'h, 'st, 'dl) Consensus
          \<times> ('k, 'g, 'h, 'st, 'dl) DecideEffect list) option" where
  "decide_from_proposal_2 denv proposal existing_upgrade_cert public_key with_epochs consensus =
     (let proposed_leaf = from_quorum_proposal proposal;
          res = outcome_default\<lparr>new_locked_view_number :=
                  Some (cert_view_number (justify_qc proposed_leaf))\<rparr>
      in case parent_leaf_info proposed_leaf public_key consensus of
        None \<Rightarrow> Some (res, consensus, [])
      | Some parent_info \<Rightarrow>
         (case parent_leaf_info (li_leaf parent_info) public_key consensus of
            None \<Rightarrow> Some (res, consensus, [])
          | Some grand_parent_info \<Rightarrow>
             (if leaf_view_number (li_leaf grand_parent_info) + 1
                   \<noteq> leaf_view_number (li_leaf parent_info)
              then Some (res, consensus, [])
              else
               (let decided_view_number = leaf_view_number (li_leaf grand_parent_info) in
                case decide_loop denv consensus public_key existing_upgrade_cert decided_view_number
                       (Some grand_parent_info) [] {} None of
                  None \<Rightarrow> None
                | Some (views, txns, cert) \<Rightarrow>
                   (let res' = res\<lparr>new_decide_qc := Some (justify_qc (li_leaf parent_info)),
                                  new_decided_view_number := Some decided_view_number,
                                  leaf_views := views,
                                  included_txns := (if txns \<noteq> {} then Some txns else None),
                                  decided_upgrade_cert := cert\<rparr>
                    in if with_epochs then
                         (case decide_epoch_roots denv (epoch_height consensus) views consensus of
                            (consensus', effects) \<Rightarrow> Some (res', consensus', effects))
                       else Some (res', consensus, []))))))"

section \<open>Chained HotStuff\<close>

text \<open>
  The closure of \<open>decide_from_proposal\<close> captures the last visited view, the length of the chain and
  the outcome; they are the accumulator of the walk.
\<close>

definition decide_state_cert ::
  "('k, 'g, 'h, 'st, 'dl) Consensus \<Rightarrow> ('g, 'h) Leaf2 \<Rightarrow> StateCert option" where
  "decide_state_cert consensus leaf =
     (if with_epoch leaf \<and> is_epoch_root (hdr_block_number (block_header leaf)) (epoch_height consensus)
      then (case state_cert consensus of
              Some cert \<Rightarrow>
                (if lcs_view_number (lcc_light_client_state cert) = leaf_view_number leaf
                 then Some cert else None)
            | None \<Rightarrow> None)
      else None)"

definition extend_chain ::
  "('g, 'h) Leaf2 \<Rightarrow> nat \<Rightarrow> ('k, 'g, 'h, 'st, 'dl) LeafChainTraversalOutcome
     \<Rightarrow> nat \<times> ('k, 'g, 'h, 'st, 'dl) LeafChainTraversalOutcome" where
  "extend_chain leaf current_chain_length res =
     (let len = current_chain_length + 1 in
      (len,
       if len = 2 then res\<lparr>new_locked_view_number := Some (leaf_view_number leaf),
                           new_decide_qc := Some (justify_qc leaf)\<rparr>
       else if len = 3 then res\<lparr>new_decided_view_number := Some (leaf_view_number leaf)\<rparr>
       else res))"

definition push_decided ::
  "('g, 'h) DecideEnv \<Rightarrow> ('k, 'g, 'h, 'st, 'dl) Consensus \<Rightarrow> 'g UpgradeCertificate option \<Rightarrow> 'k \<Rightarrow> u64
     \<Rightarrow> u64 \<Rightarrow> ('g, 'h) Leaf2 \<Rightarrow> 'st \<Rightarrow> 'dl option
     \<Rightarrow> ('k, 'g, 'h, 'st, 'dl) LeafChainTraversalOutcome
     \<Rightarrow> ('k, 'g, 'h, 'st, 'dl) LeafChainTraversalOutcome" where
  "push_decided denv consensus existing public_key h view_number leaf0 state delta res =
     (let leaf = with_saved_payload consensus leaf0;
          info = \<lparr>li_leaf = leaf, li_state = state, li_delta = delta,
                  li_vid_share = stored_vid_share consensus (leaf_view_number leaf) public_key
                                   (leaf_epoch leaf h),
                  li_state_cert = decide_state_cert consensus leaf\<rparr>
      in res\<lparr>decided_upgrade_cert :=
               newly_decided_upgrade existing view_number leaf0 (decided_upgrade_cert res),
             leaf_views := leaf_views res @ [info],
             included_txns :=
               (case block_payload leaf of
                  Some payload \<Rightarrow>
                    Some (set (de_transaction_commitments denv payload (block_header leaf)))
                | None \<Rightarrow> included_txns res)\<rparr>)"

type_synonym ('k, 'g, 'h, 'st, 'dl) decide_acc =
  "u64 \<times> nat \<times> ('k, 'g, 'h, 'st, 'dl) LeafChainTraversalOutcome"

definition decide_visitor ::
  "('g, 'h) DecideEnv \<Rightarrow> ('k, 'g, 'h, 'st, 'dl) Consensus \<Rightarrow> 'g UpgradeCertificate option \<Rightarrow> 'k \<Rightarrow> u64
     \<Rightarrow> u64 \<Rightarrow> ('g, 'h) Leaf2 \<Rightarrow> 'st \<Rightarrow> 'dl option \<Rightarrow> ('k, 'g, 'h, 'st, 'dl) decide_acc
     \<Rightarrow> bool \<times> ('k, 'g, 'h, 'st, 'dl) decide_acc" where
  "decide_visitor denv consensus existing public_key h view_number leaf state delta acc =
     (case acc of (last_view, chain_length, res) \<Rightarrow>
      (if new_decided_view_number res = None then
         (if last_view = leaf_view_number leaf + 1 then
            (case extend_chain leaf chain_length res of
               (chain_length', res') \<Rightarrow>
                 (True, leaf_view_number leaf, chain_length',
                  if new_decided_view_number res' = None then res'
                  else push_decided denv consensus existing public_key h view_number leaf state
                         delta res'))
          else (False, acc))
       else (True, last_view, chain_length,
             push_decided denv consensus existing public_key h view_number leaf state delta res)))"

definition decide_from_proposal ::
  "('g, 'h) DecideEnv \<Rightarrow> ('g, 'h) QuorumProposal2 \<Rightarrow> 'g UpgradeCertificate option \<Rightarrow> 'k \<Rightarrow> bool \<Rightarrow> u64
     \<Rightarrow> ('k, 'g, 'h, 'st, 'dl) Consensus
     \<Rightarrow> (('k, 'g, 'h, 'st, 'dl) LeafChainTraversalOutcome \<times> ('k, 'g, 'h, 'st, 'dl) Consensus
          \<times> ('k, 'g, 'h, 'st, 'dl) DecideEffect list) option" where
  "decide_from_proposal denv proposal existing_upgrade_cert public_key with_epochs h consensus =
     (case visit_leaf_ancestors consensus (cert_view_number (qp_justify_qc proposal))
             (Exclusive (last_decided_view consensus)) True
             (decide_visitor denv consensus existing_upgrade_cert public_key h (qp_view_number proposal))
             (qp_view_number proposal, 0, outcome_default) of
        None \<Rightarrow> None
      | Some (_, _, _, res) \<Rightarrow>
         (if with_epochs \<and> new_decided_view_number res \<noteq> None then
            (case decide_epoch_roots denv (epoch_height consensus) (leaf_views res) consensus of
               (consensus', effects) \<Rightarrow> Some (res, consensus', effects))
          else Some (res, consensus, [])))"

section \<open>The handler of a validated proposal\<close>

datatype VoteError =
    MissingDrbResult | NoStakeTable | DrbResultNotFound | DrbResultMismatch | EpochsNotAvailable
  | VersionUnknown CertError | DecidedViewUpdate ConsensusError | DecidedLeafWithoutDrbResult

definition verify_drb_result ::
  "('k, 'g, 'h, 'st) Env \<Rightarrow> ('g, 'h) QuorumProposal2 \<Rightarrow> 'g UpgradeLock \<Rightarrow> u64 \<Rightarrow> 'k
     \<Rightarrow> ('k, 'g, 'h, 'st, 'dl) Consensus \<Rightarrow> (VoteError, unit) result" where
  "verify_drb_result env proposal lock h public_key consensus =
     (let block_number = hdr_block_number (qp_block_header proposal) in
      if h = 0 \<or> \<not> is_epoch_transition block_number h then Ok ()
      else
       (let epoch = option_epoch_from_block_number (epochs_enabled lock (qp_view_number proposal))
                      block_number h
        in case qp_next_drb_result proposal of
             None \<Rightarrow> Err MissingDrbResult
           | Some proposal_result \<Rightarrow>
              (case epoch of
                 None \<Rightarrow> Err EpochsNotAvailable
               | Some epoch_val \<Rightarrow>
                  (case env_stake_table_for_epoch env epoch of
                     None \<Rightarrow> Err NoStakeTable
                   | Some membership \<Rightarrow>
                      (if em_has_stake membership public_key then
                         (case bt_get (drb_results consensus) (epoch_val + 1) of
                            None \<Rightarrow> Err DrbResultNotFound
                          | Some computed_result \<Rightarrow>
                              (if proposal_result = computed_result then Ok ()
                               else Err DrbResultMismatch))
                       else Ok ())))))"

definition store_drb_result ::
  "u64 \<Rightarrow> ('g, 'h) Leaf2 \<Rightarrow> ('k, 'g, 'h, 'st, 'dl) Consensus
     \<Rightarrow> ('k, 'g, 'h, 'st, 'dl) Consensus \<times> (VoteError, unit) result
          \<times> ('k, 'g, 'h, 'st, 'dl) DecideEffect list" where
  "store_drb_result h dleaf consensus =
     (let decided_block_number = hdr_block_number (block_header dleaf) in
      if h = 0 then (consensus, Ok (), [])
      else if is_transition_block decided_block_number h then
        (case next_drb_result dleaf of
           Some result \<Rightarrow>
             (case handle_drb_result (epoch_from_block_number decided_block_number h + 1) result
                     consensus of
                (consensus', effects) \<Rightarrow> (consensus', Ok (), effects))
         | None \<Rightarrow> (consensus, Err DecidedLeafWithoutDrbResult, []))
      else (consensus, Ok (), []))"

fun store_drb_results ::
  "u64 \<Rightarrow> ('k, 'g, 'h, 'st, 'dl) LeafInfo list \<Rightarrow> ('k, 'g, 'h, 'st, 'dl) Consensus
     \<Rightarrow> ('k, 'g, 'h, 'st, 'dl) Consensus \<times> (VoteError, unit) result
          \<times> ('k, 'g, 'h, 'st, 'dl) DecideEffect list" where
  "store_drb_results h [] consensus = (consensus, Ok (), [])"
| "store_drb_results h (info # infos) consensus =
     (case store_drb_result h (li_leaf info) consensus of
        (c1, Inl e, e1) \<Rightarrow> (c1, Inl e, e1)
      | (c1, Inr _, e1) \<Rightarrow>
          (case store_drb_results h infos c1 of (c2, r, e2) \<Rightarrow> (c2, r, e1 @ e2)))"

definition decide_upgrade ::
  "('g, 'h) QuorumProposal2 \<Rightarrow> ('k, 'g, 'h, 'st, 'dl) LeafChainTraversalOutcome
     \<Rightarrow> ('k, 'g, 'h, 'st, 'dl) Consensus \<Rightarrow> 'g UpgradeLock
     \<Rightarrow> 'g UpgradeLock \<times> ('k, 'g, 'h, 'st, 'dl) DecideEffect list" where
  "decide_upgrade proposal outcome consensus lock =
     (case (decided_upgrade_cert outcome, new_decided_view_number outcome) of
        (Some cert, Some _) \<Rightarrow>
          (let first_epoch_number = epoch_from_block_number
                 (hdr_block_number (qp_block_header proposal)) (epoch_height consensus)
           in (lock\<lparr>decided_upgrade_certificate := Some cert\<rparr>,
               (if new_version (cert_data cert) = epochs_version (lock_versions lock)
                then [MembershipSetFirstEpoch first_epoch_number INITIAL_DRB_RESULT,
                      SetFirstEpoch (new_version_first_view (cert_data cert)) first_epoch_number]
                else [])
               @ [StoreDecidedUpgradeCertificate cert]))
      | _ \<Rightarrow> (lock, []))"

text \<open>The part of the handler that applies an outcome to the consensus state.\<close>

definition apply_decide ::
  "u64 \<Rightarrow> bool \<Rightarrow> ('k, 'g, 'h, 'st, 'dl) LeafChainTraversalOutcome
     \<Rightarrow> ('k, 'g, 'h, 'st, 'dl) Consensus
     \<Rightarrow> (('k, 'g, 'h, 'st, 'dl) Consensus \<times> (VoteError, unit) result
          \<times> ('k, 'g, 'h, 'st, 'dl) DecideEffect list) option" where
  "apply_decide h epochs outcome consensus =
     (let locked = (case new_locked_view_number outcome of
                      Some v \<Rightarrow> ignore_err consensus (update_locked_view v consensus)
                    | None \<Rightarrow> consensus)
      in case new_decided_view_number outcome of
           None \<Rightarrow> Some (locked, Ok (), [])
         | Some decided_view_number \<Rightarrow>
            (case collect_garbage (last_decided_view locked) decided_view_number locked of
               None \<Rightarrow> None
             | Some collected \<Rightarrow>
                (case update_last_decided_view decided_view_number collected of
                   Inl e \<Rightarrow> Some (collected, Err (DecidedViewUpdate e), [])
                 | Inr decided \<Rightarrow>
                    (case new_decide_qc outcome of
                       None \<Rightarrow> None
                     | Some qc \<Rightarrow>
                        (let event = DecideEvent decided_view_number (leaf_views outcome) qc
                                       (map_option card (included_txns outcome))
                         in if epochs then
                              (case store_drb_results h (leaf_views outcome) decided of
                                 (c, r, effects) \<Rightarrow> Some (c, r, event # effects))
                            else Some (decided, Ok (), [event]))))))"

definition handle_quorum_proposal_validated ::
  "('k, 'g, 'h, 'st) Env \<Rightarrow> ('g, 'h) DecideEnv \<Rightarrow> 'k \<Rightarrow> u64 \<Rightarrow> ('g, 'h) QuorumProposal2
     \<Rightarrow> 'g UpgradeLock \<Rightarrow> ('k, 'g, 'h, 'st, 'dl) Consensus
     \<Rightarrow> (('k, 'g, 'h, 'st, 'dl) Consensus \<times> 'g UpgradeLock \<times> (VoteError, unit) result
          \<times> ('k, 'g, 'h, 'st, 'dl) DecideEffect list) option" where
  "handle_quorum_proposal_validated env denv public_key h proposal lock consensus =
     (case lock_version lock (qp_view_number proposal) of
        Inl e \<Rightarrow> Some (consensus, lock, Err (VersionUnknown e), [])
      | Inr version \<Rightarrow>
         (let epochs = version_ge version (epochs_version (lock_versions lock)) in
          case (if epochs then verify_drb_result env proposal lock h public_key consensus
                else Ok ()) of
            Inl e \<Rightarrow> Some (consensus, lock, Err e, [])
          | Inr _ \<Rightarrow>
             (case (if epochs then
                      (if \<not> is_last_block (hdr_block_number (qp_block_header proposal)) h
                       then decide_from_proposal_2 denv proposal (decided_upgrade_certificate lock)
                              public_key epochs consensus
                       else Some (outcome_default, consensus, []))
                    else decide_from_proposal denv proposal (decided_upgrade_certificate lock)
                           public_key epochs h consensus) of
                None \<Rightarrow> None
              | Some (outcome, c1, e1) \<Rightarrow>
                 (case decide_upgrade proposal outcome c1 lock of
                    (lock', e2) \<Rightarrow>
                     (case apply_decide h epochs outcome c1 of
                        None \<Rightarrow> None
                      | Some (c2, r, e3) \<Rightarrow> Some (c2, lock', r, e1 @ e2 @ e3))))))"

section \<open>The walk of the two-chain rule\<close>

text \<open>
  The reference for the loop: the chain of leaves from a start leaf back to the last decided view,
  each found by \<open>parent_leaf_info\<close> from the one before.
\<close>

inductive undecided_chain ::
  "('k, 'g, 'h, 'st, 'dl) Consensus \<Rightarrow> 'k \<Rightarrow> ('k, 'g, 'h, 'st, 'dl) LeafInfo option
     \<Rightarrow> ('k, 'g, 'h, 'st, 'dl) LeafInfo list \<Rightarrow> bool"
  for c :: "('k, 'g, 'h, 'st, 'dl) Consensus" and k :: 'k where
  uc_missing: "undecided_chain c k None []"
| uc_decided: "leaf_view_number (li_leaf i) \<le> last_decided_view c \<Longrightarrow> undecided_chain c k (Some i) []"
| uc_undecided: "last_decided_view c < leaf_view_number (li_leaf i) \<Longrightarrow>
    undecided_chain c k (parent_leaf_info (li_leaf i) k c) js \<Longrightarrow> undecided_chain c k (Some i) (i # js)"

definition fill_info ::
  "('k, 'g, 'h, 'st, 'dl) Consensus \<Rightarrow> ('k, 'g, 'h, 'st, 'dl) LeafInfo \<Rightarrow> ('k, 'g, 'h, 'st, 'dl) LeafInfo"
where
  "fill_info c i = i\<lparr>li_leaf := with_saved_payload c (li_leaf i)\<rparr>"

definition info_txns ::
  "('g, 'h) DecideEnv \<Rightarrow> ('k, 'g, 'h, 'st, 'dl) LeafInfo \<Rightarrow> commitment set" where
  "info_txns denv i =
     (case block_payload (li_leaf i) of
        Some payload \<Rightarrow> set (de_transaction_commitments denv payload (block_header (li_leaf i)))
      | None \<Rightarrow> {})"

lemma with_saved_payload_simps [simp]:
  "leaf_view_number (with_saved_payload c l) = leaf_view_number l"
  "justify_qc (with_saved_payload c l) = justify_qc l"
  "parent_commitment (with_saved_payload c l) = parent_commitment l"
  "block_header (with_saved_payload c l) = block_header l"
  "upgrade_certificate (with_saved_payload c l) = upgrade_certificate l"
  "next_drb_result (with_saved_payload c l) = next_drb_result l"
  by (simp_all add: with_saved_payload_def fill_block_payload_unchecked_def split: option.splits)

lemma fill_info_simps [simp]: "li_leaf (fill_info c i) = with_saved_payload c (li_leaf i)"
  by (simp add: fill_info_def)

lemma parent_leaf_info_payload [simp]:
  "parent_leaf_info (with_saved_payload c l) k c = parent_leaf_info l k c"
  by (simp add: parent_leaf_info_def)

lemma decide_loop_chain:
  fixes c :: "('k, 'g, 'h, 'st, 'dl) Consensus"
  assumes "decide_loop denv c k ex dv cur vs ts ce = Some (vs', ts', ce')"
  shows "\<exists>js. undecided_chain c k cur js \<and> vs' = vs @ map (fill_info c) js
    \<and> ts' = ts \<union> (\<Union>i\<in>set js. info_txns denv (fill_info c i))
    \<and> ce' = foldl (\<lambda>acc i. newly_decided_upgrade ex dv (li_leaf i) acc) ce js"
proof -
  let ?P = "\<lambda>(denv' :: ('g, 'h) DecideEnv) (c' :: ('k, 'g, 'h, 'st, 'dl) Consensus) (k' :: 'k)
      (ex' :: 'g UpgradeCertificate option) (dv' :: u64) cur vs ts ce
      (r :: ('k, 'g, 'h, 'st, 'dl) LeafInfo list \<times> commitment set \<times> 'g UpgradeCertificate option).
      denv' = denv \<and> c' = c \<and> k' = k \<and> ex' = ex \<and> dv' = dv \<longrightarrow>
      (\<exists>js. undecided_chain c k cur js \<and> fst r = vs @ map (fill_info c) js
        \<and> fst (snd r) = ts \<union> (\<Union>i\<in>set js. info_txns denv (fill_info c i))
        \<and> snd (snd r) = foldl (\<lambda>acc i. newly_decided_upgrade ex dv (li_leaf i) acc) ce js)"
  have "?P denv c k ex dv cur vs ts ce (vs', ts', ce')"
  proof (rule decide_loop.raw_induct [where P = ?P, OF _ assms], goal_cases)
    case (1 loop denv' c' k' ex' dv' cur vs ts ce r)
    show ?case
    proof (intro impI, elim conjE)
      assume eqs: "denv' = denv" "c' = c" "k' = k" "ex' = ex" "dv' = dv"
      show "\<exists>js. undecided_chain c k cur js \<and> fst r = vs @ map (fill_info c) js
        \<and> fst (snd r) = ts \<union> (\<Union>i\<in>set js. info_txns denv (fill_info c i))
        \<and> snd (snd r) = foldl (\<lambda>acc i. newly_decided_upgrade ex dv (li_leaf i) acc) ce js"
      proof (cases cur)
        case None
        then show ?thesis using 1(2) by (auto intro!: exI [of _ "[]"] uc_missing)
      next
        case (Some i)
        show ?thesis
        proof (cases "last_decided_view c < leaf_view_number (li_leaf i)")
          case False
          then show ?thesis using 1(2) Some eqs
            by (auto intro!: exI [of _ "[]"] uc_decided)
        next
          case True
          let ?ts = "case block_payload (with_saved_payload c (li_leaf i)) of
              Some payload \<Rightarrow> ts \<union> set (de_transaction_commitments denv payload
                (block_header (with_saved_payload c (li_leaf i))))
            | None \<Rightarrow> ts"
          have ts: "?ts = ts \<union> info_txns denv (fill_info c i)"
            by (auto simp: info_txns_def split: option.splits)
          have "loop denv c k ex dv (parent_leaf_info (li_leaf i) k c) (vs @ [fill_info c i]) ?ts
              (newly_decided_upgrade ex dv (li_leaf i) ce) = Some r"
            using 1(2) [unfolded eqs Some] True by (simp add: Let_def fill_info_def)
          from 1(1) [OF this] obtain js where "undecided_chain c k (parent_leaf_info (li_leaf i) k c) js"
            "fst r = (vs @ [fill_info c i]) @ map (fill_info c) js"
            "fst (snd r) = ?ts \<union> (\<Union>i\<in>set js. info_txns denv (fill_info c i))"
            "snd (snd r) = foldl (\<lambda>acc i. newly_decided_upgrade ex dv (li_leaf i) acc)
               (newly_decided_upgrade ex dv (li_leaf i) ce) js" by blast
          then show ?thesis using Some True
            by (intro exI [of _ "i # js"]) (auto intro: uc_undecided simp: ts)
        qed
      qed
    qed
  qed
  then show ?thesis by simp
qed

definition certified_parent ::
  "('k, 'g, 'h, 'st, 'dl) Consensus \<Rightarrow> ('g, 'h) Leaf2 \<Rightarrow> ('g, 'h) Leaf2 option" where
  "certified_parent c l = saved_leaves c (leaf_commit (cert_data (justify_qc l)))"

fun justify_chain :: "('k, 'g, 'h, 'st, 'dl) Consensus \<Rightarrow> ('g, 'h) Leaf2 list \<Rightarrow> bool" where
  "justify_chain c (l # p # ls) =
     (map_option (with_saved_payload c) (certified_parent c l) = Some p \<and> justify_chain c (p # ls))"
| "justify_chain c ls = True"

lemma parent_leaf_info_SomeD:
  assumes "parent_leaf_info l k c = Some i"
  shows "certified_parent c l = Some (li_leaf i)
    \<and> fst (state_and_delta c (cert_view_number (justify_qc l))) = Some (li_state i)"
  using assms by (auto simp: parent_leaf_info_def certified_parent_def Let_def split: option.splits prod.splits)

lemma certified_parent_payload [simp]:
  "certified_parent c (with_saved_payload c l) = certified_parent c l"
  by (simp add: certified_parent_def)

lemma undecided_chain_facts:
  assumes "undecided_chain c k cur js"
  shows "(\<forall>i \<in> set js. last_decided_view c < leaf_view_number (li_leaf i))
    \<and> justify_chain c (map (\<lambda>i. li_leaf (fill_info c i)) js)
    \<and> (case cur of
         None \<Rightarrow> js = []
       | Some i \<Rightarrow> (if last_decided_view c < leaf_view_number (li_leaf i) then js \<noteq> [] \<and> hd js = i
                    else js = []))
    \<and> (js \<noteq> [] \<longrightarrow> (case parent_leaf_info (li_leaf (last js)) k c of
         None \<Rightarrow> True
       | Some q \<Rightarrow> leaf_view_number (li_leaf q) \<le> last_decided_view c))"
  using assms
proof (induction rule: undecided_chain.induct)
  case (uc_undecided i js)
  show ?case
  proof (cases "parent_leaf_info (li_leaf i) k c")
    case None
    then have "js = []" using uc_undecided.IH by simp
    then show ?thesis using uc_undecided(1) None by simp
  next
    case (Some p)
    have cp: "certified_parent c (li_leaf i) = Some (li_leaf p)"
      using parent_leaf_info_SomeD [OF Some] by simp
    show ?thesis
    proof (cases js)
      case Nil
      then show ?thesis using uc_undecided Some by (auto split: if_splits)
    next
      case (Cons j js')
      then have "j = p" using uc_undecided.IH Some by (auto split: if_splits)
      then show ?thesis using uc_undecided Some Cons cp by (auto split: if_splits option.splits)
    qed
  qed
qed (simp_all add: not_less)

definition two_chain ::
  "('k, 'g, 'h, 'st, 'dl) Consensus \<Rightarrow> 'g QuorumCertificate2 \<Rightarrow> ('g, 'h) Leaf2 \<Rightarrow> ('g, 'h) Leaf2 \<Rightarrow> bool"
where
  "two_chain c qc parent grand_parent \<longleftrightarrow>
     saved_leaves c (leaf_commit (cert_data qc)) = Some parent
     \<and> certified_parent c parent = Some grand_parent
     \<and> leaf_view_number parent = leaf_view_number grand_parent + 1"

lemma decide_2_cases:
  assumes run: "decide_from_proposal_2 denv p ex k we c = Some (res, c', effs)"
  obtains (none) "new_decided_view_number res = None" "leaf_views res = []" "c' = c" "effs = []"
      "new_locked_view_number res = Some (cert_view_number (qp_justify_qc p))"
      "decided_upgrade_cert res = None"
  | (decide) parent i js where
      "two_chain c (qp_justify_qc p) parent (li_leaf i)"
      "parent_leaf_info parent k c = Some i"
      "undecided_chain c k (Some i) js"
      "res = \<lparr>new_locked_view_number = Some (cert_view_number (qp_justify_qc p)),
         new_decided_view_number = Some (leaf_view_number (li_leaf i)),
         new_decide_qc = Some (justify_qc parent),
         leaf_views = map (fill_info c) js,
         included_txns = (let t = \<Union>i\<in>set js. info_txns denv (fill_info c i) in
           if t \<noteq> {} then Some t else None),
         decided_upgrade_cert =
           foldl (\<lambda>acc j. newly_decided_upgrade ex (leaf_view_number (li_leaf i)) (li_leaf j) acc) None js\<rparr>"
      "(c', effs) = (if we then decide_epoch_roots denv (epoch_height c) (leaf_views res) c else (c, []))"
proof (cases "parent_leaf_info (from_quorum_proposal p) k c")
  case None
  then show ?thesis using run none
    by (auto simp: decide_from_proposal_2_def Let_def outcome_default_def from_quorum_proposal_def)
next
  case pi: (Some pi)
  show ?thesis
  proof (cases "parent_leaf_info (li_leaf pi) k c")
    case None
    then show ?thesis using run none pi
      by (auto simp: decide_from_proposal_2_def Let_def outcome_default_def from_quorum_proposal_def)
  next
    case gi: (Some gi)
    show ?thesis
    proof (cases "leaf_view_number (li_leaf gi) + 1 = leaf_view_number (li_leaf pi)")
      case False
      then show ?thesis using run none pi gi
        by (auto simp: decide_from_proposal_2_def Let_def outcome_default_def from_quorum_proposal_def)
    next
      case True
      let ?v = "leaf_view_number (li_leaf gi)"
      obtain vs ts ce where loop: "decide_loop denv c k ex ?v (Some gi) [] {} None = Some (vs, ts, ce)"
        using run pi gi True
        by (auto simp: decide_from_proposal_2_def Let_def split: option.splits)
      from decide_loop_chain [OF loop] obtain js where js: "undecided_chain c k (Some gi) js"
        "vs = map (fill_info c) js" "ts = (\<Union>i\<in>set js. info_txns denv (fill_info c i))"
        "ce = foldl (\<lambda>acc j. newly_decided_upgrade ex ?v (li_leaf j) acc) None js" by auto
      have tc: "two_chain c (qp_justify_qc p) (li_leaf pi) (li_leaf gi)"
        using parent_leaf_info_SomeD [OF pi] parent_leaf_info_SomeD [OF gi] True
        by (simp add: two_chain_def certified_parent_def from_quorum_proposal_def)
      show ?thesis
        by (rule decide [OF tc gi js(1)])
          (use run pi gi True loop js(2-4) in
            \<open>auto simp: decide_from_proposal_2_def Let_def outcome_default_def from_quorum_proposal_def
               split: if_splits prod.splits\<close>)
    qed
  qed
qed

text \<open>
  C14: When the HotStuff-2 rule decides a view, the proposal's QC certifies a saved leaf (the parent)
  whose own QC certifies a saved leaf of exactly the preceding view (the grandparent); the decided
  view is the grandparent's and the deciding QC is the parent's. The reported leaves start at the
  grandparent, each is certified by the QC of the one before, all are newer than the last decided
  view, and the list goes on until the next ancestor is unavailable or already decided. When the
  grandparent was decided before, no leaf is reported.
\<close>

theorem decide_2_follows_two_chain:
  assumes run: "decide_from_proposal_2 denv p ex k we c = Some (res, c', effs)"
    and decided: "new_decided_view_number res = Some v"
  shows "\<exists>parent grand_parent. two_chain c (qp_justify_qc p) parent grand_parent
    \<and> leaf_view_number grand_parent = v \<and> new_decide_qc res = Some (justify_qc parent)
    \<and> justify_chain c (map li_leaf (leaf_views res))
    \<and> (\<forall>i \<in> set (leaf_views res). last_decided_view c < leaf_view_number (li_leaf i))
    \<and> (if last_decided_view c < v
       then leaf_views res \<noteq> [] \<and> li_leaf (hd (leaf_views res)) = with_saved_payload c grand_parent
         \<and> (case parent_leaf_info (li_leaf (last (leaf_views res))) k c of
              None \<Rightarrow> True
            | Some q \<Rightarrow> leaf_view_number (li_leaf q) \<le> last_decided_view c)
       else leaf_views res = [])"
  using run
proof (cases rule: decide_2_cases)
  case none
  then show ?thesis using decided by simp
next
  case (decide parent i js)
  have v: "leaf_view_number (li_leaf i) = v" using decided decide(4) by simp
  have views: "leaf_views res = map (fill_info c) js" using decide(4) by simp
  have chain: "justify_chain c (map li_leaf (leaf_views res))"
    "\<forall>i \<in> set (leaf_views res). last_decided_view c < leaf_view_number (li_leaf i)"
    using undecided_chain_facts [OF decide(3)] by (simp_all add: views comp_def)
  have ends: "if last_decided_view c < v
      then js \<noteq> [] \<and> hd js = i \<and> (case parent_leaf_info (li_leaf (last js)) k c of None \<Rightarrow> True
            | Some q \<Rightarrow> leaf_view_number (li_leaf q) \<le> last_decided_view c)
      else js = []"
    using undecided_chain_facts [OF decide(3)] v by (simp split: if_splits)
  have qc: "new_decide_qc res = Some (justify_qc parent)" using decide(4) by simp
  show ?thesis
    by (rule exI [of _ parent], rule exI [of _ "li_leaf i"])
      (use decide(1) v qc chain ends in \<open>simp add: views hd_map last_map split: if_splits\<close>)
qed

section \<open>The walk of the three-chain rule\<close>

lemma visit_leaves_invariant:
  fixes s :: "('k, 'g, 'h, 'st, 'dl) Consensus"
  assumes run: "visit_leaves s t ok f c acc = Some (r, acc')"
    and init: "I c acc"
    and step: "\<And>c l st d acc b acc'. I c acc \<Longrightarrow> saved_leaves s c = Some l \<Longrightarrow>
      state_and_delta s (leaf_view_number l) = (Some st, d) \<Longrightarrow> t \<noteq> Exclusive (leaf_view_number l) \<Longrightarrow>
      f l st d acc = (b, acc') \<Longrightarrow> \<exists>c'. I c' acc' \<and> (b \<longrightarrow> c' = parent_commitment l)"
  shows "\<exists>c'. I c' acc'"
proof -
  let ?P = "\<lambda>self t' ok' (f' :: ('g, 'h) Leaf2 \<Rightarrow> 'st \<Rightarrow> 'dl option \<Rightarrow> 'a \<Rightarrow> bool \<times> 'a) c acc
      (r :: (HotShotError, unit) result \<times> 'a).
      self = s \<and> t' = t \<and> f' = f \<longrightarrow> I c acc \<longrightarrow> (\<exists>c'. I c' (snd r))"
  have "?P s t ok f c acc (r, acc')"
  proof (rule visit_leaves.raw_induct [where P = ?P, OF _ run], goal_cases)
    case (1 loop self t' ok' f' c acc r)
    show ?case
    proof (intro impI, elim conjE)
      assume eqs: "self = s" "t' = t" "f' = f" and I: "I c acc"
      note unf = 1(2) [unfolded eqs]
      show "\<exists>c'. I c' (snd r)"
      proof (cases "saved_leaves s c")
        case None
        then show ?thesis using unf I by auto
      next
        case (Some l)
        obtain ms d where sd: "state_and_delta s (leaf_view_number l) = (ms, d)" by fastforce
        show ?thesis
        proof (cases "ms = None \<or> t = Exclusive (leaf_view_number l)")
          case True
          then show ?thesis using unf I Some sd by (auto split: option.splits)
        next
          case False
          then obtain st where ms: "ms = Some st" by auto
          obtain b acc1 where f: "f l st d acc = (b, acc1)" by fastforce
          obtain c1 where c1: "I c1 acc1" "b \<longrightarrow> c1 = parent_commitment l"
            using step [OF I Some _ _ f] sd ms False by blast
          show ?thesis
          proof (cases "b \<and> t \<noteq> Inclusive (leaf_view_number l)")
            case False
            then show ?thesis using unf Some sd ms f c1 \<open>\<not> (ms = None \<or> _)\<close> by (auto split: if_splits)
          next
            case True
            then have "loop s t ok' f (parent_commitment l) acc1 = Some r"
              using unf Some sd ms f \<open>\<not> (ms = None \<or> _)\<close> by simp
            from 1(1) [OF this] show ?thesis using c1 True by blast
          qed
        qed
      qed
    qed
  qed
  then show ?thesis using init by simp
qed

lemma outcome_default_simps [simp]:
  "new_decided_view_number outcome_default = None" "leaf_views outcome_default = []"
  "new_locked_view_number outcome_default = None" "decided_upgrade_cert outcome_default = None"
  by (simp_all add: outcome_default_def)

fun ancestor_chain :: "('k, 'g, 'h, 'st, 'dl) Consensus \<Rightarrow> ('g, 'h) Leaf2 list \<Rightarrow> bool" where
  "ancestor_chain c (l # p # ls) =
     (map_option (with_saved_payload c) (saved_leaves c (parent_commitment l)) = Some p
      \<and> ancestor_chain c (p # ls))"
| "ancestor_chain c ls = True"

lemma ancestor_chain_snoc:
  "ancestor_chain c ls \<Longrightarrow> (ls \<noteq> [] \<Longrightarrow>
     map_option (with_saved_payload c) (saved_leaves c (parent_commitment (last ls))) = Some p) \<Longrightarrow>
   ancestor_chain c (ls @ [p])"
  by (induction c ls rule: ancestor_chain.induct) auto

definition three_chain ::
  "('k, 'g, 'h, 'st, 'dl) Consensus \<Rightarrow> u64 \<Rightarrow> commitment \<Rightarrow> ('g, 'h) Leaf2 \<Rightarrow> ('g, 'h) Leaf2
     \<Rightarrow> ('g, 'h) Leaf2 \<Rightarrow> bool" where
  "three_chain c pv start l1 l2 l3 \<longleftrightarrow>
     saved_leaves c start = Some l1 \<and> saved_leaves c (parent_commitment l1) = Some l2
     \<and> saved_leaves c (parent_commitment l2) = Some l3
     \<and> pv = leaf_view_number l1 + 1 \<and> leaf_view_number l1 = leaf_view_number l2 + 1
     \<and> leaf_view_number l2 = leaf_view_number l3 + 1"

definition decided_by ::
  "('k, 'g, 'h, 'st, 'dl) Consensus \<Rightarrow> ('k, 'g, 'h, 'st, 'dl) LeafChainTraversalOutcome
     \<Rightarrow> ('g, 'h) Leaf2 \<Rightarrow> ('g, 'h) Leaf2 \<Rightarrow> bool" where
  "decided_by c res l2 l3 \<longleftrightarrow>
     new_locked_view_number res = Some (leaf_view_number l2)
     \<and> new_decide_qc res = Some (justify_qc l2)
     \<and> new_decided_view_number res = Some (leaf_view_number l3)
     \<and> leaf_views res \<noteq> [] \<and> li_leaf (hd (leaf_views res)) = with_saved_payload c l3
     \<and> ancestor_chain c (map li_leaf (leaf_views res))
     \<and> (\<forall>i \<in> set (leaf_views res). leaf_view_number (li_leaf i) \<noteq> last_decided_view c)"

definition building ::
  "('k, 'g, 'h, 'st, 'dl) Consensus \<Rightarrow> u64 \<Rightarrow> commitment \<Rightarrow> commitment
     \<Rightarrow> ('k, 'g, 'h, 'st, 'dl) decide_acc \<Rightarrow> bool" where
  "building c pv start cur acc \<longleftrightarrow>
     (case acc of (last_view, len, res) \<Rightarrow>
        new_decided_view_number res = None \<and> leaf_views res = [] \<and>
        (len = 0 \<and> last_view = pv \<and> cur = start \<or>
         (\<exists>l1. saved_leaves c start = Some l1 \<and> pv = leaf_view_number l1 + 1 \<and>
            (len = 1 \<and> last_view = leaf_view_number l1 \<and> cur = parent_commitment l1 \<or>
             (\<exists>l2. saved_leaves c (parent_commitment l1) = Some l2
                \<and> leaf_view_number l1 = leaf_view_number l2 + 1
                \<and> len = 2 \<and> last_view = leaf_view_number l2 \<and> cur = parent_commitment l2
                \<and> new_locked_view_number res = Some (leaf_view_number l2)
                \<and> new_decide_qc res = Some (justify_qc l2))))))"

definition decide_inv ::
  "('k, 'g, 'h, 'st, 'dl) Consensus \<Rightarrow> u64 \<Rightarrow> commitment \<Rightarrow> commitment
     \<Rightarrow> ('k, 'g, 'h, 'st, 'dl) decide_acc \<Rightarrow> bool" where
  "decide_inv c pv start cur acc \<longleftrightarrow>
     building c pv start cur acc \<or>
     (\<exists>l1 l2 l3. three_chain c pv start l1 l2 l3 \<and> decided_by c (snd (snd acc)) l2 l3
        \<and> cur = parent_commitment (li_leaf (last (leaf_views (snd (snd acc))))))"

lemma push_decided_frame [simp]:
  "new_locked_view_number (push_decided denv c ex k h pv l st d res) = new_locked_view_number res"
  "new_decide_qc (push_decided denv c ex k h pv l st d res) = new_decide_qc res"
  "new_decided_view_number (push_decided denv c ex k h pv l st d res) = new_decided_view_number res"
  "map li_leaf (leaf_views (push_decided denv c ex k h pv l st d res))
     = map li_leaf (leaf_views res) @ [with_saved_payload c l]"
  "leaf_views (push_decided denv c ex k h pv l st d res) \<noteq> []"
  by (simp_all add: push_decided_def Let_def)

lemma push_decided_views:
  obtains i where "leaf_views (push_decided denv c ex k h pv l st d res) = leaf_views res @ [i]"
    "li_leaf i = with_saved_payload c l"
  by (simp add: push_decided_def Let_def)

lemma push_decided_by:
  assumes d: "decided_by c res l2 l3"
    and l: "saved_leaves c (parent_commitment (li_leaf (last (leaf_views res)))) = Some l"
    and anchor: "leaf_view_number l \<noteq> last_decided_view c"
  shows "decided_by c (push_decided denv c ex k h pv l st dl res) l2 l3"
proof -
  obtain i where i: "leaf_views (push_decided denv c ex k h pv l st dl res) = leaf_views res @ [i]"
    "li_leaf i = with_saved_payload c l" by (rule push_decided_views)
  have "ancestor_chain c (map li_leaf (leaf_views res) @ [with_saved_payload c l])"
    by (rule ancestor_chain_snoc) (use d l in \<open>auto simp: decided_by_def last_map\<close>)
  then show ?thesis using d i anchor by (simp add: decided_by_def hd_append)
qed

lemma decide_visitor_inv:
  assumes I: "decide_inv c pv start cur acc" and l: "saved_leaves c cur = Some l"
    and anchor: "Exclusive (last_decided_view c) \<noteq> Exclusive (leaf_view_number l)"
    and f: "decide_visitor denv c ex k h pv l st d acc = (b, acc')"
  shows "\<exists>cur'. decide_inv c pv start cur' acc' \<and> (b \<longrightarrow> cur' = parent_commitment l)"
proof -
  obtain lv len res where acc: "acc = (lv, len, res)" by (cases acc) auto
  show ?thesis
  proof (cases "building c pv start cur acc")
    case bld: True
    then have nd: "new_decided_view_number res = None" "leaf_views res = []"
      by (simp_all add: building_def acc)
    show ?thesis
    proof (cases "lv = leaf_view_number l + 1")
      case False
      then have "acc' = acc" "\<not> b" using f by (auto simp: decide_visitor_def acc nd)
      then show ?thesis using I by blast
    next
      case True
      from bld consider "len = 0" | "len = 1" | "len = 2"
        by (auto simp: building_def acc)
      then show ?thesis
      proof cases
        case 3
        from bld 3 obtain l1 l2 where ch: "saved_leaves c start = Some l1" "pv = leaf_view_number l1 + 1"
          "saved_leaves c (parent_commitment l1) = Some l2" "leaf_view_number l1 = leaf_view_number l2 + 1"
          "lv = leaf_view_number l2" "cur = parent_commitment l2"
          "new_locked_view_number res = Some (leaf_view_number l2)"
          "new_decide_qc res = Some (justify_qc l2)"
          by (auto simp: building_def acc)
        let ?res = "push_decided denv c ex k h pv l st d (res\<lparr>new_decided_view_number := Some (leaf_view_number l)\<rparr>)"
        have acc': "acc' = (leaf_view_number l, 3, ?res)" and b: "b"
          using f 3 True by (auto simp: decide_visitor_def acc nd extend_chain_def)
        obtain i where i: "leaf_views ?res = leaf_views res @ [i]" "li_leaf i = with_saved_payload c l"
          by (rule push_decided_views [of denv c ex k h pv l st d
                "res\<lparr>new_decided_view_number := Some (leaf_view_number l)\<rparr>"]) simp
        have "three_chain c pv start l1 l2 l" using ch l True by (simp add: three_chain_def)
        moreover have "decided_by c ?res l2 l" using ch anchor i nd by (simp add: decided_by_def)
        ultimately have "decide_inv c pv start (parent_commitment l) acc'"
          using i nd by (auto simp: decide_inv_def acc')
        then show ?thesis by blast
      qed (use bld f True l in \<open>auto simp: decide_visitor_def acc nd extend_chain_def decide_inv_def building_def\<close>)
    qed
  next
    case False
    with I obtain l1 l2 l3 where tc: "three_chain c pv start l1 l2 l3" "decided_by c res l2 l3"
      "cur = parent_commitment (li_leaf (last (leaf_views res)))"
      by (auto simp: decide_inv_def acc)
    let ?res = "push_decided denv c ex k h pv l st d res"
    have acc': "acc' = (lv, len, ?res)"
      using f tc(2) by (auto simp: decide_visitor_def acc decided_by_def)
    have d: "decided_by c ?res l2 l3" by (rule push_decided_by) (use tc l anchor in auto)
    obtain i where "leaf_views ?res = leaf_views res @ [i]" "li_leaf i = with_saved_payload c l"
      by (rule push_decided_views)
    then have "decide_inv c pv start (parent_commitment l) acc'"
      using tc(1) d by (auto simp: decide_inv_def acc')
    then show ?thesis by blast
  qed
qed


lemma three_chain_outcome:
  assumes run: "decide_from_proposal denv p ex k we h c = Some (res, c', effs)"
    and decided: "new_decided_view_number res = Some v"
  shows "\<exists>view start l1 l2 l3. bt_get (validated_state_map c) (cert_view_number (qp_justify_qc p)) = Some view
    \<and> leaf_commitment view = Some start
    \<and> three_chain c (qp_view_number p) start l1 l2 l3
    \<and> decided_by c res l2 l3"
proof -
  let ?t = "Exclusive (last_decided_view c)" and ?v = "cert_view_number (qp_justify_qc p)"
  let ?f = "decide_visitor denv c ex k h (qp_view_number p)"
  let ?acc0 = "(qp_view_number p, 0, outcome_default)"
  obtain r lv len where visit: "visit_leaf_ancestors c ?v ?t True ?f ?acc0 = Some (r, lv, len, res)"
    using run by (auto simp: decide_from_proposal_def split: option.splits prod.splits if_splits)
  obtain view start where start: "bt_get (validated_state_map c) ?v = Some view"
      "leaf_commitment view = Some start"
      and walk: "visit_leaves c ?t True ?f start ?acc0 = Some (r, lv, len, res)"
    using visit decided by (auto simp: visit_leaf_ancestors_def split: option.splits)
  have init: "decide_inv c (qp_view_number p) start start ?acc0"
    by (simp add: decide_inv_def building_def)
  have "\<exists>cur. decide_inv c (qp_view_number p) start cur (lv, len, res)"
    by (rule visit_leaves_invariant [where I = "decide_inv c (qp_view_number p) start", OF walk init]) (rule decide_visitor_inv)
  then show ?thesis using start decided by (auto simp: decide_inv_def building_def)
qed

section \<open>The handler refines the consensus state\<close>

definition only_drb ::
  "('k, 'g, 'h, 'st, 'dl) Consensus \<Rightarrow> ('k, 'g, 'h, 'st, 'dl) Consensus
     \<Rightarrow> ('k, 'g, 'h, 'st, 'dl) DecideEffect list \<Rightarrow> bool" where
  "only_drb c c' effs \<longleftrightarrow> (\<exists>d. c' = c\<lparr>drb_results := d\<rparr>)
     \<and> (\<forall>v ls qc n. DecideEvent v ls qc n \<notin> set effs)"

lemma only_drb_refl [simp]: "only_drb c c []"
proof -
  have "c = c\<lparr>drb_results := drb_results c\<rparr>" by simp
  then show ?thesis unfolding only_drb_def by (metis empty_iff list.set(1))
qed

lemma only_drb_trans: "only_drb c c1 e1 \<Longrightarrow> only_drb c1 c2 e2 \<Longrightarrow> only_drb c c2 (e1 @ e2)"
  by (auto simp: only_drb_def)

lemma only_drb_frame:
  assumes "only_drb c c' effs"
  shows "saved_leaves c' = saved_leaves c" "validated_state_map c' = validated_state_map c"
    "last_decided_view c' = last_decided_view c" "locked_view c' = locked_view c"
    "epoch_height c' = epoch_height c"
  using assms by (auto simp: only_drb_def)

lemma only_drb_reachable: "only_drb c c' effs \<Longrightarrow> reachable commit c c'"
  by (auto simp: only_drb_def intro: reachable_step step_drb_results)

lemma decide_epoch_root_only_drb:
  "decide_epoch_root denv l h c = (c', effs) \<Longrightarrow> only_drb c c' effs"
  by (cases "h \<noteq> 0 \<and> is_epoch_root (hdr_block_number (block_header l)) h")
    (auto simp: decide_epoch_root_def only_drb_def start_drb_task_def Let_def split: option.splits
       intro: only_drb_refl [unfolded only_drb_def, THEN conjunct1])

lemma decide_epoch_roots_only_drb:
  "decide_epoch_roots denv h infos c = (c', effs) \<Longrightarrow> only_drb c c' effs"
  by (induction denv h infos c arbitrary: c' effs rule: decide_epoch_roots.induct)
    (auto simp: Let_def split: prod.splits intro: only_drb_trans dest: decide_epoch_root_only_drb)

lemma store_drb_result_only_drb:
  "store_drb_result h l c = (c', r, effs) \<Longrightarrow> only_drb c c' effs"
  by (auto simp: store_drb_result_def handle_drb_result_def Let_def split: if_splits option.splits)
    (auto simp: only_drb_def)

lemma store_drb_results_only_drb:
  "store_drb_results h infos c = (c', r, effs) \<Longrightarrow> only_drb c c' effs"
proof (induction h infos c arbitrary: c' r effs rule: store_drb_results.induct)
  case (2 h info infos c)
  obtain c1 r1 e1 where s: "store_drb_result h (li_leaf info) c = (c1, r1, e1)"
    by (cases "store_drb_result h (li_leaf info) c") auto
  note o1 = store_drb_result_only_drb [OF s]
  show ?case
  proof (cases r1)
    case (Inl e)
    then show ?thesis using 2(2) s o1 by simp
  next
    case (Inr u)
    obtain c2 r2 e2 where t: "store_drb_results h infos c1 = (c2, r2, e2)"
      by (cases "store_drb_results h infos c1") auto
    have "only_drb c1 c2 e2" using 2(1) [OF s [symmetric] _ _ t] Inr by simp
    then show ?thesis using 2(2) s Inr t o1 by (auto intro: only_drb_trans)
  qed
qed simp

lemma decide_2_only_drb:
  "decide_from_proposal_2 denv p ex k we c = Some (res, c', effs) \<Longrightarrow> only_drb c c' effs"
  by (erule decide_2_cases)
    (auto split: if_splits dest!: decide_epoch_roots_only_drb [OF sym])

lemma decide_only_drb:
  "decide_from_proposal denv p ex k we h c = Some (res, c', effs) \<Longrightarrow> only_drb c c' effs"
  by (auto simp: decide_from_proposal_def split: option.splits prod.splits if_splits
      dest: decide_epoch_roots_only_drb)

lemma update_locked_frame:
  "last_decided_view (ignore_err c (update_locked_view v c)) = last_decided_view c"
  "validated_state_map (ignore_err c (update_locked_view v c)) = validated_state_map c"
  by (auto simp: ignore_err_def update_locked_view_def split: if_splits)

lemma reachable_locked: "reachable commit c (ignore_err c (update_locked_view v c))"
  by (auto simp: ignore_err_def intro: reachable_step step_locked split: sum.splits)

lemma apply_decide_cases:
  assumes run: "apply_decide h epochs res c = Some (c', r, effs)"
  obtains (locked) "\<forall>commit. reachable commit c c'" "last_decided_view c' = last_decided_view c"
      "\<forall>v ls qc n. DecideEvent v ls qc n \<notin> set effs"
  | (decided) v qc e1 where "new_decided_view_number res = Some v" "last_decided_view c < v"
      "last_decided_view c' = v" "new_decide_qc res = Some qc" "\<forall>commit. reachable commit c c'"
      "effs = DecideEvent v (leaf_views res) qc (map_option card (included_txns res)) # e1"
      "\<forall>v ls qc n. DecideEvent v ls qc n \<notin> set e1"
proof -
  define l where "l = (case new_locked_view_number res of
      Some v \<Rightarrow> ignore_err c (update_locked_view v c) | None \<Rightarrow> c)"
  have l: "last_decided_view l = last_decided_view c" "\<forall>commit. reachable commit c l"
    by (auto simp: l_def update_locked_frame reachable_locked split: option.splits)
  show ?thesis
  proof (cases "new_decided_view_number res")
    case None
    then show ?thesis using run l locked by (simp add: apply_decide_def l_def)
  next
    case (Some v)
    then obtain g where g: "collect_garbage (last_decided_view l) v l = Some g"
      using run by (auto simp: apply_decide_def Let_def l_def [symmetric] split: option.splits)
    have rg: "\<forall>commit. reachable commit c g" using l(2) g by (blast intro: reachable_trans reachable_step step_garbage)
    have gd: "last_decided_view g = last_decided_view c"
      using g l(1) by (auto simp: collect_garbage_def Let_def split: if_splits option.splits)
    show ?thesis
    proof (cases "last_decided_view c < v")
      case False
      then have "c' = g" "effs = []"
        using run Some g gd by (auto simp: apply_decide_def Let_def l_def [symmetric] update_last_decided_view_def)
      then show ?thesis using locked rg gd by simp
    next
      case True
      let ?d = "g\<lparr>last_decided_view := v\<rparr>"
      have u: "update_last_decided_view v g = Ok ?d" using True gd by (simp add: update_last_decided_view_def)
      have rd: "\<forall>commit. reachable commit c ?d" using rg u by (blast intro: reachable_trans reachable_step step_decided)
      obtain qc where qc: "new_decide_qc res = Some qc"
        using run Some g u by (auto simp: apply_decide_def Let_def l_def [symmetric] split: option.splits)
      obtain e1 where e1: "effs = DecideEvent v (leaf_views res) qc (map_option card (included_txns res)) # e1"
          "only_drb ?d c' e1"
        using run Some g u qc
        by (auto simp: apply_decide_def Let_def l_def [symmetric] split: if_splits prod.splits
            dest: store_drb_results_only_drb)
      show ?thesis
        by (rule decided [OF Some True _ qc _ e1(1)])
          (use only_drb_frame [OF e1(2)] e1(2) reachable_trans [OF rd [rule_format] only_drb_reachable [OF e1(2)]]
            in \<open>auto simp: only_drb_def\<close>)
    qed
  qed
qed

definition runs_decide ::
  "('g, 'h) DecideEnv \<Rightarrow> 'k \<Rightarrow> u64 \<Rightarrow> ('g, 'h) QuorumProposal2 \<Rightarrow> 'g UpgradeLock
     \<Rightarrow> ('k, 'g, 'h, 'st, 'dl) Consensus \<Rightarrow> ('k, 'g, 'h, 'st, 'dl) LeafChainTraversalOutcome
     \<Rightarrow> ('k, 'g, 'h, 'st, 'dl) Consensus \<Rightarrow> ('k, 'g, 'h, 'st, 'dl) DecideEffect list \<Rightarrow> bool" where
  "runs_decide denv k h p lock c res c1 e1 \<longleftrightarrow>
     (if version_at_least_epochs lock (qp_view_number p) then
        (if is_last_block (hdr_block_number (qp_block_header p)) h
         then res = outcome_default \<and> c1 = c \<and> e1 = []
         else decide_from_proposal_2 denv p (decided_upgrade_certificate lock) k True c
                = Some (res, c1, e1))
      else decide_from_proposal denv p (decided_upgrade_certificate lock) k False h c
             = Some (res, c1, e1))"

lemma runs_decide_only_drb: "runs_decide denv k h p lock c res c1 e1 \<Longrightarrow> only_drb c c1 e1"
  by (auto simp: runs_decide_def split: if_splits dest: decide_2_only_drb decide_only_drb)

lemma decide_upgrade_no_event:
  "decide_upgrade p res c lock = (lock', e2) \<Longrightarrow> DecideEvent v ls qc n \<notin> set e2"
  by (auto simp: decide_upgrade_def Let_def split: option.splits)

lemma handle_validated_run:
  assumes run: "handle_quorum_proposal_validated env denv k h p lock c = Some (c', lock', r, effs)"
  obtains (refused) "c' = c" "effs = []" "\<not> is_ok r"
  | (ran) res c1 e1 e2 e3 where "runs_decide denv k h p lock c res c1 e1"
      "decide_upgrade p res c1 lock = (lock', e2)"
      "apply_decide h (version_at_least_epochs lock (qp_view_number p)) res c1 = Some (c', r, e3)"
      "effs = e1 @ e2 @ e3"
proof (cases "lock_version lock (qp_view_number p)")
  case (Inl e)
  have "c' = c \<and> effs = [] \<and> \<not> is_ok r"
    using run by (auto simp: handle_quorum_proposal_validated_def Inl)
  then show ?thesis using refused by blast
next
  case (Inr version)
  define epochs where "epochs = version_ge version (epochs_version (lock_versions lock))"
  have ve: "version_at_least_epochs lock (qp_view_number p) = epochs"
    by (simp add: version_at_least_epochs_def Inr epochs_def)
  let ?chk = "if epochs then verify_drb_result env p lock h k c else Ok ()"
  note unf = run [unfolded handle_quorum_proposal_validated_def Inr sum.case Let_def epochs_def [symmetric]]
  show ?thesis
  proof (cases ?chk)
    case (Inl e)
    have "c' = c \<and> effs = [] \<and> \<not> is_ok r" using unf by (auto simp: Inl)
    then show ?thesis using refused by blast
  next
    case (Inr u)
    let ?run = "if epochs then
        (if \<not> is_last_block (hdr_block_number (qp_block_header p)) h
         then decide_from_proposal_2 denv p (decided_upgrade_certificate lock) k epochs c
         else Some (outcome_default, c, []))
      else decide_from_proposal denv p (decided_upgrade_certificate lock) k epochs h c"
    obtain res c1 e1 where d: "?run = Some (res, c1, e1)"
      using unf by (cases ?run) (auto simp: Inr)
    obtain lk e2 where u: "decide_upgrade p res c1 lock = (lk, e2)" by fastforce
    obtain c2 r' e3 where a: "apply_decide h epochs res c1 = Some (c2, r', e3)"
      using unf d u by (cases "apply_decide h epochs res c1") (auto simp: Inr)
    have eqs: "c' = c2" "lock' = lk" "r = r'" "effs = e1 @ e2 @ e3"
      using unf d u a by (auto simp: Inr)
    have "runs_decide denv k h p lock c res c1 e1"
      using d by (auto simp: runs_decide_def ve split: if_splits)
    then show ?thesis using ran u a eqs ve by blast
  qed
qed

lemma decide_handler_reachable:
  assumes run: "handle_quorum_proposal_validated env denv k h p lock c = Some (c', lock', r, effs)"
  shows "\<exists>n. consensus_trace commit c (replicate n Internal) c'"
proof -
  have "reachable commit c c'"
    using run
  proof (cases rule: handle_validated_run)
    case (ran res c1 e1 e2 e3)
    have "reachable commit c1 c'"
      using ran(3) by (rule apply_decide_cases) auto
    then show ?thesis
      using only_drb_reachable [OF runs_decide_only_drb [OF ran(1)]] by (rule reachable_trans [rotated])
  qed simp
  then show ?thesis by (simp add: reachable_def)
qed

text \<open>
  C2: A decide event is sent only for a view newer than the last decided one, which then becomes the
  last decided view; its first leaf is the leaf of that view, its leaves are linked to each other,
  and the decided leaf has two certified descendants in consecutive views (the QC in the event is
  the one that certifies it) with epochs, or is the tail of three leaves whose views are consecutive
  up to the proposal's view without.
\<close>

theorem decide_event_sound:
  assumes run: "handle_quorum_proposal_validated env denv k h p lock c = Some (c', lock', r, effs)"
    and ev: "DecideEvent v ls qc n \<in> set effs"
  shows "last_decided_view c < v \<and> last_decided_view c' = v
    \<and> (\<exists>decided. ls \<noteq> [] \<and> li_leaf (hd ls) = with_saved_payload c decided
        \<and> leaf_view_number decided = v
        \<and> (if version_at_least_epochs lock (qp_view_number p)
           then justify_chain c (map li_leaf ls)
             \<and> (\<exists>parent. two_chain c (qp_justify_qc p) parent decided \<and> qc = justify_qc parent)
           else ancestor_chain c (map li_leaf ls)
             \<and> (\<exists>start l1 l2. three_chain c (qp_view_number p) start l1 l2 decided
                  \<and> qc = justify_qc l2)))"
  using run
proof (cases rule: handle_validated_run)
  case refused
  then show ?thesis using ev by simp
next
  case (ran res c1 e1 e2 e3)
  note drb = runs_decide_only_drb [OF ran(1)]
  have e3: "DecideEvent v ls qc n \<in> set e3"
    using ev ran(4) drb decide_upgrade_no_event [OF ran(2)] by (auto simp: only_drb_def)
  from ran(3) show ?thesis
  proof (cases rule: apply_decide_cases)
    case locked
    then show ?thesis using e3 by blast
  next
    case (decided v' qc' e1')
    have eqs: "v' = v" "ls = leaf_views res" "qc' = qc" using decided(6,7) e3 by auto
    have dv: "new_decided_view_number res = Some v" "last_decided_view c < v" "last_decided_view c' = v"
      "new_decide_qc res = Some qc"
      using decided eqs only_drb_frame [OF drb] by simp_all
    show ?thesis
    proof (cases "version_at_least_epochs lock (qp_view_number p)")
      case True
      have "\<not> is_last_block (hdr_block_number (qp_block_header p)) h"
        using ran(1) dv(1) True by (auto simp: runs_decide_def)
      then have "decide_from_proposal_2 denv p (decided_upgrade_certificate lock) k True c
          = Some (res, c1, e1)" using ran(1) True by (simp add: runs_decide_def)
      then show ?thesis
      proof (cases rule: decide_2_cases)
        case none
        then show ?thesis using dv by simp
      next
        case (decide parent i js)
        note f = undecided_chain_facts [OF decide(3)]
        have iv: "leaf_view_number (li_leaf i) = v" "qc = justify_qc parent"
          "ls = map (fill_info c) js" using decide(4) dv eqs by auto
        then have js: "js \<noteq> []" "hd js = i" using f dv(2) by auto
        have "justify_chain c (map li_leaf ls)" using f iv(3) by (simp add: comp_def)
        then show ?thesis using decide(1) dv iv js True
          by (intro conjI exI [of _ "li_leaf i"]) (auto simp: hd_map)
      qed
    next
      case False
      then have d: "decide_from_proposal denv p (decided_upgrade_certificate lock) k False h c
          = Some (res, c1, e1)" using ran(1) by (simp add: runs_decide_def)
      from three_chain_outcome [OF d dv(1)] obtain start l1 l2 l3 where
        "three_chain c (qp_view_number p) start l1 l2 l3" "decided_by c res l2 l3" by blast
      then show ?thesis using dv eqs False by (auto simp: decided_by_def)
    qed
  qed
qed

section \<open>The handler returns\<close>

definition justified_leaves :: "('k, 'g, 'h, 'st, 'dl) Consensus \<Rightarrow> bool" where
  "justified_leaves s \<longleftrightarrow> (\<forall>c l. saved_leaves s c = Some l \<longrightarrow>
     parent_commitment l = leaf_commit (cert_data (justify_qc l)))"

lemma from_quorum_proposal_justified:
  "parent_commitment (from_quorum_proposal p) = leaf_commit (cert_data (justify_qc (from_quorum_proposal p)))"
  by (simp add: from_quorum_proposal_def)

lemma decide_loop_total:
  assumes rank: "leaf_rank rank (saved_leaves c)" and just: "justified_leaves c"
    and "\<forall>i. cur = Some i \<longrightarrow> saved_leaves c cm = Some (li_leaf i)"
  shows "\<exists>r. decide_loop denv c k ex dv cur vs ts ce = Some r"
  using assms(3)
proof (induction "rank cm" arbitrary: cm cur vs ts ce rule: less_induct)
  case less
  show ?case
  proof (cases cur)
    case None
    then show ?thesis by (simp add: decide_loop.simps)
  next
    case (Some i)
    then have saved: "saved_leaves c cm = Some (li_leaf i)" using less.prems by simp
    let ?p = "parent_commitment (li_leaf i)"
    have lt: "rank ?p < rank cm" using rank saved by (simp add: leaf_rank_def)
    have "\<forall>j. parent_leaf_info (li_leaf i) k c = Some j \<longrightarrow> saved_leaves c ?p = Some (li_leaf j)"
      using just saved parent_leaf_info_SomeD [of "li_leaf i" k c]
      by (auto simp: justified_leaves_def certified_parent_def)
    from less.hyps [OF lt this] Some show ?thesis
      by (subst decide_loop.simps) (simp add: Let_def)
  qed
qed

lemma decide_2_total:
  assumes "acyclic_leaves c" "justified_leaves c"
  shows "\<exists>out. decide_from_proposal_2 denv p ex k we c = Some out"
proof -
  obtain rank where rank: "leaf_rank rank (saved_leaves c)"
    using assms(1) by (auto simp: acyclic_leaves_def)
  show ?thesis
  proof (cases "parent_leaf_info (from_quorum_proposal p) k c")
    case None
    then show ?thesis by (simp add: decide_from_proposal_2_def Let_def)
  next
    case pi: (Some pi)
    show ?thesis
    proof (cases "parent_leaf_info (li_leaf pi) k c")
      case None
      then show ?thesis using pi by (simp add: decide_from_proposal_2_def Let_def)
    next
      case gi: (Some gi)
      have "\<exists>r. decide_loop denv c k ex (leaf_view_number (li_leaf gi)) (Some gi) [] {} None = Some r"
        by (rule decide_loop_total [OF rank assms(2), where cm = "leaf_commit (cert_data (justify_qc (li_leaf pi)))"])
          (use parent_leaf_info_SomeD [OF gi] in \<open>simp add: certified_parent_def\<close>)
      then obtain vs ts ce where
        "decide_loop denv c k ex (leaf_view_number (li_leaf gi)) (Some gi) [] {} None = Some (vs, ts, ce)"
        by auto
      then show ?thesis using pi gi
        by (simp add: decide_from_proposal_2_def Let_def split: prod.splits)
    qed
  qed
qed

lemma decide_total:
  assumes "acyclic_leaves c"
  shows "\<exists>out. decide_from_proposal denv p ex k we h c = Some out"
proof -
  obtain r lv len res where "visit_leaf_ancestors c (cert_view_number (qp_justify_qc p))
      (Exclusive (last_decided_view c)) True (decide_visitor denv c ex k h (qp_view_number p))
      (qp_view_number p, 0, outcome_default) = Some (r, lv, len, res)"
    using visit_leaf_ancestors_total [OF assms] by (metis surj_pair)
  then show ?thesis by (simp add: decide_from_proposal_def split: prod.splits)
qed

text \<open>A decide comes with its certificate, and only from a state map that is not empty.\<close>

lemma runs_decide_ready:
  assumes "runs_decide denv k h p lock c res c1 e1" "new_decided_view_number res = Some v"
  shows "new_decide_qc res \<noteq> None \<and> validated_state_map c \<noteq> []"
proof (cases "version_at_least_epochs lock (qp_view_number p)")
  case True
  then have d: "decide_from_proposal_2 denv p (decided_upgrade_certificate lock) k True c
      = Some (res, c1, e1)"
    using assms by (auto simp: runs_decide_def split: if_splits)
  then show ?thesis
  proof (cases rule: decide_2_cases)
    case none
    then show ?thesis using assms(2) by simp
  next
    case (decide parent i js)
    have "fst (state_and_delta c (cert_view_number (justify_qc parent))) = Some (li_state i)"
      using parent_leaf_info_SomeD [OF decide(2)] by simp
    then have "validated_state_map c \<noteq> []"
      by (auto simp: state_and_delta_def split: option.splits)
    then show ?thesis using decide(4) by simp
  qed
next
  case False
  then have d: "decide_from_proposal denv p (decided_upgrade_certificate lock) k False h c
      = Some (res, c1, e1)"
    using assms by (simp add: runs_decide_def)
  from three_chain_outcome [OF d assms(2)] show ?thesis by (auto simp: decided_by_def)
qed

lemma apply_decide_total:
  assumes "new_decided_view_number res \<noteq> None \<Longrightarrow> new_decide_qc res \<noteq> None \<and> validated_state_map c \<noteq> []"
  shows "\<exists>out. apply_decide h epochs res c = Some out"
proof -
  define l where "l = (case new_locked_view_number res of
      Some v \<Rightarrow> ignore_err c (update_locked_view v c) | None \<Rightarrow> c)"
  have l: "validated_state_map l = validated_state_map c"
    by (auto simp: l_def update_locked_frame split: option.splits)
  show ?thesis
  proof (cases "new_decided_view_number res")
    case None
    then show ?thesis by (simp add: apply_decide_def Let_def)
  next
    case (Some v)
    with assms obtain qc where ready: "new_decide_qc res = Some qc" "validated_state_map l \<noteq> []"
      using l by auto
    then have "\<exists>g. collect_garbage (last_decided_view l) v l = Some g"
      by (auto simp: collect_garbage_def bt_first_key_value_def Let_def neq_Nil_conv)
    then show ?thesis using Some ready
      by (auto simp: apply_decide_def Let_def l_def [symmetric] split: sum.splits prod.splits)
  qed
qed

text \<open>
  C17: The handler of a validated proposal returns on every state whose saved leaves have no cycle of
  parents and carry the QC of their parent: its loops end, it does not panic (the deciding QC and a
  state map entry are there whenever it decides), and the resulting state is reached by steps of the
  consensus state, whatever branch was taken.
\<close>

theorem decide_handler_returns:
  assumes "acyclic_leaves c" "justified_leaves c"
  shows "\<exists>c' lock' r effs n.
    handle_quorum_proposal_validated env denv k h p lock c = Some (c', lock', r, effs)
    \<and> consensus_trace commit c (replicate n Internal) c'"
proof -
  have "\<exists>out. handle_quorum_proposal_validated env denv k h p lock c = Some out"
  proof (cases "lock_version lock (qp_view_number p)")
    case (Inl e)
    then show ?thesis by (simp add: handle_quorum_proposal_validated_def)
  next
    case (Inr version)
    let ?epochs = "version_ge version (epochs_version (lock_versions lock))"
    let ?chk = "if ?epochs then verify_drb_result env p lock h k c else Ok ()"
    let ?run = "if ?epochs then
        (if \<not> is_last_block (hdr_block_number (qp_block_header p)) h
         then decide_from_proposal_2 denv p (decided_upgrade_certificate lock) k ?epochs c
         else Some (outcome_default, c, []))
      else decide_from_proposal denv p (decided_upgrade_certificate lock) k ?epochs h c"
    obtain res c1 e1 where d: "?run = Some (res, c1, e1)"
      using decide_2_total [OF assms, of denv p "decided_upgrade_certificate lock" k True]
        decide_total [OF assms(1), of denv p "decided_upgrade_certificate lock" k False h]
      by (cases ?epochs; cases "is_last_block (hdr_block_number (qp_block_header p)) h") auto
    have ve: "version_at_least_epochs lock (qp_view_number p) = ?epochs"
      by (simp add: version_at_least_epochs_def Inr)
    have rd: "runs_decide denv k h p lock c res c1 e1"
      using d by (auto simp: runs_decide_def ve split: if_splits)
    have "\<exists>out. apply_decide h ?epochs res c1 = Some out"
      by (rule apply_decide_total)
        (use runs_decide_ready [OF rd] only_drb_frame [OF runs_decide_only_drb [OF rd]] in auto)
    then show ?thesis using d
      unfolding handle_quorum_proposal_validated_def Inr sum.case Let_def
      by (cases ?chk) (auto split: prod.splits)
  qed
  then obtain c' lock' r effs
    where run: "handle_quorum_proposal_validated env denv k h p lock c = Some (c', lock', r, effs)"
    by (metis surj_pair)
  then show ?thesis using decide_handler_reachable [OF run, of commit] by blast
qed

section \<open>Witnesses\<close>

definition demo_denv :: "(nat, unit) DecideEnv" where
  "demo_denv = \<lparr>de_transaction_commitments = (\<lambda>payload hdr. map ucast payload),
     de_serialize_signatures = (\<lambda>sigs. Some [])\<rparr>"

definition epochs_lock :: "nat UpgradeLock" where
  "epochs_lock = sample_lock\<lparr>lock_versions :=
     \<lparr>base_version = (0, 3), upgrade_version = (0, 3), epochs_version = (0, 3)\<rparr>\<rparr>"

lemma collect_garbage_code [code]:
  "collect_garbage old_anchor_view new_anchor_view self =
     (if new_anchor_view \<le> old_anchor_view then Some self
      else
       (let gc_view = saturating_sub new_anchor_view 1 in
        case bt_first_key_value (validated_state_map self) of
          None \<Rightarrow> None
        | Some _ \<Rightarrow>
           (let collected =
                  List.map_filter (\<lambda>(_, view). leaf_commitment view)
                    (bt_range old_anchor_view gc_view (validated_state_map self))
            in Some (self\<lparr>
                 saved_da_certs := (\<lambda>v. if old_anchor_view \<le> v then saved_da_certs self v else None),
                 saved_leaves := foldl (\<lambda>m leaf. m(leaf := None)) (saved_leaves self) collected,
                 validated_state_map := bt_split_off gc_view (validated_state_map self),
                 saved_payloads := bt_split_off gc_view (saved_payloads self),
                 vid_shares := bt_split_off gc_view (vid_shares self),
                 last_proposals := bt_split_off gc_view (last_proposals self)\<rparr>))))"
  by (simp add: collect_garbage_def restrict_map_def cong: option.case_cong)

lemma demo_decide_run:
  "case handle_quorum_proposal_validated demo_env demo_denv 1 10 (proposal_data demo_proposal)
       epochs_lock sample_state2 of
     None \<Rightarrow> False
   | Some (c', lock', r, effs) \<Rightarrow> is_ok r \<and>
       list_ex (\<lambda>e. case e of DecideEvent v ls qc n \<Rightarrow> v = 1 | _ \<Rightarrow> False) effs"
  by code_simp

theorem decide_event_sound_witness:
  "\<exists>c' lock' r effs.
     handle_quorum_proposal_validated demo_env demo_denv 1 10 (proposal_data demo_proposal)
       epochs_lock sample_state2 = Some (c', lock', r, effs)
     \<and> last_decided_view sample_state2 < 1 \<and> last_decided_view c' = 1"
proof -
  obtain c' lock' r effs where
    run: "handle_quorum_proposal_validated demo_env demo_denv 1 10 (proposal_data demo_proposal)
       epochs_lock sample_state2 = Some (c', lock', r, effs)"
    and ev: "list_ex (\<lambda>e. case e of DecideEvent v ls qc n \<Rightarrow> v = 1 | _ \<Rightarrow> False) effs"
    using demo_decide_run by (auto split: option.splits)
  from ev obtain e where e: "e \<in> set effs" "case e of DecideEvent v ls qc n \<Rightarrow> v = 1 | _ \<Rightarrow> False"
    by (auto simp: list_ex_iff)
  from e(2) obtain ls qc n where "e = DecideEvent 1 ls qc n" by (cases e) simp_all
  with e(1) have "DecideEvent 1 ls qc n \<in> set effs" by simp
  from decide_event_sound [OF run this] run show ?thesis by blast
qed

lemma demo_decide_2_run:
  "case decide_from_proposal_2 demo_denv (proposal_data demo_proposal) None 1 True sample_state2 of
     None \<Rightarrow> False
   | Some (res, c', effs) \<Rightarrow> new_decided_view_number res = Some 1"
  by code_simp

theorem decide_2_follows_two_chain_witness:
  "\<exists>parent grand_parent.
     two_chain sample_state2 (qp_justify_qc (proposal_data demo_proposal)) parent grand_parent
     \<and> leaf_view_number grand_parent = 1"
proof -
  obtain res c' effs where
    "decide_from_proposal_2 demo_denv (proposal_data demo_proposal) None 1 True sample_state2
       = Some (res, c', effs)" "new_decided_view_number res = Some 1"
    using demo_decide_2_run by (auto split: option.splits)
  from decide_2_follows_two_chain [OF this] show ?thesis by blast
qed

lemma sample_state2_justified: "justified_leaves sample_state2"
  by (auto simp: justified_leaves_def sample_state2_facts sample_leaf1_def sample_leaf2_def
      sample_leaf_def sample_qc_def split: if_splits)

theorem decide_handler_returns_witness:
  "\<exists>c' lock' r effs n.
    handle_quorum_proposal_validated demo_env demo_denv 1 10 (proposal_data demo_proposal)
      epochs_lock sample_state2 = Some (c', lock', r, effs)
    \<and> consensus_trace sample_leaf_commit sample_state2 (replicate n Internal) c'"
  using sample_state2_justified sample_acyclic by (intro decide_handler_returns)

end
