(* ===== verification/Stake_Events.thy ===== *)
theory Stake_Events
  imports Stake_Table "HOL-Library.AList" "HOL-Library.Multiset" "HOL-Library.Product_Lexorder"
begin

text \<open>
  The stake table of the L1 contract, rebuilt from its events:
  \<open>types/src/v0/impls/stake_table.rs\<close> from \<open>StakeTableEvents\<close> to \<open>StakeTableFetcher::fetch\<close>, with
  the data of \<open>types/src/v0/v0_3/stake_table.rs\<close>. An \<open>IndexMap\<close> keeps its insertion order and a
  \<open>HashMap\<close> of delegators is only looked up and updated; both are association lists with distinct
  keys. The conversion of contract keys, the authentication of an event, the L1 provider and the
  event storage are parameters.
\<close>

section \<open>Data\<close>

type_synonym address = "160 word"

record ('k, 's) Validator =
  v_account :: address
  v_stake_table_key :: 'k
  v_state_ver_key :: 's
  v_stake :: u256
  v_commission :: u16
  v_delegators :: "(address \<times> u256) list"

text \<open>The last argument of the \<open>V2\<close> events is the pair of signatures over the account.\<close>

datatype ('b, 'c, 'g) StakeTableEvent =
    Register address 'b 'c u16
  | RegisterV2 address 'b 'c u16 'g
  | Deregister address
  | Delegate address address u256
  | Undelegate address address u256
  | KeyUpdate address 'b 'c
  | KeyUpdateV2 address 'b 'c 'g

record ('b, 'c, 'g, 'k, 's) EventEnv =
  ee_bls :: "'b \<Rightarrow> 'k"
  ee_schnorr :: "'c \<Rightarrow> 's"
  ee_authenticate :: "address \<Rightarrow> 'b \<Rightarrow> 'c \<Rightarrow> 'g \<Rightarrow> bool"

type_synonym EventKey = "u64 \<times> u64"

datatype StakeTableError =
    BlsKeyUsed | AlreadyRegistered | NotAuthenticated | ValidatorNotFound | StakeTooSmall
  | DelegatorNotFound | DelegatorStakeTooSmall | NoValidValidators | MissingBlockNumber
  | MissingLogIndex | LoadEventsFailed | ToBlockBeforeFromBlock | StoreEventsFailed
  | ChainConfigUnavailable | NoStakeTableContract | NoL1Finalized

section \<open>Replaying the events\<close>

type_synonym ('k, 's) ValidatorMap = "(address \<times> ('k, 's) Validator) list"

record ('k, 's) ReplayState =
  rs_validators :: "('k, 's) ValidatorMap"
  rs_bls_keys :: "'k set"
  rs_schnorr_keys :: "'s set"

definition register_validator ::
  "('b, 'c, 'g, 'k, 's) EventEnv \<Rightarrow> address \<Rightarrow> 'b \<Rightarrow> 'c \<Rightarrow> u16 \<Rightarrow> ('k, 's) ReplayState
     \<Rightarrow> (StakeTableError, ('k, 's) ReplayState) result" where
  "register_validator env account blsVk schnorrVk commission st =
     (let stake_table_key = ee_bls env blsVk; state_ver_key' = ee_schnorr env schnorrVk in
      if stake_table_key \<in> rs_bls_keys st then Err BlsKeyUsed
      else case map_of (rs_validators st) account of
        Some _ \<Rightarrow> Err AlreadyRegistered
      | None \<Rightarrow>
          Ok \<lparr>rs_validators = rs_validators st @
                [(account, \<lparr>v_account = account, v_stake_table_key = stake_table_key,
                            v_state_ver_key = state_ver_key', v_stake = 0,
                            v_commission = commission, v_delegators = []\<rparr>)],
              rs_bls_keys = insert stake_table_key (rs_bls_keys st),
              rs_schnorr_keys = insert state_ver_key' (rs_schnorr_keys st)\<rparr>)"

definition set_keys :: "'k \<Rightarrow> 's \<Rightarrow> ('k, 's) Validator \<Rightarrow> ('k, 's) Validator" where
  "set_keys bls schnorr v = v\<lparr>v_stake_table_key := bls, v_state_ver_key := schnorr\<rparr>"

definition delegate_to :: "address \<Rightarrow> u256 \<Rightarrow> ('k, 's) Validator \<Rightarrow> ('k, 's) Validator" where
  "delegate_to delegator amount v =
     v\<lparr>v_stake := v_stake v + amount,
       v_delegators :=
         (case map_of (v_delegators v) delegator of
            Some stake \<Rightarrow> AList.update delegator (stake + amount) (v_delegators v)
          | None \<Rightarrow> AList.update delegator amount (v_delegators v))\<rparr>"

definition undelegate_from ::
  "address \<Rightarrow> u256 \<Rightarrow> ('k, 's) Validator \<Rightarrow> (StakeTableError, ('k, 's) Validator) result" where
  "undelegate_from delegator amount v =
     (case checked_sub (v_stake v) amount of
        None \<Rightarrow> Err StakeTooSmall
      | Some stake \<Rightarrow>
         (case map_of (v_delegators v) delegator of
            None \<Rightarrow> Err DelegatorNotFound
          | Some delegator_stake \<Rightarrow>
             (case checked_sub delegator_stake amount of
                None \<Rightarrow> Err DelegatorStakeTooSmall
              | Some left \<Rightarrow>
                  Ok (v\<lparr>v_stake := stake,
                        v_delegators := (if left = 0 then AList.delete delegator (v_delegators v)
                                         else AList.update delegator left (v_delegators v))\<rparr>))))"

fun apply_event ::
  "('b, 'c, 'g, 'k, 's) EventEnv \<Rightarrow> ('b, 'c, 'g) StakeTableEvent \<Rightarrow> ('k, 's) ReplayState
     \<Rightarrow> (StakeTableError, ('k, 's) ReplayState) result" where
  "apply_event env (Register account blsVk schnorrVk commission) st =
     register_validator env account blsVk schnorrVk commission st"
| "apply_event env (RegisterV2 account blsVk schnorrVk commission sigs) st =
     (if \<not> ee_authenticate env account blsVk schnorrVk sigs then Err NotAuthenticated
      else register_validator env account blsVk schnorrVk commission st)"
| "apply_event env (Deregister validator) st =
     (case map_of (rs_validators st) validator of
        None \<Rightarrow> Err ValidatorNotFound
      | Some _ \<Rightarrow> Ok (st\<lparr>rs_validators := AList.delete validator (rs_validators st)\<rparr>))"
| "apply_event env (Delegate delegator validator amount) st =
     (case map_of (rs_validators st) validator of
        None \<Rightarrow> Err ValidatorNotFound
      | Some v \<Rightarrow>
          (if amount = 0 then Ok st
           else Ok (st\<lparr>rs_validators :=
                  AList.update validator (delegate_to delegator amount v) (rs_validators st)\<rparr>)))"
| "apply_event env (Undelegate delegator validator amount) st =
     (case map_of (rs_validators st) validator of
        None \<Rightarrow> Err ValidatorNotFound
      | Some v \<Rightarrow>
          try_bind (undelegate_from delegator amount v)
            (\<lambda>v'. Ok (st\<lparr>rs_validators := AList.update validator v' (rs_validators st)\<rparr>)))"
| "apply_event env (KeyUpdate account blsVK schnorrVK) st =
     (case map_of (rs_validators st) account of
        None \<Rightarrow> Err ValidatorNotFound
      | Some v \<Rightarrow>
          (if ee_bls env blsVK \<in> rs_bls_keys st then Err BlsKeyUsed
           else Ok (st\<lparr>rs_validators := AList.update account
                  (set_keys (ee_bls env blsVK) (ee_schnorr env schnorrVK) v) (rs_validators st)\<rparr>)))"
| "apply_event env (KeyUpdateV2 account blsVK schnorrVK sigs) st =
     (if \<not> ee_authenticate env account blsVK schnorrVK sigs then Err NotAuthenticated
      else if ee_bls env blsVK \<in> rs_bls_keys st then Err BlsKeyUsed
      else case map_of (rs_validators st) account of
        None \<Rightarrow> Err ValidatorNotFound
      | Some v \<Rightarrow>
          Ok (st\<lparr>rs_validators := AList.update account
             (set_keys (ee_bls env blsVK) (ee_schnorr env schnorrVK) v) (rs_validators st)\<rparr>))"

fun replay ::
  "('b, 'c, 'g, 'k, 's) EventEnv \<Rightarrow> ('b, 'c, 'g) StakeTableEvent list \<Rightarrow> ('k, 's) ReplayState
     \<Rightarrow> (StakeTableError, ('k, 's) ReplayState) result" where
  "replay env [] st = Ok st"
| "replay env (event # events) st = try_bind (apply_event env event st) (replay env events)"

definition replay_new :: "('k, 's) ReplayState" where
  "replay_new = \<lparr>rs_validators = [], rs_bls_keys = {}, rs_schnorr_keys = {}\<rparr>"

definition validators_from_l1_events ::
  "('b, 'c, 'g, 'k, 's) EventEnv \<Rightarrow> ('b, 'c, 'g) StakeTableEvent list
     \<Rightarrow> (StakeTableError, ('k, 's) ValidatorMap) result" where
  "validators_from_l1_events env events =
     try_bind (replay env events replay_new) (\<lambda>st. Ok (rs_validators st))"

section \<open>The active validators\<close>

definition VID_TARGET_TOTAL_STAKE :: u32 where
  "VID_TARGET_TOTAL_STAKE = 1000"

definition MAX_ACTIVE_VALIDATORS :: nat where
  "MAX_ACTIVE_VALIDATORS = 100"

text \<open>\<open>Reverse\<close> as a sort key: the complement is antitone. \<open>sort_by_key\<close> is stable, like \<open>sort_key\<close>.\<close>

definition reverse_stake :: "u256 \<Rightarrow> u256" where
  "reverse_stake stake = - 1 - stake"

definition is_valid_validator :: "address \<times> ('k, 's) Validator \<Rightarrow> bool" where
  "is_valid_validator av = (v_delegators (snd av) \<noteq> [] \<and> v_stake (snd av) \<noteq> 0)"

definition maximum_stake :: "('k, 's) ValidatorMap \<Rightarrow> u256" where
  "maximum_stake validators = Max (set (map (\<lambda>av. v_stake (snd av)) validators))"

definition valid_stakers :: "('k, 's) ValidatorMap \<Rightarrow> (address \<times> u256) list" where
  "valid_stakers validators =
     take MAX_ACTIVE_VALIDATORS
       (sort_key (\<lambda>as. reverse_stake (snd as))
          (map (\<lambda>av. (fst av, v_stake (snd av)))
             (filter (\<lambda>av. v_stake (snd av)
                        \<ge> maximum_stake validators div ucast VID_TARGET_TOTAL_STAKE) validators)))"

definition select_active_validator_set ::
  "('k, 's) ValidatorMap \<Rightarrow> (StakeTableError, ('k, 's) ValidatorMap) result" where
  "select_active_validator_set validators0 =
     (let validators = filter is_valid_validator validators0 in
      if validators = [] then Err NoValidValidators
      else let selected_addresses = set (map fst (valid_stakers validators))
           in Ok (filter (\<lambda>av. fst av \<in> selected_addresses) validators))"

definition active_validator_set_from_l1_events ::
  "('b, 'c, 'g, 'k, 's) EventEnv \<Rightarrow> ('b, 'c, 'g) StakeTableEvent list
     \<Rightarrow> (StakeTableError, ('k, 's) ValidatorMap) result" where
  "active_validator_set_from_l1_events env events =
     try_bind (validators_from_l1_events env events) select_active_validator_set"

section \<open>Collecting the events\<close>

text \<open>A log of the provider: block number and log index may be missing.\<close>

record Log =
  log_block_number :: "u64 option"
  log_log_index :: "u64 option"

record ('b, 'c, 'g) StakeTableEvents =
  registrations :: "(('b, 'c, 'g) StakeTableEvent \<times> Log) list"
  registrations_v2 :: "(('b, 'c, 'g) StakeTableEvent \<times> Log) list"
  deregistrations :: "(('b, 'c, 'g) StakeTableEvent \<times> Log) list"
  delegated :: "(('b, 'c, 'g) StakeTableEvent \<times> Log) list"
  undelegated :: "(('b, 'c, 'g) StakeTableEvent \<times> Log) list"
  keys_updated :: "(('b, 'c, 'g) StakeTableEvent \<times> Log) list"
  keys_v2 :: "(('b, 'c, 'g) StakeTableEvent \<times> Log) list"

fun authenticated :: "('b, 'c, 'g, 'k, 's) EventEnv \<Rightarrow> ('b, 'c, 'g) StakeTableEvent \<Rightarrow> bool" where
  "authenticated env (RegisterV2 account bls schnorr commission sigs) =
     ee_authenticate env account bls schnorr sigs"
| "authenticated env (KeyUpdateV2 account bls schnorr sigs) =
     ee_authenticate env account bls schnorr sigs"
| "authenticated env _ = True"

definition from_l1_logs ::
  "('b, 'c, 'g, 'k, 's) EventEnv \<Rightarrow> ('b, 'c, 'g) StakeTableEvents \<Rightarrow> ('b, 'c, 'g) StakeTableEvents" where
  "from_l1_logs env logs =
     logs\<lparr>registrations_v2 := filter (\<lambda>el. authenticated env (fst el)) (registrations_v2 logs),
          keys_v2 := filter (\<lambda>el. authenticated env (fst el)) (keys_v2 logs)\<rparr>"

fun keyed_events ::
  "(('b, 'c, 'g) StakeTableEvent \<times> Log) list
     \<Rightarrow> (StakeTableError, (EventKey \<times> ('b, 'c, 'g) StakeTableEvent) list) result" where
  "keyed_events [] = Ok []"
| "keyed_events ((event, log) # rest) =
     (case log_block_number log of
        None \<Rightarrow> Err MissingBlockNumber
      | Some block \<Rightarrow>
         (case log_log_index log of
            None \<Rightarrow> Err MissingLogIndex
          | Some index \<Rightarrow>
              try_bind (keyed_events rest) (\<lambda>es. Ok (((block, index), event) # es))))"

definition sort_events ::
  "('b, 'c, 'g) StakeTableEvents
     \<Rightarrow> (StakeTableError, (EventKey \<times> ('b, 'c, 'g) StakeTableEvent) list) result" where
  "sort_events logs =
     try_bind (keyed_events (registrations logs @ registrations_v2 logs @ deregistrations logs
                 @ delegated logs @ undelegated logs @ keys_updated logs @ keys_v2 logs))
       (\<lambda>events. Ok (sort_key fst events))"

text \<open>
  The block ranges of one provider query. The iterator is unbounded when the arithmetic wraps, so
  it takes fuel; \<open>chunks_cover\<close> gives the fuel that suffices.
\<close>

fun chunks :: "nat \<Rightarrow> u64 \<Rightarrow> u64 \<Rightarrow> u64 \<Rightarrow> (u64 \<times> u64) list option" where
  "chunks 0 start end' chunk_size = None"
| "chunks (Suc fuel) start end' chunk_size =
     (let chunk_end = min (start + chunk_size - 1) end' in
      if chunk_end < start then Some []
      else map_option (\<lambda>cs. (start, chunk_end) # cs)
             (chunks fuel (chunk_end + 1) end' chunk_size))"

text \<open>
  The L1 provider: one query per event kind and block range, repeated by the code until it succeeds.
\<close>

record ('b, 'c, 'g) L1Provider =
  l1_initialized_at_block :: u64
  l1_events_max_block_range :: u64
  l1_validator_registered :: "u64 \<Rightarrow> u64 \<Rightarrow> (('b, 'c, 'g) StakeTableEvent \<times> Log) list"
  l1_validator_registered_v2 :: "u64 \<Rightarrow> u64 \<Rightarrow> (('b, 'c, 'g) StakeTableEvent \<times> Log) list"
  l1_validator_exit :: "u64 \<Rightarrow> u64 \<Rightarrow> (('b, 'c, 'g) StakeTableEvent \<times> Log) list"
  l1_delegated :: "u64 \<Rightarrow> u64 \<Rightarrow> (('b, 'c, 'g) StakeTableEvent \<times> Log) list"
  l1_undelegated :: "u64 \<Rightarrow> u64 \<Rightarrow> (('b, 'c, 'g) StakeTableEvent \<times> Log) list"
  l1_keys_updated :: "u64 \<Rightarrow> u64 \<Rightarrow> (('b, 'c, 'g) StakeTableEvent \<times> Log) list"
  l1_keys_updated_v2 :: "u64 \<Rightarrow> u64 \<Rightarrow> (('b, 'c, 'g) StakeTableEvent \<times> Log) list"

definition query_chunks :: "(u64 \<Rightarrow> u64 \<Rightarrow> 'a list) \<Rightarrow> (u64 \<times> u64) list \<Rightarrow> 'a list" where
  "query_chunks query cs = concat (map (\<lambda>(from', to'). query from' to') cs)"

definition fetch_events_from_contract ::
  "('b, 'c, 'g, 'k, 's) EventEnv \<Rightarrow> ('b, 'c, 'g) L1Provider \<Rightarrow> nat \<Rightarrow> u64 option \<Rightarrow> u64
     \<Rightarrow> ('b, 'c, 'g) StakeTableEvents option" where
  "fetch_events_from_contract env l1 fuel from_block to_block =
     (let from' = (case from_block of Some block \<Rightarrow> block | None \<Rightarrow> l1_initialized_at_block l1) in
      case chunks fuel from' to_block (l1_events_max_block_range l1) of
        None \<Rightarrow> None
      | Some cs \<Rightarrow>
          Some (from_l1_logs env
            \<lparr>registrations = query_chunks (l1_validator_registered l1) cs,
             registrations_v2 = filter (\<lambda>el. authenticated env (fst el))
               (query_chunks (l1_validator_registered_v2 l1) cs),
             deregistrations = query_chunks (l1_validator_exit l1) cs,
             delegated = query_chunks (l1_delegated l1) cs,
             undelegated = query_chunks (l1_undelegated l1) cs,
             keys_updated = query_chunks (l1_keys_updated l1) cs,
             keys_v2 = filter (\<lambda>el. authenticated env (fst el))
               (query_chunks (l1_keys_updated_v2 l1) cs)\<rparr>))"

datatype EventsPersistenceRead = Complete | UntilL1Block u64

record ('b, 'c, 'g) EventPersistence =
  load_events :: "u64 \<Rightarrow> (EventsPersistenceRead option
     \<times> (EventKey \<times> ('b, 'c, 'g) StakeTableEvent) list) option"
  store_events :: "u64 \<Rightarrow> (EventKey \<times> ('b, 'c, 'g) StakeTableEvent) list \<Rightarrow> bool"

definition fetch_events ::
  "('b, 'c, 'g, 'k, 's) EventEnv \<Rightarrow> ('b, 'c, 'g) L1Provider \<Rightarrow> ('b, 'c, 'g) EventPersistence \<Rightarrow> nat
     \<Rightarrow> u64 \<Rightarrow> (StakeTableError, (EventKey \<times> ('b, 'c, 'g) StakeTableEvent) list) result option" where
  "fetch_events env l1 persistence fuel to_block =
     (case load_events persistence to_block of
        None \<Rightarrow> Some (Err LoadEventsFailed)
      | Some (read_l1_offset, persistence_events) \<Rightarrow>
         (if read_l1_offset = Some Complete then Some (Ok persistence_events)
          else
           (let from_block = (case read_l1_offset of
                                Some (UntilL1Block block) \<Rightarrow> Some (block + 1) | _ \<Rightarrow> None)
            in if (case from_block of Some block \<Rightarrow> to_block < block | None \<Rightarrow> False)
               then Some (Err ToBlockBeforeFromBlock)
               else case fetch_events_from_contract env l1 fuel from_block to_block of
                 None \<Rightarrow> None
               | Some logs \<Rightarrow>
                   Some (try_bind (sort_events logs)
                     (\<lambda>contract_events. Ok (remdups_adj
                        (if from_block \<noteq> None then persistence_events @ contract_events
                         else contract_events)))))))"

definition fetch_and_store_stake_table_events ::
  "('b, 'c, 'g, 'k, 's) EventEnv \<Rightarrow> ('b, 'c, 'g) L1Provider \<Rightarrow> ('b, 'c, 'g) EventPersistence \<Rightarrow> nat
     \<Rightarrow> u64 \<Rightarrow> (StakeTableError, (EventKey \<times> ('b, 'c, 'g) StakeTableEvent) list) result option" where
  "fetch_and_store_stake_table_events env l1 persistence fuel to_block =
     map_option (\<lambda>r. try_bind r
         (\<lambda>events. if store_events persistence to_block events then Ok events
                   else Err StoreEventsFailed))
       (fetch_events env l1 persistence fuel to_block)"

definition fetch_all_validators ::
  "('b, 'c, 'g, 'k, 's) EventEnv \<Rightarrow> ('b, 'c, 'g) L1Provider \<Rightarrow> nat \<Rightarrow> u64
     \<Rightarrow> (StakeTableError, ('k, 's) ValidatorMap) result option" where
  "fetch_all_validators env l1 fuel to_block =
     map_option (\<lambda>logs. try_bind (sort_events logs)
         (\<lambda>sorted. validators_from_l1_events env (map snd sorted)))
       (fetch_events_from_contract env l1 fuel None to_block)"

text \<open>
  \<open>get_chain_config\<close>: the known chain configuration when its commitment is the header's, else the
  one the header carries, else the peers'.
\<close>

record ('cf, 'cc) ConfigEnv =
  cf_commit :: "'cf \<Rightarrow> 'cc"
  cf_stake_table_contract :: "'cf \<Rightarrow> address option"
  cf_fetch_from_peers :: "'cc \<Rightarrow> 'cf option"

record ('cf, 'cc) RootHeader =
  rh_config_commit :: 'cc
  rh_config_resolve :: "'cf option"
  rh_l1_finalized :: "u64 option"

definition get_chain_config ::
  "('cf, 'cc) ConfigEnv \<Rightarrow> 'cf \<Rightarrow> ('cf, 'cc) RootHeader \<Rightarrow> (StakeTableError, 'cf) result" where
  "get_chain_config cenv chain_config header =
     (if cf_commit cenv chain_config = rh_config_commit header then Ok chain_config
      else case rh_config_resolve header of
        Some cf \<Rightarrow> Ok cf
      | None \<Rightarrow>
         (case cf_fetch_from_peers cenv (rh_config_commit header) of
            Some cf \<Rightarrow> Ok cf | None \<Rightarrow> Err ChainConfigUnavailable))"

text \<open>\<open>fetch\<close> updates the fetcher's chain configuration before its later failures.\<close>

definition fetch ::
  "('b, 'c, 'g, 'k, 's) EventEnv \<Rightarrow> ('cf, 'cc) ConfigEnv
     \<Rightarrow> (address \<Rightarrow> ('b, 'c, 'g) L1Provider) \<Rightarrow> ('b, 'c, 'g) EventPersistence \<Rightarrow> nat
     \<Rightarrow> ('cf, 'cc) RootHeader \<Rightarrow> 'cf
     \<Rightarrow> ('cf \<times> (StakeTableError, ('k, 's) ValidatorMap) result) option" where
  "fetch env cenv l1 persistence fuel header chain_config =
     (case get_chain_config cenv chain_config header of
        Inl e \<Rightarrow> Some (chain_config, Err e)
      | Inr cf \<Rightarrow>
         (case cf_stake_table_contract cenv cf of
            None \<Rightarrow> Some (cf, Err NoStakeTableContract)
          | Some contract \<Rightarrow>
             (case rh_l1_finalized header of
                None \<Rightarrow> Some (cf, Err NoL1Finalized)
              | Some to_block \<Rightarrow>
                  map_option (\<lambda>r. (cf, try_bind r
                      (\<lambda>events. active_validator_set_from_l1_events env (map snd events))))
                    (fetch_and_store_stake_table_events env (l1 contract) persistence fuel to_block))))"

section \<open>What the replay computes\<close>

definition amount_of :: "(address \<times> u256) list \<Rightarrow> address \<Rightarrow> u256" where
  "amount_of al k = (case map_of al k of Some a \<Rightarrow> a | None \<Rightarrow> 0)"

lemma amount_of_simps:
  "amount_of [] k = 0"
  "amount_of (AList.update k a al) k' = (if k' = k then a else amount_of al k')"
  "amount_of (AList.delete k al) k' = (if k' = k then 0 else amount_of al k')"
  by (simp_all add: amount_of_def update_conv' delete_conv')

lemma sum_update:
  "distinct (map fst al) \<Longrightarrow>
   sum_list (map snd (AList.update k a al)) = sum_list (map snd al) - amount_of al k + a"
proof (induction al)
  case (Cons p al)
  obtain k' a' where p: "p = (k', a')" by fastforce
  show ?case
  proof (cases "k' = k")
    case True
    then show ?thesis by (simp add: p amount_of_def)
  next
    case False
    then have "amount_of (p # al) k = amount_of al k" by (simp add: p amount_of_def)
    then show ?thesis using Cons False by (simp add: p algebra_simps)
  qed
qed (simp add: amount_of_def)

lemma sum_delete:
  "distinct (map fst al) \<Longrightarrow>
   sum_list (map snd (AList.delete k al)) = sum_list (map snd al) - amount_of al k"
proof (induction al)
  case (Cons p al)
  obtain k' a' where p: "p = (k', a')" by fastforce
  show ?case
  proof (cases "k' = k")
    case True
    then have "AList.delete k al = al" using Cons.prems by (auto simp: p delete_id image_iff)
    then show ?thesis using True by (simp add: p amount_of_def)
  next
    case False
    then have "amount_of (p # al) k = amount_of al k" by (simp add: p amount_of_def)
    then show ?thesis using Cons False by (simp add: p algebra_simps)
  qed
qed (simp add: amount_of_def)

text \<open>
  The reference: what a delegator has delegated to a validator, by the history alone. A
  deregistration clears the account.
\<close>

fun delegation_step :: "address \<Rightarrow> address \<Rightarrow> u256 \<Rightarrow> ('b, 'c, 'g) StakeTableEvent \<Rightarrow> u256" where
  "delegation_step v d acc (Delegate d' v' amount) = (if d' = d \<and> v' = v then acc + amount else acc)"
| "delegation_step v d acc (Undelegate d' v' amount) = (if d' = d \<and> v' = v then acc - amount else acc)"
| "delegation_step v d acc (Deregister v') = (if v' = v then 0 else acc)"
| "delegation_step v d acc _ = acc"

definition net_delegation :: "('b, 'c, 'g) StakeTableEvent list \<Rightarrow> address \<Rightarrow> address \<Rightarrow> u256" where
  "net_delegation events v d = foldl (delegation_step v d) 0 events"

definition validator_ok :: "address \<Rightarrow> ('k, 's) Validator \<Rightarrow> bool" where
  "validator_ok a v \<longleftrightarrow> v_account v = a \<and> distinct (map fst (v_delegators v))
     \<and> v_stake v = sum_list (map snd (v_delegators v))"

definition replay_inv ::
  "(address \<Rightarrow> address \<Rightarrow> u256) \<Rightarrow> ('k, 's) ReplayState \<Rightarrow> bool" where
  "replay_inv net st \<longleftrightarrow> distinct (map fst (rs_validators st))
     \<and> (\<forall>a. case map_of (rs_validators st) a of
          None \<Rightarrow> \<forall>d. net a d = 0
        | Some v \<Rightarrow> validator_ok a v \<and> (\<forall>d. amount_of (v_delegators v) d = net a d))"

lemma replay_invD:
  assumes "replay_inv net st" "map_of (rs_validators st) a = Some v"
  shows "validator_ok a v" "amount_of (v_delegators v) d = net a d"
  using assms by (auto simp: replay_inv_def dest: spec [of _ a])

lemma replay_inv_update:
  assumes inv: "replay_inv net st" and v: "map_of (rs_validators st) a = Some v"
    and ok: "validator_ok a v'" and net: "\<And>d. amount_of (v_delegators v') d = net' a d"
    and other: "\<And>b d. b \<noteq> a \<Longrightarrow> net' b d = net b d"
  shows "replay_inv net' (st\<lparr>rs_validators := AList.update a v' (rs_validators st)\<rparr>)"
proof -
  have "case ((map_of (rs_validators st))(a \<mapsto> v')) b of None \<Rightarrow> \<forall>d. net' b d = 0
      | Some w \<Rightarrow> validator_ok b w \<and> (\<forall>d. amount_of (v_delegators w) d = net' b d)" for b
    using inv ok net other by (cases "b = a") (auto simp: replay_inv_def split: option.splits dest: spec [of _ b])
  then show ?thesis using inv by (simp add: replay_inv_def update_conv' distinct_update)
qed

lemma delegate_to_ok:
  assumes "validator_ok a v"
  shows "validator_ok a (delegate_to d amount v)"
    "amount_of (v_delegators (delegate_to d amount v)) d'
       = (if d' = d then amount_of (v_delegators v) d + amount else amount_of (v_delegators v) d')"
proof -
  have dl: "v_delegators (delegate_to d amount v)
      = AList.update d (amount_of (v_delegators v) d + amount) (v_delegators v)"
    by (simp add: delegate_to_def amount_of_def split: option.splits)
  have st: "v_stake (delegate_to d amount v) = v_stake v + amount" "v_account (delegate_to d amount v) = v_account v"
    by (simp_all add: delegate_to_def)
  show "validator_ok a (delegate_to d amount v)"
    using assms by (simp add: validator_ok_def dl st sum_update distinct_update)
  show "amount_of (v_delegators (delegate_to d amount v)) d'
       = (if d' = d then amount_of (v_delegators v) d + amount else amount_of (v_delegators v) d')"
    by (simp add: dl amount_of_simps)
qed

lemma undelegate_from_ok:
  assumes ok: "validator_ok a v" and run: "undelegate_from d amount v = Ok v'"
  shows "validator_ok a v'"
    "amount_of (v_delegators v') d'
       = (if d' = d then amount_of (v_delegators v) d - amount else amount_of (v_delegators v) d')"
proof -
  from run obtain ds where m: "map_of (v_delegators v) d = Some ds"
    and v': "v' = v\<lparr>v_stake := v_stake v - amount,
        v_delegators := (if ds - amount = 0 then AList.delete d (v_delegators v)
                         else AList.update d (ds - amount) (v_delegators v))\<rparr>"
    by (auto simp: undelegate_from_def checked_sub_def split: option.splits if_splits)
  have ds: "amount_of (v_delegators v) d = ds" by (simp add: amount_of_def m)
  show "validator_ok a v'"
    using ok ds by (auto simp: validator_ok_def v' sum_update sum_delete distinct_update distinct_delete)
  show "amount_of (v_delegators v') d'
       = (if d' = d then amount_of (v_delegators v) d - amount else amount_of (v_delegators v) d')"
    by (simp add: v' amount_of_simps ds)
qed

lemma register_validator_inv:
  assumes inv: "replay_inv net st"
    and run: "register_validator env account bls schnorr commission st = Ok st'"
  shows "replay_inv net st'"
proof -
  let ?v = "\<lparr>v_account = account, v_stake_table_key = ee_bls env bls,
     v_state_ver_key = ee_schnorr env schnorr, v_stake = 0, v_commission = commission, v_delegators = []\<rparr>"
  have new: "map_of (rs_validators st) account = None"
    and st': "rs_validators st' = rs_validators st @ [(account, ?v)]"
    using run by (auto simp: register_validator_def Let_def split: if_splits option.splits)
  have m: "map_of (rs_validators st') = (map_of (rs_validators st))(account \<mapsto> ?v)"
  proof
    fix b
    show "map_of (rs_validators st') b = ((map_of (rs_validators st))(account \<mapsto> ?v)) b"
      using new by (auto simp: st' map_add_def split: option.splits)
  qed
  have "net account d = 0" for d
    using inv new by (auto simp: replay_inv_def dest: spec [of _ account])
  moreover have "account \<notin> fst ` set (rs_validators st)" using new by (simp add: map_of_eq_None_iff)
  moreover have "case map_of (rs_validators st') b of None \<Rightarrow> \<forall>d. net b d = 0
      | Some v \<Rightarrow> validator_ok b v \<and> (\<forall>d. amount_of (v_delegators v) d = net b d)" for b
    using inv \<open>\<And>d. net account d = 0\<close>
    by (cases "b = account")
      (auto simp: m replay_inv_def validator_ok_def amount_of_simps dest: spec [of _ b])
  ultimately show ?thesis using inv by (simp add: replay_inv_def st')
qed

lemma set_keys_ok:
  "validator_ok a (set_keys b s v) = validator_ok a v" "v_delegators (set_keys b s v) = v_delegators v"
  by (simp_all add: set_keys_def validator_ok_def)

lemma apply_event_inv:
  assumes inv: "replay_inv net st" and run: "apply_event env e st = Ok st'"
  shows "replay_inv (\<lambda>a d. delegation_step a d (net a d) e) st'"
proof (cases e)
  case (Register account bls schnorr commission)
  then show ?thesis using register_validator_inv [OF inv] run by simp
next
  case (RegisterV2 account bls schnorr commission sigs)
  then show ?thesis using register_validator_inv [OF inv] run by (simp split: if_splits)
next
  case (Deregister validator)
  then have st': "st' = st\<lparr>rs_validators := AList.delete validator (rs_validators st)\<rparr>"
    using run by (auto split: option.splits)
  have step: "delegation_step a d (net a d) e = (if a = validator then 0 else net a d)" for a d
    by (simp add: Deregister)
  have "case map_of (rs_validators st') a of
      None \<Rightarrow> \<forall>d. delegation_step a d (net a d) e = 0
    | Some v \<Rightarrow> validator_ok a v \<and> (\<forall>d. amount_of (v_delegators v) d = delegation_step a d (net a d) e)" for a
    unfolding step using inv by (cases "a = validator") (simp_all add: st' delete_conv' replay_inv_def cong: option.case_cong)
  then show ?thesis using inv by (simp add: replay_inv_def st' distinct_delete)
next
  case (Delegate delegator validator amount)
  then obtain v where v: "map_of (rs_validators st) validator = Some v"
    using run by (auto split: option.splits)
  show ?thesis
  proof (cases "amount = 0")
    case True
    then have "(\<lambda>a d. delegation_step a d (net a d) e) = net" by (auto simp: Delegate fun_eq_iff)
    then show ?thesis using run inv Delegate v True by simp
  next
    case False
    then have st': "st' = st\<lparr>rs_validators :=
        AList.update validator (delegate_to delegator amount v) (rs_validators st)\<rparr>"
      using run Delegate v by simp
    show ?thesis unfolding st'
      by (rule replay_inv_update [OF inv v])
        (use delegate_to_ok [OF replay_invD(1) [OF inv v]] replay_invD(2) [OF inv v] Delegate in auto)
  qed
next
  case (Undelegate delegator validator amount)
  then obtain v v' where v: "map_of (rs_validators st) validator = Some v"
      "undelegate_from delegator amount v = Ok v'"
      and st': "st' = st\<lparr>rs_validators := AList.update validator v' (rs_validators st)\<rparr>"
    using run by (auto simp: try_bind_Inr_iff split: option.splits)
  show ?thesis unfolding st'
    by (rule replay_inv_update [OF inv v(1)])
      (use undelegate_from_ok [OF replay_invD(1) [OF inv v(1)] v(2)] replay_invD(2) [OF inv v(1)]
        Undelegate in auto)
next
  case (KeyUpdate account bls schnorr)
  then obtain v where v: "map_of (rs_validators st) account = Some v"
      and st': "st' = st\<lparr>rs_validators := AList.update account
        (set_keys (ee_bls env bls) (ee_schnorr env schnorr) v) (rs_validators st)\<rparr>"
    using run by (auto split: option.splits if_splits)
  show ?thesis unfolding st'
    by (rule replay_inv_update [OF inv v])
      (use replay_invD [OF inv v] KeyUpdate in \<open>auto simp: set_keys_ok\<close>)
next
  case (KeyUpdateV2 account bls schnorr sigs)
  then obtain v where v: "map_of (rs_validators st) account = Some v"
      and st': "st' = st\<lparr>rs_validators := AList.update account
        (set_keys (ee_bls env bls) (ee_schnorr env schnorr) v) (rs_validators st)\<rparr>"
    using run by (auto split: option.splits if_splits)
  show ?thesis unfolding st'
    by (rule replay_inv_update [OF inv v])
      (use replay_invD [OF inv v] KeyUpdateV2 in \<open>auto simp: set_keys_ok\<close>)
qed

lemma replay_inv_run:
  "replay env events st = Ok st' \<Longrightarrow> replay_inv net st \<Longrightarrow>
   replay_inv (\<lambda>a d. foldl (delegation_step a d) (net a d) events) st'"
proof (induction env events st arbitrary: net rule: replay.induct)
  case (1 env st)
  then show ?case by simp
next
  case (2 env e events st)
  then obtain st1 where st1: "apply_event env e st = Ok st1" "replay env events st1 = Ok st'"
    by (auto simp: try_bind_Inr_iff)
  show ?case
    using 2(1) [OF st1(2) apply_event_inv [OF 2(3) st1(1)]] by simp
qed

lemma replay_new_inv: "replay_inv (\<lambda>a d. 0) replay_new"
  by (simp add: replay_inv_def replay_new_def)

lemma validators_from_l1_events_inv:
  assumes "validators_from_l1_events env events = Ok vs"
  obtains st where "rs_validators st = vs" "replay_inv (net_delegation events) st"
proof -
  from assms obtain st where st: "replay env events replay_new = Ok st" "rs_validators st = vs"
    by (auto simp: validators_from_l1_events_def try_bind_Inr_iff)
  have "replay_inv (net_delegation events) st"
    using replay_inv_run [OF st(1) replay_new_inv] by (simp add: net_delegation_def [abs_def])
  then show ?thesis using that st(2) by blast
qed

text \<open>
  C6: When the replay of the L1 events succeeds, every validator holds, for every delegator, exactly what
  the history says was delegated minus undelegated since the validator last left, its stake is the
  sum of these amounts, and accounts and delegators are unique.
\<close>

theorem replayed_stake_is_net_delegation:
  assumes "validators_from_l1_events env events = Ok vs" "(a, v) \<in> set vs"
  shows "v_account v = a \<and> (\<forall>d. amount_of (v_delegators v) d = net_delegation events a d)
    \<and> v_stake v = (\<Sum>(d, s) \<leftarrow> v_delegators v. s) \<and> distinct (map fst (v_delegators v))
    \<and> distinct (map fst vs)"
proof -
  obtain st where st: "rs_validators st = vs" "replay_inv (net_delegation events) st"
    using validators_from_l1_events_inv [OF assms(1)] .
  have d: "distinct (map fst vs)" using st by (simp add: replay_inv_def)
  then have "map_of (rs_validators st) a = Some v" using assms(2) st(1) by simp
  from replay_invD [OF st(2) this] d show ?thesis
    by (simp add: validator_ok_def case_prod_beta')
qed

section \<open>The selection of active validators\<close>

lemma reverse_stake_le [simp]: "reverse_stake a \<le> reverse_stake b \<longleftrightarrow> b \<le> a"
proof -
  have u: "unat (reverse_stake x) = 2 ^ 256 - 1 - unat x" for x
    unfolding reverse_stake_def
    by (subst unat_sub) (simp_all add: unsigned_minus_1_eq_mask mask_eq_exp_minus_1)
  have "unat a < 2 ^ 256" "unat b < 2 ^ 256"
    using unsigned_less [of a] unsigned_less [of b] by simp_all
  then show ?thesis unfolding word_le_nat_alt u by linarith
qed

lemma sorted_take_drop:
  assumes "sorted (map f xs)" "x \<in> set (take n xs)" "y \<in> set (drop n xs)"
  shows "f x \<le> f y"
proof -
  have "sorted (map f (take n xs) @ map f (drop n xs))"
    using assms(1) by (metis append_take_drop_id map_append)
  then show ?thesis using assms(2,3) by (auto simp: sorted_append)
qed

lemma maximum_stake_ge: "av \<in> set vs \<Longrightarrow> v_stake (snd av) \<le> maximum_stake vs"
  by (auto simp: maximum_stake_def intro: Max_ge)

text \<open>The stakers before the cut at the top hundred.\<close>

definition eligible :: "('k, 's) ValidatorMap \<Rightarrow> (address \<times> ('k, 's) Validator) list" where
  "eligible vs = filter (\<lambda>av. v_stake (snd av)
     \<ge> maximum_stake vs div ucast VID_TARGET_TOTAL_STAKE) vs"

definition ranking :: "('k, 's) ValidatorMap \<Rightarrow> (address \<times> u256) list" where
  "ranking vs = sort_key (\<lambda>as. reverse_stake (snd as)) (map (\<lambda>av. (fst av, v_stake (snd av))) (eligible vs))"

lemma valid_stakers_ranking: "valid_stakers vs = take MAX_ACTIVE_VALIDATORS (ranking vs)"
  by (simp add: valid_stakers_def ranking_def eligible_def)

lemma ranking_set: "set (ranking vs) = (\<lambda>av. (fst av, v_stake (snd av))) ` set (eligible vs)"
  by (simp add: ranking_def)

lemma ranking_distinct:
  assumes "distinct (map fst vs)"
  shows "distinct (map fst (ranking vs))"
proof -
  have "distinct (map fst (eligible vs))"
    using assms by (simp add: eligible_def distinct_map_filter)
  then have "distinct (map fst (map (\<lambda>av. (fst av, v_stake (snd av))) (eligible vs)))"
    by (simp add: comp_def)
  moreover have eq: "mset (map fst (ranking vs)) = mset (map fst (map (\<lambda>av. (fst av, v_stake (snd av))) (eligible vs)))"
    by (simp only: ranking_def mset_map mset_sort)
  ultimately show ?thesis using mset_eq_imp_distinct_iff [OF eq] by blast
qed

lemma eligible_nonempty:
  assumes "vs \<noteq> []"
  shows "eligible vs \<noteq> []"
proof -
  have "maximum_stake vs \<in> set (map (\<lambda>av. v_stake (snd av)) vs)"
    unfolding maximum_stake_def by (rule Max_in) (use assms in auto)
  then obtain av where av: "av \<in> set vs" "v_stake (snd av) = maximum_stake vs" by auto
  have "maximum_stake vs div ucast VID_TARGET_TOTAL_STAKE \<le> maximum_stake vs"
    by (simp add: word_le_nat_alt unat_div div_le_dividend)
  with av have "av \<in> set (eligible vs)" by (simp add: eligible_def)
  then show ?thesis by auto
qed

lemma selected_stake:
  assumes d: "distinct (map fst vs)" and av: "(a, v) \<in> set vs" and sel: "a \<in> fst ` set (valid_stakers vs)"
  shows "(a, v) \<in> set (eligible vs) \<and> (a, v_stake v) \<in> set (valid_stakers vs)"
proof -
  from sel obtain s where s: "(a, s) \<in> set (valid_stakers vs)" by force
  then have "(a, s) \<in> set (ranking vs)" by (metis valid_stakers_ranking in_set_takeD)
  then obtain w where w: "(a, w) \<in> set (eligible vs)" "s = v_stake w" by (auto simp: ranking_set)
  then have "(a, w) \<in> set vs" by (simp add: eligible_def)
  with av d have "w = v" by (metis map_of_is_SomeI option.inject)
  then show ?thesis using w s by simp
qed


text \<open>A validator that loses its place to the cut has no more stake than any that is kept.\<close>

lemma not_selected_cut:
  assumes el: "bw \<in> set (eligible vs)" and out: "fst bw \<notin> fst ` set (valid_stakers vs)"
  shows "length (valid_stakers vs) = MAX_ACTIVE_VALIDATORS
    \<and> (\<forall>as \<in> set (valid_stakers vs). v_stake (snd bw) \<le> snd as)"
proof -
  let ?b = "(fst bw, v_stake (snd bw))"
  have "?b \<in> set (ranking vs)" using el by (auto simp: ranking_set)
  moreover have "?b \<notin> set (take MAX_ACTIVE_VALIDATORS (ranking vs))"
    using out by (force simp: valid_stakers_ranking)
  ultimately have b: "?b \<in> set (drop MAX_ACTIVE_VALIDATORS (ranking vs))"
    by (metis Un_iff append_take_drop_id set_append)
  then have "length (valid_stakers vs) = MAX_ACTIVE_VALIDATORS"
    by (auto simp: valid_stakers_ranking dest: length_pos_if_in_set)
  moreover have "v_stake (snd bw) \<le> snd as" if "as \<in> set (valid_stakers vs)" for as
  proof -
    have "sorted (map (\<lambda>as. reverse_stake (snd as)) (ranking vs))" by (simp add: ranking_def)
    from sorted_take_drop [OF this that [unfolded valid_stakers_ranking] b] show ?thesis by simp
  qed
  ultimately show ?thesis by blast
qed

lemma selected_addresses:
  assumes d: "distinct (map fst vs)"
  defines "sel \<equiv> filter (\<lambda>av. fst av \<in> set (map fst (valid_stakers vs))) vs"
  shows "fst ` set sel = fst ` set (valid_stakers vs)" "length sel = length (valid_stakers vs)"
proof -
  have "fst as \<in> fst ` set vs" if "as \<in> set (valid_stakers vs)" for as
  proof -
    have "as \<in> set (ranking vs)" using that by (metis valid_stakers_ranking in_set_takeD)
    then show ?thesis by (force simp: ranking_set eligible_def)
  qed
  then show set: "fst ` set sel = fst ` set (valid_stakers vs)" by (auto simp: sel_def) force
  have "distinct (map fst sel)" using d by (simp add: sel_def distinct_map_filter)
  moreover have "distinct (map fst (valid_stakers vs))"
    using ranking_distinct [OF d] by (simp add: valid_stakers_ranking take_map [symmetric] distinct_take)
  ultimately show "length sel = length (valid_stakers vs)"
    using set by (metis distinct_card length_map set_map)
qed

lemma maximum_is_selected:
  assumes "vs \<noteq> []"
  shows "\<exists>as \<in> set (valid_stakers vs). snd as = maximum_stake vs"
proof -
  have "maximum_stake vs \<in> set (map (\<lambda>av. v_stake (snd av)) vs)"
    unfolding maximum_stake_def by (rule Max_in) (use assms in auto)
  then obtain av where av: "av \<in> set vs" "v_stake (snd av) = maximum_stake vs" by auto
  have "maximum_stake vs div ucast VID_TARGET_TOTAL_STAKE \<le> maximum_stake vs"
    by (simp add: word_le_nat_alt unat_div div_le_dividend)
  with av have el: "av \<in> set (eligible vs)" by (simp add: eligible_def)
  have le: "snd as \<le> maximum_stake vs" if "as \<in> set (valid_stakers vs)" for as
  proof -
    have "as \<in> set (ranking vs)" using that by (metis valid_stakers_ranking in_set_takeD)
    then show ?thesis by (force simp: ranking_set eligible_def dest: maximum_stake_ge)
  qed
  have ne: "valid_stakers vs \<noteq> []"
  proof -
    have "(fst av, v_stake (snd av)) \<in> set (ranking vs)" unfolding ranking_set using el by (rule imageI)
    then have "ranking vs \<noteq> []" by auto
    then show ?thesis by (simp add: valid_stakers_ranking MAX_ACTIVE_VALIDATORS_def)
  qed
  define as where "as = hd (valid_stakers vs)"
  have as: "as \<in> set (valid_stakers vs)" using ne by (simp add: as_def)
  show ?thesis
  proof (cases "fst av \<in> fst ` set (valid_stakers vs)")
    case False
    then have "maximum_stake vs \<le> snd as" using not_selected_cut [OF el] as av(2) by auto
    then show ?thesis using le [OF as] as by (intro bexI [of _ as]) auto
  next
    case True
    show ?thesis
    proof (cases "(fst av, v_stake (snd av)) \<in> set (valid_stakers vs)")
      case True
      then show ?thesis using av(2) by force
    next
      case False
      have "(fst av, v_stake (snd av)) \<in> set (ranking vs)" using el by (auto simp: ranking_set)
      with False have "(fst av, v_stake (snd av)) \<in> set (drop MAX_ACTIVE_VALIDATORS (ranking vs))"
        by (metis Un_iff append_take_drop_id set_append valid_stakers_ranking)
      moreover have "sorted (map (\<lambda>as. reverse_stake (snd as)) (ranking vs))" by (simp add: ranking_def)
      ultimately have "maximum_stake vs \<le> snd as"
        using sorted_take_drop as av(2) by (fastforce simp: valid_stakers_ranking)
      then show ?thesis using le [OF as] as by (intro bexI [of _ as]) auto
    qed
  qed
qed

text \<open>
  C19: The active validators are between one and a hundred of the validators with delegators and stake;
  each has at least a thousandth of the stake of any other; a validator that is left out has less
  than a thousandth of the stake of some active one, or there are a hundred active validators and
  each of them has at least its stake.
\<close>

theorem active_validators_are_the_top_stakers:
  assumes run: "select_active_validator_set vs = Ok sel" and d: "distinct (map fst vs)"
  shows "sel \<noteq> [] \<and> length sel \<le> MAX_ACTIVE_VALIDATORS
    \<and> (\<forall>av \<in> set sel. av \<in> set vs \<and> is_valid_validator av)
    \<and> (\<forall>av \<in> set sel. \<forall>bw \<in> set vs. is_valid_validator bw \<longrightarrow>
         v_stake (snd bw) div ucast VID_TARGET_TOTAL_STAKE \<le> v_stake (snd av))
    \<and> (\<forall>bw \<in> set vs. is_valid_validator bw \<longrightarrow> bw \<notin> set sel \<longrightarrow>
         (\<exists>av \<in> set sel. v_stake (snd bw) < v_stake (snd av) div ucast VID_TARGET_TOTAL_STAKE)
         \<or> length sel = MAX_ACTIVE_VALIDATORS
            \<and> (\<forall>av \<in> set sel. v_stake (snd bw) \<le> v_stake (snd av)))"
proof -
  define ok where "ok = filter is_valid_validator vs"
  have ne: "ok \<noteq> []" and sel: "sel = filter (\<lambda>av. fst av \<in> set (map fst (valid_stakers ok))) ok"
    using run by (auto simp: select_active_validator_set_def Let_def ok_def [symmetric] split: if_splits)
  have dok: "distinct (map fst ok)" using d by (simp add: ok_def distinct_map_filter)
  note addr = selected_addresses [OF dok, folded sel]
  have stake: "av \<in> set (eligible ok) \<and> (fst av, v_stake (snd av)) \<in> set (valid_stakers ok)"
    if "av \<in> set sel" for av
    using selected_stake [OF dok, of "fst av" "snd av"] that by (auto simp: sel)
  have div_mono: "x div ucast VID_TARGET_TOTAL_STAKE \<le> y div ucast VID_TARGET_TOTAL_STAKE"
    if "x \<le> y" for x y :: u256
    using that by (simp add: word_le_nat_alt unat_div div_le_mono)
  obtain as where as: "as \<in> set (valid_stakers ok)" "snd as = maximum_stake ok"
    using maximum_is_selected [OF ne] by blast
  then obtain top where top: "top \<in> set sel" "fst top = fst as" using addr(1) by force
  have "(fst as, v_stake (snd top)) \<in> set (valid_stakers ok)" using stake [OF top(1)] top(2) by simp
  moreover have "distinct (map fst (valid_stakers ok))"
    using ranking_distinct [OF dok] by (simp add: valid_stakers_ranking take_map [symmetric] distinct_take)
  ultimately have topmax: "v_stake (snd top) = maximum_stake ok"
    using as by (metis eq_key_imp_eq_value prod.collapse)
  have "sel \<noteq> []" using top by auto
  moreover have "length sel \<le> MAX_ACTIVE_VALIDATORS" by (simp add: addr(2) valid_stakers_ranking)
  moreover have "\<forall>av \<in> set sel. av \<in> set vs \<and> is_valid_validator av" by (auto simp: sel ok_def)
  moreover have "v_stake (snd bw) div ucast VID_TARGET_TOTAL_STAKE \<le> v_stake (snd av)"
    if "av \<in> set sel" "bw \<in> set vs" "is_valid_validator bw" for av bw
  proof -
    have "v_stake (snd bw) \<le> maximum_stake ok" by (rule maximum_stake_ge) (use that in \<open>simp add: ok_def\<close>)
    from order_trans [OF div_mono [OF this]] stake [OF that(1)] show ?thesis by (simp add: eligible_def)
  qed
  moreover have "(\<exists>av \<in> set sel. v_stake (snd bw) < v_stake (snd av) div ucast VID_TARGET_TOTAL_STAKE)
      \<or> length sel = MAX_ACTIVE_VALIDATORS \<and> (\<forall>av \<in> set sel. v_stake (snd bw) \<le> v_stake (snd av))"
    if bw: "bw \<in> set vs" "is_valid_validator bw" "bw \<notin> set sel" for bw
  proof (cases "bw \<in> set (eligible ok)")
    case True
    have "fst bw \<notin> fst ` set (valid_stakers ok)" using bw by (auto simp: sel ok_def)
    from not_selected_cut [OF True this] stake addr(2) show ?thesis by force
  next
    case False
    then have "v_stake (snd bw) < maximum_stake ok div ucast VID_TARGET_TOTAL_STAKE"
      using bw by (simp add: eligible_def ok_def not_le)
    then show ?thesis using top(1) topmax by force
  qed
  ultimately show ?thesis by blast
qed

section \<open>BLS keys\<close>

lemma map_value_update:
  "map_of vs a = Some v \<Longrightarrow> f v' = f v \<Longrightarrow>
   map (\<lambda>av. f (snd av)) (AList.update a v' vs) = map (\<lambda>av. f (snd av)) vs"
  by (induction vs) (auto split: if_splits)

definition keys_inv :: "('k, 's) ReplayState \<Rightarrow> bool" where
  "keys_inv st \<longleftrightarrow> distinct (map (\<lambda>av. v_stake_table_key (snd av)) (rs_validators st))
     \<and> (\<lambda>av. v_stake_table_key (snd av)) ` set (rs_validators st) \<subseteq> rs_bls_keys st"

fun is_key_update :: "('b, 'c, 'g) StakeTableEvent \<Rightarrow> bool" where
  "is_key_update (KeyUpdate a b c) = True"
| "is_key_update (KeyUpdateV2 a b c g) = True"
| "is_key_update _ = False"

lemma keys_inv_update:
  assumes "keys_inv st" "map_of (rs_validators st) a = Some v"
    "v_stake_table_key v' = v_stake_table_key v"
  shows "keys_inv (st\<lparr>rs_validators := AList.update a v' (rs_validators st)\<rparr>)"
proof -
  have eq: "map (\<lambda>av. v_stake_table_key (snd av)) (AList.update a v' (rs_validators st))
      = map (\<lambda>av. v_stake_table_key (snd av)) (rs_validators st)"
    using assms(2,3) by (rule map_value_update)
  then have "(\<lambda>av. v_stake_table_key (snd av)) ` set (AList.update a v' (rs_validators st))
      = (\<lambda>av. v_stake_table_key (snd av)) ` set (rs_validators st)"
    by (metis set_map)
  then show ?thesis using assms(1) eq by (simp add: keys_inv_def)
qed

lemma register_validator_keys:
  "keys_inv st \<Longrightarrow> register_validator env a b s c st = Ok st' \<Longrightarrow> keys_inv st'"
  by (auto simp: register_validator_def keys_inv_def image_subset_iff Let_def
      split: if_splits option.splits) (metis snd_conv)+

lemma apply_event_keys:
  assumes inv: "keys_inv st" and run: "apply_event env e st = Ok st'" and e: "\<not> is_key_update e"
  shows "keys_inv st'"
proof (cases e)
  case (Register account bls schnorr commission)
  then show ?thesis using register_validator_keys [OF inv] run by simp
next
  case (RegisterV2 account bls schnorr commission sigs)
  then show ?thesis using register_validator_keys [OF inv] run by (simp split: if_splits)
next
  case (Deregister validator)
  then have "st' = st\<lparr>rs_validators := AList.delete validator (rs_validators st)\<rparr>"
    using run by (auto split: option.splits)
  then show ?thesis using inv by (auto simp: keys_inv_def AList.delete_eq distinct_map_filter)
next
  case (Delegate delegator validator amount)
  then show ?thesis using run inv
    by (auto simp: delegate_to_def intro: keys_inv_update split: option.splits if_splits)
next
  case (Undelegate delegator validator amount)
  then show ?thesis using run inv
    by (auto simp: try_bind_Inr_iff undelegate_from_def intro!: keys_inv_update
        split: option.splits if_splits)
qed (use e in simp_all)

lemma replay_keys:
  "replay env events st = Ok st' \<Longrightarrow> keys_inv st \<Longrightarrow> \<forall>e \<in> set events. \<not> is_key_update e \<Longrightarrow> keys_inv st'"
  by (induction env events st rule: replay.induct)
    (auto simp: try_bind_Inr_iff dest: apply_event_keys)

text \<open>
  As long as the history has no key update, no two registered validators share a BLS key.
\<close>

theorem bls_keys_distinct_without_key_updates:
  assumes "validators_from_l1_events env events = Ok vs" "\<forall>e \<in> set events. \<not> is_key_update e"
  shows "distinct (map (\<lambda>av. v_stake_table_key (snd av)) vs)"
proof -
  have "keys_inv replay_new" by (simp add: keys_inv_def replay_new_def)
  then show ?thesis
    using assms replay_keys
    by (fastforce simp: validators_from_l1_events_def try_bind_Inr_iff keys_inv_def)
qed

text \<open>
  A key update does not enter the new key into the set of used keys, so a later registration with
  that key is accepted and two validators hold the same BLS key.
\<close>

lemma key_update_permits_bls_key_reuse:
  assumes "a \<noteq> b" "ee_bls env k1 \<noteq> ee_bls env k2"
  shows "\<exists>v w. validators_from_l1_events env
      [Register a k1 s c, KeyUpdate a k2 s, Register b k2 s c] = Ok [(a, v), (b, w)]
    \<and> v_stake_table_key v = v_stake_table_key w"
  using assms
  by (auto simp: validators_from_l1_events_def replay_new_def register_validator_def set_keys_def Let_def)

section \<open>The block ranges of the queries\<close>

text \<open>
  The iterator over block ranges ends, its ranges cover the requested blocks exactly once and in
  order, and none is longer than the configured maximum.
\<close>

theorem chunks_cover:
  assumes "0 < sz" "unat end' + unat sz + 1 < 2 ^ 64" "unat start \<le> Suc (unat end')"
    and "Suc (unat end') - unat start < fuel"
  shows "\<exists>cs. chunks fuel start end' sz = Some cs
    \<and> concat (map (\<lambda>(f, t). [unat f..<Suc (unat t)]) cs) = [unat start..<Suc (unat end')]
    \<and> (\<forall>(f, t) \<in> set cs. f \<le> t \<and> unat t - unat f < unat sz)"
  using assms(3,4)
proof (induction fuel arbitrary: start)
  case (Suc fuel)
  have size: "0 < unat sz" using assms(1) by (simp add: unat_gt_0)
  show ?case
  proof (cases "unat start = Suc (unat end')")
    case True
    then have "end' < start" by (simp add: word_less_nat_alt)
    then have "min (start + sz - 1) end' < start" by (simp add: min_less_iff_disj)
    then show ?thesis using True by simp
  next
    case False
    define e where "e = min (start + sz - 1) end'"
    have s: "unat start \<le> unat end'" using Suc.prems False by simp
    have "unat (start + sz) = unat start + unat sz"
      by (rule unat_add_no_overflow) (use s assms(2) in \<open>simp add: len64\<close>)
    then have "unat (start + sz - 1) = unat start + unat sz - 1"
      using size by (subst unat_sub) (simp_all add: word_le_nat_alt)
    then have ue: "unat e = min (unat start + unat sz - 1) (unat end')"
      by (simp add: e_def min_def word_le_nat_alt)
    have ue_le: "unat e \<le> unat end'" by (simp add: ue)
    have se: "unat start \<le> unat e" using ue s size by simp
    have u1: "unat (e + 1) = Suc (unat e)"
      using unat_add_no_overflow [of e 1] ue assms(2) by simp
    have "unat (e + 1) \<le> Suc (unat end')" "Suc (unat end') - unat (e + 1) < fuel"
      using u1 ue_le se s Suc.prems by auto
    from Suc.IH [OF this] obtain cs where cs: "chunks fuel (e + 1) end' sz = Some cs"
      "concat (map (\<lambda>(f, t). [unat f..<Suc (unat t)]) cs) = [unat (e + 1)..<Suc (unat end')]"
      "\<forall>(f, t) \<in> set cs. f \<le> t \<and> unat t - unat f < unat sz" by blast
    have "\<not> e < start" using se by (simp add: word_less_nat_alt)
    then have "chunks (Suc fuel) start end' sz = Some ((start, e) # cs)"
      using cs(1) by (simp add: Let_def e_def [symmetric])
    moreover have "[unat start..<Suc (unat e)] @ [Suc (unat e)..<Suc (unat end')]
        = [unat start..<Suc (unat end')]"
      using upt_add_eq_append [of "unat start" "Suc (unat e)" "unat end' - unat e"] se ue_le by simp
    moreover have "start \<le> e" "unat e - unat start < unat sz"
      using se ue size by (auto simp: word_le_nat_alt)
    ultimately show ?thesis using cs(2,3) u1 by simp
  qed
qed simp

section \<open>Witnesses\<close>

definition id_env :: "(nat, nat, unit, nat, nat) EventEnv" where
  "id_env = \<lparr>ee_bls = (\<lambda>b. b), ee_schnorr = (\<lambda>c. c), ee_authenticate = (\<lambda>a b c g. True)\<rparr>"

definition sample_events :: "(nat, nat, unit) StakeTableEvent list" where
  "sample_events = [Register 1 11 21 100, RegisterV2 2 12 22 100 (), Delegate 7 1 5000,
     Delegate 8 1 2000, Delegate 7 2 4, Undelegate 8 1 2000]"

definition sample_validators :: "(nat, nat) ValidatorMap" where
  "sample_validators =
     [(1, \<lparr>v_account = 1, v_stake_table_key = 11, v_state_ver_key = 21, v_stake = 5000,
           v_commission = 100, v_delegators = [(7, 5000)]\<rparr>),
      (2, \<lparr>v_account = 2, v_stake_table_key = 12, v_state_ver_key = 22, v_stake = 4,
           v_commission = 100, v_delegators = [(7, 4)]\<rparr>)]"

lemma sample_replay: "validators_from_l1_events id_env sample_events = Ok sample_validators"
  by (simp add: validators_from_l1_events_def sample_events_def sample_validators_def replay_new_def
      register_validator_def id_env_def delegate_to_def undelegate_from_def checked_sub_def Let_def)

theorem replayed_stake_is_net_delegation_witness:
  "\<forall>d. amount_of [(7, 5000)] d = net_delegation sample_events 1 d"
  using replayed_stake_is_net_delegation [OF sample_replay, of 1 "snd (hd sample_validators)"]
  by (simp add: sample_validators_def)

theorem active_validators_are_the_top_stakers_witness:
  "\<exists>sel. select_active_validator_set sample_validators = Ok sel
     \<and> length sel \<le> MAX_ACTIVE_VALIDATORS \<and> sel \<noteq> []"
proof -
  have "is_ok (select_active_validator_set sample_validators)" by code_simp
  then obtain sel where "select_active_validator_set sample_validators = Ok sel" by (auto simp: is_ok_iff)
  then show ?thesis
    using active_validators_are_the_top_stakers [of sample_validators sel]
    by (simp add: sample_validators_def)
qed

theorem bls_keys_distinct_without_key_updates_witness:
  "distinct (map (\<lambda>av. v_stake_table_key (snd av)) sample_validators)"
  by (rule bls_keys_distinct_without_key_updates [OF sample_replay]) (simp add: sample_events_def)

theorem chunks_cover_witness:
  "\<exists>cs. chunks 20 3 9 4 = Some cs
     \<and> concat (map (\<lambda>(f, t). [unat f..<Suc (unat t)]) cs) = [3..<10]"
  using chunks_cover [of 4 9 3 20] by auto

end
