(* ===== verification/Epoch_Committees.thy ===== *)
theory Epoch_Committees
  imports Stake_Events Drb Vote_Accumulator
begin

text \<open>
  \<open>EpochCommittees\<close>, the \<open>Membership\<close> implementation of the sequencer
  (\<open>types/src/v0/impls/stake_table.rs\<close>): the committees of each epoch, the randomized committees
  that elect leaders, the thresholds, and the view of one epoch that consensus is given
  (\<open>EpochMembership\<close> of \<open>crates/hotshot/types/src/epoch_membership.rs\<close>). It interprets the contract
  \<open>stake_membership\<close>, from which the intersection of quorums follows for its certificates. The hashes
  and the byte encoding of keys are parameters; fetching from L1 is \<open>fetch\<close> of \<open>Stake_Events\<close>.
\<close>

section \<open>State\<close>

record ('k, 's) NonEpochCommittee =
  nec_eligible_leaders :: "('k, 's) PeerConfig list"
  nec_stake_table :: "('k, 's) PeerConfig list"
  nec_da_members :: "('k, 's) PeerConfig list"
  nec_indexed_stake_table :: "'k \<rightharpoonup> ('k, 's) PeerConfig"
  nec_indexed_da_members :: "'k \<rightharpoonup> ('k, 's) PeerConfig"

record ('k, 's) EpochCommittee =
  ec_eligible_leaders :: "('k, 's) PeerConfig list"
  ec_stake_table :: "('k \<times> ('k, 's) PeerConfig) list"
  ec_validators :: "('k, 's) ValidatorMap"
  ec_address_mapping :: "'k \<rightharpoonup> address"

record ('k, 's) EpochCommittees =
  non_epoch_committee :: "('k, 's) NonEpochCommittee"
  committees :: "u64 \<rightharpoonup> ('k, 's) EpochCommittee"
  randomized_committees :: "(u64, 'k RandomizedCommittee) btree"
  ecs_first_epoch :: "u64 option"

text \<open>The hash of the stake table and of the leader draw, and the bytes of a key.\<close>

record 'k HashEnv =
  he_sha256 :: "u8 list \<Rightarrow> u8 list"
  he_sha512 :: "u8 list \<Rightarrow> u8 list"
  he_to_bytes :: "'k \<Rightarrow> u8 list"

section \<open>Construction and updates\<close>

text \<open>Collecting into an \<open>IndexMap\<close>: a repeated key keeps its place and takes the last value.\<close>

definition collect_index_map :: "('a \<times> 'b) list \<Rightarrow> ('a \<times> 'b) list" where
  "collect_index_map kvs = foldl (\<lambda>m (k, v). AList.update k v m) [] kvs"

definition collect_hash_map :: "('a \<times> 'b) list \<Rightarrow> 'a \<rightharpoonup> 'b" where
  "collect_hash_map kvs = foldl (\<lambda>m (k, v). m(k \<mapsto> v)) Map.empty kvs"

definition peer_key :: "('k, 's) PeerConfig \<Rightarrow> 'k" where
  "peer_key peer = stake_key (stake_table_entry peer)"

definition peer_of_validator :: "('k, 's) Validator \<Rightarrow> ('k, 's) PeerConfig" where
  "peer_of_validator v =
     \<lparr>stake_table_entry = \<lparr>stake_key = v_stake_table_key v, stake_amount = v_stake v\<rparr>,
      state_ver_key = v_state_ver_key v\<rparr>"

definition update_stake_table ::
  "u64 \<Rightarrow> ('k, 's) ValidatorMap \<Rightarrow> ('k, 's) EpochCommittees \<Rightarrow> ('k, 's) EpochCommittees" where
  "update_stake_table epoch validators self =
     (let stake_table' = collect_index_map
            (map (\<lambda>(_, v). (v_stake_table_key v, peer_of_validator v)) validators)
      in self\<lparr>committees := (committees self)(epoch \<mapsto>
           \<lparr>ec_eligible_leaders = map snd stake_table', ec_stake_table = stake_table',
            ec_validators = validators,
            ec_address_mapping =
              collect_hash_map (map (\<lambda>(_, v). (v_stake_table_key v, v_account v)) validators)\<rparr>)\<rparr>)"

definition new_stake ::
  "('k, 's) PeerConfig list \<Rightarrow> ('k, 's) PeerConfig list \<Rightarrow> ('k, 's) EpochCommittees" where
  "new_stake committee_members' da_members' =
     (let staked = (\<lambda>peer. stake_amount (stake_table_entry peer) > 0);
          stake_table' = filter staked committee_members';
          da = filter staked da_members';
          index = (\<lambda>peers. map (\<lambda>peer. (peer_key peer, peer)) peers);
          members = \<lparr>nec_eligible_leaders = stake_table', nec_stake_table = stake_table',
                     nec_da_members = da,
                     nec_indexed_stake_table = collect_hash_map (index stake_table'),
                     nec_indexed_da_members = collect_hash_map (index da)\<rparr>;
          epoch_committee = \<lparr>ec_eligible_leaders = nec_eligible_leaders members,
                             ec_stake_table = collect_index_map (index (nec_stake_table members)),
                             ec_validators = [], ec_address_mapping = Map.empty\<rparr>
      in \<lparr>non_epoch_committee = members,
          committees = [0 \<mapsto> epoch_committee, 0 + 1 \<mapsto> epoch_committee],
          randomized_committees = [], ecs_first_epoch = None\<rparr>)"

text \<open>\<open>loaded\<close> is what the persistence returned: \<open>None\<close> when there was none or on an error.\<close>

definition reload_stake ::
  "(u64 \<times> ('k, 's) ValidatorMap) list option \<Rightarrow> ('k, 's) EpochCommittees
     \<Rightarrow> ('k, 's) EpochCommittees" where
  "reload_stake loaded self =
     (case loaded of
        None \<Rightarrow> self
      | Some loaded_stake \<Rightarrow>
          foldl (\<lambda>s (epoch, validators). update_stake_table epoch validators s) self loaded_stake)"

definition add_drb_result ::
  "'k HashEnv \<Rightarrow> u64 \<Rightarrow> u8 list \<Rightarrow> ('k, 's) EpochCommittees \<Rightarrow> ('k, 's) EpochCommittees" where
  "add_drb_result henv epoch drb self =
     (case committees self epoch of
        None \<Rightarrow> self
      | Some raw_stake_table \<Rightarrow>
          self\<lparr>randomized_committees := bt_insert epoch
             (generate_stake_cdf (he_sha256 henv) (he_to_bytes henv)
                (map stake_table_entry (ec_eligible_leaders raw_stake_table)) drb)
             (randomized_committees self)\<rparr>)"

text \<open>\<open>set_first_epoch\<close> unwraps the committee of the genesis epoch: \<open>None\<close> is its panic.\<close>

definition set_first_epoch ::
  "'k HashEnv \<Rightarrow> u64 \<Rightarrow> u8 list \<Rightarrow> ('k, 's) EpochCommittees \<Rightarrow> ('k, 's) EpochCommittees option" where
  "set_first_epoch henv epoch initial_drb_result self =
     (case committees self 0 of
        None \<Rightarrow> None
      | Some epoch_committee \<Rightarrow>
          Some (add_drb_result henv (epoch + 1) initial_drb_result
            (add_drb_result henv epoch initial_drb_result
              (self\<lparr>ecs_first_epoch := Some epoch,
                    committees := (committees self)(epoch \<mapsto> epoch_committee,
                                                   epoch + 1 \<mapsto> epoch_committee)\<rparr>))))"

text \<open>
  \<open>add_epoch_root\<close> does nothing when the table is there, else fetches it and returns the update to
  run under the write lock; \<open>fetched\<close> is the result of \<open>fetch\<close>.
\<close>

definition add_epoch_root ::
  "u64 \<Rightarrow> (StakeTableError, ('k, 's) ValidatorMap) result \<Rightarrow> ('k, 's) EpochCommittees
     \<Rightarrow> (StakeTableError, ('k, 's) EpochCommittees) result" where
  "add_epoch_root epoch fetched self =
     (case committees self epoch of
        Some _ \<Rightarrow> Ok self
      | None \<Rightarrow> try_bind fetched (\<lambda>stake_tables. Ok (update_stake_table epoch stake_tables self)))"

section \<open>Queries\<close>

definition get_stake_table ::
  "('k, 's) EpochCommittees \<Rightarrow> u64 option \<Rightarrow> ('k, 's) PeerConfig list option" where
  "get_stake_table self epoch =
     (case epoch of
        Some e \<Rightarrow> map_option (\<lambda>committee. map snd (ec_stake_table committee)) (committees self e)
      | None \<Rightarrow> Some (nec_stake_table (non_epoch_committee self)))"

definition stake_table :: "('k, 's) EpochCommittees \<Rightarrow> u64 option \<Rightarrow> ('k, 's) HSStakeTable" where
  "stake_table self epoch = (case get_stake_table self epoch of Some t \<Rightarrow> t | None \<Rightarrow> [])"

definition da_stake_table :: "('k, 's) EpochCommittees \<Rightarrow> u64 option \<Rightarrow> ('k, 's) HSStakeTable" where
  "da_stake_table self epoch = nec_da_members (non_epoch_committee self)"

definition committee_members :: "('k, 's) EpochCommittees \<Rightarrow> u64 option \<Rightarrow> 'k set" where
  "committee_members self epoch = set (map peer_key (stake_table self epoch))"

definition da_committee_members :: "('k, 's) EpochCommittees \<Rightarrow> 'k set" where
  "da_committee_members self = dom (nec_indexed_da_members (non_epoch_committee self))"

definition member_stake ::
  "('k, 's) EpochCommittees \<Rightarrow> 'k \<Rightarrow> u64 option \<Rightarrow> ('k, 's) PeerConfig option" where
  "member_stake self pub_key epoch =
     (case epoch of
        Some e \<Rightarrow> Option.bind (committees self e) (\<lambda>h. map_of (ec_stake_table h) pub_key)
      | None \<Rightarrow> nec_indexed_stake_table (non_epoch_committee self) pub_key)"

definition member_da_stake ::
  "('k, 's) EpochCommittees \<Rightarrow> 'k \<Rightarrow> u64 option \<Rightarrow> ('k, 's) PeerConfig option" where
  "member_da_stake self pub_key epoch = nec_indexed_da_members (non_epoch_committee self) pub_key"

definition has_stake :: "('k, 's) EpochCommittees \<Rightarrow> 'k \<Rightarrow> u64 option \<Rightarrow> bool" where
  "has_stake self pub_key epoch =
     (case member_stake self pub_key epoch of
        Some x \<Rightarrow> stake_amount (stake_table_entry x) > 0 | None \<Rightarrow> False)"

definition has_da_stake :: "('k, 's) EpochCommittees \<Rightarrow> 'k \<Rightarrow> u64 option \<Rightarrow> bool" where
  "has_da_stake self pub_key epoch =
     (case member_da_stake self pub_key epoch of
        Some x \<Rightarrow> stake_amount (stake_table_entry x) > 0 | None \<Rightarrow> False)"

datatype LeaderLookupError = LeaderLookupError

text \<open>The outer \<open>None\<close> is a panic: an empty list of leaders, or an empty randomized committee.\<close>

definition lookup_leader ::
  "'k HashEnv \<Rightarrow> ('k, 's) EpochCommittees \<Rightarrow> u64 \<Rightarrow> u64 option
     \<Rightarrow> (LeaderLookupError, 'k) result option" where
  "lookup_leader henv self view_number epoch =
     (case (ecs_first_epoch self, epoch) of
        (Some first_epoch, Some e) \<Rightarrow>
          (if e < first_epoch then Some (Err LeaderLookupError)
           else case bt_get (randomized_committees self) e of
             None \<Rightarrow> Some (Err LeaderLookupError)
           | Some randomized_committee \<Rightarrow>
               map_option (\<lambda>entry. Ok (stake_key entry))
                 (select_randomized_leader (he_sha512 henv) randomized_committee view_number))
      | (_, None) \<Rightarrow>
          (let leaders = nec_eligible_leaders (non_epoch_committee self) in
           if leaders = [] then None
           else Some (Ok (peer_key (leaders ! (unat view_number mod length leaders)))))
      | (None, Some e) \<Rightarrow> Some (Err LeaderLookupError))"

definition total_nodes :: "('k, 's) EpochCommittees \<Rightarrow> u64 option \<Rightarrow> nat" where
  "total_nodes self epoch = length (stake_table self epoch)"

definition da_total_nodes :: "('k, 's) EpochCommittees \<Rightarrow> u64 option \<Rightarrow> nat" where
  "da_total_nodes self epoch = length (da_stake_table self epoch)"

definition total_stake :: "('k, 's) EpochCommittees \<Rightarrow> u64 option \<Rightarrow> u256" where
  "total_stake self epoch =
     foldl (\<lambda>acc entry. acc + stake_amount (stake_table_entry entry)) 0 (stake_table self epoch)"

definition total_da_stake :: "('k, 's) EpochCommittees \<Rightarrow> u64 option \<Rightarrow> u256" where
  "total_da_stake self epoch =
     foldl (\<lambda>acc entry. acc + stake_amount (stake_table_entry entry)) 0 (da_stake_table self epoch)"

definition two_thirds_threshold :: "u256 \<Rightarrow> u256" where
  "two_thirds_threshold tot =
     (if tot < - 1 div 2 then (tot * 2) div 3 + 1 else (tot div 3) * 2 + 2)"

definition success_threshold :: "('k, 's) EpochCommittees \<Rightarrow> u64 option \<Rightarrow> u256" where
  "success_threshold self epoch = two_thirds_threshold (total_stake self epoch)"

definition da_success_threshold :: "('k, 's) EpochCommittees \<Rightarrow> u64 option \<Rightarrow> u256" where
  "da_success_threshold self epoch = two_thirds_threshold (total_da_stake self epoch)"

definition failure_threshold :: "('k, 's) EpochCommittees \<Rightarrow> u64 option \<Rightarrow> u256" where
  "failure_threshold self epoch = total_stake self epoch div 3 + 1"

definition upgrade_threshold :: "('k, 's) EpochCommittees \<Rightarrow> u64 option \<Rightarrow> u256" where
  "upgrade_threshold self epoch =
     (let tot = total_stake self epoch;
          higher_threshold = (if tot < - 1 div 9 then (tot * 9) div 10 else (tot div 10) * 9)
      in max higher_threshold (success_threshold self epoch))"

definition has_stake_table :: "('k, 's) EpochCommittees \<Rightarrow> u64 \<Rightarrow> bool" where
  "has_stake_table self epoch = (committees self epoch \<noteq> None)"

datatype EpochLookupError = FirstEpochNotSet | EpochBeforeFirst | NoCommittee | UnknownBlsKey
  | UnknownValidator

definition has_randomized_stake_table ::
  "('k, 's) EpochCommittees \<Rightarrow> u64 \<Rightarrow> (EpochLookupError, bool) result" where
  "has_randomized_stake_table self epoch =
     (case ecs_first_epoch self of
        None \<Rightarrow> Err FirstEpochNotSet
      | Some first_epoch \<Rightarrow>
          (if epoch < first_epoch then Err EpochBeforeFirst
           else Ok (bt_contains_key (randomized_committees self) epoch)))"

definition committee_validators ::
  "('k, 's) EpochCommittees \<Rightarrow> u64 \<Rightarrow> (EpochLookupError, ('k, 's) ValidatorMap) result" where
  "committee_validators self epoch =
     (case committees self epoch of None \<Rightarrow> Err NoCommittee | Some c \<Rightarrow> Ok (ec_validators c))"

definition committee_address ::
  "('k, 's) EpochCommittees \<Rightarrow> u64 \<Rightarrow> 'k \<Rightarrow> (EpochLookupError, address) result" where
  "committee_address self epoch bls_key =
     (case committees self epoch of
        None \<Rightarrow> Err NoCommittee
      | Some c \<Rightarrow>
         (case ec_address_mapping c bls_key of None \<Rightarrow> Err UnknownBlsKey | Some a \<Rightarrow> Ok a))"

definition get_validator_config ::
  "('k, 's) EpochCommittees \<Rightarrow> u64 \<Rightarrow> 'k \<Rightarrow> (EpochLookupError, ('k, 's) Validator) result" where
  "get_validator_config self epoch key =
     try_bind (committee_address self epoch key) (\<lambda>a.
     try_bind (committee_validators self epoch) (\<lambda>vs.
       case map_of vs a of None \<Rightarrow> Err UnknownValidator | Some v \<Rightarrow> Ok v))"

text \<open>
  The view of one epoch that \<open>EpochMembership\<close> gives to consensus: every method passes the epoch to
  the committees. A panic of \<open>lookup_leader\<close> and its error are both \<open>None\<close>.
\<close>

definition epoch_membership ::
  "('k::linorder) HashEnv \<Rightarrow> ('k, 's) EpochCommittees \<Rightarrow> u64 option \<Rightarrow> ('k, 's) EpochMembership" where
  "epoch_membership henv self epoch =
     \<lparr>em_epoch = epoch, em_stake_table = stake_table self epoch,
      em_da_stake_table = da_stake_table self epoch,
      em_stake = (\<lambda>k. member_stake self k epoch), em_da_stake = (\<lambda>k. member_da_stake self k epoch),
      em_has_stake = (\<lambda>k. has_stake self k epoch),
      em_da_committee_members = (\<lambda>view. sorted_list_of_set (da_committee_members self)),
      em_total_nodes = total_nodes self epoch, em_da_total_nodes = da_total_nodes self epoch,
      em_success_threshold = success_threshold self epoch,
      em_da_success_threshold = da_success_threshold self epoch,
      em_failure_threshold = failure_threshold self epoch,
      em_upgrade_threshold = upgrade_threshold self epoch,
      em_leader = (\<lambda>view. case lookup_leader henv self view epoch of
                            Some (Inr k) \<Rightarrow> Some k | _ \<Rightarrow> None)\<rparr>"

section \<open>Thresholds\<close>

lemma max_div: "unat (- 1 div n :: u256) = (2 ^ 256 - 1) div unat n"
  by (simp add: unat_div unsigned_minus_1_eq_mask mask_eq_exp_minus_1)

lemma unat_lt_256: "unat (x :: u256) < 2 ^ 256"
  using unsigned_less [of x] by simp

lemma two_thirds_threshold_gt: "2 * unat tot < 3 * unat (two_thirds_threshold tot)"
proof (cases "tot < - 1 div 2")
  case True
  have "unat tot < unat (- 1 div 2 :: u256)" using True by (simp add: word_less_nat_alt)
  then have b: "unat tot < (2 ^ 256 - 1) div 2" unfolding max_div by simp
  have m: "unat (tot * 2) = unat tot * 2"
    using unat_mult_no_overflow [of tot 2] b by simp
  have d: "unat ((tot * 2) div 3) = (unat tot * 2) div 3" by (simp add: unat_div m)
  have "unat ((tot * 2) div 3 + 1) = (unat tot * 2) div 3 + 1"
    using unat_add_no_overflow [of "(tot * 2) div 3" 1] b by (simp add: d)
  then show ?thesis using True by (simp add: two_thirds_threshold_def)
next
  case False
  have d: "unat (tot div 3) = unat tot div 3" by (simp add: unat_div)
  have m: "unat (tot div 3 * 2) = unat tot div 3 * 2"
    using unat_mult_no_overflow [of "tot div 3" 2] unat_lt_256 [of tot] by (simp add: d)
  have "unat (tot div 3 * 2 + 2) = unat tot div 3 * 2 + 2"
    using unat_add_no_overflow [of "tot div 3 * 2" 2] unat_lt_256 [of tot] by (simp add: m)
  then show ?thesis using False by (simp add: two_thirds_threshold_def)
qed

lemma one_third_threshold_gt: "unat tot < 3 * unat (tot div 3 + 1 :: u256)"
proof -
  have "unat (tot div 3 + 1) = unat tot div 3 + 1"
    using unat_add_no_overflow [of "tot div 3" 1] unat_lt_256 [of tot] by (simp add: unat_div)
  then show ?thesis by simp
qed

lemma unat_total_stake:
  "stake_fits (stake_table_entries (stake_table self epoch)) \<Longrightarrow>
   unat (total_stake self epoch) = stake_sum (stake_table_entries (stake_table self epoch))"
  using unat_total_stakes [of "stake_table self epoch"]
  by (simp add: total_stake_def foldl_add_sum_list total_stakes_def)

lemma unat_total_da_stake:
  "stake_fits (stake_table_entries (da_stake_table self epoch)) \<Longrightarrow>
   unat (total_da_stake self epoch) = stake_sum (stake_table_entries (da_stake_table self epoch))"
  using unat_total_stakes [of "da_stake_table self epoch"]
  by (simp add: total_da_stake_def foldl_add_sum_list total_stakes_def)

interpretation quorum: stake_membership
  "\<lambda>(self, epoch). stake_table self epoch" "\<lambda>(self, epoch). success_threshold self epoch"
  "\<lambda>(self, epoch). failure_threshold self epoch" "\<lambda>(self, epoch). upgrade_threshold self epoch"
proof (unfold_locales, goal_cases)
  case (1 m)
  then show ?case
    using two_thirds_threshold_gt [of "total_stake (fst m) (snd m)"]
    by (simp add: success_threshold_def unat_total_stake split: prod.splits)
next
  case (2 m)
  then show ?case
    using one_third_threshold_gt [of "total_stake (fst m) (snd m)"]
    by (simp add: failure_threshold_def unat_total_stake split: prod.splits)
next
  case (3 m)
  then show ?case by (simp add: upgrade_threshold_def Let_def split: prod.splits)
qed

text \<open>The DA committee has no threshold of its own for failures and upgrades; consensus uses the success threshold.\<close>

interpretation da_quorum: stake_membership
  "\<lambda>(self, epoch). da_stake_table self epoch" "\<lambda>(self, epoch). da_success_threshold self epoch"
  "\<lambda>(self, epoch). da_success_threshold self epoch" "\<lambda>(self, epoch). da_success_threshold self epoch"
proof (unfold_locales, goal_cases)
  case (1 m)
  then show ?case
    using two_thirds_threshold_gt [of "total_da_stake (fst m) (snd m)"]
    by (simp add: da_success_threshold_def unat_total_da_stake split: prod.splits)
next
  case (2 m)
  then show ?case
    using two_thirds_threshold_gt [of "total_da_stake (fst m) (snd m)"]
    by (simp add: da_success_threshold_def unat_total_da_stake split: prod.splits)
qed simp

section \<open>Quorum intersection\<close>

text \<open>
  C1: Two valid certificates checked against the stake table and success threshold of the same epoch, over
  whatever data, carry aggregate signatures of signer sets that have more than a third of the stake
  in common.
\<close>

theorem valid_certificates_share_a_third_of_the_stake:
  assumes fits: "stake_fits (stake_table_entries (stake_table self epoch))"
    and v1: "is_valid_cert msv vc1 cert1 (stake_table_entries (stake_table self epoch))
        (success_threshold self epoch) lock = Ok ()" "cert_view_number cert1 \<noteq> 0"
    and v2: "is_valid_cert msv vc2 cert2 (stake_table_entries (stake_table self epoch))
        (success_threshold self epoch) lock = Ok ()" "cert_view_number cert2 \<noteq> 0"
  shows "\<exists>sig1 bs1 sig2 bs2. cert_signatures cert1 = Some (sig1, bs1)
    \<and> cert_signatures cert2 = Some (sig2, bs2)
    \<and> msv (ver_keys (stake_table_entries (stake_table self epoch)) bs1)
        (vc1 (cert_data cert1) (cert_view_number cert1)) sig1 = Ok ()
    \<and> msv (ver_keys (stake_table_entries (stake_table self epoch)) bs2)
        (vc2 (cert_data cert2) (cert_view_number cert2)) sig2 = Ok ()
    \<and> stake_sum (stake_table_entries (stake_table self epoch))
        < 3 * stake_sum (selected (stake_table_entries (stake_table self epoch))
                           (common_signers bs1 bs2))"
proof -
  let ?es = "stake_table_entries (stake_table self epoch)"
  obtain sig1 bs1 where 1: "cert_signatures cert1 = Some (sig1, bs1)" "length bs1 = length ?es"
      "unat (success_threshold self epoch) \<le> stake_sum (selected ?es bs1)"
      "msv (ver_keys ?es bs1) (vc1 (cert_data cert1) (cert_view_number cert1)) sig1 = Ok ()"
    using v1 by (auto simp: is_valid_cert_Inr_iff word_le_nat_alt unat_total_weight [OF fits])
  obtain sig2 bs2 where 2: "cert_signatures cert2 = Some (sig2, bs2)" "length bs2 = length ?es"
      "unat (success_threshold self epoch) \<le> stake_sum (selected ?es bs2)"
      "msv (ver_keys ?es bs2) (vc2 (cert_data cert2) (cert_view_number cert2)) sig2 = Ok ()"
    using v2 by (auto simp: is_valid_cert_Inr_iff word_le_nat_alt unat_total_weight [OF fits])
  have "stake_sum ?es < 3 * stake_sum (selected ?es (common_signers bs1 bs2))"
    using quorum.quorums_overlap [of "(self, epoch)" bs1 bs2] fits 1 2
    by (simp add: stake_table_entries_def)
  with 1 2 show ?thesis by blast
qed

section \<open>The committees are well formed\<close>

lemma index_map_fold:
  assumes "distinct (map fst m)"
  shows "distinct (map fst (foldl (\<lambda>m (k, v). AList.update k v m) m kvs))
    \<and> set (foldl (\<lambda>m (k, v). AList.update k v m) m kvs) \<subseteq> set m \<union> set kvs"
  using assms
proof (induction kvs arbitrary: m)
  case (Cons kv kvs)
  obtain k v where kv: "kv = (k, v)" by fastforce
  have d: "distinct (map fst (AList.update k v m))" using Cons.prems by (rule distinct_update)
  have sub: "set (AList.update k v m) \<subseteq> insert (k, v) (set m)" by (induction m) auto
  show ?case using Cons.IH [OF d] sub by (auto simp: kv)
qed simp

lemma collect_index_map_props:
  "distinct (map fst (collect_index_map kvs))" "set (collect_index_map kvs) \<subseteq> set kvs"
  using index_map_fold [of "[]" kvs] by (simp_all add: collect_index_map_def)

lemma hash_map_fold:
  "foldl (\<lambda>m (k, v). m(k \<mapsto> v)) m kvs k = Some v \<Longrightarrow> m k = Some v \<or> (k, v) \<in> set kvs"
proof (induction kvs arbitrary: m)
  case (Cons kv kvs)
  obtain k' v' where kv: "kv = (k', v')" by fastforce
  from Cons.prems Cons.IH [of "m(k' \<mapsto> v')"] show ?case by (auto simp: kv split: if_splits)
qed simp

lemma collect_hash_map_in: "collect_hash_map kvs k = Some v \<Longrightarrow> (k, v) \<in> set kvs"
  using hash_map_fold [of Map.empty kvs k v] by (simp add: collect_hash_map_def)

definition indexed_by_key :: "('k \<times> ('k, 's) PeerConfig) list \<Rightarrow> bool" where
  "indexed_by_key table \<longleftrightarrow> distinct (map fst table) \<and> (\<forall>(k, p) \<in> set table. peer_key p = k)"

definition committees_wf :: "('k, 's) EpochCommittees \<Rightarrow> bool" where
  "committees_wf s \<longleftrightarrow>
     (\<forall>e c. committees s e = Some c \<longrightarrow> indexed_by_key (ec_stake_table c))
     \<and> (\<forall>k p. nec_indexed_stake_table (non_epoch_committee s) k = Some p \<longrightarrow>
          peer_key p = k \<and> p \<in> set (nec_stake_table (non_epoch_committee s)))
     \<and> (\<forall>k p. nec_indexed_da_members (non_epoch_committee s) k = Some p \<longrightarrow>
          peer_key p = k \<and> p \<in> set (nec_da_members (non_epoch_committee s)))
     \<and> committees s 0 \<noteq> None"

inductive committees_reachable :: "'k HashEnv \<Rightarrow> ('k, 's) EpochCommittees \<Rightarrow> bool"
  for henv :: "'k HashEnv" where
  cr_new: "committees_reachable henv (new_stake members das)"
| cr_reload: "committees_reachable henv s \<Longrightarrow> committees_reachable henv (reload_stake loaded s)"
| cr_epoch_root: "committees_reachable henv s \<Longrightarrow> add_epoch_root epoch fetched s = Ok s' \<Longrightarrow>
    committees_reachable henv s'"
| cr_drb: "committees_reachable henv s \<Longrightarrow> committees_reachable henv (add_drb_result henv epoch drb s)"
| cr_first_epoch: "committees_reachable henv s \<Longrightarrow> set_first_epoch henv epoch drb s = Some s' \<Longrightarrow>
    committees_reachable henv s'"

lemma indexed_by_key_index: "indexed_by_key (collect_index_map (map (\<lambda>p. (peer_key p, p)) ps))"
  using collect_index_map_props [of "map (\<lambda>p. (peer_key p, p)) ps"]
  by (auto simp: indexed_by_key_def)

lemma update_stake_table_wf: "committees_wf s \<Longrightarrow> committees_wf (update_stake_table e vs s)"
proof -
  let ?kvs = "map (\<lambda>(_, v). (v_stake_table_key v, peer_of_validator v)) vs"
  have "indexed_by_key (collect_index_map ?kvs)"
    using collect_index_map_props [of ?kvs]
    by (fastforce simp: indexed_by_key_def peer_key_def peer_of_validator_def)
  then show "committees_wf s \<Longrightarrow> committees_wf (update_stake_table e vs s)"
    by (auto simp: committees_wf_def update_stake_table_def Let_def)
qed

lemma new_stake_wf: "committees_wf (new_stake ms das)"
  by (auto simp: committees_wf_def new_stake_def Let_def indexed_by_key_index
      dest!: collect_hash_map_in split: if_splits)

lemma reload_stake_wf: "committees_wf s \<Longrightarrow> committees_wf (reload_stake loaded s)"
proof -
  have "committees_wf s \<Longrightarrow>
      committees_wf (foldl (\<lambda>s (epoch, validators). update_stake_table epoch validators s) s l)" for l s
    by (induction l arbitrary: s) (auto intro: update_stake_table_wf)
  then show "committees_wf s \<Longrightarrow> committees_wf (reload_stake loaded s)"
    by (auto simp: reload_stake_def split: option.splits)
qed

lemma add_drb_result_wf: "committees_wf s \<Longrightarrow> committees_wf (add_drb_result henv e drb s)"
  by (auto simp: committees_wf_def add_drb_result_def split: option.splits)

lemma set_first_epoch_wf:
  "committees_wf s \<Longrightarrow> set_first_epoch henv e drb s = Some s' \<Longrightarrow> committees_wf s'"
  by (auto simp: set_first_epoch_def intro!: add_drb_result_wf split: option.splits)
    (auto simp: committees_wf_def)

lemma add_epoch_root_wf: "committees_wf s \<Longrightarrow> add_epoch_root e fetched s = Ok s' \<Longrightarrow> committees_wf s'"
  by (auto simp: add_epoch_root_def try_bind_Inr_iff intro: update_stake_table_wf split: option.splits)

lemma reachable_wf: "committees_reachable henv s \<Longrightarrow> committees_wf s"
proof (induction rule: committees_reachable.induct)
  case (cr_epoch_root s epoch fetched s')
  then show ?case using add_epoch_root_wf by blast
next
  case (cr_first_epoch s epoch drb s')
  then show ?case using set_first_epoch_wf by blast
qed (simp_all add: new_stake_wf reload_stake_wf add_drb_result_wf)

lemma member_stake_in_table:
  assumes wf: "committees_wf s" and m: "member_stake s k e = Some p"
  shows "peer_key p = k \<and> p \<in> set (stake_table s e)"
proof (cases e)
  case None
  then show ?thesis using wf m
    by (auto simp: member_stake_def committees_wf_def stake_table_def get_stake_table_def)
next
  case (Some epoch)
  then obtain c where c: "committees s epoch = Some c" "map_of (ec_stake_table c) k = Some p"
    using m by (auto simp: member_stake_def bind_eq_Some_conv)
  then have i: "indexed_by_key (ec_stake_table c)" using wf by (auto simp: committees_wf_def)
  have "(k, p) \<in> set (ec_stake_table c)" using c(2) by (rule map_of_SomeD)
  then show ?thesis using i c(1) Some
    by (force simp: indexed_by_key_def stake_table_def get_stake_table_def)
qed

lemma member_da_stake_in_table:
  "committees_wf s \<Longrightarrow> member_da_stake s k e = Some p \<Longrightarrow> peer_key p = k \<and> p \<in> set (da_stake_table s e)"
  by (auto simp: member_da_stake_def committees_wf_def da_stake_table_def)


section \<open>Witnesses\<close>

definition sample_henv :: "nat HashEnv" where
  "sample_henv = \<lparr>he_sha256 = (\<lambda>bs. bs), he_sha512 = (\<lambda>bs. bs), he_to_bytes = (\<lambda>k. [of_nat k])\<rparr>"

definition sample_committees :: "(nat, nat) EpochCommittees" where
  "sample_committees = new_stake sample_table sample_table"


definition sample_certificate :: "u64 \<Rightarrow> bool list \<Rightarrow> (u64, nat) SimpleCertificate" where
  "sample_certificate data bs =
     \<lparr>cert_data = data, cert_vote_commitment = sample_commit data 5, cert_view_number = 5,
      cert_signatures = Some (sum_list (ver_keys (stake_table_entries sample_table) bs), bs)\<rparr>"

lemma sample_certificates_valid:
  "is_valid_cert sum_multi_verify sample_commit (sample_certificate 7 [True, True, True, False])
     (stake_table_entries (stake_table sample_committees (Some 1)))
     (success_threshold sample_committees (Some 1)) sample_lock = Ok ()"
  "is_valid_cert sum_multi_verify sample_commit (sample_certificate 8 [False, True, True, True])
     (stake_table_entries (stake_table sample_committees (Some 1)))
     (success_threshold sample_committees (Some 1)) sample_lock = Ok ()"
  by code_simp+

theorem valid_certificates_share_a_third_of_the_stake_witness:
  "4 < 3 * stake_sum (selected (stake_table_entries (stake_table sample_committees (Some 1)))
     (common_signers [True, True, True, False] [False, True, True, True]))"
proof -
  have fits: "stake_sum (stake_table_entries (stake_table sample_committees (Some 1))) = 4"
    by code_simp
  then show ?thesis
    using valid_certificates_share_a_third_of_the_stake
      [OF _ sample_certificates_valid(1) _ sample_certificates_valid(2)]
    by (simp add: stake_fits_def sample_certificate_def)
qed

end
