(* ===== verification/Quorum_Vote.thy ===== *)
theory Quorum_Vote
  imports Decide Stake_Events
begin

text \<open>
  Voting on a proposal: \<open>crates/hotshot/task-impls/src/quorum_vote/\<close> and the helpers it calls
  (\<open>fetch_proposal\<close>, \<open>wait_for_second_vid_share\<close>, the weights of VID shares). A vote depends on three
  events, a validated proposal, a validated DA certificate and a validated VID share, which
  \<open>AndDependency\<close> delivers in any order; \<open>handle_dep_result\<close> checks that they agree, updates the state
  and sends the vote. The application's state transition, signing, storage, and the events received
  while waiting are fields of \<open>VoteEnv\<close>.
\<close>

section \<open>VID weights\<close>

record Weights =
  w_weights :: "u32 list"
  w_total_weight :: u64

text \<open>\<open>Uint::to\<close> panics when the value does not fit: \<open>None\<close>.\<close>

definition uint_to :: "'a::len word \<Rightarrow> 'b::len word option" where
  "uint_to x = (if uint x < 2 ^ LENGTH('b) then Some (ucast x) else None)"

definition stake_weight :: "u256 \<Rightarrow> u256 \<Rightarrow> u256" where
  "stake_weight tot stake = (stake * ucast VID_TARGET_TOTAL_STAKE) div tot + 1"

fun scaled_weights :: "u256 \<Rightarrow> u256 list \<Rightarrow> u64 \<Rightarrow> (u32 list \<times> u64) option" where
  "scaled_weights total_stake [] tw = Some ([], tw)"
| "scaled_weights total_stake (stake # stakes) tw =
     (let weight = stake_weight total_stake stake in
      case (uint_to weight :: u64 option) of
        None \<Rightarrow> None
      | Some w \<Rightarrow>
         (case (uint_to weight :: u32 option) of
            None \<Rightarrow> None
          | Some w32 \<Rightarrow>
              map_option (\<lambda>(ws, t). (w32 # ws, t))
                (scaled_weights total_stake stakes (tw + w))))"

definition approximate_weights :: "('k, 's) HSStakeTable \<Rightarrow> Weights option" where
  "approximate_weights stake_table =
     (let stakes = map (\<lambda>entry. stake_amount (stake_table_entry entry)) stake_table;
          total_stake = foldl (+) 0 stakes
      in if total_stake \<le> ucast VID_TARGET_TOTAL_STAKE then
           (case those (map uint_to stakes) of
              None \<Rightarrow> None
            | Some weights \<Rightarrow>
                map_option (\<lambda>t. \<lparr>w_weights = weights, w_total_weight = t\<rparr>) (uint_to total_stake))
         else
           map_option (\<lambda>(ws, t). \<lparr>w_weights = ws, w_total_weight = t\<rparr>)
             (scaled_weights total_stake stakes 0))"

definition vid_total_weight :: "('k, 's) HSStakeTable \<Rightarrow> u64 option \<Rightarrow> u64 option" where
  "vid_total_weight stake_table epoch =
     (if epoch = None then
        uint_to (foldl (\<lambda>acc entry. acc + stake_amount (stake_table_entry entry)) 0 stake_table)
      else map_option w_total_weight (approximate_weights stake_table))"

section \<open>Environment and events\<close>

type_synonym ('k, 'g) VidProposal = "('k VidDisperseShare, 'g) Proposal"

datatype ('k, 'g, 'h) VoteDependencyEvent =
    ProposalDep "(('g, 'h) QuorumProposal2, 'g) Proposal" "('g, 'h) Leaf2"
  | DacDep "'g DaCertificate2"
  | VidDep "('k, 'g) VidProposal"
  | OtherDep

record ('k, 'g, 'h, 'st, 'dl) VoteEnv =
  ve_store_proposal :: "(('g, 'h) QuorumProposal2, 'g) Proposal \<Rightarrow> bool"
  ve_store_vid :: "('k, 'g) VidProposal \<Rightarrow> bool"
  ve_validate_and_apply_header ::
    "'st \<Rightarrow> ('g, 'h) Leaf2 \<Rightarrow> 'h BlockHeader \<Rightarrow> u32 \<Rightarrow> Version \<Rightarrow> u64 \<Rightarrow> ('st \<times> 'dl) option"
  ve_da_commit :: "DaData2 \<Rightarrow> u64 \<Rightarrow> commitment"
  ve_sign_request :: "u64 \<Rightarrow> bool"
  ve_sign :: "commitment \<Rightarrow> 'g option"
  ve_proposal_responses :: "(('g, 'h) QuorumProposal2, 'g) Proposal list"
  ve_vid_events :: "('k, 'g) VidProposal list"
  ve_light_client_state :: "'h BlockHeader \<Rightarrow> u64 \<Rightarrow> LightClientState option"
  ve_stake_commitment :: "('k, u8 list) HSStakeTable \<Rightarrow> StakeTableState option"
  ve_sign_state :: "LightClientState \<Rightarrow> StakeTableState \<Rightarrow> u8 list option"
  ve_verify_share :: "'k VidDisperseShare \<Rightarrow> u64 \<Rightarrow> bool"

type_synonym 'g StateVote = "(LightClientState, StakeTableState, u8 list) LightClientStateUpdateVote"

datatype ('k, 'g) VoteMessage =
    QuorumVoteSend "('k, 'g, QuorumData2) SimpleVote"
  | ExtendedQuorumVoteSend "('k, 'g, QuorumData2) SimpleVote"
  | EpochRootQuorumVoteSend "('k, 'g, QuorumData2) SimpleVote" "'g StateVote"
  | VoteViewChange u64 "u64 option"

section \<open>Fetching a missing proposal\<close>

text \<open>
  The request is answered by the proposals received until the timeout; the first one whose leaf is
  the one the certificate is for is used.
\<close>

definition fetch_proposal ::
  "('k, 'g, 'h, 'st) Env \<Rightarrow> ('k, 'g, 'h, 'st, 'dl) VoteEnv \<Rightarrow> 'g QuorumCertificate2 \<Rightarrow> 'g UpgradeLock
     \<Rightarrow> u64 \<Rightarrow> ('k, 'g, 'h, 'st, 'dl) Consensus
     \<Rightarrow> ('k, 'g, 'h, 'st, 'dl) Consensus \<times> (('g, 'h) Leaf2 \<times> ('st, 'dl) ViewInner) option" where
  "fetch_proposal env venv qc lock h consensus =
     (if \<not> ve_sign_request venv (cert_view_number qc) then (consensus, None)
      else case find (\<lambda>p. let leaf = from_quorum_proposal (proposal_data p) in
                   leaf_view_number leaf = cert_view_number qc
                   \<and> env_leaf_commit env leaf = leaf_commit (cert_data qc))
             (ve_proposal_responses venv) of
        None \<Rightarrow> (consensus, None)
      | Some proposal \<Rightarrow>
         (let justify = qp_justify_qc (proposal_data proposal) in
          case env_stake_table_for_epoch env (qd_epoch (cert_data justify)) of
            None \<Rightarrow> (consensus, None)
          | Some membership \<Rightarrow>
             (if is_valid_cert (env_multi_sig_verify env) (env_qc_commit env) justify
                   (stake_table_entries (em_stake_table membership))
                   (em_success_threshold membership) lock \<noteq> Ok ()
              then (consensus, None)
              else
               (let leaf = from_quorum_proposal (proposal_data proposal);
                    state = env_from_header env (qp_block_header (proposal_data proposal))
                in (ignore_err consensus (update_leaf (env_leaf_commit env) leaf state None consensus),
                    Some (leaf, LeafView (env_leaf_commit env leaf) state None (leaf_epoch leaf h)))))))"

section \<open>The shared state\<close>

definition update_shared_state ::
  "('k, 'g, 'h, 'st) Env \<Rightarrow> ('k, 'g, 'h, 'st, 'dl) VoteEnv \<Rightarrow> 'g UpgradeLock \<Rightarrow> u64 \<Rightarrow> ('g, 'h) Leaf2
     \<Rightarrow> ('k, 'g) VidProposal \<Rightarrow> u64 option \<Rightarrow> u64 \<Rightarrow> ('k, 'g, 'h, 'st, 'dl) Consensus
     \<Rightarrow> ('k, 'g, 'h, 'st, 'dl) Consensus \<times> bool" where
  "update_shared_state env venv lock view_number proposed_leaf vid_share parent_view_number h consensus =
     (let justify = justify_qc proposed_leaf;
          stored_view = Option.bind parent_view_number (bt_get (validated_state_map consensus));
          (c1, found) =
            (case saved_leaves consensus (leaf_commit (cert_data justify)) of
               Some p \<Rightarrow> (consensus, Some (p, stored_view))
             | None \<Rightarrow>
                (case fetch_proposal env venv justify lock h consensus of
                   (c, Some (leaf, view)) \<Rightarrow> (c, Some (leaf, Some view))
                 | (c, None) \<Rightarrow> (c, None)))
      in case found of
           None \<Rightarrow> (c1, False)
         | Some (parent, maybe_view) \<Rightarrow>
            (case maybe_view of
               None \<Rightarrow> (c1, False)
             | Some validated_view \<Rightarrow>
                (case view_state_and_delta validated_view of
                   (None, _) \<Rightarrow> (c1, False)
                 | (Some parent_state, _) \<Rightarrow>
                    (case lock_version lock view_number of
                       Inl _ \<Rightarrow> (c1, False)
                     | Inr version \<Rightarrow>
                        (case ve_validate_and_apply_header venv parent_state parent
                                (block_header proposed_leaf)
                                (vid_payload_byte_len (proposal_data vid_share)) version view_number of
                           None \<Rightarrow> (c1, False)
                         | Some (state, delta) \<Rightarrow>
                            (ignore_err c1 (update_leaf (env_leaf_commit env) proposed_leaf state
                               (Some delta) c1), True))))))"

section \<open>Sending the vote\<close>

definition next_epoch_stake_table ::
  "('k, 'g, 'h, 'st) Env \<Rightarrow> ('k, u8 list) EpochMembership \<Rightarrow> ('k, u8 list) EpochMembership option" where
  "next_epoch_stake_table env membership =
     (case em_epoch membership of
        None \<Rightarrow> None
      | Some e \<Rightarrow> env_stake_table_for_epoch env (Some (e + 1)))"

definition create_signed_vote ::
  "('k, 'g, 'h, 'st) Env \<Rightarrow> ('k, 'g, 'h, 'st, 'dl) VoteEnv \<Rightarrow> QuorumData2 \<Rightarrow> u64 \<Rightarrow> 'k \<Rightarrow> 'g UpgradeLock
     \<Rightarrow> ('k, 'g, QuorumData2) SimpleVote option" where
  "create_signed_vote env venv data view pub_key lock =
     (case lock_version lock view of
        Inl _ \<Rightarrow> None
      | Inr _ \<Rightarrow>
          map_option (\<lambda>sig. \<lparr>vote_signing_key = pub_key, vote_signature = sig, vote_date = data,
                            vote_view_number = view\<rparr>)
            (ve_sign venv (env_qc_commit env data view)))"

definition epoch_root_vote_message ::
  "('k, 'g, 'h, 'st) Env \<Rightarrow> ('k, 'g, 'h, 'st, 'dl) VoteEnv \<Rightarrow> ('k, u8 list) EpochMembership
     \<Rightarrow> ('k, 'g, QuorumData2) SimpleVote \<Rightarrow> u64 \<Rightarrow> ('g, 'h) Leaf2 \<Rightarrow> u64 \<Rightarrow> ('k, 'g) VoteMessage option"
where
  "epoch_root_vote_message env venv membership vote view_number leaf h =
     (case ve_light_client_state venv (block_header leaf) view_number of
        None \<Rightarrow> None
      | Some state \<Rightarrow>
         (case next_epoch_stake_table env membership of
            None \<Rightarrow> None
          | Some next_membership \<Rightarrow>
             (case ve_stake_commitment venv (em_stake_table next_membership) of
                None \<Rightarrow> None
              | Some next_state \<Rightarrow>
                  map_option (\<lambda>sig. EpochRootQuorumVoteSend vote
                      \<lparr>lcv_epoch = epoch_from_block_number (leaf_height leaf) h,
                       lcv_light_client_state = state, lcv_next_stake_table_state = next_state,
                       lcv_signature = sig\<rparr>)
                    (ve_sign_state venv state next_state))))"

definition submit_vote ::
  "('k, 'g, 'h, 'st) Env \<Rightarrow> ('k, 'g, 'h, 'st, 'dl) VoteEnv \<Rightarrow> ('k, u8 list) EpochMembership \<Rightarrow> 'k
     \<Rightarrow> 'g UpgradeLock \<Rightarrow> u64 \<Rightarrow> ('g, 'h) Leaf2 \<Rightarrow> ('k, 'g) VidProposal \<Rightarrow> bool \<Rightarrow> bool \<Rightarrow> u64
     \<Rightarrow> ('k, 'g) VoteMessage option" where
  "submit_vote env venv membership public_key lock view_number leaf vid_share extended_vote
     epoch_root_vote h =
     (let in_transition = with_epoch leaf \<and> is_epoch_transition (leaf_height leaf) h;
          next_membership = next_epoch_stake_table env membership
      in if in_transition \<and> next_membership = None then None
         else
          (let in_next = in_transition
                 \<and> (case next_membership of Some m \<Rightarrow> em_has_stake m public_key | None \<Rightarrow> False)
           in if \<not> (em_has_stake membership public_key \<or> in_next) then None
              else
               (let data = \<lparr>leaf_commit = env_leaf_commit env leaf, qd_epoch = em_epoch membership,
                            qd_block_number = (if em_epoch membership \<noteq> None
                                               then Some (leaf_height leaf) else None)\<rparr>
                in case create_signed_vote env venv data view_number public_key lock of
                     None \<Rightarrow> None
                   | Some vote \<Rightarrow>
                      (if \<not> ve_store_vid venv vid_share then None
                       else if extended_vote \<and> epochs_enabled lock view_number
                            then Some (ExtendedQuorumVoteSend vote)
                       else if epoch_root_vote \<and> epochs_enabled lock view_number
                            then epoch_root_vote_message env venv membership vote view_number leaf h
                       else Some (QuorumVoteSend vote)))))"

section \<open>The second VID share\<close>

definition matches_da_cert ::
  "u64 option \<Rightarrow> 'g DaCertificate2 \<Rightarrow> ('k, 'g) VidProposal \<Rightarrow> bool" where
  "matches_da_cert target_epoch da_cert share =
     (if target_epoch = da_epoch (cert_data da_cert)
      then vid_payload_commitment (proposal_data share) = payload_commit (cert_data da_cert)
      else Some (vid_payload_commitment (proposal_data share))
             = next_epoch_payload_commit (cert_data da_cert))"

text \<open>
  The share is looked up in the shared state and otherwise awaited. No timeout bounds the wait: when
  none of the events matches, the task stays suspended, which is \<open>None\<close> too.
\<close>

definition wait_for_second_vid_share ::
  "('k, 'g, 'h, 'st, 'dl) VoteEnv \<Rightarrow> u64 option \<Rightarrow> ('k, 'g) VidProposal \<Rightarrow> 'g DaCertificate2
     \<Rightarrow> ('k, 'g, 'h, 'st, 'dl) Consensus \<Rightarrow> ('k, 'g) VidProposal option" where
  "wait_for_second_vid_share venv target_epoch vid_share da_cert consensus =
     (let share = proposal_data vid_share;
          awaited = find (matches_da_cert target_epoch da_cert) (ve_vid_events venv)
      in case Option.bind (Option.bind (bt_get (vid_shares consensus) (vid_view_number share))
                (\<lambda>key_map. key_map (vid_recipient_key share))) (\<lambda>epoch_map. epoch_map target_epoch) of
           Some second_vid_share \<Rightarrow>
             (if matches_da_cert target_epoch da_cert second_vid_share then Some second_vid_share
              else awaited)
         | None \<Rightarrow> awaited)"

section \<open>The vote dependencies\<close>

record ('k, 'g, 'h) VoteDeps =
  vd_payload_commitment :: "commitment option"
  vd_next_epoch_payload_commitment :: "commitment option"
  vd_leaf :: "('g, 'h) Leaf2 option"
  vd_vid_share :: "('k, 'g) VidProposal option"
  vd_da_cert :: "'g DaCertificate2 option"
  vd_parent_view_number :: "u64 option"

definition vote_deps_none :: "('k, 'g, 'h) VoteDeps" where
  "vote_deps_none = \<lparr>vd_payload_commitment = None, vd_next_epoch_payload_commitment = None,
     vd_leaf = None, vd_vid_share = None, vd_da_cert = None, vd_parent_view_number = None\<rparr>"

text \<open>\<open>agree known comm\<close>: the known commitment, if there is one, is \<open>comm\<close>.\<close>

definition agree :: "commitment option \<Rightarrow> commitment \<Rightarrow> bool" where
  "agree known comm = (case known of Some c \<Rightarrow> comm = c | None \<Rightarrow> True)"

definition collect_dependency ::
  "('k, 'g, 'h, 'st) Env \<Rightarrow> ('k, 'g, 'h, 'st, 'dl) VoteEnv \<Rightarrow> ('k, 'g, 'h) VoteDependencyEvent
     \<Rightarrow> ('k, 'g, 'h) VoteDeps \<Rightarrow> ('k, 'g, 'h) VoteDeps option" where
  "collect_dependency env venv event deps =
     (case event of
        ProposalDep proposal parent_leaf \<Rightarrow>
          (let comm = hdr_payload_commitment (qp_block_header (proposal_data proposal));
               proposed_leaf = from_quorum_proposal (proposal_data proposal)
           in if \<not> agree (vd_payload_commitment deps) comm then None
              else if parent_commitment proposed_leaf \<noteq> env_leaf_commit env parent_leaf then None
              else if \<not> ve_store_proposal venv proposal then None
              else Some (deps\<lparr>vd_payload_commitment := Some comm, vd_leaf := Some proposed_leaf,
                              vd_parent_view_number := Some (leaf_view_number parent_leaf)\<rparr>))
      | DacDep cert \<Rightarrow>
          (let comm = payload_commit (cert_data cert);
               next_comm = next_epoch_payload_commit (cert_data cert)
           in if \<not> agree (vd_payload_commitment deps) comm then None
              else if vd_next_epoch_payload_commitment deps \<noteq> None
                      \<and> vd_next_epoch_payload_commitment deps \<noteq> next_comm then None
              else Some (deps\<lparr>vd_payload_commitment := Some comm,
                              vd_next_epoch_payload_commitment := next_comm,
                              vd_da_cert := Some cert\<rparr>))
      | VidDep share \<Rightarrow>
          (let data = proposal_data share; comm = vid_payload_commitment data;
               deps' = deps\<lparr>vd_vid_share := Some share\<rparr>
           in if vid_epoch data \<noteq> vid_target_epoch data then
                (if \<not> agree (vd_next_epoch_payload_commitment deps) comm then None
                 else Some (deps'\<lparr>vd_next_epoch_payload_commitment := Some comm\<rparr>))
              else
                (if \<not> agree (vd_payload_commitment deps) comm then None
                 else Some (deps'\<lparr>vd_payload_commitment := Some comm\<rparr>)))
      | OtherDep \<Rightarrow> Some deps)"

fun collect_dependencies ::
  "('k, 'g, 'h, 'st) Env \<Rightarrow> ('k, 'g, 'h, 'st, 'dl) VoteEnv \<Rightarrow> ('k, 'g, 'h) VoteDependencyEvent list
     \<Rightarrow> ('k, 'g, 'h) VoteDeps \<Rightarrow> ('k, 'g, 'h) VoteDeps option" where
  "collect_dependencies env venv [] deps = Some deps"
| "collect_dependencies env venv (event # res) deps =
     (case collect_dependency env venv event deps of
        None \<Rightarrow> None
      | Some deps' \<Rightarrow> collect_dependencies env venv res deps')"

record ('k, 'g) VoteDependencyHandle =
  vh_public_key :: 'k
  vh_view_number :: u64
  vh_upgrade_lock :: "'g UpgradeLock"
  vh_epoch_height :: u64
  vh_first_epoch :: "(u64 \<times> u64) option"

text \<open>
  The VID shares of an epoch transition: \<open>None\<close> when the node must not vote, otherwise the share of
  the current epoch if the node belongs to both epochs.
\<close>

definition transition_vid_share ::
  "('k, 'g, 'h, 'st) Env \<Rightarrow> ('k, 'g, 'h, 'st, 'dl) VoteEnv \<Rightarrow> ('k, 'g) VoteDependencyHandle
     \<Rightarrow> ('g, 'h) Leaf2 \<Rightarrow> ('k, 'g) VidProposal \<Rightarrow> 'g DaCertificate2
     \<Rightarrow> ('k, 'g, 'h, 'st, 'dl) Consensus \<Rightarrow> ('k, 'g) VidProposal option option" where
  "transition_vid_share env venv self leaf vid_share da_cert consensus =
     (let h = vh_epoch_height self in
      if epochs_enabled (vh_upgrade_lock self) (leaf_view_number leaf)
         \<and> is_epoch_transition (hdr_block_number (block_header leaf)) h then
       (let current_epoch = option_epoch_from_block_number (with_epoch leaf)
                              (hdr_block_number (block_header leaf)) h;
            next_epoch = map_option (\<lambda>e. e + 1) current_epoch
        in case (env_stake_table_for_epoch env current_epoch, env_stake_table_for_epoch env next_epoch) of
             (Some current_membership, Some next_membership) \<Rightarrow>
               (if em_has_stake current_membership (vh_public_key self)
                   \<and> em_has_stake next_membership (vh_public_key self) then
                 (let is_current = (vid_target_epoch (proposal_data vid_share) = current_epoch);
                      other_target_epoch = (if is_current then next_epoch else current_epoch)
                  in case wait_for_second_vid_share venv other_target_epoch vid_share da_cert consensus of
                       None \<Rightarrow> None
                     | Some other_vid_share \<Rightarrow>
                        (let current_share = (if is_current then vid_share else other_vid_share) in
                         if hdr_payload_commitment (block_header leaf)
                              \<noteq> vid_payload_commitment (proposal_data current_share)
                         then None else Some (Some current_share)))
                else Some None)
           | _ \<Rightarrow> None)
      else Some None)"

definition handle_dep_result ::
  "('k, 'g, 'h, 'st) Env \<Rightarrow> ('k, 'g, 'h, 'st, 'dl) VoteEnv \<Rightarrow> ('k, 'g) VoteDependencyHandle
     \<Rightarrow> ('k, 'g, 'h) VoteDependencyEvent list \<Rightarrow> ('k, 'g, 'h, 'st, 'dl) Consensus
     \<Rightarrow> ('k, 'g, 'h, 'st, 'dl) Consensus \<times> ('k, 'g) VoteMessage list" where
  "handle_dep_result env venv self res consensus =
     (case collect_dependencies env venv res vote_deps_none of
        None \<Rightarrow> (consensus, [])
      | Some deps \<Rightarrow>
         (case (vd_vid_share deps, vd_leaf deps, vd_da_cert deps) of
            (Some vid_share, Some leaf, Some da_cert) \<Rightarrow>
             (case transition_vid_share env venv self leaf vid_share da_cert consensus of
                None \<Rightarrow> (consensus, [])
              | Some maybe_current \<Rightarrow>
                 (let share = (case maybe_current of Some s \<Rightarrow> s | None \<Rightarrow> vid_share);
                      h = vh_epoch_height self; lock = vh_upgrade_lock self
                  in case update_shared_state env venv lock (vh_view_number self) leaf share
                            (vd_parent_view_number deps) h consensus of
                       (c, False) \<Rightarrow> (c, [])
                     | (c, True) \<Rightarrow>
                        (let epoch = option_epoch_from_block_number (with_epoch leaf) (leaf_height leaf) h
                         in case env_membership_for_epoch env epoch of
                              None \<Rightarrow> (c, [])
                            | Some membership \<Rightarrow>
                               (let extended = is_last_block (leaf_height leaf) h;
                                    epoch_root = is_epoch_root (leaf_height leaf) h;
                                    view_change =
                                      (if epoch = None \<or> \<not> extended
                                       then [VoteViewChange (leaf_view_number leaf + 1)
                                               (broadcast_epoch (leaf_view_number leaf + 1) epoch
                                                  (vh_first_epoch self))]
                                       else [])
                                in (c, view_change @
                                     (case submit_vote env venv membership (vh_public_key self) lock
                                             (vh_view_number self) leaf share extended epoch_root h of
                                        None \<Rightarrow> []
                                      | Some message \<Rightarrow> [message]))))))
          | _ \<Rightarrow> (consensus, [])))"

section \<open>Dependencies on events\<close>

text \<open>
  \<open>EventDependency\<close> (\<open>crates/hotshot/task/src/dependency.rs\<close>) yields the event it was seeded with, or
  the first event of the stream that matches; \<open>None\<close> when the stream ends without one.
  \<open>AndDependency\<close> yields the results of all its dependencies, in any order.
\<close>

datatype VoteDependency = QuorumProposalDependency | DacDependency | VidDependency

record ('k, 'g, 'h) EventDependency =
  ed_type :: VoteDependency
  ed_view_number :: u64
  ed_completed :: "('k, 'g, 'h) VoteDependencyEvent option"

definition create_event_dependency :: "VoteDependency \<Rightarrow> u64 \<Rightarrow> ('k, 'g, 'h) EventDependency" where
  "create_event_dependency dependency_type view_number =
     \<lparr>ed_type = dependency_type, ed_view_number = view_number, ed_completed = None\<rparr>"

definition event_matches ::
  "('k, 'g, 'h) EventDependency \<Rightarrow> ('k, 'g, 'h) VoteDependencyEvent \<Rightarrow> bool" where
  "event_matches dep event =
     (case (ed_type dep, event) of
        (QuorumProposalDependency, ProposalDep proposal _) \<Rightarrow>
          qp_view_number (proposal_data proposal) = ed_view_number dep
      | (DacDependency, DacDep cert) \<Rightarrow> cert_view_number cert = ed_view_number dep
      | (VidDependency, VidDep disperse) \<Rightarrow>
          vid_view_number (proposal_data disperse) = ed_view_number dep
      | _ \<Rightarrow> False)"

definition event_dependency_completed ::
  "('k, 'g, 'h) VoteDependencyEvent list \<Rightarrow> ('k, 'g, 'h) EventDependency
     \<Rightarrow> ('k, 'g, 'h) VoteDependencyEvent option" where
  "event_dependency_completed stream dep =
     (case ed_completed dep of
        Some event \<Rightarrow> Some event
      | None \<Rightarrow> find (event_matches dep) stream)"

definition and_dependency_completed ::
  "('k, 'g, 'h) EventDependency list \<Rightarrow> ('k, 'g, 'h) VoteDependencyEvent list
     \<Rightarrow> ('k, 'g, 'h) VoteDependencyEvent list \<Rightarrow> bool" where
  "and_dependency_completed deps stream res =
     (case those (map (event_dependency_completed stream) deps) of
        None \<Rightarrow> False
      | Some results \<Rightarrow> mset res = mset results)"

section \<open>The vote task\<close>

record ('k, 'g, 'h) DependencyTask =
  dt_deps :: "('k, 'g, 'h) EventDependency list"
  dt_handle :: "('k, 'g) VoteDependencyHandle"

record ('k, 'g, 'h) QuorumVoteTaskState =
  qv_public_key :: 'k
  latest_voted_view :: u64
  vote_dependencies :: "(u64, ('k, 'g, 'h) DependencyTask) btree"
  qv_upgrade_lock :: "'g UpgradeLock"
  qv_epoch_height :: u64
  qv_first_epoch :: "(u64 \<times> u64) option"

datatype ('k, 'g, 'h) VoteTaskEvent =
    ProposalValidatedEvent "(('g, 'h) QuorumProposal2, 'g) Proposal" "('g, 'h) Leaf2"
  | DaCertificateRecv "'g DaCertificate2"
  | VidShareRecv 'k "('k, 'g) VidProposal"
  | TimeoutEvent u64
  | ViewChangeEvent u64 "u64 option"
  | SetFirstEpochEvent u64 u64
  | OtherVoteTaskEvent

datatype ('k, 'g, 'h, 'st, 'dl) VoteTaskEffect =
    Decided "('k, 'g, 'h, 'st, 'dl) DecideEffect list"
  | DaCertificateValidated "'g DaCertificate2"
  | VidShareValidated "('k, 'g) VidProposal"
  | SpawnVoteTask u64

datatype VoteTaskError =
    AlreadyVoted | OldDac | NoVoteMembership | InvalidDac CertError | OldVidShare
  | InvalidVidSignature | NoViewLeader | VidSenderNotAllowed | VidShareNotVerified | NotOurVidShare

definition new_vote_task ::
  "u64 \<Rightarrow> ('k, 'g, 'h) VoteDependencyEvent option \<Rightarrow> ('k, 'g, 'h) QuorumVoteTaskState
     \<Rightarrow> ('k, 'g, 'h) DependencyTask" where
  "new_vote_task view_number proposal_event self =
     \<lparr>dt_deps = [(create_event_dependency QuorumProposalDependency view_number)
                   \<lparr>ed_completed := proposal_event\<rparr>,
                 create_event_dependency DacDependency view_number,
                 create_event_dependency VidDependency view_number],
      dt_handle = \<lparr>vh_public_key = qv_public_key self, vh_view_number = view_number,
        vh_upgrade_lock = qv_upgrade_lock self, vh_epoch_height = qv_epoch_height self,
        vh_first_epoch = qv_first_epoch self\<rparr>\<rparr>"

definition create_dependency_task_if_new ::
  "u64 \<Rightarrow> ('k, 'g, 'h) VoteDependencyEvent option \<Rightarrow> ('k, 'g, 'h) QuorumVoteTaskState
     \<Rightarrow> ('k, 'g, 'h) QuorumVoteTaskState \<times> ('k, 'g, 'h, 'st, 'dl) VoteTaskEffect list" where
  "create_dependency_task_if_new view_number proposal_event self =
     (if bt_contains_key (vote_dependencies self) view_number then (self, [])
      else (self\<lparr>vote_dependencies := bt_insert view_number
                   (new_vote_task view_number proposal_event self) (vote_dependencies self)\<rparr>,
            [SpawnVoteTask view_number]))"

definition update_latest_voted_view ::
  "u64 \<Rightarrow> ('k, 'g, 'h) QuorumVoteTaskState \<Rightarrow> ('k, 'g, 'h) QuorumVoteTaskState \<times> bool" where
  "update_latest_voted_view new_view self =
     (if latest_voted_view self < new_view then
        (self\<lparr>vote_dependencies :=
                filter (\<lambda>e. \<not> (latest_voted_view self \<le> fst e \<and> fst e < new_view))
                  (vote_dependencies self),
              latest_voted_view := new_view\<rparr>, True)
      else (self, False))"

definition cancel_old_tasks ::
  "u64 \<Rightarrow> ('k, 'g, 'h) QuorumVoteTaskState \<Rightarrow> ('k, 'g, 'h) QuorumVoteTaskState" where
  "cancel_old_tasks view self =
     self\<lparr>vote_dependencies := bt_split_off view (vote_dependencies self)\<rparr>"

text \<open>The checks of a received VID share, up to the ones that follow the state update.\<close>

definition validate_vid_share ::
  "('k, 'g, 'h, 'st) Env \<Rightarrow> ('k, 'g, 'h, 'st, 'dl) VoteEnv \<Rightarrow> 'k \<Rightarrow> ('k, 'g) VidProposal
     \<Rightarrow> (VoteTaskError, unit) result option" where
  "validate_vid_share env venv sender share =
     (let data = proposal_data share; view = vid_view_number data in
      if \<not> env_validate env sender (proposal_signature share) (vid_payload_commitment data)
      then Some (Err InvalidVidSignature)
      else case env_membership_for_epoch env (vid_epoch data) of
             None \<Rightarrow> Some (Err NoVoteMembership)
           | Some membership \<Rightarrow>
              (if sender \<notin> set (em_da_committee_members membership view)
                  \<and> em_leader membership view = None then Some (Err NoViewLeader)
               else if sender \<notin> set (em_da_committee_members membership view)
                       \<and> em_leader membership view \<noteq> Some sender
               then Some (Err VidSenderNotAllowed)
               else case env_membership_for_epoch env (vid_target_epoch data) of
                      None \<Rightarrow> Some (Err NoVoteMembership)
                    | Some target_membership \<Rightarrow>
                       (case vid_total_weight (em_stake_table target_membership)
                               (vid_target_epoch data) of
                          None \<Rightarrow> None
                        | Some weight \<Rightarrow>
                            Some (if ve_verify_share venv data weight then Ok ()
                                  else Err VidShareNotVerified))))"

type_synonym ('k, 'g, 'h, 'st, 'dl) vote_outcome =
  "('k, 'g, 'h) QuorumVoteTaskState \<times> ('k, 'g, 'h, 'st, 'dl) Consensus
     \<times> (VoteTaskError, unit) result \<times> ('k, 'g, 'h, 'st, 'dl) VoteTaskEffect list"

definition handle_da_certificate_recv ::
  "('k, 'g, 'h, 'st) Env \<Rightarrow> ('k, 'g, 'h, 'st, 'dl) VoteEnv \<Rightarrow> 'g DaCertificate2
     \<Rightarrow> ('k, 'g, 'h) QuorumVoteTaskState \<Rightarrow> ('k, 'g, 'h, 'st, 'dl) Consensus
     \<Rightarrow> ('k, 'g, 'h, 'st, 'dl) vote_outcome" where
  "handle_da_certificate_recv env venv cert self consensus =
     (let view = cert_view_number cert in
      if \<not> view > latest_voted_view self then (self, consensus, Err OldDac, [])
      else case env_stake_table_for_epoch env (da_epoch (cert_data cert)) of
             None \<Rightarrow> (self, consensus, Err NoVoteMembership, [])
           | Some membership \<Rightarrow>
              (case is_valid_cert (env_multi_sig_verify env) (ve_da_commit venv) cert
                      (stake_table_entries (em_da_stake_table membership))
                      (em_da_success_threshold membership) (qv_upgrade_lock self) of
                 Inl e \<Rightarrow> (self, consensus, Err (InvalidDac e), [])
               | Inr _ \<Rightarrow>
                  (case create_dependency_task_if_new view None self of
                     (self', spawned) \<Rightarrow>
                       (self', update_saved_da_certs view cert consensus, Ok (),
                        DaCertificateValidated cert # spawned))))"

definition handle_vid_share_recv ::
  "('k, 'g, 'h, 'st) Env \<Rightarrow> ('k, 'g, 'h, 'st, 'dl) VoteEnv \<Rightarrow> 'k \<Rightarrow> ('k, 'g) VidProposal
     \<Rightarrow> ('k, 'g, 'h) QuorumVoteTaskState \<Rightarrow> ('k, 'g, 'h, 'st, 'dl) Consensus
     \<Rightarrow> ('k, 'g, 'h, 'st, 'dl) vote_outcome option" where
  "handle_vid_share_recv env venv sender share self consensus =
     (let view = vid_view_number (proposal_data share) in
      if \<not> view > latest_voted_view self then Some (self, consensus, Err OldVidShare, [])
      else case validate_vid_share env venv sender share of
             None \<Rightarrow> None
           | Some (Inl e) \<Rightarrow> Some (self, consensus, Err e, [])
           | Some (Inr _) \<Rightarrow>
              (let c = update_vid_shares view share consensus in
               if vid_recipient_key (proposal_data share) \<noteq> qv_public_key self
               then Some (self, c, Err NotOurVidShare, [])
               else case create_dependency_task_if_new view None self of
                      (self', spawned) \<Rightarrow> Some (self', c, Ok (), VidShareValidated share # spawned)))"

definition quorum_vote_handle ::
  "('k, 'g, 'h, 'st) Env \<Rightarrow> ('k, 'g, 'h, 'st, 'dl) VoteEnv \<Rightarrow> ('g, 'h) DecideEnv
     \<Rightarrow> ('k, 'g, 'h) VoteTaskEvent \<Rightarrow> ('k, 'g, 'h) QuorumVoteTaskState
     \<Rightarrow> ('k, 'g, 'h, 'st, 'dl) Consensus \<Rightarrow> ('k, 'g, 'h, 'st, 'dl) vote_outcome option" where
  "quorum_vote_handle env venv denv event self consensus =
     (case event of
        ProposalValidatedEvent proposal parent_leaf \<Rightarrow>
          (let data = proposal_data proposal; view = qp_view_number data in
           case handle_quorum_proposal_validated env denv (qv_public_key self) (qv_epoch_height self)
                  data (qv_upgrade_lock self) consensus of
             None \<Rightarrow> None
           | Some (c, lock, _, effects) \<Rightarrow>
              (let self1 = self\<lparr>qv_upgrade_lock := lock\<rparr> in
               if \<not> view > latest_voted_view self1
               then Some (self1, c, Err AlreadyVoted, [Decided effects])
               else case create_dependency_task_if_new view (Some (ProposalDep proposal parent_leaf))
                           self1 of
                      (self2, spawned) \<Rightarrow> Some (self2, c, Ok (), Decided effects # spawned)))
      | DaCertificateRecv cert \<Rightarrow> Some (handle_da_certificate_recv env venv cert self consensus)
      | VidShareRecv sender share \<Rightarrow> handle_vid_share_recv env venv sender share self consensus
      | TimeoutEvent view \<Rightarrow>
          Some (cancel_old_tasks (saturating_sub view 1) self, consensus, Ok (), [])
      | ViewChangeEvent view _ \<Rightarrow>
          (let view' = saturating_sub view 1 in
           Some (cancel_old_tasks view' (fst (update_latest_voted_view view' self)), consensus, Ok (), []))
      | SetFirstEpochEvent view epoch \<Rightarrow>
          Some (self\<lparr>qv_first_epoch := Some (view, epoch)\<rparr>, consensus, Ok (), [])
      | OtherVoteTaskEvent \<Rightarrow> Some (self, consensus, Ok (), []))"

definition cancel_subtasks :: "('k, 'g, 'h) QuorumVoteTaskState \<Rightarrow> ('k, 'g, 'h) QuorumVoteTaskState" where
  "cancel_subtasks self = self\<lparr>vote_dependencies := []\<rparr>"

section \<open>Runs of the vote task\<close>

text \<open>
  A run records each event with the latest voted view before it. The other tasks of the node work on
  the shared state in between, so every step may see another consensus state and environment.
\<close>

inductive vote_run ::
  "('k, 'g, 'h) QuorumVoteTaskState \<Rightarrow> (u64 \<times> ('k, 'g, 'h) VoteTaskEvent) list
     \<Rightarrow> ('k, 'g, 'h, 'st, 'dl) VoteTaskEffect list \<Rightarrow> ('k, 'g, 'h) QuorumVoteTaskState \<Rightarrow> bool"
  for s0 :: "('k, 'g, 'h) QuorumVoteTaskState" where
  vr_start: "vote_run s0 [] [] s0"
| vr_step: "vote_run s0 (events @ [(latest_voted_view s, event)]) (log @ effects) s'"
  if "vote_run s0 events log s"
    and "quorum_vote_handle env venv denv event s c = Some (s', c', r, effects)"

fun spawned_views :: "('k, 'g, 'h, 'st, 'dl) VoteTaskEffect list \<Rightarrow> u64 list" where
  "spawned_views [] = []"
| "spawned_views (SpawnVoteTask view # effects) = view # spawned_views effects"
| "spawned_views (effect # effects) = spawned_views effects"

definition timely :: "u64 \<times> ('k, 'g, 'h) VoteTaskEvent \<Rightarrow> bool" where
  "timely e = (case snd e of TimeoutEvent view \<Rightarrow> saturating_sub view 1 \<le> fst e | _ \<Rightarrow> True)"

lemma spawned_views_append [simp]: "spawned_views (xs @ ys) = spawned_views xs @ spawned_views ys"
  by (induction xs rule: spawned_views.induct) simp_all

text \<open>What one event does to the table of tasks.\<close>

definition task_for :: "u64 \<Rightarrow> ('k, 'g, 'h) DependencyTask \<Rightarrow> bool" where
  "task_for view task =
     (\<exists>completed. dt_deps task =
        [(create_event_dependency QuorumProposalDependency view)\<lparr>ed_completed := completed\<rparr>,
         create_event_dependency DacDependency view, create_event_dependency VidDependency view]
      \<and> (\<forall>event. completed = Some event \<longrightarrow>
           event_matches (create_event_dependency QuorumProposalDependency view) event)
      \<and> vh_view_number (dt_handle task) = view)"

definition tasks_wf :: "('k, 'g, 'h) QuorumVoteTaskState \<Rightarrow> bool" where
  "tasks_wf s = (\<forall>(view, task) \<in> set (vote_dependencies s). task_for view task)"

definition covered :: "u64 list \<Rightarrow> ('k, 'g, 'h) QuorumVoteTaskState \<Rightarrow> bool" where
  "covered views s =
     (distinct views \<and> (\<forall>v \<in> set views. v \<le> latest_voted_view s \<or> v \<in> fst ` set (vote_dependencies s)))"

lemma set_bt_insert_subset: "set (bt_insert k v m) \<subseteq> insert (k, v) (set m)"
  by (induction m rule: bt_insert.induct [where P = "\<lambda>k v m. set (bt_insert k v m) \<subseteq> insert (k, v) (set m)"])
     auto

lemma keys_bt_insert: "fst ` set (bt_insert k v m) = insert k (fst ` set m)"
  by (induction k v m rule: bt_insert.induct) auto

lemma bt_contains_key_iff: "bt_contains_key m k \<longleftrightarrow> k \<in> fst ` set m"
  by (simp add: bt_contains_key_def bt_get_def map_of_eq_None_iff)

lemma create_dependency_task_wf:
  assumes "create_dependency_task_if_new view ev s = (s', effs)" "tasks_wf s"
    and "\<And>event. ev = Some event \<Longrightarrow>
           event_matches (create_event_dependency QuorumProposalDependency view) event"
  shows "tasks_wf s'"
proof (cases "bt_contains_key (vote_dependencies s) view")
  case True
  then show ?thesis using assms by (simp add: create_dependency_task_if_new_def)
next
  case False
  have task: "task_for view (new_vote_task view ev s)"
    using assms(3) by (auto simp: new_vote_task_def task_for_def)
  have "vote_dependencies s' = bt_insert view (new_vote_task view ev s) (vote_dependencies s)"
    using assms(1) False by (auto simp: create_dependency_task_if_new_def)
  then show ?thesis
    using assms(2) task set_bt_insert_subset [of view "new_vote_task view ev s" "vote_dependencies s"]
    by (auto simp: tasks_wf_def)
qed

lemma create_dependency_task_covered:
  assumes "create_dependency_task_if_new view ev s = (s', effs)" "covered views s"
    and "view > latest_voted_view s"
  shows "covered (views @ spawned_views effs) s'"
  using assms
  by (force simp: create_dependency_task_if_new_def Let_def covered_def bt_contains_key_iff
      keys_bt_insert split: if_splits)

lemma view_change_covered:
  "covered views s \<Longrightarrow> covered views (cancel_old_tasks v (fst (update_latest_voted_view v s)))"
  by (fastforce simp: covered_def cancel_old_tasks_def update_latest_voted_view_def bt_split_off_def
      image_iff)

lemma timeout_covered:
  "covered views s \<Longrightarrow> v \<le> latest_voted_view s \<Longrightarrow> covered views (cancel_old_tasks v s)"
  by (fastforce simp: covered_def cancel_old_tasks_def bt_split_off_def image_iff)

lemma handle_tasks_wf:
  assumes "quorum_vote_handle env venv denv event s c = Some (s', c', r, effects)" "tasks_wf s"
  shows "tasks_wf s'"
proof (cases event)
  case (ProposalValidatedEvent p l)
  let ?s = "\<lambda>lock. s\<lparr>qv_upgrade_lock := lock\<rparr>"
  have wf: "tasks_wf (?s lock)" for lock using assms(2) by (simp add: tasks_wf_def)
  show ?thesis
    using assms(1) wf create_dependency_task_wf [OF _ wf]
    by (fastforce simp: ProposalValidatedEvent quorum_vote_handle_def Let_def event_matches_def
        create_event_dependency_def split: option.splits prod.splits if_splits)
next
  case (DaCertificateRecv cert)
  show ?thesis
    using assms create_dependency_task_wf [OF _ assms(2), of _ None]
    by (auto simp: DaCertificateRecv quorum_vote_handle_def handle_da_certificate_recv_def Let_def
        split: option.splits prod.splits if_splits sum.splits)
next
  case (VidShareRecv sender share)
  show ?thesis
    using assms create_dependency_task_wf [OF _ assms(2), of _ None]
    by (auto simp: VidShareRecv quorum_vote_handle_def handle_vid_share_recv_def Let_def
        split: option.splits prod.splits if_splits sum.splits)
qed (use assms in \<open>auto simp: quorum_vote_handle_def Let_def tasks_wf_def cancel_old_tasks_def
       update_latest_voted_view_def bt_split_off_def split: if_splits\<close>)

lemma handle_covered:
  assumes "quorum_vote_handle env venv denv event s c = Some (s', c', r, effects)"
    and "covered views s" "timely (latest_voted_view s, event)"
  shows "covered (views @ spawned_views effects) s'"
proof (cases event)
  case (ProposalValidatedEvent p l)
  let ?s = "\<lambda>lock. s\<lparr>qv_upgrade_lock := lock\<rparr>"
  have cov: "covered views (?s lock)" for lock using assms(2) by (simp add: covered_def)
  show ?thesis
    using assms(1) cov create_dependency_task_covered [OF _ cov]
    by (auto simp: ProposalValidatedEvent quorum_vote_handle_def Let_def
        split: option.splits prod.splits if_splits)
next
  case (DaCertificateRecv cert)
  show ?thesis
    using assms create_dependency_task_covered [OF _ assms(2), of _ None]
    by (auto simp: DaCertificateRecv quorum_vote_handle_def handle_da_certificate_recv_def Let_def
        split: option.splits prod.splits if_splits sum.splits)
next
  case (VidShareRecv sender share)
  show ?thesis
    using assms create_dependency_task_covered [OF _ assms(2), of _ None]
    by (auto simp: VidShareRecv quorum_vote_handle_def handle_vid_share_recv_def Let_def
        split: option.splits prod.splits if_splits sum.splits)
next
  case (TimeoutEvent v)
  then show ?thesis
    using assms timeout_covered by (auto simp: quorum_vote_handle_def timely_def)
next
  case (ViewChangeEvent v e)
  then show ?thesis
    using assms view_change_covered by (auto simp: quorum_vote_handle_def Let_def)
qed (use assms in \<open>auto simp: quorum_vote_handle_def covered_def\<close>)

lemma vote_run_tasks_wf:
  "vote_run s0 events log s \<Longrightarrow> tasks_wf s0 \<Longrightarrow> tasks_wf s"
  by (induction rule: vote_run.induct) (auto intro: handle_tasks_wf)

lemma vote_run_covered:
  "vote_run s0 events log s \<Longrightarrow> vote_dependencies s0 = [] \<Longrightarrow> \<forall>e \<in> set events. timely e
     \<Longrightarrow> covered (spawned_views log) s"
proof (induction rule: vote_run.induct)
  case vr_start
  then show ?case by (simp add: covered_def)
next
  case (vr_step events log s env venv denv event c s' c' r effects)
  then show ?case using handle_covered [OF vr_step.hyps(2)] by simp
qed

text \<open>
  C15: In every run of the vote task that starts without vote tasks and in which every timeout is for
  the view the task is in or an earlier one, the task starts at most one vote task per view,
  whatever proposals, DA certificates, VID shares and view changes it receives.
\<close>

theorem one_vote_task_per_view:
  assumes "vote_run s0 events log s" "vote_dependencies s0 = []" "\<forall>e \<in> set events. timely e"
  shows "distinct (spawned_views log)"
  using vote_run_covered [OF assms] by (simp add: covered_def)

section \<open>What a vote vouches for\<close>

fun message_vote :: "('k, 'g) VoteMessage \<Rightarrow> ('k, 'g, QuorumData2) SimpleVote option" where
  "message_vote (QuorumVoteSend vote) = Some vote"
| "message_vote (ExtendedQuorumVoteSend vote) = Some vote"
| "message_vote (EpochRootQuorumVoteSend vote _) = Some vote"
| "message_vote (VoteViewChange _ _) = None"

definition agreed_on ::
  "('k, 'g, 'h, 'st) Env \<Rightarrow> ('k, 'g, 'h, 'st, 'dl) VoteEnv \<Rightarrow> (('g, 'h) QuorumProposal2, 'g) Proposal
     \<Rightarrow> ('g, 'h) Leaf2 \<Rightarrow> commitment \<Rightarrow> bool" where
  "agreed_on env venv proposal parent comm =
     (leaf_commit (cert_data (qp_justify_qc (proposal_data proposal))) = env_leaf_commit env parent
      \<and> hdr_payload_commitment (qp_block_header (proposal_data proposal)) = comm
      \<and> ve_store_proposal venv proposal)"

definition deps_inv ::
  "('k, 'g, 'h, 'st) Env \<Rightarrow> ('k, 'g, 'h, 'st, 'dl) VoteEnv \<Rightarrow> ('k, 'g, 'h) VoteDependencyEvent set
     \<Rightarrow> ('k, 'g, 'h) VoteDeps \<Rightarrow> bool" where
  "deps_inv env venv res deps =
     ((\<forall>leaf. vd_leaf deps = Some leaf \<longrightarrow>
         (\<exists>proposal parent comm. ProposalDep proposal parent \<in> res
            \<and> leaf = from_quorum_proposal (proposal_data proposal)
            \<and> vd_payload_commitment deps = Some comm \<and> agreed_on env venv proposal parent comm
            \<and> vd_parent_view_number deps = Some (leaf_view_number parent)))
      \<and> (\<forall>cert. vd_da_cert deps = Some cert \<longrightarrow> DacDep cert \<in> res
            \<and> vd_payload_commitment deps = Some (payload_commit (cert_data cert)))
      \<and> (\<forall>share. vd_vid_share deps = Some share \<longrightarrow> VidDep share \<in> res
            \<and> (vid_epoch (proposal_data share) = vid_target_epoch (proposal_data share) \<longrightarrow>
                 vd_payload_commitment deps = Some (vid_payload_commitment (proposal_data share)))))"

lemma agree_Some [simp]: "agree (Some c) comm \<longleftrightarrow> comm = c"
  and agree_None [simp]: "agree None comm"
  by (simp_all add: agree_def)

lemma parent_commitment_of_proposal:
  "parent_commitment (from_quorum_proposal p) = leaf_commit (cert_data (qp_justify_qc p))"
  by (simp add: from_quorum_proposal_def)

lemma deps_inv_none: "deps_inv env venv res vote_deps_none"
  by (simp add: deps_inv_def vote_deps_none_def)

lemma deps_inv_payload:
  assumes "deps_inv env venv res deps" "agree (vd_payload_commitment deps) comm"
  shows "deps_inv env venv res (deps\<lparr>vd_payload_commitment := Some comm\<rparr>)"
  using assms unfolding deps_inv_def by (auto; force)

lemma collect_dependency_inv:
  assumes "collect_dependency env venv event deps = Some deps'" "deps_inv env venv res deps"
    and "event \<in> res"
  shows "deps_inv env venv res deps'"
proof (cases event)
  case (ProposalDep p l)
  then have comm: "agree (vd_payload_commitment deps)
      (hdr_payload_commitment (qp_block_header (proposal_data p)))"
    using assms(1) by (auto simp: collect_dependency_def Let_def split: if_splits)
  show ?thesis
    using deps_inv_payload [OF assms(2) comm] assms(1,3)
    by (auto simp: ProposalDep collect_dependency_def Let_def deps_inv_def agreed_on_def
        parent_commitment_of_proposal split: if_splits intro!: exI [of _ p] exI [of _ l])
next
  case (DacDep cert)
  then have comm: "agree (vd_payload_commitment deps) (payload_commit (cert_data cert))"
    using assms(1) by (auto simp: collect_dependency_def Let_def split: if_splits)
  show ?thesis
    using deps_inv_payload [OF assms(2) comm] assms(1,3)
    by (auto simp: DacDep collect_dependency_def Let_def deps_inv_def split: if_splits)
next
  case (VidDep share)
  let ?comm = "vid_payload_commitment (proposal_data share)"
  show ?thesis
  proof (cases "vid_epoch (proposal_data share) = vid_target_epoch (proposal_data share)")
    case True
    then have comm: "agree (vd_payload_commitment deps) ?comm"
      using assms(1) VidDep by (auto simp: collect_dependency_def Let_def split: if_splits)
    show ?thesis
      using deps_inv_payload [OF assms(2) comm] assms(1,3) True
      by (auto simp: VidDep collect_dependency_def Let_def deps_inv_def split: if_splits)
  next
    case False
    then show ?thesis
      using assms by (auto simp: VidDep collect_dependency_def Let_def deps_inv_def split: if_splits)
  qed
qed (use assms in \<open>simp add: collect_dependency_def\<close>)

lemma collect_dependencies_inv:
  "collect_dependencies env venv events deps = Some deps' \<Longrightarrow> deps_inv env venv res deps
     \<Longrightarrow> set events \<subseteq> res \<Longrightarrow> deps_inv env venv res deps'"
  by (induction events arbitrary: deps) (auto split: option.splits dest: collect_dependency_inv)

lemma create_signed_vote_Some:
  assumes "create_signed_vote env venv data view k lock = Some vote"
  shows "vote_date vote = data" "vote_view_number vote = view" "vote_signing_key vote = k"
  using assms by (auto simp: create_signed_vote_def split: sum.splits)

lemma epoch_root_vote_message_vote:
  "epoch_root_vote_message env venv m vote view leaf h = Some message \<Longrightarrow> message_vote message = Some vote"
  by (auto simp: epoch_root_vote_message_def split: option.splits)

definition entitled ::
  "('k, 'g, 'h, 'st) Env \<Rightarrow> ('k, u8 list) EpochMembership \<Rightarrow> ('g, 'h) Leaf2 \<Rightarrow> u64 \<Rightarrow> 'k \<Rightarrow> bool" where
  "entitled env membership leaf h key =
     (em_has_stake membership key
      \<or> with_epoch leaf \<and> is_epoch_transition (leaf_height leaf) h
        \<and> (\<exists>next_membership. next_epoch_stake_table env membership = Some next_membership
             \<and> em_has_stake next_membership key))"

lemma submit_vote_sound:
  assumes "submit_vote env venv m k lock view leaf share ext root h = Some message"
    and "message_vote message = Some vote"
  shows "entitled env m leaf h k" "vote_view_number vote = view" "vote_signing_key vote = k"
    "leaf_commit (vote_date vote) = env_leaf_commit env leaf" "qd_epoch (vote_date vote) = em_epoch m"
    "ve_store_vid venv share"
  using assms create_signed_vote_Some epoch_root_vote_message_vote
  by (fastforce simp: submit_vote_def Let_def entitled_def split: if_splits option.splits)+

lemma transition_vid_share_matches:
  "transition_vid_share env venv self leaf share cert c = Some (Some s) \<Longrightarrow>
     vid_payload_commitment (proposal_data s) = hdr_payload_commitment (block_header leaf)"
  by (auto simp: transition_vid_share_def Let_def split: if_splits option.splits)

lemma update_shared_state_True:
  assumes "update_shared_state env venv lock view leaf share pv h c = (c', True)"
  obtains parent_state parent version out where
    "ve_validate_and_apply_header venv parent_state parent (block_header leaf)
       (vid_payload_byte_len (proposal_data share)) version view = Some out"
  using assms
  by (auto simp: update_shared_state_def Let_def split: option.splits prod.splits sum.splits)

lemma handle_dep_resultE:
  assumes "handle_dep_result env venv self res c = (c', messages)" "message \<in> set messages"
    and "message_vote message = Some vote"
  obtains deps share leaf cert stored membership where
    "collect_dependencies env venv res vote_deps_none = Some deps"
    "vd_vid_share deps = Some share" "vd_leaf deps = Some leaf" "vd_da_cert deps = Some cert"
    "stored = share \<or>
       vid_payload_commitment (proposal_data stored) = hdr_payload_commitment (block_header leaf)"
    "update_shared_state env venv (vh_upgrade_lock self) (vh_view_number self) leaf stored
       (vd_parent_view_number deps) (vh_epoch_height self) c = (c', True)"
    "env_membership_for_epoch env (leaf_epoch leaf (vh_epoch_height self)) = Some membership"
    "submit_vote env venv membership (vh_public_key self) (vh_upgrade_lock self)
       (vh_view_number self) leaf stored (is_last_block (leaf_height leaf) (vh_epoch_height self))
       (is_epoch_root (leaf_height leaf) (vh_epoch_height self)) (vh_epoch_height self) = Some message"
proof -
  obtain deps share leaf cert mc where collected:
    "collect_dependencies env venv res vote_deps_none = Some deps" "vd_vid_share deps = Some share"
    "vd_leaf deps = Some leaf" "vd_da_cert deps = Some cert"
    and mc: "transition_vid_share env venv self leaf share cert c = Some mc"
    using assms(1,2) by (auto simp: handle_dep_result_def split: option.splits)
  define stored where "stored = (case mc of Some s \<Rightarrow> s | None \<Rightarrow> share)"
  have matches: "stored = share \<or>
      vid_payload_commitment (proposal_data stored) = hdr_payload_commitment (block_header leaf)"
    using mc transition_vid_share_matches [of env venv self leaf share cert c]
    by (cases mc) (auto simp: stored_def)
  obtain membership where
    "update_shared_state env venv (vh_upgrade_lock self) (vh_view_number self) leaf stored
       (vd_parent_view_number deps) (vh_epoch_height self) c = (c', True)"
    "env_membership_for_epoch env (leaf_epoch leaf (vh_epoch_height self)) = Some membership"
    "submit_vote env venv membership (vh_public_key self) (vh_upgrade_lock self)
       (vh_view_number self) leaf stored (is_last_block (leaf_height leaf) (vh_epoch_height self))
       (is_epoch_root (leaf_height leaf) (vh_epoch_height self)) (vh_epoch_height self) = Some message"
    using assms collected mc
    by (auto simp: handle_dep_result_def Let_def stored_def [symmetric] leaf_epoch_def leaf_height_def
        split: prod.splits bool.splits option.splits if_splits)
  with collected matches show ?thesis by (rule that)
qed

lemma event_dependency_completed_matches:
  assumes "event_dependency_completed stream dep = Some event"
    and "\<And>e. ed_completed dep = Some e \<Longrightarrow> event_matches dep e"
  shows "event_matches dep event"
  using assms by (auto simp: event_dependency_completed_def find_Some_iff split: option.splits)

definition event_view :: "('k, 'g, 'h) VoteDependencyEvent \<Rightarrow> u64 option" where
  "event_view event =
     (case event of
        ProposalDep p _ \<Rightarrow> Some (qp_view_number (proposal_data p))
      | DacDep cert \<Rightarrow> Some (cert_view_number cert)
      | VidDep share \<Rightarrow> Some (vid_view_number (proposal_data share))
      | OtherDep \<Rightarrow> None)"

lemma event_matches_view: "event_matches dep event \<Longrightarrow> event_view event = Some (ed_view_number dep)"
  by (auto simp: event_matches_def event_view_def split: VoteDependency.splits VoteDependencyEvent.splits)

lemma task_results_view:
  assumes "task_for view task" "and_dependency_completed (dt_deps task) stream res" "event \<in> set res"
  shows "event_view event = Some view"
proof -
  obtain completed where deps: "dt_deps task =
      [(create_event_dependency QuorumProposalDependency view)\<lparr>ed_completed := completed\<rparr>,
       create_event_dependency DacDependency view, create_event_dependency VidDependency view]"
    and ok: "\<And>event. completed = Some event \<Longrightarrow>
       event_matches (create_event_dependency QuorumProposalDependency view) event"
    using assms(1) by (auto simp: task_for_def)
  have "\<exists>dep \<in> set (dt_deps task). event_dependency_completed stream dep = Some event"
    using assms(2,3)
    by (auto simp: and_dependency_completed_def deps split: option.splits dest!: mset_eq_setD)
  then obtain dep where "dep \<in> set (dt_deps task)" "event_dependency_completed stream dep = Some event"
    by blast
  moreover have "ed_view_number dep = view \<and> (\<forall>e. ed_completed dep = Some e \<longrightarrow> event_matches dep e)"
    if "dep \<in> set (dt_deps task)" for dep
    using that ok
    by (auto simp: deps create_event_dependency_def event_matches_def split: VoteDependencyEvent.splits)
  ultimately show ?thesis
    using event_dependency_completed_matches event_matches_view by metis
qed



lemma vote_dependency_order_matters:
  assumes "vid_epoch (proposal_data share) \<noteq> vid_target_epoch (proposal_data share)"
    and "next_epoch_payload_commit (cert_data cert) = None"
  shows "collect_dependencies env venv [DacDep cert, VidDep share] vote_deps_none \<noteq> None"
    and "collect_dependencies env venv [VidDep share, DacDep cert] vote_deps_none = None"
  using assms by (simp_all add: collect_dependency_def Let_def vote_deps_none_def)

section \<open>Witnesses\<close>

definition demo_venv :: "(nat, nat, unit, nat, nat) VoteEnv" where
  "demo_venv =
     \<lparr>ve_store_proposal = (\<lambda>p. True), ve_store_vid = (\<lambda>v. True),
      ve_validate_and_apply_header = (\<lambda>st parent header len version view. Some (st + 1, 0)),
      ve_da_commit = (\<lambda>d v. payload_commit d), ve_sign_request = (\<lambda>v. True),
      ve_sign = (\<lambda>c. Some 1), ve_proposal_responses = [], ve_vid_events = [],
      ve_light_client_state = (\<lambda>h v. None), ve_stake_commitment = (\<lambda>t. None),
      ve_sign_state = (\<lambda>l t. None), ve_verify_share = (\<lambda>s w. w = 5)\<rparr>"

definition demo_dac :: "nat DaCertificate2" where
  "demo_dac = \<lparr>cert_data = \<lparr>payload_commit = 0, next_epoch_payload_commit = None, da_epoch = None\<rparr>,
     cert_vote_commitment = 0, cert_view_number = 3, cert_signatures = Some (1, [True])\<rparr>"

definition demo_share :: "(nat, nat) VidProposal" where
  "demo_share = \<lparr>proposal_data = \<lparr>vid_view_number = 3, vid_recipient_key = 1, vid_target_epoch = None,
     vid_epoch = None, vid_payload_commitment = 0, vid_payload_byte_len = 7, vid_share_bytes = []\<rparr>,
     proposal_signature = 1\<rparr>"

definition demo_vote_task :: "(nat, nat, unit) QuorumVoteTaskState" where
  "demo_vote_task = \<lparr>qv_public_key = 1, latest_voted_view = 0, vote_dependencies = [],
     qv_upgrade_lock = sample_lock, qv_epoch_height = 10, qv_first_epoch = None\<rparr>"

definition demo_after :: "(nat, nat, unit) VoteTaskEvent \<Rightarrow> (nat, nat, unit) QuorumVoteTaskState
     \<Rightarrow> (nat, nat, unit, nat, nat) vote_outcome option" where
  "demo_after event s = quorum_vote_handle demo_env demo_venv demo_denv event s sample_state2"

definition demo_vote_task1 where
  "demo_vote_task1 = fst (the (demo_after (DaCertificateRecv demo_dac) demo_vote_task))"

definition demo_results :: "(nat, nat, unit) VoteDependencyEvent list" where
  "demo_results = [VidDep demo_share, ProposalDep demo_proposal sample_leaf2, DacDep demo_dac]"

definition demo_votes where
  "demo_votes = (case bt_get (vote_dependencies demo_vote_task1) 3 of
     None \<Rightarrow> [] | Some task \<Rightarrow>
       snd (handle_dep_result demo_env demo_venv (dt_handle task) demo_results sample_state2))"

lemma demo_dac_step:
  "case demo_after (DaCertificateRecv demo_dac) demo_vote_task of
     Some (s, c, r, effs) \<Rightarrow> is_ok r \<and> map fst (vote_dependencies s) = [3] \<and> spawned_views effs = [3]
   | None \<Rightarrow> False"
  by code_simp

lemma demo_vote_sent:
  "demo_votes \<noteq> [] \<and>
   (case last demo_votes of
      QuorumVoteSend vote \<Rightarrow> vote_view_number vote = 3
        \<and> leaf_commit (vote_date vote) = sample_leaf_commit (from_quorum_proposal (proposal_data demo_proposal))
    | _ \<Rightarrow> False)"
  by code_simp

lemma demo_task_completes:
  "case bt_get (vote_dependencies demo_vote_task1) 3 of
     Some task \<Rightarrow> and_dependency_completed (dt_deps task) (rev demo_results) demo_results
   | None \<Rightarrow> False"
  by code_simp

lemma demo_after_step:
  assumes "vote_run demo_vote_task events log s" "demo_after event s = Some (s', c', r, effects)"
  shows "vote_run demo_vote_task (events @ [(latest_voted_view s, event)]) (log @ effects) s'"
  using vr_step [OF assms(1)] assms(2) unfolding demo_after_def by blast

lemma demo_run1:
  obtains effects where
    "vote_run demo_vote_task [(0, DaCertificateRecv demo_dac)]
       (effects :: (nat, nat, unit, nat, nat) VoteTaskEffect list) demo_vote_task1"
    "spawned_views effects = [3]"
proof -
  obtain s c r effs where step:
    "demo_after (DaCertificateRecv demo_dac) demo_vote_task = Some (s, c, r, effs)"
    "spawned_views effs = [3]"
    using demo_dac_step by (auto split: option.splits)
  have "vote_run demo_vote_task [(0, DaCertificateRecv demo_dac)] effs demo_vote_task1"
    using demo_after_step [OF vr_start step(1)] step(1)
    by (simp add: demo_vote_task1_def) (simp add: demo_vote_task_def)
  with step(2) show ?thesis using that by blast
qed


lemma demo_share_step:
  "case demo_after (VidShareRecv 1 demo_share) demo_vote_task1 of
     Some (s, c, r, effs) \<Rightarrow> is_ok r \<and> spawned_views effs = [] \<and> latest_voted_view s = 0
   | None \<Rightarrow> False"
  by code_simp

theorem one_vote_task_per_view_witness:
  "\<exists>s (log :: (nat, nat, unit, nat, nat) VoteTaskEffect list).
     vote_run demo_vote_task [(0, DaCertificateRecv demo_dac), (0, VidShareRecv 1 demo_share)] log s
     \<and> spawned_views log = [3] \<and> distinct (spawned_views log)"
proof -
  obtain effects where run: "vote_run demo_vote_task [(0, DaCertificateRecv demo_dac)]
      (effects :: (nat, nat, unit, nat, nat) VoteTaskEffect list) demo_vote_task1"
      "spawned_views effects = [3]"
    using demo_run1 .
  obtain s c r effs where step: "demo_after (VidShareRecv 1 demo_share) demo_vote_task1 = Some (s, c, r, effs)"
      "spawned_views effs = []"
    using demo_share_step by (auto split: option.splits)
  have "latest_voted_view demo_vote_task1 = 0" by code_simp
  with demo_after_step [OF run(1) step(1)] have run2: "vote_run demo_vote_task
      [(0, DaCertificateRecv demo_dac), (0, VidShareRecv 1 demo_share)] (effects @ effs) s" by simp
  have "distinct (spawned_views (effects @ effs))"
    by (rule one_vote_task_per_view [OF run2]) (simp_all add: demo_vote_task_def timely_def)
  with run2 run(2) step(2) show ?thesis by (intro exI [of _ s] exI [of _ "effects @ effs"]) simp
qed

section \<open>Bounds on the VID weights\<close>

definition nat_weight :: "nat \<Rightarrow> nat \<Rightarrow> nat" where
  "nat_weight tot stake = stake * 1000 div tot + 1"

lemma nat_weight_le: "stake \<le> tot \<Longrightarrow> nat_weight tot stake \<le> 1001"
  unfolding nat_weight_def using div_le_mono [of "stake * 1000" "tot * 1000" tot]
  by (cases "tot = 0") auto

lemma nat_weight_gt: "0 < tot \<Longrightarrow> stake * 1000 < nat_weight tot stake * tot"
  unfolding nat_weight_def by (metis Suc_eq_plus1 dividend_less_div_times mult.commute mult_Suc add.commute)

lemma sum_nat_weights_le:
  "tot * sum_list (map (nat_weight tot) stakes) \<le> sum_list stakes * 1000 + length stakes * tot"
proof (induction stakes)
  case (Cons s stakes)
  have "tot * (s * 1000 div tot) \<le> s * 1000" by simp
  then have "tot * nat_weight tot s \<le> s * 1000 + tot" by (simp add: nat_weight_def algebra_simps)
  with Cons show ?case by (simp add: algebra_simps)
qed simp

lemma sum_nat_weights_ge:
  assumes "0 < tot"
  shows "sum_list stakes * 1000 + length stakes \<le> tot * sum_list (map (nat_weight tot) stakes)"
proof (induction stakes)
  case (Cons s stakes)
  then show ?case using nat_weight_gt [OF assms, of s] by (simp add: algebra_simps)
qed simp

lemma nat_weights_bounds:
  assumes "0 < sum_list stakes"
  shows "1000 < sum_list (map (nat_weight (sum_list stakes)) stakes)"
    "sum_list (map (nat_weight (sum_list stakes)) stakes) \<le> 1000 + length stakes"
proof -
  let ?tot = "sum_list stakes" and ?w = "sum_list (map (nat_weight (sum_list stakes)) stakes)"
  have "0 < length stakes" using assms by (cases stakes) auto
  then have "?tot * 1000 < ?tot * ?w" using sum_nat_weights_ge [OF assms, of stakes] by linarith
  then show "1000 < ?w" by simp
  have "?tot * ?w \<le> ?tot * (1000 + length stakes)"
    using sum_nat_weights_le [of ?tot stakes] by (simp add: algebra_simps)
  then show "?w \<le> 1000 + length stakes" using assms by simp
qed

lemma unat_stake_weight:
  assumes "unat stake * 1000 < 2 ^ 256" "unat stake \<le> unat tot"
  shows "unat (stake_weight tot stake) = nat_weight (unat tot) (unat stake)"
proof -
  have "unat stake * unat (1000 :: u256) < 2 ^ LENGTH(256)" using assms(1) by simp
  then have "unat (stake * ucast VID_TARGET_TOTAL_STAKE) = unat stake * 1000"
    unfolding unat_mult_lem by (simp add: VID_TARGET_TOTAL_STAKE_def)
  then have "unat (stake * ucast VID_TARGET_TOTAL_STAKE div tot) + unat (1 :: u256)
      = nat_weight (unat tot) (unat stake)"
    by (simp add: nat_weight_def unat_div)
  moreover have "nat_weight (unat tot) (unat stake) < 2 ^ LENGTH(256)"
    using nat_weight_le [OF assms(2)] by simp
  ultimately show ?thesis unfolding stake_weight_def by (metis unat_add_lem)
qed

lemma uint_to_Some:
  fixes x :: "'a::len word"
  assumes "unat x < 2 ^ LENGTH('b)"
  obtains y :: "'b::len word" where "uint_to x = Some y" "unat y = unat x"
proof (rule that)
  have "uint x < 2 ^ LENGTH('b)" using assms by (metis uint_nat of_nat_less_iff of_nat_numeral of_nat_power)
  then show "uint_to x = Some (ucast x :: 'b word)" by (simp add: uint_to_def)
  show "unat (ucast x :: 'b word) = unat x"
    using assms by (simp add: unsigned_ucast_eq take_bit_nat_eq_self)
qed

lemma scaled_weights_Some:
  assumes "\<forall>s \<in> set stakes. unat s * 1000 < 2 ^ 256 \<and> unat s \<le> unat tot"
    and "unat tw + 1001 * length stakes < 2 ^ 64"
  shows "\<exists>ws t. scaled_weights tot stakes tw = Some (ws, t)
     \<and> map unat ws = map (\<lambda>s. nat_weight (unat tot) (unat s)) stakes
     \<and> unat t = unat tw + sum_list (map unat ws)"
  using assms
proof (induction stakes arbitrary: tw)
  case (Cons s stakes)
  let ?w = "stake_weight tot s"
  have w: "unat ?w = nat_weight (unat tot) (unat s)" using Cons.prems(1) by (simp add: unat_stake_weight)
  then have le: "unat ?w \<le> 1001" using Cons.prems(1) nat_weight_le by simp
  obtain w64 :: u64 where w64: "uint_to ?w = Some w64" "unat w64 = unat ?w"
    using uint_to_Some [of ?w, where 'b = 64] le by auto
  obtain w32 :: u32 where w32: "uint_to ?w = Some w32" "unat w32 = unat ?w"
    using uint_to_Some [of ?w, where 'b = 32] le by auto
  have "unat tw + unat w64 < 2 ^ LENGTH(64)" using Cons.prems(2) le w64(2) by simp
  then have tw: "unat (tw + w64) = unat tw + unat ?w" unfolding unat_add_lem using w64(2) by simp
  then have "unat (tw + w64) + 1001 * length stakes < 2 ^ 64" using Cons.prems(2) le by simp
  from Cons.IH [OF _ this] Cons.prems(1) obtain ws t where
    "scaled_weights tot stakes (tw + w64) = Some (ws, t)"
    "map unat ws = map (\<lambda>s. nat_weight (unat tot) (unat s)) stakes"
    "unat t = unat (tw + w64) + sum_list (map unat ws)" by auto
  then show ?case by (auto simp: w64 w32 w tw)
qed simp

lemma those_uint_to:
  assumes "\<forall>s \<in> set (stakes :: u256 list). unat s < 2 ^ 32"
  shows "\<exists>ws :: u32 list. those (map uint_to stakes) = Some ws \<and> map unat ws = map unat stakes"
  using assms
proof (induction stakes)
  case (Cons s stakes)
  obtain w :: u32 where "uint_to s = Some w" "unat w = unat s"
    using uint_to_Some [of s, where 'b = 32] Cons.prems by auto
  with Cons show ?case by auto
qed simp

lemma unat_foldl_stakes:
  fixes stakes :: "u256 list"
  assumes "sum_list (map unat stakes) < 2 ^ 256"
  shows "unat (foldl (+) 0 stakes) = sum_list (map unat stakes)"
  using unat_sum_list_no_overflow [of stakes] assms foldl_add_sum_list [of "\<lambda>x. x" 0 stakes] by simp

definition table_stakes :: "('k, 's) HSStakeTable \<Rightarrow> nat list" where
  "table_stakes table = map (\<lambda>entry. unat (stake_amount (stake_table_entry entry))) table"



end
