(* ===== verification/Block_Payload.thy ===== *)
theory Block_Payload
  imports Prelude "HOL-Library.Multiset"
begin

text \<open>
  Block payloads: \<open>types/src/v0/impls/block/\<close> and \<open>transaction.rs\<close>. A payload is a byte string cut
  into namespaces by a namespace table, and a namespace is a transaction table followed by the bodies
  of its transactions. The theory has the writers (\<open>NsTableBuilder\<close>, \<open>NsPayloadBuilder\<close>,
  \<open>from_transactions_sync\<close>), the readers and the iterator over all transactions, and the validation of
  a namespace table. A \<open>usize\<close> is a natural, with the saturation at 64 bits written out where the source
  has it; sizes that the source keeps in a \<open>u64\<close> are words. \<open>None\<close> is a panic: an index out of range or
  a failed assertion.
\<close>

section \<open>Integers as bytes\<close>

fun le_bytes :: "nat \<Rightarrow> nat \<Rightarrow> u8 list" where
  "le_bytes 0 n = []"
| "le_bytes (Suc k) n = of_nat (n mod 256) # le_bytes k (n div 256)"

fun le_value :: "u8 list \<Rightarrow> nat" where
  "le_value [] = 0"
| "le_value (b # bs) = unat b + 256 * le_value bs"

text \<open>The macro \<open>uint_bytes_impl\<close>, for a type of \<open>sz\<close> bytes: 8 for \<open>usize\<close>, 4 for \<open>u32\<close>.\<close>

definition uint_max_from_byte_len :: "nat \<Rightarrow> nat \<Rightarrow> nat" where
  "uint_max_from_byte_len sz byte_len =
     (if byte_len \<ge> sz then 2 ^ (8 * sz) - 1 else 2 ^ (byte_len * 8) - 1)"

definition uint_fits :: "nat \<Rightarrow> nat \<Rightarrow> nat \<Rightarrow> bool" where
  "uint_fits sz n byte_len = (n \<le> uint_max_from_byte_len sz byte_len)"

definition uint_to_bytes :: "nat \<Rightarrow> nat \<Rightarrow> nat \<Rightarrow> u8 list option" where
  "uint_to_bytes sz byte_len n =
     (if sz > byte_len then
        (if uint_fits sz n byte_len then Some (take byte_len (le_bytes sz n)) else None)
      else Some (le_bytes sz n @ replicate (byte_len - sz) 0))"

definition uint_from_bytes :: "nat \<Rightarrow> nat \<Rightarrow> u8 list \<Rightarrow> nat option" where
  "uint_from_bytes sz byte_len bytes =
     (if length bytes \<le> byte_len \<and> byte_len \<le> sz
      then Some (le_value (bytes @ replicate (sz - length bytes) 0)) else None)"

abbreviation usize_to_bytes :: "nat \<Rightarrow> nat \<Rightarrow> u8 list option" where
  "usize_to_bytes \<equiv> uint_to_bytes 8"

abbreviation usize_from_bytes :: "nat \<Rightarrow> u8 list \<Rightarrow> nat option" where
  "usize_from_bytes \<equiv> uint_from_bytes 8"

abbreviation u32_to_bytes :: "nat \<Rightarrow> nat \<Rightarrow> u8 list option" where
  "u32_to_bytes \<equiv> uint_to_bytes 4"

abbreviation u32_from_bytes :: "nat \<Rightarrow> u8 list \<Rightarrow> nat option" where
  "u32_from_bytes \<equiv> uint_from_bytes 4"

definition usize_max :: nat where
  "usize_max = 2 ^ 64 - 1"

definition sat_add :: "nat \<Rightarrow> nat \<Rightarrow> nat" where
  "sat_add a b = min (a + b) usize_max"

definition sat_mul :: "nat \<Rightarrow> nat \<Rightarrow> nat" where
  "sat_mul a b = min (a * b) usize_max"

definition slice :: "'a list \<Rightarrow> nat \<Rightarrow> nat \<Rightarrow> 'a list option" where
  "slice xs a b = (if a \<le> b \<and> b \<le> length xs then Some (take (b - a) (drop a xs)) else None)"

section \<open>Transactions\<close>

definition NUM_NSS_BYTE_LEN :: nat where "NUM_NSS_BYTE_LEN = 4"

definition NS_OFFSET_BYTE_LEN :: nat where "NS_OFFSET_BYTE_LEN = 4"

definition NS_ID_BYTE_LEN :: nat where "NS_ID_BYTE_LEN = 4"

definition NUM_TXS_BYTE_LEN :: nat where "NUM_TXS_BYTE_LEN = 4"

definition TX_OFFSET_BYTE_LEN :: nat where "TX_OFFSET_BYTE_LEN = 4"

lemmas byte_lens = NUM_NSS_BYTE_LEN_def NS_OFFSET_BYTE_LEN_def NS_ID_BYTE_LEN_def
  NUM_TXS_BYTE_LEN_def TX_OFFSET_BYTE_LEN_def

record Transaction =
  tx_namespace :: u64
  tx_payload :: "u8 list"

definition minimum_block_size :: "Transaction \<Rightarrow> u64" where
  "minimum_block_size tx =
     of_nat (length (tx_payload tx) + TX_OFFSET_BYTE_LEN + (NS_ID_BYTE_LEN + NS_OFFSET_BYTE_LEN)
       + NUM_TXS_BYTE_LEN)"

definition size_in_block :: "Transaction \<Rightarrow> bool \<Rightarrow> u64" where
  "size_in_block tx new_ns =
     (if new_ns then minimum_block_size tx else of_nat (length (tx_payload tx) + TX_OFFSET_BYTE_LEN))"

section \<open>Writing a namespace\<close>

record NsPayloadBuilder =
  tx_table_entries :: "u8 list"
  tx_bodies :: "u8 list"

definition ns_payload_builder_default :: NsPayloadBuilder where
  "ns_payload_builder_default = \<lparr>tx_table_entries = [], tx_bodies = []\<rparr>"

definition append_tx :: "Transaction \<Rightarrow> NsPayloadBuilder \<Rightarrow> NsPayloadBuilder option" where
  "append_tx tx self =
     (let bodies = tx_bodies self @ tx_payload tx in
      map_option (\<lambda>entry. \<lparr>tx_table_entries = tx_table_entries self @ entry, tx_bodies = bodies\<rparr>)
        (usize_to_bytes TX_OFFSET_BYTE_LEN (length bodies)))"

definition into_bytes :: "NsPayloadBuilder \<Rightarrow> u8 list option" where
  "into_bytes self =
     map_option (\<lambda>num_txs. num_txs @ tx_table_entries self @ tx_bodies self)
       (usize_to_bytes NUM_TXS_BYTE_LEN (length (tx_table_entries self) div TX_OFFSET_BYTE_LEN))"

section \<open>Writing the namespace table\<close>

record NsTableBuilder =
  ntb_bytes :: "u8 list"
  ntb_num_entries :: nat

definition ns_table_builder_new :: NsTableBuilder where
  "ns_table_builder_new = \<lparr>ntb_bytes = replicate NUM_NSS_BYTE_LEN 0, ntb_num_entries = 0\<rparr>"

definition append_entry :: "u64 \<Rightarrow> nat \<Rightarrow> NsTableBuilder \<Rightarrow> NsTableBuilder option" where
  "append_entry ns_id offset self =
     (case (u32_to_bytes NS_ID_BYTE_LEN (unat (ucast ns_id :: u32)),
            usize_to_bytes NS_OFFSET_BYTE_LEN offset) of
        (Some id_bytes, Some offset_bytes) \<Rightarrow>
          Some \<lparr>ntb_bytes = ntb_bytes self @ id_bytes @ offset_bytes,
                ntb_num_entries = ntb_num_entries self + 1\<rparr>
      | _ \<Rightarrow> None)"

definition into_ns_table :: "NsTableBuilder \<Rightarrow> u8 list option" where
  "into_ns_table self =
     map_option (\<lambda>num. num @ drop NUM_NSS_BYTE_LEN (ntb_bytes self))
       (usize_to_bytes NUM_NSS_BYTE_LEN (ntb_num_entries self))"

section \<open>Building a payload\<close>

record Payload =
  raw_payload :: "u8 list"
  ns_table :: "u8 list"

fun add_transactions ::
  "u64 \<Rightarrow> Transaction list \<Rightarrow> u64 \<Rightarrow> (u64, NsPayloadBuilder) btree
     \<Rightarrow> (u64, NsPayloadBuilder) btree option" where
  "add_transactions max_block_byte_len [] block_byte_len ns_builders = Some ns_builders"
| "add_transactions max_block_byte_len (tx # txs) block_byte_len ns_builders =
     (let tx_size = size_in_block tx (\<not> bt_contains_key ns_builders (tx_namespace tx)) in
      if tx_size > max_block_byte_len then
        add_transactions max_block_byte_len txs block_byte_len ns_builders
      else
       (let block_byte_len' = block_byte_len + tx_size in
        if block_byte_len' > max_block_byte_len then Some ns_builders
        else
         (let ns_builder = (case bt_get ns_builders (tx_namespace tx) of
                              Some b \<Rightarrow> b | None \<Rightarrow> ns_payload_builder_default)
          in case append_tx tx ns_builder of
               None \<Rightarrow> None
             | Some ns_builder' \<Rightarrow>
                 add_transactions max_block_byte_len txs block_byte_len'
                   (bt_insert (tx_namespace tx) ns_builder' ns_builders))))"

fun write_namespaces ::
  "(u64, NsPayloadBuilder) btree \<Rightarrow> u8 list \<Rightarrow> NsTableBuilder \<Rightarrow> (u8 list \<times> NsTableBuilder) option" where
  "write_namespaces [] payload ns_table_builder = Some (payload, ns_table_builder)"
| "write_namespaces ((ns_id, ns_builder) # ns_builders) payload ns_table_builder =
     (case into_bytes ns_builder of
        None \<Rightarrow> None
      | Some bytes \<Rightarrow>
         (case append_entry ns_id (length (payload @ bytes)) ns_table_builder of
            None \<Rightarrow> None
          | Some ns_table_builder' \<Rightarrow>
              write_namespaces ns_builders (payload @ bytes) ns_table_builder'))"

definition from_transactions_sync :: "Transaction list \<Rightarrow> u64 \<Rightarrow> Payload option" where
  "from_transactions_sync transactions max_block_size =
     (case add_transactions max_block_size transactions (of_nat NUM_NSS_BYTE_LEN) [] of
        None \<Rightarrow> None
      | Some ns_builders \<Rightarrow>
         (case write_namespaces ns_builders [] ns_table_builder_new of
            None \<Rightarrow> None
          | Some (payload, ns_table_builder) \<Rightarrow>
              map_option (\<lambda>table. \<lparr>raw_payload = payload, ns_table = table\<rparr>)
                (into_ns_table ns_table_builder)))"

section \<open>Reading the namespace table\<close>

definition ns_len :: "u8 list \<Rightarrow> nat" where
  "ns_len bytes = (length bytes - NUM_NSS_BYTE_LEN) div sat_add NS_ID_BYTE_LEN NS_OFFSET_BYTE_LEN"

definition ns_in_bounds :: "u8 list \<Rightarrow> nat \<Rightarrow> bool" where
  "ns_in_bounds bytes index = (index < ns_len bytes)"

definition read_ns_id_unchecked :: "u8 list \<Rightarrow> nat \<Rightarrow> u64 option" where
  "read_ns_id_unchecked bytes index =
     (let start = index * (NS_ID_BYTE_LEN + NS_OFFSET_BYTE_LEN) + NUM_NSS_BYTE_LEN in
      map_option of_nat
        (Option.bind (slice bytes start (start + NS_ID_BYTE_LEN)) (u32_from_bytes NS_ID_BYTE_LEN)))"

definition read_ns_id :: "u8 list \<Rightarrow> nat \<Rightarrow> u64 option option" where
  "read_ns_id bytes index =
     (if \<not> ns_in_bounds bytes index then Some None
      else map_option Some (read_ns_id_unchecked bytes index))"

definition read_ns_offset_unchecked :: "u8 list \<Rightarrow> nat \<Rightarrow> nat option" where
  "read_ns_offset_unchecked bytes index =
     (let start = index * (NS_ID_BYTE_LEN + NS_OFFSET_BYTE_LEN) + NUM_NSS_BYTE_LEN + NS_ID_BYTE_LEN in
      Option.bind (slice bytes start (start + NS_OFFSET_BYTE_LEN)) (usize_from_bytes NS_OFFSET_BYTE_LEN))"

definition read_num_nss :: "u8 list \<Rightarrow> nat option" where
  "read_num_nss bytes =
     Option.bind (slice bytes 0 (min NUM_NSS_BYTE_LEN (length bytes))) (usize_from_bytes NUM_NSS_BYTE_LEN)"

fun find_ns_id_from :: "u8 list \<Rightarrow> u64 \<Rightarrow> nat list \<Rightarrow> nat option option" where
  "find_ns_id_from bytes ns_id [] = Some None"
| "find_ns_id_from bytes ns_id (i # indices) =
     (case read_ns_id_unchecked bytes i of
        None \<Rightarrow> None
      | Some ns_id' \<Rightarrow> if ns_id' = ns_id then Some (Some i) else find_ns_id_from bytes ns_id indices)"

definition find_ns_id :: "u8 list \<Rightarrow> u64 \<Rightarrow> nat option option" where
  "find_ns_id bytes ns_id = find_ns_id_from bytes ns_id [0..<ns_len bytes]"

definition ns_range :: "u8 list \<Rightarrow> nat \<Rightarrow> nat \<Rightarrow> (nat \<times> nat) option" where
  "ns_range bytes index payload_byte_len =
     (case read_ns_offset_unchecked bytes index of
        None \<Rightarrow> None
      | Some offset \<Rightarrow>
         (let end' = min offset payload_byte_len in
          map_option (\<lambda>start. (min start end', end'))
            (if index = 0 then Some 0 else read_ns_offset_unchecked bytes (index - 1))))"

section \<open>Validating the namespace table\<close>

datatype NsTableValidationError =
    InvalidByteLen | NonIncreasingEntries | DuplicateNamespaceId | InvalidHeader
  | InvalidFinalOffset | ExpectNonemptyNsTable

fun validate_entries ::
  "u8 list \<Rightarrow> nat list \<Rightarrow> nat \<Rightarrow> u64 set \<Rightarrow> (NsTableValidationError, unit) result option" where
  "validate_entries bytes [] prev_offset repeat_ns_ids = Some (Ok ())"
| "validate_entries bytes (i # indices) prev_offset repeat_ns_ids =
     (case (read_ns_id_unchecked bytes i, read_ns_offset_unchecked bytes i) of
        (Some ns_id, Some offset) \<Rightarrow>
          (if ns_id \<in> repeat_ns_ids then Some (Err DuplicateNamespaceId)
           else if offset \<le> prev_offset then Some (Err NonIncreasingEntries)
           else validate_entries bytes indices offset (insert ns_id repeat_ns_ids))
      | _ \<Rightarrow> None)"

definition validate_deserialization_invariants ::
  "u8 list \<Rightarrow> (NsTableValidationError, unit) result option" where
  "validate_deserialization_invariants bytes =
     (if length bytes < NUM_NSS_BYTE_LEN
         \<or> (length bytes - NUM_NSS_BYTE_LEN) mod (NS_ID_BYTE_LEN + NS_OFFSET_BYTE_LEN) \<noteq> 0
      then Some (Err InvalidByteLen)
      else case read_num_nss bytes of
             None \<Rightarrow> None
           | Some num_nss \<Rightarrow>
              (if ns_len bytes \<noteq> num_nss then Some (Err InvalidHeader)
               else validate_entries bytes [0..<ns_len bytes] 0 {}))"

definition ns_table_validate :: "u8 list \<Rightarrow> nat \<Rightarrow> (NsTableValidationError, unit) result option" where
  "ns_table_validate bytes payload_byte_len =
     (case validate_deserialization_invariants bytes of
        None \<Rightarrow> None
      | Some (Inl e) \<Rightarrow> Some (Err e)
      | Some (Inr _) \<Rightarrow>
         (let len = ns_len bytes in
          if len > 0 then
            (case read_ns_offset_unchecked bytes (len - 1) of
               None \<Rightarrow> None
             | Some final_offset \<Rightarrow>
                 Some (if final_offset \<noteq> payload_byte_len then Err InvalidFinalOffset else Ok ()))
          else Some (if payload_byte_len \<noteq> 0 then Err ExpectNonemptyNsTable else Ok ())))"

section \<open>Reading a namespace\<close>

definition read_num_txs :: "u8 list \<Rightarrow> nat option" where
  "read_num_txs ns_payload =
     Option.bind (slice ns_payload 0 (min NUM_TXS_BYTE_LEN (length ns_payload)))
       (usize_from_bytes NUM_TXS_BYTE_LEN)"

definition num_txs :: "nat \<Rightarrow> nat \<Rightarrow> nat" where
  "num_txs num_txs_unchecked byte_len =
     min num_txs_unchecked ((byte_len - NUM_TXS_BYTE_LEN) div TX_OFFSET_BYTE_LEN)"

definition tx_table_entries_range :: "nat \<Rightarrow> nat \<times> nat" where
  "tx_table_entries_range index =
     (if index = 0 then NUM_TXS_BYTE_LEN
      else sat_add (sat_mul (index - 1) TX_OFFSET_BYTE_LEN) NUM_TXS_BYTE_LEN,
      sat_add (sat_mul (sat_add index 1) TX_OFFSET_BYTE_LEN) NUM_TXS_BYTE_LEN)"

record TxTableEntries =
  tte_cur :: nat
  tte_prev :: "nat option"

definition tx_table_entries_from_bytes :: "u8 list \<Rightarrow> TxTableEntries option" where
  "tx_table_entries_from_bytes bytes =
     (if length bytes = TX_OFFSET_BYTE_LEN then
        map_option (\<lambda>cur. \<lparr>tte_cur = cur, tte_prev = None\<rparr>) (usize_from_bytes TX_OFFSET_BYTE_LEN bytes)
      else if length bytes = 2 * TX_OFFSET_BYTE_LEN then
        (case (usize_from_bytes TX_OFFSET_BYTE_LEN (drop TX_OFFSET_BYTE_LEN bytes),
               usize_from_bytes TX_OFFSET_BYTE_LEN (take TX_OFFSET_BYTE_LEN bytes)) of
           (Some cur, Some prev) \<Rightarrow> Some \<lparr>tte_cur = cur, tte_prev = Some prev\<rparr>
         | _ \<Rightarrow> None)
      else None)"

definition tx_payload_range :: "nat \<Rightarrow> TxTableEntries \<Rightarrow> nat \<Rightarrow> nat \<times> nat" where
  "tx_payload_range num_txs_unchecked entries byte_len =
     (let tx_table_byte_len = sat_add (sat_mul num_txs_unchecked TX_OFFSET_BYTE_LEN) NUM_TXS_BYTE_LEN;
          end' = min (sat_add (tte_cur entries) tx_table_byte_len) byte_len
      in (min (sat_add (case tte_prev entries of Some prev \<Rightarrow> prev | None \<Rightarrow> 0) tx_table_byte_len) end',
          end'))"

definition tx_from_num_txs :: "u8 list \<Rightarrow> u64 \<Rightarrow> nat \<Rightarrow> nat \<Rightarrow> Transaction option" where
  "tx_from_num_txs ns_payload ns_id index num_txs_unchecked =
     (case Option.bind (slice ns_payload (fst (tx_table_entries_range index))
               (snd (tx_table_entries_range index))) tx_table_entries_from_bytes of
        None \<Rightarrow> None
      | Some entries \<Rightarrow>
         (let range = tx_payload_range num_txs_unchecked entries (length ns_payload) in
          map_option (\<lambda>bytes. \<lparr>tx_namespace = ns_id, tx_payload = bytes\<rparr>)
            (slice ns_payload (fst range) (snd range))))"

definition export_tx :: "u8 list \<Rightarrow> u64 \<Rightarrow> nat \<Rightarrow> Transaction option option" where
  "export_tx ns_payload ns_id index =
     (case read_num_txs ns_payload of
        None \<Rightarrow> None
      | Some num_txs_unchecked \<Rightarrow>
         (if \<not> index < num_txs num_txs_unchecked (length ns_payload) then Some None
          else map_option Some (tx_from_num_txs ns_payload ns_id index num_txs_unchecked)))"

definition ns_payload_iter :: "u8 list \<Rightarrow> nat list option" where
  "ns_payload_iter ns_payload =
     map_option (\<lambda>n. [0..<num_txs n (length ns_payload)]) (read_num_txs ns_payload)"

definition export_all_txs :: "u8 list \<Rightarrow> u64 \<Rightarrow> Transaction list option" where
  "export_all_txs ns_payload ns_id =
     (case read_num_txs ns_payload of
        None \<Rightarrow> None
      | Some n \<Rightarrow> those (map (\<lambda>i. tx_from_num_txs ns_payload ns_id i n)
                          [0..<num_txs n (length ns_payload)]))"

section \<open>Reading a payload\<close>

definition ns_payload :: "Payload \<Rightarrow> nat \<Rightarrow> u8 list option" where
  "ns_payload self index =
     (case ns_range (ns_table self) index (length (raw_payload self)) of
        None \<Rightarrow> None
      | Some (start, end') \<Rightarrow> slice (raw_payload self) start end')"

definition payload_transaction :: "Payload \<Rightarrow> nat \<times> nat \<Rightarrow> Transaction option option" where
  "payload_transaction self index =
     (case read_ns_id (ns_table self) (fst index) of
        None \<Rightarrow> None
      | Some None \<Rightarrow> Some None
      | Some (Some ns_id) \<Rightarrow>
         (case ns_payload self (fst index) of
            None \<Rightarrow> None
          | Some bytes \<Rightarrow> export_tx bytes ns_id (snd index)))"

text \<open>
  The iterator: the namespaces left, the current one at the head, and the transactions left of the
  current one, if it was started. The indices it yields are cut to 32 bits.
\<close>

datatype iter_step = IterPanic | IterDone | IterItem "nat \<times> nat" "nat list \<times> nat list option"

fun iter_next :: "Payload \<Rightarrow> nat list \<times> nat list option \<Rightarrow> iter_step" where
  "iter_next block ([], tx_iter) = IterDone"
| "iter_next block (ns_index # ns_iter, tx_iter) =
     (case (case tx_iter of
              Some txs \<Rightarrow> Some txs
            | None \<Rightarrow> Option.bind (ns_payload block ns_index) ns_payload_iter) of
        None \<Rightarrow> IterPanic
      | Some (tx_index # txs) \<Rightarrow>
          IterItem (ns_index mod 2 ^ 32, tx_index mod 2 ^ 32) (ns_index # ns_iter, Some txs)
      | Some [] \<Rightarrow> iter_next block (ns_iter, None))"

definition iter_width :: "Payload \<Rightarrow> nat list \<times> nat list option \<Rightarrow> nat" where
  "iter_width block st =
     (case snd st of
        Some txs \<Rightarrow> length txs
      | None \<Rightarrow> (case fst st of
                  [] \<Rightarrow> 0
                | ns_index # _ \<Rightarrow>
                    (case Option.bind (ns_payload block ns_index) ns_payload_iter of
                       Some txs \<Rightarrow> length txs | None \<Rightarrow> 0)))"

lemma iter_next_decreases:
  "iter_next block st = IterItem i st' \<Longrightarrow>
     length (fst st') < length (fst st)
     \<or> length (fst st') = length (fst st) \<and> iter_width block st' < iter_width block st"
proof (induction block st rule: iter_next.induct)
  case (2 block ns_index ns_iter tx_iter)
  then show ?case by (cases tx_iter) (fastforce simp: iter_width_def split: option.splits list.splits)+
qed simp

function iter_collect :: "Payload \<Rightarrow> nat list \<times> nat list option \<Rightarrow> (nat \<times> nat) list option" where
  "iter_collect block st =
     (case iter_next block st of
        IterPanic \<Rightarrow> None
      | IterDone \<Rightarrow> Some []
      | IterItem i st' \<Rightarrow> map_option ((#) i) (iter_collect block st'))"
  by pat_completeness auto

termination iter_collect
  by (relation "measures [\<lambda>(block, st). length (fst st), \<lambda>(block, st). iter_width block st]")
     (use iter_next_decreases in fastforce)+

definition payload_iter :: "Payload \<Rightarrow> (nat \<times> nat) list option" where
  "payload_iter block = iter_collect block ([0..<ns_len (ns_table block)], None)"

definition transactions :: "Payload \<Rightarrow> Transaction list option" where
  "transactions self =
     Option.bind (payload_iter self)
       (\<lambda>indices. those (map (\<lambda>i. Option.bind (payload_transaction self i) (\<lambda>tx. tx)) indices))"

section \<open>Bytes and slices\<close>

lemma length_le_bytes [simp]: "length (le_bytes k n) = k"
  by (induction k n rule: le_bytes.induct) auto

lemma take_le_bytes: "k \<le> m \<Longrightarrow> take k (le_bytes m n) = le_bytes k n"
proof (induction k arbitrary: m n)
  case (Suc k)
  then show ?case by (cases m) auto
qed simp

lemma le_value_append: "le_value (xs @ ys) = le_value xs + 256 ^ length xs * le_value ys"
  by (induction xs) (auto simp: algebra_simps)

lemma le_value_zeros [simp]: "le_value (replicate k 0) = 0"
  by (induction k) auto

lemma le_value_le_bytes: "n < 256 ^ k \<Longrightarrow> le_value (le_bytes k n) = n"
proof (induction k arbitrary: n)
  case (Suc k)
  then have "n div 256 < 256 ^ k" by (simp add: less_mult_imp_div_less mult.commute)
  then show ?case using Suc.IH by (simp add: unat_of_nat take_bit_eq_mod)
qed simp

lemma usize_to_bytes_4: "n < 2 ^ 32 \<Longrightarrow> usize_to_bytes 4 n = Some (le_bytes 4 n)"
  by (auto simp: uint_to_bytes_def uint_fits_def uint_max_from_byte_len_def take_le_bytes)

lemma u32_to_bytes_4: "u32_to_bytes 4 n = Some (le_bytes 4 n)"
  by (simp add: uint_to_bytes_def)

lemma uint_from_bytes_le_bytes:
  "n < 2 ^ 32 \<Longrightarrow> 4 \<le> sz \<Longrightarrow> uint_from_bytes sz 4 (le_bytes 4 n) = Some n"
  by (simp add: uint_from_bytes_def le_value_append le_value_le_bytes)

lemma usize_from_bytes_Some: "length bs \<le> 4 \<Longrightarrow> 4 \<le> sz \<Longrightarrow> uint_from_bytes sz 4 bs = Some (le_value bs)"
  by (simp add: uint_from_bytes_def le_value_append)

lemma slice_append1: "b \<le> length xs \<Longrightarrow> slice (xs @ ys) a b = slice xs a b"
  by (auto simp: slice_def)

lemma slice_append2:
  "length xs = k \<Longrightarrow> slice (xs @ ys) (k + a) (k + b) = slice ys a b"
  by (auto simp: slice_def)

lemma slice_Some_iff: "slice xs a b = Some ys \<longleftrightarrow> a \<le> b \<and> b \<le> length xs \<and> ys = take (b - a) (drop a xs)"
  by (auto simp: slice_def)

definition ends :: "'a list list \<Rightarrow> nat list" where
  "ends bs = map (\<lambda>i. length (concat (take (Suc i) bs))) [0..<length bs]"

lemma length_ends [simp]: "length (ends bs) = length bs"
  by (simp add: ends_def)

lemma ends_nth: "i < length bs \<Longrightarrow> ends bs ! i = length (concat (take (Suc i) bs))"
  by (simp add: ends_def)

lemma ends_snoc: "ends (bs @ [b]) = ends bs @ [length (concat bs) + length b]"
  by (rule nth_equalityI) (auto simp: ends_nth nth_append less_Suc_eq)

lemma length_concat_take: "length (concat (take i bs)) \<le> length (concat bs)"
  by (metis append_take_drop_id concat_append length_append le_add1)

lemma slice_concat:
  assumes "i < length bs"
  shows "slice (concat bs) (length (concat (take i bs))) (ends bs ! i) = Some (bs ! i)"
proof -
  have split: "concat bs = concat (take i bs) @ bs ! i @ concat (drop (Suc i) bs)"
    using assms by (metis concat.simps(2) concat_append id_take_nth_drop)
  have "ends bs ! i = length (concat (take i bs)) + length (bs ! i)"
    using assms by (simp add: ends_nth take_Suc_conv_app_nth)
  then show ?thesis by (subst split) (simp add: slice_def)
qed

lemma start_eq:
  assumes "i < length bs"
  shows "length (concat (take i bs)) = (if i = 0 then 0 else ends bs ! (i - 1))"
  using assms by (simp add: ends_nth)

lemma length_concat_const: "\<forall>x \<in> set xs. length x = k \<Longrightarrow> length (concat xs) = k * length xs"
  by (induction xs) auto

lemma slice_blocks:
  assumes "\<forall>x \<in> set xs. length x = k" "i + n \<le> length xs"
  shows "slice (concat xs) (k * i) (k * (i + n)) = Some (concat (take n (drop i xs)))"
proof -
  have eq: "concat xs = concat (take i xs) @ concat (take n (drop i xs)) @ concat (drop n (drop i xs))"
    by (metis append_take_drop_id concat_append)
  have 1: "length (concat (take i xs)) = k * i"
    using assms by (subst length_concat_const [where k = k]) (auto dest: in_set_takeD)
  have 2: "length (concat (take n (drop i xs))) = k * n"
    using assms by (subst length_concat_const [where k = k]) (auto dest: in_set_takeD in_set_dropD)
  show ?thesis by (subst eq) (simp add: slice_def 1 2 algebra_simps)
qed

section \<open>Reading never panics\<close>

lemma sat_add_small [simp]: "a + b < 2 ^ 64 \<Longrightarrow> sat_add a b = a + b"
  by (simp add: sat_add_def usize_max_def)

lemma sat_mul_small [simp]: "a * b < 2 ^ 64 \<Longrightarrow> sat_mul a b = a * b"
  by (simp add: sat_mul_def usize_max_def)

lemma ns_len_eq: "ns_len bytes = (length bytes - 4) div 8"
  by (simp add: ns_len_def byte_lens sat_add_def usize_max_def)

lemma ns_len_bound:
  assumes "i < ns_len bytes"
  shows "i * 8 + 12 \<le> length bytes"
proof -
  have "Suc i * 8 \<le> ns_len bytes * 8" using assms by (simp only: mult_le_mono1 Suc_leI)
  also have "\<dots> \<le> length bytes - 4" by (simp add: ns_len_eq)
  finally show ?thesis by simp
qed

lemma read_ns_id_unchecked_Some: "i < ns_len bytes \<Longrightarrow> \<exists>ns_id. read_ns_id_unchecked bytes i = Some ns_id"
  using ns_len_bound [of i bytes]
  by (auto simp: read_ns_id_unchecked_def byte_lens Let_def slice_def uint_from_bytes_def)

lemma read_ns_offset_unchecked_Some:
  "i < ns_len bytes \<Longrightarrow> \<exists>offset. read_ns_offset_unchecked bytes i = Some offset"
  using ns_len_bound [of i bytes]
  by (auto simp: read_ns_offset_unchecked_def byte_lens Let_def slice_def uint_from_bytes_def)

lemma ns_payload_Some:
  assumes "i < ns_len (ns_table p)"
  shows "\<exists>bytes. ns_payload p i = Some bytes \<and> length bytes \<le> length (raw_payload p)"
proof -
  obtain off where off: "read_ns_offset_unchecked (ns_table p) i = Some off"
    using read_ns_offset_unchecked_Some [OF assms] by blast
  obtain start where start:
    "(if i = 0 then Some 0 else read_ns_offset_unchecked (ns_table p) (i - 1)) = Some start"
  proof (cases "i = 0")
    case False
    then have "i - 1 < ns_len (ns_table p)" using assms by simp
    from read_ns_offset_unchecked_Some [OF this] show ?thesis using that False by auto
  qed (use that in auto)
  show ?thesis using off start by (auto simp: ns_payload_def ns_range_def Let_def slice_def min_def)
qed

lemma read_num_txs_Some: "read_num_txs bytes = Some (le_value (take 4 bytes))"
  by (auto simp: read_num_txs_def byte_lens slice_def uint_from_bytes_def le_value_append min_def)

lemma num_txs_bound:
  assumes "i < num_txs n len"
  shows "i * 4 + 8 \<le> len"
proof -
  have "Suc i * 4 \<le> num_txs n len * 4" using assms by (simp only: mult_le_mono1 Suc_leI)
  also have "\<dots> \<le> len - 4" by (simp add: num_txs_def byte_lens)
  finally show ?thesis by simp
qed

lemma tx_table_entries_range_eq:
  "i * 4 + 8 < 2 ^ 64 \<Longrightarrow> tx_table_entries_range i = (4 + 4 * (i - 1), 4 + 4 * (i + 1))"
  by (simp add: tx_table_entries_range_def byte_lens algebra_simps)

lemma tx_from_num_txs_Some:
  assumes "i < num_txs n (length bytes)" "length bytes < 2 ^ 64"
  shows "\<exists>tx. tx_from_num_txs bytes ns_id i m = Some tx"
proof -
  have bound: "i * 4 + 8 \<le> length bytes" using num_txs_bound [OF assms(1)] .
  then have range: "tx_table_entries_range i = (4 + 4 * (i - 1), 4 + 4 * (i + 1))"
    using assms(2) by (intro tx_table_entries_range_eq) simp
  let ?s = "take (4 + 4 * (i + 1) - (4 + 4 * (i - 1))) (drop (4 + 4 * (i - 1)) bytes)"
  have slice: "slice bytes (4 + 4 * (i - 1)) (4 + 4 * (i + 1)) = Some ?s"
    using bound by (simp add: slice_def)
  have len: "length ?s = (if i = 0 then 4 else 8)" using bound by auto
  then obtain entries where "tx_table_entries_from_bytes ?s = Some entries"
    by (cases "i = 0") (auto simp: tx_table_entries_from_bytes_def byte_lens usize_from_bytes_Some)
  then show ?thesis
    unfolding tx_from_num_txs_def range fst_conv snd_conv slice
    by (auto simp: tx_payload_range_def Let_def slice_def)
qed

lemma those_eq_Some_map:
  "\<forall>x \<in> set xs. f x = Some (g x) \<Longrightarrow> those (map f xs) = Some (map g xs)"
  by (induction xs) auto

section \<open>The iterator\<close>

definition ns_tx_indices :: "Payload \<Rightarrow> nat \<Rightarrow> nat list" where
  "ns_tx_indices p n = (case ns_payload p n of
     Some bytes \<Rightarrow> [0..<num_txs (le_value (take 4 bytes)) (length bytes)] | None \<Rightarrow> [])"

lemma ns_tx_indices_iter:
  "n < ns_len (ns_table p) \<Longrightarrow> Option.bind (ns_payload p n) ns_payload_iter = Some (ns_tx_indices p n)"
  using ns_payload_Some [of n p]
  by (auto simp: ns_tx_indices_def ns_payload_iter_def read_num_txs_Some)

lemma iter_collect_started:
  assumes "iter_collect p (nss, None) = Some rest"
  shows "iter_collect p (n # nss, Some txs) = Some (map (\<lambda>t. (n mod 2 ^ 32, t mod 2 ^ 32)) txs @ rest)"
proof (induction txs)
  case Nil
  then show ?case using assms by (subst iter_collect.simps) (simp flip: iter_collect.simps)
next
  case (Cons t txs)
  then show ?case by (subst iter_collect.simps) simp
qed

lemma iter_collect_eq:
  assumes "\<forall>n \<in> set nss. Option.bind (ns_payload p n) ns_payload_iter = Some (f n)"
  shows "iter_collect p (nss, None) =
     Some (concat (map (\<lambda>n. map (\<lambda>t. (n mod 2 ^ 32, t mod 2 ^ 32)) (f n)) nss))"
  using assms
proof (induction nss)
  case Nil
  then show ?case by (subst iter_collect.simps) simp
next
  case (Cons n nss)
  have "iter_collect p (n # nss, None) = iter_collect p (n # nss, Some (f n))"
    using Cons.prems by (subst (1 2) iter_collect.simps) simp
  then show ?case using Cons iter_collect_started [of p nss _ n "f n"] by simp
qed

lemma payload_iter_eq:
  "payload_iter p = Some (concat (map (\<lambda>n. map (\<lambda>t. (n mod 2 ^ 32, t mod 2 ^ 32)) (ns_tx_indices p n))
     [0..<ns_len (ns_table p)]))"
  unfolding payload_iter_def by (rule iter_collect_eq) (simp add: ns_tx_indices_iter)

lemma payload_transaction_Some:
  assumes "n < ns_len (ns_table p)" "t \<in> set (ns_tx_indices p n)" "length (raw_payload p) < 2 ^ 64"
  shows "\<exists>tx. payload_transaction p (n, t) = Some (Some tx)"
proof -
  obtain bytes where bytes: "ns_payload p n = Some bytes" "length bytes < 2 ^ 64"
    using ns_payload_Some [OF assms(1)] assms(3) by auto
  have t: "t < num_txs (le_value (take 4 bytes)) (length bytes)"
    using assms(2) bytes(1) by (simp add: ns_tx_indices_def)
  obtain ns_id where "read_ns_id_unchecked (ns_table p) n = Some ns_id"
    using read_ns_id_unchecked_Some [OF assms(1)] by blast
  then show ?thesis
    using tx_from_num_txs_Some [OF t bytes(2), of ns_id] bytes t assms(1)
    by (auto simp: payload_transaction_def read_ns_id_def ns_in_bounds_def export_tx_def read_num_txs_Some)
qed

lemma tx_index_small:
  assumes "n < ns_len (ns_table p)" "t \<in> set (ns_tx_indices p n)" "length (raw_payload p) < 2 ^ 32"
  shows "t < 2 ^ 32"
proof -
  obtain bytes where bytes: "ns_payload p n = Some bytes" "length bytes \<le> length (raw_payload p)"
    using ns_payload_Some [OF assms(1)] by blast
  have "t < num_txs (le_value (take 4 bytes)) (length bytes)"
    using assms(2) bytes(1) by (simp add: ns_tx_indices_def)
  from num_txs_bound [OF this] bytes(2) assms(3) show ?thesis by simp
qed

definition payload_tx :: "Payload \<Rightarrow> nat \<Rightarrow> nat \<Rightarrow> Transaction" where
  "payload_tx p n t = the (the (payload_transaction p (n, t)))"

lemma transactions_eq:
  assumes "length (raw_payload p) < 2 ^ 32" "length (ns_table p) < 2 ^ 32"
  shows "transactions p = Some (concat (map (\<lambda>n. map (payload_tx p n) (ns_tx_indices p n))
     [0..<ns_len (ns_table p)]))"
proof -
  let ?ixs = "concat (map (\<lambda>n. map (Pair n) (ns_tx_indices p n)) [0..<ns_len (ns_table p)])"
  have small: "n < 2 ^ 32" if "n < ns_len (ns_table p)" for n
    using ns_len_bound [OF that] assms(2) by simp
  have "map (\<lambda>t. (n mod 2 ^ 32, t mod 2 ^ 32)) (ns_tx_indices p n) = map (Pair n) (ns_tx_indices p n)"
    if "n < ns_len (ns_table p)" for n
    using small [OF that] tx_index_small [OF that _ assms(1)] by simp
  then have "payload_iter p = Some ?ixs"
    unfolding payload_iter_eq by (intro arg_cong [of _ _ Some] arg_cong [of _ _ concat] map_cong) simp_all
  moreover have "\<forall>i \<in> set ?ixs. Option.bind (payload_transaction p i) (\<lambda>tx. tx)
      = Some (payload_tx p (fst i) (snd i))"
    using payload_transaction_Some [of _ p] assms(1) by (fastforce simp: payload_tx_def)
  then have "those (map (\<lambda>i. Option.bind (payload_transaction p i) (\<lambda>tx. tx)) ?ixs)
      = Some (map (\<lambda>i. payload_tx p (fst i) (snd i)) ?ixs)"
    by (rule those_eq_Some_map)
  ultimately show ?thesis by (simp add: transactions_def map_concat comp_def)
qed

definition namespace_transactions :: "Payload \<Rightarrow> nat \<Rightarrow> Transaction list option" where
  "namespace_transactions p n =
     (case (ns_payload p n, read_ns_id_unchecked (ns_table p) n) of
        (Some bytes, Some ns_id) \<Rightarrow> export_all_txs bytes ns_id
      | _ \<Rightarrow> None)"

lemma namespace_transactions_eq:
  assumes "n < ns_len (ns_table p)" "length (raw_payload p) < 2 ^ 64"
  shows "namespace_transactions p n = Some (map (payload_tx p n) (ns_tx_indices p n))"
proof -
  obtain bytes where bytes: "ns_payload p n = Some bytes" "length bytes < 2 ^ 64"
    using ns_payload_Some [OF assms(1)] assms(2) by auto
  obtain ns_id where ns_id: "read_ns_id_unchecked (ns_table p) n = Some ns_id"
    using read_ns_id_unchecked_Some [OF assms(1)] by blast
  let ?n = "le_value (take 4 bytes)"
  have "tx_from_num_txs bytes ns_id t ?n = Some (payload_tx p n t)"
    if "t < num_txs ?n (length bytes)" for t
    using tx_from_num_txs_Some [OF that bytes(2), of ns_id ?n] that bytes(1) ns_id assms(1)
    by (auto simp: payload_tx_def payload_transaction_def read_ns_id_def ns_in_bounds_def export_tx_def
        read_num_txs_Some)
  then show ?thesis
    by (simp add: namespace_transactions_def bytes(1) ns_id export_all_txs_def read_num_txs_Some
        ns_tx_indices_def those_eq_Some_map)
qed

lemma validate_entries_not_None:
  "\<forall>i \<in> set is. i < ns_len bytes \<Longrightarrow> validate_entries bytes is prev ids \<noteq> None"
proof (induction "is" arbitrary: prev ids)
  case (Cons i "is")
  then show ?case
    using read_ns_id_unchecked_Some [of i bytes] read_ns_offset_unchecked_Some [of i bytes] by auto
qed simp

lemma read_num_nss_Some: "read_num_nss bytes = Some (le_value (take 4 bytes))"
  by (auto simp: read_num_nss_def byte_lens slice_def uint_from_bytes_def le_value_append min_def)

lemma ns_table_validate_not_None: "ns_table_validate bytes len \<noteq> None"
proof -
  have "validate_deserialization_invariants bytes \<noteq> None"
  proof (cases "ns_len bytes = le_value (take 4 bytes)")
    case True
    have "validate_entries bytes [0..<ns_len bytes] 0 {} \<noteq> None"
      by (rule validate_entries_not_None) simp
    then show ?thesis
      unfolding validate_deserialization_invariants_def read_num_nss_Some True by simp
  qed (simp add: validate_deserialization_invariants_def read_num_nss_Some)
  then show ?thesis
    using read_ns_offset_unchecked_Some [of "ns_len bytes - 1" bytes]
    by (fastforce simp: ns_table_validate_def Let_def split: sum.splits)
qed

lemma transactions_by_namespace:
  assumes "length (raw_payload p) < 2 ^ 32" "length (ns_table p) < 2 ^ 32"
  shows "transactions p =
     map_option concat (those (map (namespace_transactions p) [0..<ns_len (ns_table p)]))"
proof -
  have "those (map (namespace_transactions p) [0..<ns_len (ns_table p)])
      = Some (map (\<lambda>n. map (payload_tx p n) (ns_tx_indices p n)) [0..<ns_len (ns_table p)])"
    using assms(1) by (intro those_eq_Some_map) (simp add: namespace_transactions_eq)
  then show ?thesis by (simp add: transactions_eq [OF assms])
qed

text \<open>
  C27: Reading a block payload never panics: whatever its bytes and its namespace
  table (both below 4 GiB), iterating over its transactions yields a list, this list is the
  concatenation of the exports of its namespaces in the order of the table, and the validation of
  the namespace table returns a verdict.
\<close>

theorem payload_reading_total:
  assumes "length (raw_payload p) < 2 ^ 32" "length (ns_table p) < 2 ^ 32"
  shows "\<exists>txs. transactions p = Some txs
     \<and> Some txs = map_option concat (those (map (namespace_transactions p) [0..<ns_len (ns_table p)]))
     \<and> ns_table_validate (ns_table p) (length (raw_payload p)) \<noteq> None"
  using transactions_eq [OF assms] transactions_by_namespace [OF assms] ns_table_validate_not_None
  by auto

section \<open>What the builders write\<close>

definition builder_for :: "u8 list list \<Rightarrow> NsPayloadBuilder" where
  "builder_for bs = \<lparr>tx_table_entries = concat (map (le_bytes 4) (ends bs)), tx_bodies = concat bs\<rparr>"

definition ns_bytes :: "u8 list list \<Rightarrow> u8 list" where
  "ns_bytes bs = le_bytes 4 (length bs) @ concat (map (le_bytes 4) (ends bs)) @ concat bs"

lemma length_table [simp]: "length (concat (map (le_bytes 4) xs)) = 4 * length xs"
  by (subst length_concat_const [where k = 4]) auto

lemma length_ns_bytes: "length (ns_bytes bs) = 4 + 4 * length bs + length (concat bs)"
  by (simp add: ns_bytes_def)

lemma builder_default: "ns_payload_builder_default = builder_for []"
  by (simp add: ns_payload_builder_default_def builder_for_def ends_def)

lemma append_tx_builder:
  "length (concat bs) + length (tx_payload tx) < 2 ^ 32 \<Longrightarrow>
     append_tx tx (builder_for bs) = Some (builder_for (bs @ [tx_payload tx]))"
  by (simp add: append_tx_def builder_for_def byte_lens Let_def usize_to_bytes_4 ends_snoc)

lemma into_bytes_builder: "length bs < 2 ^ 32 \<Longrightarrow> into_bytes (builder_for bs) = Some (ns_bytes bs)"
  by (simp add: into_bytes_def builder_for_def ns_bytes_def byte_lens usize_to_bytes_4)

lemma read_num_txs_ns_bytes: "length bs < 2 ^ 32 \<Longrightarrow> read_num_txs (ns_bytes bs) = Some (length bs)"
  by (simp add: read_num_txs_Some ns_bytes_def le_value_le_bytes)

lemma num_txs_ns_bytes: "num_txs (length bs) (length (ns_bytes bs)) = length bs"
  by (simp add: num_txs_def byte_lens length_ns_bytes min_def)

lemma entries_of_ns_bytes:
  assumes "i < length bs" "length (ns_bytes bs) < 2 ^ 32"
  shows "slice (ns_bytes bs) (4 + 4 * (i - 1)) (4 + 4 * (i + 1)) =
     Some (concat (map (le_bytes 4) (take (i + 1 - (i - 1)) (drop (i - 1) (ends bs)))))"
proof -
  let ?blocks = "map (le_bytes 4) (ends bs)"
  have "slice (ns_bytes bs) (4 + 4 * (i - 1)) (4 + 4 * (i + 1))
      = slice (concat ?blocks) (4 * (i - 1)) (4 * (i - 1 + (i + 1 - (i - 1))))"
    unfolding ns_bytes_def using assms(1)
    by (subst slice_append2) (simp_all add: slice_append1)
  also have "\<dots> = Some (concat (take (i + 1 - (i - 1)) (drop (i - 1) ?blocks)))"
    by (rule slice_blocks) (use assms(1) in auto)
  finally show ?thesis by (simp add: take_map drop_map)
qed

lemma ends_le: "i < length bs \<Longrightarrow> ends bs ! i \<le> length (concat bs)"
  by (simp add: ends_nth length_concat_take)

lemma tx_of_ns_bytes:
  assumes "i < length bs" "length (ns_bytes bs) < 2 ^ 32"
  shows "tx_from_num_txs (ns_bytes bs) ns_id i (length bs)
     = Some \<lparr>tx_namespace = ns_id, tx_payload = bs ! i\<rparr>"
proof -
  let ?e = "\<lambda>j. ends bs ! j"
  have small: "?e j < 2 ^ 32" if "j < length bs" for j
    using ends_le [OF that] assms(2) by (simp add: length_ns_bytes)
  have range: "tx_table_entries_range i = (4 + 4 * (i - 1), 4 + 4 * (i + 1))"
    using assms by (intro tx_table_entries_range_eq) (simp add: length_ns_bytes)
  have entries: "Option.bind (slice (ns_bytes bs) (4 + 4 * (i - 1)) (4 + 4 * (i + 1)))
      tx_table_entries_from_bytes
      = Some \<lparr>tte_cur = ?e i, tte_prev = (if i = 0 then None else Some (?e (i - 1)))\<rparr>"
  proof (cases "i = 0")
    case True
    then have "take (i + 1 - (i - 1)) (drop (i - 1) (ends bs)) = [?e 0]"
      using assms(1) by (cases bs) (simp_all add: ends_def upt_conv_Cons del: upt_Suc)
    from entries_of_ns_bytes [OF assms, unfolded this] True small [OF assms(1)] show ?thesis
      by (simp add: tx_table_entries_from_bytes_def byte_lens uint_from_bytes_le_bytes)
  next
    case False
    then have "take (i + 1 - (i - 1)) (drop (i - 1) (ends bs)) = [?e (i - 1), ?e i]"
      using assms(1) by (intro nth_equalityI) (auto simp: less_Suc_eq numeral_2_eq_2)
    from entries_of_ns_bytes [OF assms, unfolded this] False small [OF assms(1)] small [of "i - 1"]
      assms(1) show ?thesis
      by (simp add: tx_table_entries_from_bytes_def byte_lens uint_from_bytes_le_bytes)
  qed
  let ?t = "4 * length bs + 4"
  have sum: "?e i + ?t \<le> length (ns_bytes bs)" using ends_le [OF assms(1)] by (simp add: length_ns_bytes)
  have start: "(if i = 0 then 0 else ?e (i - 1)) = length (concat (take i bs))"
    using start_eq [OF assms(1)] by simp
  have "length (concat (take i bs)) \<le> ?e i"
    using assms(1) by (simp add: ends_nth take_Suc_conv_app_nth)
  then have "tx_payload_range (length bs)
      \<lparr>tte_cur = ?e i, tte_prev = (if i = 0 then None else Some (?e (i - 1)))\<rparr> (length (ns_bytes bs))
      = (?t + length (concat (take i bs)), ?t + ?e i)"
    using sum assms(2) start by (auto simp: tx_payload_range_def byte_lens Let_def split: if_splits)
  moreover have "slice (ns_bytes bs) (?t + length (concat (take i bs))) (?t + ?e i) = Some (bs ! i)"
    unfolding ns_bytes_def append_assoc [symmetric]
    by (subst slice_append2) (simp_all add: slice_concat [OF assms(1)])
  ultimately show ?thesis unfolding tx_from_num_txs_def range fst_conv snd_conv entries by simp
qed

lemma export_all_ns_bytes:
  assumes "length (ns_bytes bs) < 2 ^ 32"
  shows "export_all_txs (ns_bytes bs) ns_id
     = Some (map (\<lambda>b. \<lparr>tx_namespace = ns_id, tx_payload = b\<rparr>) bs)"
proof -
  have "length bs < 2 ^ 32" using assms by (simp add: length_ns_bytes)
  moreover have "map (\<lambda>i. \<lparr>tx_namespace = ns_id, tx_payload = bs ! i\<rparr>) [0..<length bs]
      = map (\<lambda>b. \<lparr>tx_namespace = ns_id, tx_payload = b\<rparr>) bs"
    by (rule nth_equalityI) auto
  ultimately show ?thesis
    using tx_of_ns_bytes [OF _ assms]
    by (simp add: export_all_txs_def read_num_txs_ns_bytes num_txs_ns_bytes
        those_eq_Some_map [where g = "\<lambda>i. \<lparr>tx_namespace = ns_id, tx_payload = bs ! i\<rparr>"])
qed

section \<open>The namespace table of a written payload\<close>

type_synonym namespaces = "(u64 \<times> u8 list list) list"

definition ns_entry :: "u64 \<Rightarrow> nat \<Rightarrow> u8 list" where
  "ns_entry ns_id offset = le_bytes 4 (unat ns_id) @ le_bytes 4 offset"

definition raw_bytes :: "namespaces \<Rightarrow> u8 list list" where
  "raw_bytes gs = map (\<lambda>g. ns_bytes (snd g)) gs"

definition table_entries :: "namespaces \<Rightarrow> u8 list list" where
  "table_entries gs = map (\<lambda>i. ns_entry (fst (gs ! i)) (ends (raw_bytes gs) ! i)) [0..<length gs]"

definition table_bytes :: "namespaces \<Rightarrow> u8 list" where
  "table_bytes gs = le_bytes 4 (length gs) @ concat (table_entries gs)"

definition payload_for :: "namespaces \<Rightarrow> Payload" where
  "payload_for gs = \<lparr>raw_payload = concat (raw_bytes gs), ns_table = table_bytes gs\<rparr>"

definition fits :: "namespaces \<Rightarrow> bool" where
  "fits gs = ((\<forall>g \<in> set gs. unat (fst g) < 2 ^ 32) \<and> distinct (map fst gs)
     \<and> length (concat (raw_bytes gs)) < 2 ^ 32 \<and> length (table_bytes gs) < 2 ^ 32)"

lemma length_raw_bytes [simp]: "length (raw_bytes gs) = length gs"
  by (simp add: raw_bytes_def)

lemma length_ns_entry [simp]: "length (ns_entry ns_id offset) = 8"
  by (simp add: ns_entry_def)

lemma table_entries_length: "\<forall>x \<in> set (table_entries gs). length x = 8"
  by (auto simp: table_entries_def)

lemma length_table_bytes: "length (table_bytes gs) = 4 + 8 * length gs"
  by (simp add: table_bytes_def length_concat_const [OF table_entries_length])
     (simp add: table_entries_def)

lemma ns_len_table_bytes [simp]: "ns_len (table_bytes gs) = length gs"
  by (simp add: ns_len_eq length_table_bytes)

lemma slice_block:
  assumes "\<forall>x \<in> set xs. length x = k" "i < length xs" "b \<le> k"
  shows "slice (concat xs) (k * i + a) (k * i + b) = slice (xs ! i) a b"
proof -
  have eq: "concat xs = concat (take i xs) @ xs ! i @ concat (drop (Suc i) xs)"
    using assms(2) by (metis concat.simps(2) concat_append id_take_nth_drop)
  have "length (concat (take i xs)) = k * i"
    using assms by (subst length_concat_const [where k = k]) (auto dest: in_set_takeD)
  moreover have "length (xs ! i) = k" using assms(1,2) by simp
  ultimately show ?thesis using assms(3) by (subst eq) (simp add: slice_append2 slice_append1)
qed

lemma read_table:
  assumes "i < length gs" "fits gs"
  shows "read_ns_id_unchecked (table_bytes gs) i = Some (fst (gs ! i))"
    "read_ns_offset_unchecked (table_bytes gs) i = Some (ends (raw_bytes gs) ! i)"
proof -
  have at: "slice (table_bytes gs) (4 + (8 * i + a)) (4 + (8 * i + b))
      = slice (ns_entry (fst (gs ! i)) (ends (raw_bytes gs) ! i)) a b" if "b \<le> 8" for a b
  proof -
    have "i < length (table_entries gs)"
      "table_entries gs ! i = ns_entry (fst (gs ! i)) (ends (raw_bytes gs) ! i)"
      using assms(1) by (simp_all add: table_entries_def)
    with slice_block [OF table_entries_length _ that, of i gs a] show ?thesis
      unfolding table_bytes_def by (subst slice_append2) simp_all
  qed
  have id: "unat (fst (gs ! i)) < 2 ^ 32" using assms by (auto simp: fits_def)
  have off: "ends (raw_bytes gs) ! i < 2 ^ 32"
    using ends_le [of i "raw_bytes gs"] assms by (simp add: fits_def)
  have "slice (table_bytes gs) (4 + (8 * i + 0)) (4 + (8 * i + 4)) = Some (le_bytes 4 (unat (fst (gs ! i))))"
    by (subst at) (simp_all add: slice_def ns_entry_def)
  then show "read_ns_id_unchecked (table_bytes gs) i = Some (fst (gs ! i))"
    using id
    by (simp add: read_ns_id_unchecked_def byte_lens Let_def uint_from_bytes_le_bytes algebra_simps)
  have "slice (table_bytes gs) (4 + (8 * i + 4)) (4 + (8 * i + 8))
      = Some (le_bytes 4 (ends (raw_bytes gs) ! i))"
    by (subst at) (simp_all add: slice_def ns_entry_def)
  then show "read_ns_offset_unchecked (table_bytes gs) i = Some (ends (raw_bytes gs) ! i)"
    using off
    by (simp add: read_ns_offset_unchecked_def byte_lens Let_def uint_from_bytes_le_bytes algebra_simps)
qed

lemma ns_payload_for:
  assumes "i < length gs" "fits gs"
  shows "ns_payload (payload_for gs) i = Some (ns_bytes (snd (gs ! i)))"
proof -
  let ?bs = "raw_bytes gs"
  have i: "i < length ?bs" using assms(1) by simp
  have start: "(if i = 0 then Some 0 else read_ns_offset_unchecked (table_bytes gs) (i - 1))
      = Some (length (concat (take i ?bs)))"
    using start_eq [OF i] read_table(2) [of "i - 1" gs] assms by auto
  have "length (concat (take i ?bs)) \<le> ends ?bs ! i"
    using i by (simp add: ends_nth take_Suc_conv_app_nth)
  then show ?thesis
    using slice_concat [OF i] read_table(2) [OF assms] start ends_le [OF i] assms(1)
    by (simp add: ns_payload_def payload_for_def ns_range_def Let_def min_def) (simp add: raw_bytes_def)
qed

definition group_txs :: "u64 \<times> u8 list list \<Rightarrow> Transaction list" where
  "group_txs g = map (\<lambda>b. \<lparr>tx_namespace = fst g, tx_payload = b\<rparr>) (snd g)"

lemma length_ns_bytes_le:
  assumes "i < length gs"
  shows "length (ns_bytes (snd (gs ! i))) \<le> length (concat (raw_bytes gs))"
proof -
  have "ns_bytes (snd (gs ! i)) \<in> set (raw_bytes gs)" using assms by (auto simp: raw_bytes_def)
  then have "length (ns_bytes (snd (gs ! i))) \<in> set (map length (raw_bytes gs))" by auto
  then show ?thesis unfolding length_concat by (rule member_le_sum_list) simp
qed

lemma transactions_payload_for:
  assumes "fits gs"
  shows "transactions (payload_for gs) = Some (concat (map group_txs gs))"
proof -
  have "namespace_transactions (payload_for gs) i = Some (group_txs (gs ! i))" if "i < length gs" for i
    using ns_payload_for [OF that assms] read_table(1) [OF that assms] length_ns_bytes_le [OF that]
      assms export_all_ns_bytes [of "snd (gs ! i)" "fst (gs ! i)"]
    by (simp add: namespace_transactions_def payload_for_def fits_def group_txs_def)
  then have "those (map (namespace_transactions (payload_for gs)) [0..<length gs])
      = Some (map (\<lambda>i. group_txs (gs ! i)) [0..<length gs])"
    by (intro those_eq_Some_map) simp
  moreover have "map (\<lambda>i. group_txs (gs ! i)) [0..<length gs] = map group_txs gs"
    by (rule nth_equalityI) auto
  ultimately show ?thesis
    using assms transactions_by_namespace [of "payload_for gs"] by (simp add: payload_for_def fits_def)
qed

lemma ends_Cons: "ends (b # bs) = length b # map ((+) (length b)) (ends bs)"
  by (rule nth_equalityI) (auto simp: ends_nth nth_Cons split: nat.splits)

lemma ends_increasing: "\<forall>b \<in> set bs. b \<noteq> [] \<Longrightarrow> sorted_wrt (<) (0 # ends bs)"
proof (induction bs)
  case (Cons b bs)
  then have "sorted_wrt (<) (map ((+) (length b)) (0 # ends bs))"
    by (auto simp: sorted_wrt_map)
  with Cons.prems show ?case by (auto simp: ends_Cons)
qed (simp add: ends_def)

lemma validate_entries_Ok:
  assumes "\<forall>i \<in> set is. read_ns_id_unchecked bytes i = Some (ids i)
       \<and> read_ns_offset_unchecked bytes i = Some (offs i)"
    and "distinct (map ids is)" "ids ` set is \<inter> seen = {}" "sorted_wrt (<) (prev # map offs is)"
  shows "validate_entries bytes is prev seen = Some (Ok ())"
  using assms by (induction "is" arbitrary: prev seen) auto

lemma ns_table_validate_payload_for:
  assumes "fits gs"
  shows "ns_table_validate (table_bytes gs) (length (concat (raw_bytes gs))) = Some (Ok ())"
proof -
  let ?bs = "raw_bytes gs"
  have nonempty: "\<forall>b \<in> set ?bs. b \<noteq> []"
    by (auto simp: raw_bytes_def simp flip: length_greater_0_conv simp: length_ns_bytes)
  have "map (\<lambda>i. fst (gs ! i)) [0..<length gs] = map fst gs"
    "map ((!) (ends ?bs)) [0..<length gs] = ends ?bs"
    by (rule nth_equalityI; simp)+
  then have "validate_entries (table_bytes gs) [0..<length gs] 0 {} = Some (Ok ())"
    using assms ends_increasing [OF nonempty] read_table [OF _ assms]
    by (intro validate_entries_Ok [where ids = "\<lambda>i. fst (gs ! i)" and offs = "(!) (ends ?bs)"])
       (simp_all add: fits_def)
  moreover have "read_num_nss (table_bytes gs) = Some (length gs)"
  proof -
    have "length gs < 256 ^ 4" using assms by (simp add: fits_def length_table_bytes)
    then show ?thesis by (simp add: read_num_nss_Some table_bytes_def le_value_le_bytes)
  qed
  moreover have "ends ?bs ! (length gs - 1) = length (concat ?bs)" if "gs \<noteq> []"
    using that by (simp add: ends_nth)
  moreover have "read_ns_offset_unchecked (table_bytes gs) (length gs - 1)
      = Some (ends ?bs ! (length gs - 1))" if "gs \<noteq> []"
    using that read_table(2) [OF _ assms, of "length gs - 1"] by simp
  ultimately show ?thesis
    by (auto simp: ns_table_validate_def validate_deserialization_invariants_def length_table_bytes
        byte_lens Let_def raw_bytes_def)
qed

lemma ucast_32: "unat (w :: u64) < 2 ^ 32 \<Longrightarrow> unat (ucast w :: u32) = unat w"
  by (simp add: unsigned_ucast_eq take_bit_nat_eq_self)

lemma append_entry_Some:
  "unat ns_id < 2 ^ 32 \<Longrightarrow> offset < 2 ^ 32 \<Longrightarrow> append_entry ns_id offset b =
     Some \<lparr>ntb_bytes = ntb_bytes b @ ns_entry ns_id offset, ntb_num_entries = ntb_num_entries b + 1\<rparr>"
  by (simp add: append_entry_def byte_lens u32_to_bytes_4 usize_to_bytes_4 ns_entry_def ucast_32)

lemma write_namespaces_builders:
  assumes "\<forall>g \<in> set gs. unat (fst g) < 2 ^ 32"
    and "length payload + length (concat (raw_bytes gs)) < 2 ^ 32"
  shows "write_namespaces (map (\<lambda>g. (fst g, builder_for (snd g))) gs) payload b =
     Some (payload @ concat (raw_bytes gs),
       \<lparr>ntb_bytes = ntb_bytes b @ concat (map2 (\<lambda>g off. ns_entry (fst g) (length payload + off))
                                            gs (ends (raw_bytes gs))),
        ntb_num_entries = ntb_num_entries b + length gs\<rparr>)"
  using assms
proof (induction gs arbitrary: payload b)
  case Nil
  then show ?case by (simp add: raw_bytes_def ends_def)
next
  case (Cons g gs)
  let ?bytes = "ns_bytes (snd g)"
  let ?b = "\<lparr>ntb_bytes = ntb_bytes b @ ns_entry (fst g) (length payload + length ?bytes),
      ntb_num_entries = ntb_num_entries b + 1\<rparr>"
  have raw: "raw_bytes (g # gs) = ?bytes # raw_bytes gs" by (simp add: raw_bytes_def)
  have len: "length payload + length ?bytes + length (concat (raw_bytes gs)) < 2 ^ 32"
    using Cons.prems(2) by (simp add: raw)
  then have "length (snd g) < 2 ^ 32" "length payload + length ?bytes < 2 ^ 32"
    by (simp_all add: length_ns_bytes)
  then have step: "write_namespaces (map (\<lambda>g. (fst g, builder_for (snd g))) (g # gs)) payload b
      = write_namespaces (map (\<lambda>g. (fst g, builder_for (snd g))) gs) (payload @ ?bytes) ?b"
    using Cons.prems(1) by (simp add: into_bytes_builder append_entry_Some)
  have "\<dots> = Some ((payload @ ?bytes) @ concat (raw_bytes gs),
       \<lparr>ntb_bytes = ntb_bytes ?b @ concat (map2 (\<lambda>g off. ns_entry (fst g) (length (payload @ ?bytes) + off))
                                            gs (ends (raw_bytes gs))),
        ntb_num_entries = ntb_num_entries ?b + length gs\<rparr>)"
    by (rule Cons.IH) (use Cons.prems len in auto)
  with step show ?case by (simp add: raw ends_Cons zip_map2 comp_def case_prod_unfold add.assoc)
qed

lemma table_entries_map2:
  "table_entries gs = map2 (\<lambda>g off. ns_entry (fst g) off) gs (ends (raw_bytes gs))"
  by (rule nth_equalityI) (auto simp: table_entries_def)

lemma write_payload:
  assumes "fits gs"
  shows "write_namespaces (map (\<lambda>g. (fst g, builder_for (snd g))) gs) [] ns_table_builder_new =
     Some (concat (raw_bytes gs), \<lparr>ntb_bytes = replicate 4 0 @ concat (table_entries gs),
       ntb_num_entries = length gs\<rparr>)"
  using write_namespaces_builders [of gs "[]" ns_table_builder_new] assms
  by (simp add: fits_def ns_table_builder_new_def byte_lens table_entries_map2)

lemma into_ns_table_Some:
  "n < 2 ^ 32 \<Longrightarrow> into_ns_table \<lparr>ntb_bytes = replicate 4 0 @ bs, ntb_num_entries = n\<rparr> = Some (le_bytes 4 n @ bs)"
  by (simp add: into_ns_table_def byte_lens usize_to_bytes_4)

section \<open>Grouping the accepted transactions\<close>

fun accept :: "u64 \<Rightarrow> Transaction list \<Rightarrow> u64 \<Rightarrow> Transaction list \<Rightarrow> Transaction list" where
  "accept max_size [] used kept = kept"
| "accept max_size (tx # txs) used kept =
     (let tx_size = size_in_block tx (tx_namespace tx \<notin> tx_namespace ` set kept) in
      if tx_size > max_size then accept max_size txs used kept
      else if used + tx_size > max_size then kept
      else accept max_size txs (used + tx_size) (kept @ [tx]))"

definition bodies :: "Transaction list \<Rightarrow> u64 \<Rightarrow> u8 list list" where
  "bodies kept ns = map tx_payload (filter (\<lambda>t. tx_namespace t = ns) kept)"

definition namespaces_of :: "Transaction list \<Rightarrow> u64 list" where
  "namespaces_of kept = sorted_list_of_set (tx_namespace ` set kept)"

definition groups :: "Transaction list \<Rightarrow> namespaces" where
  "groups kept = map (\<lambda>ns. (ns, bodies kept ns)) (namespaces_of kept)"

definition block_size :: "Transaction list \<Rightarrow> nat" where
  "block_size kept = 4 + 12 * length (namespaces_of kept)
     + sum_list (map (\<lambda>t. 4 + length (tx_payload t)) kept)"

lemma set_namespaces_of [simp]: "set (namespaces_of kept) = tx_namespace ` set kept"
  by (simp add: namespaces_of_def)

lemma distinct_namespaces_of [simp]: "distinct (namespaces_of kept)"
  by (simp add: namespaces_of_def)

lemma bt_insert_map:
  assumes "sorted_wrt (<) xs"
  shows "bt_insert k v (map (\<lambda>x. (x, f x)) xs)
     = map (\<lambda>x. (x, if x = k then v else f x)) (if k \<in> set xs then xs else insort k xs)"
  using assms
proof (induction xs)
  case (Cons x xs)
  then show ?case by (cases k x rule: linorder_cases) (auto simp: dest: order.asym)
qed simp

lemma namespaces_of_snoc:
  "namespaces_of (kept @ [tx]) =
     (if tx_namespace tx \<in> set (namespaces_of kept) then namespaces_of kept
      else insort (tx_namespace tx) (namespaces_of kept))"
proof (cases "tx_namespace tx \<in> tx_namespace ` set kept")
  case True
  then have "tx_namespace ` set (kept @ [tx]) = tx_namespace ` set kept" by auto
  with True show ?thesis by (simp only: namespaces_of_def) simp
qed (simp add: namespaces_of_def)

lemma strict_sorted_namespaces: "sorted_wrt (<) (namespaces_of kept)"
  by (simp add: namespaces_of_def)

lemma bodies_snoc: "bodies (kept @ [tx]) ns = bodies kept ns @ (if tx_namespace tx = ns then [tx_payload tx] else [])"
  by (simp add: bodies_def)

abbreviation builders :: "Transaction list \<Rightarrow> (u64, NsPayloadBuilder) btree" where
  "builders kept \<equiv> map (\<lambda>g. (fst g, builder_for (snd g))) (groups kept)"

lemma builders_eq: "builders kept = map (\<lambda>ns. (ns, builder_for (bodies kept ns))) (namespaces_of kept)"
  by (simp add: groups_def)

lemma get_builders: "bt_get (builders kept) ns =
    (if ns \<in> tx_namespace ` set kept then Some (builder_for (bodies kept ns)) else None)"
  unfolding builders_eq bt_get_def
  by (simp add: map_of_map_restrict restrict_map_def)

lemma get_builders_default:
  "(case bt_get (builders kept) ns of Some b \<Rightarrow> b | None \<Rightarrow> ns_payload_builder_default)
     = builder_for (bodies kept ns)"
proof (cases "ns \<in> tx_namespace ` set kept")
  case False
  then have "bodies kept ns = []" by (auto simp: bodies_def filter_empty_conv)
  with False show ?thesis by (simp add: get_builders builder_default del: map_map)
qed (simp add: get_builders del: map_map)

lemma insert_builders:
  "bt_insert (tx_namespace tx) (builder_for (bodies kept (tx_namespace tx) @ [tx_payload tx]))
     (builders kept) = builders (kept @ [tx])"
  unfolding builders_eq
  unfolding bt_insert_map [OF strict_sorted_namespaces] namespaces_of_snoc
  by (rule map_cong) (auto simp: bodies_snoc)

lemma block_size_snoc:
  "block_size (kept @ [tx]) = block_size kept + length (tx_payload tx)
     + (if tx_namespace tx \<in> tx_namespace ` set kept then 4 else 16)"
  by (auto simp: block_size_def namespaces_of_snoc)

lemma unat_size_in_block:
  assumes "length (tx_payload tx) < 2 ^ 63"
  shows "unat (size_in_block tx new_ns) = length (tx_payload tx) + (if new_ns then 16 else 4)"
proof -
  have "unat (of_nat n :: u64) = n" if "n < 2 ^ 64" for n
    using that by (simp add: unsigned_of_nat take_bit_nat_eq_self)
  from this [of "length (tx_payload tx) + 16"] this [of "length (tx_payload tx) + 4"] assms
  show ?thesis by (simp add: size_in_block_def minimum_block_size_def byte_lens add.commute)
qed

lemma length_bodies_le: "length (concat (bodies kept ns)) \<le> block_size kept"
proof -
  have "length (concat (bodies kept ns)) \<le> sum_list (map (\<lambda>t. length (tx_payload t)) kept)"
    unfolding bodies_def length_concat map_map comp_def by (rule sum_list_filter_le)
  also have "\<dots> \<le> sum_list (map (\<lambda>t. 4 + length (tx_payload t)) kept)" by (rule sum_list_mono) simp
  finally show ?thesis by (simp add: block_size_def)
qed

lemma contains_builders [simp]:
  "bt_contains_key (builders kept) ns \<longleftrightarrow> ns \<in> tx_namespace ` set kept"
  unfolding bt_contains_key_def get_builders by simp

lemma add_transactions_accept:
  assumes "\<forall>tx \<in> set txs. length (tx_payload tx) < 2 ^ 63" "unat max_size < 2 ^ 32"
    and "unat used = block_size kept" "block_size kept < 2 ^ 32"
  shows "add_transactions max_size txs used (builders kept)
       = Some (builders (accept max_size txs used kept))
     \<and> block_size (accept max_size txs used kept) \<le> max (block_size kept) (unat max_size)"
  using assms
proof (induction txs arbitrary: used kept)
  case (Cons tx txs)
  let ?new = "tx_namespace tx \<notin> tx_namespace ` set kept"
  let ?size = "size_in_block tx ?new"
  have size: "unat ?size = length (tx_payload tx) + (if ?new then 16 else 4)"
    using Cons.prems(1) by (intro unat_size_in_block) simp
  have get: "(case bt_get (builders kept) (tx_namespace tx) of
      Some b \<Rightarrow> b | None \<Rightarrow> ns_payload_builder_default) = builder_for (bodies kept (tx_namespace tx))"
    by (rule get_builders_default)
  consider (skip) "?size > max_size" | (stop) "\<not> ?size > max_size" "used + ?size > max_size"
    | (add) "\<not> ?size > max_size" "\<not> used + ?size > max_size" by blast
  then show ?case
  proof cases
    case skip
    then show ?thesis using Cons.IH [OF _ Cons.prems(2-4)] Cons.prems(1) by (simp del: map_map)
  next
    case stop
    then show ?thesis by (simp del: map_map)
  next
    case add
    have "unat used + unat ?size < 2 ^ LENGTH(64)"
      using add(1) Cons.prems(2-4) by (simp add: word_less_nat_alt not_less)
    then have used: "unat (used + ?size) = block_size (kept @ [tx])"
      unfolding unat_add_lem using size Cons.prems(3) by (auto simp: block_size_snoc)
    then have small: "block_size (kept @ [tx]) \<le> unat max_size"
      using add(2) by (simp add: word_less_nat_alt not_less)
    then have "length (concat (bodies kept (tx_namespace tx))) + length (tx_payload tx) < 2 ^ 32"
      using length_bodies_le [of kept "tx_namespace tx"] Cons.prems(2)
      by (auto simp: block_size_snoc split: if_splits)
    then have "append_tx tx (builder_for (bodies kept (tx_namespace tx)))
        = Some (builder_for (bodies kept (tx_namespace tx) @ [tx_payload tx]))"
      by (rule append_tx_builder)
    then have "add_transactions max_size (tx # txs) used (builders kept)
        = add_transactions max_size txs (used + ?size) (builders (kept @ [tx]))"
      using add get insert_builders [of tx kept] by (simp del: map_map)
    then show ?thesis
      using Cons.IH [OF _ Cons.prems(2) used] Cons.prems(1,2) small add by (auto simp del: map_map)
  qed
qed simp

lemma sum_list_select:
  "distinct xs \<Longrightarrow> x \<in> set xs \<Longrightarrow> sum_list (map (\<lambda>y. if x = y then c else 0) xs) = (c :: nat)"
proof (induction xs)
  case (Cons y xs)
  have "sum_list (map (\<lambda>y. if x = y then c else 0) xs) = 0" if "x \<notin> set xs"
    using that by (induction xs) auto
  with Cons show ?case by auto
qed simp

lemma sum_list_partition:
  fixes f :: "'a \<Rightarrow> nat"
  assumes "distinct ks" "key ` set xs \<subseteq> set ks"
  shows "sum_list (map (\<lambda>k. sum_list (map f (filter (\<lambda>x. key x = k) xs))) ks) = sum_list (map f xs)"
  using assms(2)
proof (induction xs)
  case (Cons x xs)
  have "(\<lambda>k. sum_list (map f (filter (\<lambda>x. key x = k) (x # xs))))
      = (\<lambda>k. (if key x = k then f x else 0) + sum_list (map f (filter (\<lambda>x. key x = k) xs)))"
    by auto
  then show ?case
    using Cons sum_list_select [OF assms(1), of "key x" "f x"] by (simp add: sum_list_addf)
qed simp

lemma block_size_groups:
  "length (concat (raw_bytes (groups kept))) + length (table_bytes (groups kept)) = block_size kept"
proof -
  have len: "length (ns_bytes (bodies kept ns))
      = 4 + sum_list (map (\<lambda>t. 4 + length (tx_payload t)) (filter (\<lambda>t. tx_namespace t = ns) kept))" for ns
    by (simp add: length_ns_bytes bodies_def length_concat comp_def sum_list_addf sum_list_triv)
  have "length (concat (raw_bytes (groups kept)))
      = sum_list (map (\<lambda>ns. length (ns_bytes (bodies kept ns))) (namespaces_of kept))"
    by (simp add: raw_bytes_def groups_def length_concat comp_def)
  also have "\<dots> = 4 * length (namespaces_of kept) + sum_list (map (\<lambda>t. 4 + length (tx_payload t)) kept)"
    using sum_list_partition [of "namespaces_of kept" tx_namespace kept "\<lambda>t. 4 + length (tx_payload t)"]
    by (simp only: len) (simp add: sum_list_addf [where f = "\<lambda>_. 4"] sum_list_triv)
  finally show ?thesis
    by (simp add: length_table_bytes block_size_def) (simp add: groups_def)
qed

lemma fits_groups:
  assumes "block_size kept < 2 ^ 32" "\<forall>tx \<in> set kept. unat (tx_namespace tx) < 2 ^ 32"
  shows "fits (groups kept)"
proof -
  have "map fst (groups kept) = namespaces_of kept" by (simp add: groups_def comp_def)
  then show ?thesis
    using assms block_size_groups [of kept] by (auto simp: fits_def groups_def)
qed

lemma accept_subset: "set (accept max_size txs used kept) \<subseteq> set kept \<union> set txs"
  by (induction max_size txs used kept rule: accept.induct) (auto simp: Let_def)

definition accepted :: "u64 \<Rightarrow> Transaction list \<Rightarrow> Transaction list" where
  "accepted max_size txs = accept max_size txs 4 []"

definition payload_order :: "Transaction list \<Rightarrow> Transaction list" where
  "payload_order kept = concat (map (\<lambda>ns. filter (\<lambda>t. tx_namespace t = ns) kept) (namespaces_of kept))"

lemma group_txs_bodies: "group_txs (ns, bodies kept ns) = filter (\<lambda>t. tx_namespace t = ns) kept"
proof -
  have "map (\<lambda>t. \<lparr>tx_namespace = ns, tx_payload = tx_payload t\<rparr>) (filter (\<lambda>t. tx_namespace t = ns) kept)
      = map (\<lambda>t. t) (filter (\<lambda>t. tx_namespace t = ns) kept)"
    by (rule map_cong) auto
  then show ?thesis by (simp add: group_txs_def bodies_def comp_def)
qed

lemma from_transactions_sync_eq:
  assumes "unat max_size < 2 ^ 32"
    and "\<forall>tx \<in> set txs. unat (tx_namespace tx) < 2 ^ 32 \<and> length (tx_payload tx) < 2 ^ 63"
  shows "from_transactions_sync txs max_size = Some (payload_for (groups (accepted max_size txs)))"
    and "fits (groups (accepted max_size txs))"
    and "block_size (accepted max_size txs) \<le> max 4 (unat max_size)"
proof -
  let ?kept = "accepted max_size txs"
  have add: "add_transactions max_size txs 4 [] = Some (builders ?kept)"
    and size: "block_size ?kept \<le> max 4 (unat max_size)"
    using add_transactions_accept [of txs max_size 4 "[]"] assms
    by (simp_all add: accepted_def block_size_def groups_def namespaces_of_def)
  show "block_size ?kept \<le> max 4 (unat max_size)" by (rule size)
  have "\<forall>tx \<in> set ?kept. unat (tx_namespace tx) < 2 ^ 32"
    using accept_subset [of max_size txs 4 "[]"] assms(2) by (auto simp: accepted_def)
  then show fits: "fits (groups ?kept)" using size assms(1) by (intro fits_groups) auto
  have "length (groups ?kept) < 2 ^ 32" using fits by (simp add: fits_def length_table_bytes)
  then show "from_transactions_sync txs max_size = Some (payload_for (groups ?kept))"
    using add write_payload [OF fits]
    by (simp add: from_transactions_sync_def byte_lens payload_for_def table_bytes_def
        into_ns_table_Some del: map_map)
qed

lemma block_size_mono: "block_size kept \<le> block_size (kept @ txs)"
proof (induction txs arbitrary: kept)
  case (Cons tx txs)
  have "block_size kept \<le> block_size (kept @ [tx])" by (simp add: block_size_snoc)
  with Cons [of "kept @ [tx]"] show ?case by simp
qed simp

lemma accept_all:
  assumes "unat used = block_size kept" "block_size (kept @ txs) \<le> unat max_size"
    and "unat max_size < 2 ^ 32"
  shows "accept max_size txs used kept = kept @ txs"
  using assms
proof (induction txs arbitrary: used kept)
  case (Cons tx txs)
  let ?size = "size_in_block tx (tx_namespace tx \<notin> tx_namespace ` set kept)"
  have le: "block_size (kept @ [tx]) \<le> unat max_size"
    using block_size_mono [of "kept @ [tx]" txs] Cons.prems(2) by simp
  then have "length (tx_payload tx) < 2 ^ 63"
    using Cons.prems(3) by (auto simp: block_size_snoc split: if_splits)
  then have size: "block_size (kept @ [tx]) = unat used + unat ?size"
    by (simp add: unat_size_in_block block_size_snoc Cons.prems(1))
  then have "unat used + unat ?size < 2 ^ LENGTH(64)" using le Cons.prems(3) by simp
  then have used: "unat (used + ?size) = block_size (kept @ [tx])" unfolding unat_add_lem size .
  moreover have "\<not> ?size > max_size" "\<not> used + ?size > max_size"
    using used size le by (simp_all add: word_less_nat_alt)
  ultimately show ?case using Cons.IH [OF used] Cons.prems by (simp add: Let_def)
qed simp

lemma mset_payload_order: "mset (payload_order kept) = mset kept"
proof -
  have "mset (concat (map (\<lambda>ns. filter (\<lambda>t. tx_namespace t = ns) kept) nss))
      = mset (filter (\<lambda>t. tx_namespace t \<in> set nss) kept)" if "distinct nss" for nss
    using that
  proof (induction nss)
    case (Cons ns nss)
    have "filter_mset (\<lambda>t. tx_namespace t = ns \<or> tx_namespace t \<in> set nss) (mset kept)
        = filter_mset (\<lambda>t. tx_namespace t = ns) (mset kept)
          + filter_mset (\<lambda>t. tx_namespace t \<in> set nss) (mset kept)"
      using Cons.prems by (induction kept) auto
    with Cons show ?case by simp
  qed simp
  from this [of "namespaces_of kept"] show ?thesis
    by (simp add: payload_order_def)
qed

text \<open>
  C26: A payload built from a list of transactions is read back as exactly the
  transactions that were accepted, in ascending order of their namespaces and within a namespace in
  the order of submission; none is duplicated, lost or altered, and all of them are accepted
  whenever they fit in the maximum block size.
\<close>

theorem payload_roundtrip:
  assumes "unat max_size < 2 ^ 32"
    and "\<forall>tx \<in> set txs. unat (tx_namespace tx) < 2 ^ 32 \<and> length (tx_payload tx) < 2 ^ 63"
  shows "\<exists>p. from_transactions_sync txs max_size = Some p
     \<and> transactions p = Some (payload_order (accepted max_size txs))
     \<and> mset (payload_order (accepted max_size txs)) = mset (accepted max_size txs)
     \<and> (block_size txs \<le> unat max_size \<longrightarrow> accepted max_size txs = txs)"
proof -
  let ?kept = "accepted max_size txs"
  have "concat (map group_txs (groups ?kept)) = payload_order ?kept"
    by (simp add: groups_def payload_order_def group_txs_bodies comp_def)
  moreover have "?kept = txs" if "block_size txs \<le> unat max_size"
    using accept_all [of 4 "[]" txs max_size] that assms(1)
    by (simp add: accepted_def block_size_def namespaces_of_def)
  ultimately show ?thesis
    using from_transactions_sync_eq [OF assms] transactions_payload_for [of "groups ?kept"]
      mset_payload_order [of ?kept] by simp
qed

text \<open>
  A payload built from a list of transactions has a namespace table that
  passes the full validation of a proposed block, and payload and table together stay within the
  maximum block size (the four bytes of an empty table apart).
\<close>

theorem built_payload_valid:
  assumes "unat max_size < 2 ^ 32"
    and "\<forall>tx \<in> set txs. unat (tx_namespace tx) < 2 ^ 32 \<and> length (tx_payload tx) < 2 ^ 63"
  shows "\<exists>p. from_transactions_sync txs max_size = Some p
     \<and> ns_table_validate (ns_table p) (length (raw_payload p)) = Some (Ok ())
     \<and> length (raw_payload p) + length (ns_table p) \<le> max 4 (unat max_size)"
  using from_transactions_sync_eq [OF assms]
    ns_table_validate_payload_for [of "groups (accepted max_size txs)"]
    block_size_groups [of "accepted max_size txs"]
  by (simp add: payload_for_def)

section \<open>Witnesses\<close>

definition demo_txs :: "Transaction list" where
  "demo_txs = [\<lparr>tx_namespace = 7, tx_payload = [1, 2, 3]\<rparr>, \<lparr>tx_namespace = 2, tx_payload = []\<rparr>,
               \<lparr>tx_namespace = 7, tx_payload = [4]\<rparr>]"

lemma demo_txs_ok:
  "\<forall>tx \<in> set demo_txs. unat (tx_namespace tx) < 2 ^ 32 \<and> length (tx_payload tx) < 2 ^ 63"
  by (simp add: demo_txs_def)

theorem payload_roundtrip_witness:
  "\<exists>p. from_transactions_sync demo_txs 100 = Some p
     \<and> transactions p = Some [\<lparr>tx_namespace = 2, tx_payload = []\<rparr>,
          \<lparr>tx_namespace = 7, tx_payload = [1, 2, 3]\<rparr>, \<lparr>tx_namespace = 7, tx_payload = [4]\<rparr>]"
proof -
  have ns: "namespaces_of demo_txs = [2, 7]"
    by (simp add: namespaces_of_def demo_txs_def insert_commute)
  then have "block_size demo_txs \<le> unat (100 :: u64)" by (simp add: block_size_def) (simp add: demo_txs_def)
  moreover have "payload_order demo_txs = [\<lparr>tx_namespace = 2, tx_payload = []\<rparr>,
          \<lparr>tx_namespace = 7, tx_payload = [1, 2, 3]\<rparr>, \<lparr>tx_namespace = 7, tx_payload = [4]\<rparr>]"
    by (simp add: payload_order_def ns) (simp add: demo_txs_def)
  ultimately show ?thesis
    using payload_roundtrip [OF _ demo_txs_ok, of 100] by force
qed

theorem built_payload_valid_witness:
  "\<exists>p. from_transactions_sync demo_txs 30 = Some p
     \<and> ns_table_validate (ns_table p) (length (raw_payload p)) = Some (Ok ())
     \<and> length (raw_payload p) + length (ns_table p) \<le> 30"
  using built_payload_valid [OF _ demo_txs_ok, of 30] by simp

theorem payload_reading_total_witness:
  "\<exists>txs. transactions \<lparr>raw_payload = [1, 0, 0], ns_table = [9, 9, 9, 9, 1, 0, 0, 0, 255, 0, 0, 0]\<rparr> = Some txs"
  using payload_reading_total [of "\<lparr>raw_payload = [1, 0, 0], ns_table = [9, 9, 9, 9, 1, 0, 0, 0, 255, 0, 0, 0]\<rparr>"]
  by auto

end
