(* ===== verification/App_Header.thy ===== *)
theory App_Header
  imports Block_Payload Stake_Events Quorum_Cert
begin

text \<open>
  Block headers of the sequencer: \<open>types/src/v0/v0_1/header.rs\<close>, \<open>v0_3/header.rs\<close> and the data of
  \<open>impls/header.rs\<close>, with the chain configuration (\<open>v0_1/chain_config.rs\<close>, \<open>v0_3/chain_config.rs\<close>),
  fees (\<open>fee_info.rs\<close>) and L1 block references (\<open>l1.rs\<close>) that a header carries, and their
  commitments. The hash behind \<open>RawCommitmentBuilder::finalize\<close> and the serialization of a Merkle
  root are parameters; the sequence of fields that goes into the hash is the one of the source. A
  fixed-size byte array (a digest, an address) is the word with these bytes.
\<close>

section \<open>Commitment builder\<close>

datatype CField =
    Field string commitment
  | Optional string "commitment option"
  | U64Field string u64
  | FixedSizeField string "u8 list"
  | VarSizeField string "u8 list"
  | ConstantStr string
  | FixedSizeBytes "u8 list"
  | VarSizeBytes "u8 list"

text \<open>\<open>MerkleCommitment\<close>: the digest of the root, the height and the number of leaves.\<close>

record MerkleCommitment =
  mc_digest :: commitment
  mc_height :: nat
  mc_size :: u64

record CommitEnv =
  finalize :: "string \<times> CField list \<Rightarrow> commitment"
  root_bytes :: "MerkleCommitment \<Rightarrow> u8 list"

definition to_fixed_bytes :: "'a::len word \<Rightarrow> u8 list" where
  "to_fixed_bytes w = le_bytes (LENGTH('a) div 8) (unat w)"

section \<open>Chain configuration\<close>

record ChainConfigV1 =
  v1_chain_id :: u256
  v1_max_block_size :: u64
  v1_base_fee :: u256
  v1_fee_contract :: "address option"
  v1_fee_recipient :: address

record ChainConfig =
  chain_id :: u256
  max_block_size :: u64
  base_fee :: u256
  fee_contract :: "address option"
  fee_recipient :: address
  stake_table_contract :: "address option"

definition config_fields_v1 :: "ChainConfigV1 \<Rightarrow> CField list" where
  "config_fields_v1 self =
     [FixedSizeField ''chain_id'' (to_fixed_bytes (v1_chain_id self)),
      U64Field ''max_block_size'' (v1_max_block_size self),
      FixedSizeField ''base_fee'' (to_fixed_bytes (v1_base_fee self)),
      FixedSizeField ''fee_recipient'' (to_fixed_bytes (v1_fee_recipient self))]
     @ (case v1_fee_contract self of
          Some addr \<Rightarrow> [U64Field ''fee_contract'' 1, FixedSizeBytes (to_fixed_bytes addr)]
        | None \<Rightarrow> [U64Field ''fee_contract'' 0])"

definition config_commit_v1 :: "CommitEnv \<Rightarrow> ChainConfigV1 \<Rightarrow> commitment" where
  "config_commit_v1 env self = finalize env (''CHAIN_CONFIG'', config_fields_v1 self)"

definition config_fields :: "ChainConfig \<Rightarrow> CField list" where
  "config_fields self =
     [FixedSizeField ''chain_id'' (to_fixed_bytes (chain_id self)),
      U64Field ''max_block_size'' (max_block_size self),
      FixedSizeField ''base_fee'' (to_fixed_bytes (base_fee self)),
      FixedSizeField ''fee_recipient'' (to_fixed_bytes (fee_recipient self))]
     @ (case fee_contract self of
          Some addr \<Rightarrow> [U64Field ''fee_contract'' 1, FixedSizeBytes (to_fixed_bytes addr)]
        | None \<Rightarrow> [U64Field ''fee_contract'' 0])
     @ (case stake_table_contract self of
          Some addr \<Rightarrow> [U64Field ''stake_table_contract'' 1, FixedSizeBytes (to_fixed_bytes addr)]
        | None \<Rightarrow> [])"

definition config_commit :: "CommitEnv \<Rightarrow> ChainConfig \<Rightarrow> commitment" where
  "config_commit env self = finalize env (''CHAIN_CONFIG'', config_fields self)"

definition config_of_v1 :: "ChainConfigV1 \<Rightarrow> ChainConfig" where
  "config_of_v1 c =
     \<lparr>chain_id = v1_chain_id c, max_block_size = v1_max_block_size c, base_fee = v1_base_fee c,
      fee_contract = v1_fee_contract c, fee_recipient = v1_fee_recipient c,
      stake_table_contract = None\<rparr>"

definition config_to_v1 :: "ChainConfig \<Rightarrow> ChainConfigV1" where
  "config_to_v1 c =
     \<lparr>v1_chain_id = chain_id c, v1_max_block_size = max_block_size c, v1_base_fee = base_fee c,
      v1_fee_contract = fee_contract c, v1_fee_recipient = fee_recipient c\<rparr>"

definition config_default :: ChainConfig where
  "config_default =
     \<lparr>chain_id = 35353, max_block_size = 30720, base_fee = 0, fee_contract = None,
      fee_recipient = 0, stake_table_contract = None\<rparr>"

text \<open>\<open>ResolvableChainConfig\<close>: the configuration itself or only its commitment.\<close>

datatype 'c ResolvableChainConfig = Resolved 'c | Unresolved commitment

definition resolvable_commit_v1 :: "CommitEnv \<Rightarrow> ChainConfigV1 ResolvableChainConfig \<Rightarrow> commitment" where
  "resolvable_commit_v1 env r = (case r of Resolved config \<Rightarrow> config_commit_v1 env config | Unresolved c \<Rightarrow> c)"

definition resolvable_commit :: "CommitEnv \<Rightarrow> ChainConfig ResolvableChainConfig \<Rightarrow> commitment" where
  "resolvable_commit env r = (case r of Resolved config \<Rightarrow> config_commit env config | Unresolved c \<Rightarrow> c)"

definition resolve :: "'c ResolvableChainConfig \<Rightarrow> 'c option" where
  "resolve r = (case r of Resolved config \<Rightarrow> Some config | Unresolved c \<Rightarrow> None)"

definition resolvable_of_v1 ::
  "ChainConfigV1 ResolvableChainConfig \<Rightarrow> ChainConfig ResolvableChainConfig" where
  "resolvable_of_v1 r = (case r of Resolved c \<Rightarrow> Resolved (config_of_v1 c) | Unresolved c \<Rightarrow> Unresolved c)"

section \<open>Fees and L1 blocks\<close>

record FeeInfo =
  fi_account :: address
  fi_amount :: u256

definition fee_info_fields :: "FeeInfo \<Rightarrow> CField list" where
  "fee_info_fields self =
     [FixedSizeField ''account'' (to_fixed_bytes (fi_account self)),
      FixedSizeField ''amount'' (to_fixed_bytes (fi_amount self))]"

definition fee_info_commit :: "CommitEnv \<Rightarrow> FeeInfo \<Rightarrow> commitment" where
  "fee_info_commit env self = finalize env (''FEE_INFO'', fee_info_fields self)"

record L1BlockInfo =
  l1b_number :: u64
  l1b_timestamp :: u256
  l1b_hash :: commitment

definition l1_block_fields :: "L1BlockInfo \<Rightarrow> CField list" where
  "l1_block_fields self =
     [U64Field ''number'' (l1b_number self),
      ConstantStr ''timestamp'', FixedSizeBytes (to_fixed_bytes (l1b_timestamp self)),
      ConstantStr ''hash'', FixedSizeBytes (to_fixed_bytes (l1b_hash self))]"

definition l1_block_commit :: "CommitEnv \<Rightarrow> L1BlockInfo \<Rightarrow> commitment" where
  "l1_block_commit env self = finalize env (''L1BLOCK'', l1_block_fields self)"

text \<open>
  The order of \<open>Option<L1BlockInfo>\<close>: \<open>None\<close> is least and two blocks compare by their number only.
\<close>

fun l1_less :: "L1BlockInfo option \<Rightarrow> L1BlockInfo option \<Rightarrow> bool" where
  "l1_less None None = False"
| "l1_less None (Some b) = True"
| "l1_less (Some a) None = False"
| "l1_less (Some a) (Some b) = (l1b_number a < l1b_number b)"

section \<open>Headers\<close>

record HeaderV1 =
  h1_chain_config :: "ChainConfigV1 ResolvableChainConfig"
  h1_height :: u64
  h1_timestamp :: u64
  h1_l1_head :: u64
  h1_l1_finalized :: "L1BlockInfo option"
  h1_payload_commitment :: commitment
  h1_builder_commitment :: commitment
  h1_ns_table :: "u8 list"
  h1_block_merkle_tree_root :: MerkleCommitment
  h1_fee_merkle_tree_root :: MerkleCommitment
  h1_fee_info :: FeeInfo
  h1_builder_signature :: "u8 list option"

record HeaderV3 =
  h3_chain_config :: "ChainConfig ResolvableChainConfig"
  h3_height :: u64
  h3_timestamp :: u64
  h3_l1_head :: u64
  h3_l1_finalized :: "L1BlockInfo option"
  h3_payload_commitment :: commitment
  h3_builder_commitment :: commitment
  h3_ns_table :: "u8 list"
  h3_block_merkle_tree_root :: MerkleCommitment
  h3_fee_merkle_tree_root :: MerkleCommitment
  h3_fee_info :: FeeInfo
  h3_builder_signature :: "u8 list option"
  h3_reward_merkle_tree_root :: MerkleCommitment

datatype Header = V1 HeaderV1 | V2 HeaderV1 | V3 HeaderV3

definition header_version :: "Header \<Rightarrow> Version" where
  "header_version h = (case h of V1 f \<Rightarrow> (0, 1) | V2 f \<Rightarrow> (0, 2) | V3 f \<Rightarrow> (0, 3))"

definition header_chain_config :: "Header \<Rightarrow> ChainConfig ResolvableChainConfig" where
  "header_chain_config h =
     (case h of V1 f \<Rightarrow> resolvable_of_v1 (h1_chain_config f)
      | V2 f \<Rightarrow> resolvable_of_v1 (h1_chain_config f) | V3 f \<Rightarrow> h3_chain_config f)"

definition header_height :: "Header \<Rightarrow> u64" where
  "header_height h = (case h of V1 f \<Rightarrow> h1_height f | V2 f \<Rightarrow> h1_height f | V3 f \<Rightarrow> h3_height f)"

definition header_timestamp :: "Header \<Rightarrow> u64" where
  "header_timestamp h =
     (case h of V1 f \<Rightarrow> h1_timestamp f | V2 f \<Rightarrow> h1_timestamp f | V3 f \<Rightarrow> h3_timestamp f)"

definition header_l1_head :: "Header \<Rightarrow> u64" where
  "header_l1_head h = (case h of V1 f \<Rightarrow> h1_l1_head f | V2 f \<Rightarrow> h1_l1_head f | V3 f \<Rightarrow> h3_l1_head f)"

definition header_l1_finalized :: "Header \<Rightarrow> L1BlockInfo option" where
  "header_l1_finalized h =
     (case h of V1 f \<Rightarrow> h1_l1_finalized f | V2 f \<Rightarrow> h1_l1_finalized f | V3 f \<Rightarrow> h3_l1_finalized f)"

definition header_payload_commitment :: "Header \<Rightarrow> commitment" where
  "header_payload_commitment h =
     (case h of V1 f \<Rightarrow> h1_payload_commitment f | V2 f \<Rightarrow> h1_payload_commitment f
      | V3 f \<Rightarrow> h3_payload_commitment f)"

definition header_builder_commitment :: "Header \<Rightarrow> commitment" where
  "header_builder_commitment h =
     (case h of V1 f \<Rightarrow> h1_builder_commitment f | V2 f \<Rightarrow> h1_builder_commitment f
      | V3 f \<Rightarrow> h3_builder_commitment f)"

definition header_ns_table :: "Header \<Rightarrow> u8 list" where
  "header_ns_table h =
     (case h of V1 f \<Rightarrow> h1_ns_table f | V2 f \<Rightarrow> h1_ns_table f | V3 f \<Rightarrow> h3_ns_table f)"

definition header_block_merkle_tree_root :: "Header \<Rightarrow> MerkleCommitment" where
  "header_block_merkle_tree_root h =
     (case h of V1 f \<Rightarrow> h1_block_merkle_tree_root f | V2 f \<Rightarrow> h1_block_merkle_tree_root f
      | V3 f \<Rightarrow> h3_block_merkle_tree_root f)"

definition header_fee_merkle_tree_root :: "Header \<Rightarrow> MerkleCommitment" where
  "header_fee_merkle_tree_root h =
     (case h of V1 f \<Rightarrow> h1_fee_merkle_tree_root f | V2 f \<Rightarrow> h1_fee_merkle_tree_root f
      | V3 f \<Rightarrow> h3_fee_merkle_tree_root f)"

text \<open>Before version 0.3 the reward root is the commitment of an empty tree, the argument.\<close>

definition header_reward_merkle_tree_root :: "MerkleCommitment \<Rightarrow> Header \<Rightarrow> MerkleCommitment" where
  "header_reward_merkle_tree_root empty_reward_merkle_tree h =
     (case h of V1 f \<Rightarrow> empty_reward_merkle_tree | V2 f \<Rightarrow> empty_reward_merkle_tree
      | V3 f \<Rightarrow> h3_reward_merkle_tree_root f)"

definition header_fee_info :: "Header \<Rightarrow> FeeInfo list" where
  "header_fee_info h =
     (case h of V1 f \<Rightarrow> [h1_fee_info f] | V2 f \<Rightarrow> [h1_fee_info f] | V3 f \<Rightarrow> [h3_fee_info f])"

definition header_builder_signature :: "Header \<Rightarrow> u8 list list" where
  "header_builder_signature h =
     (let sig = (case h of V1 f \<Rightarrow> h1_builder_signature f | V2 f \<Rightarrow> h1_builder_signature f
                 | V3 f \<Rightarrow> h3_builder_signature f)
      in case sig of None \<Rightarrow> [] | Some s \<Rightarrow> [s])"

lemmas header_getters = header_version_def header_chain_config_def header_height_def
  header_timestamp_def header_l1_head_def header_l1_finalized_def header_payload_commitment_def
  header_builder_commitment_def header_ns_table_def header_block_merkle_tree_root_def
  header_fee_merkle_tree_root_def header_fee_info_def header_builder_signature_def

section \<open>Header commitments\<close>

definition ns_table_commit :: "CommitEnv \<Rightarrow> u8 list \<Rightarrow> commitment" where
  "ns_table_commit env bytes = finalize env (''NSTABLE'', [VarSizeBytes bytes])"

definition header_fields_v1 :: "CommitEnv \<Rightarrow> HeaderV1 \<Rightarrow> CField list" where
  "header_fields_v1 env self =
     [Field ''chain_config'' (resolvable_commit_v1 env (h1_chain_config self)),
      U64Field ''height'' (h1_height self),
      U64Field ''timestamp'' (h1_timestamp self),
      U64Field ''l1_head'' (h1_l1_head self),
      Optional ''l1_finalized'' (map_option (l1_block_commit env) (h1_l1_finalized self)),
      ConstantStr ''payload_commitment'', FixedSizeBytes (to_fixed_bytes (h1_payload_commitment self)),
      ConstantStr ''builder_commitment'', FixedSizeBytes (to_fixed_bytes (h1_builder_commitment self)),
      Field ''ns_table'' (ns_table_commit env (h1_ns_table self)),
      VarSizeField ''block_merkle_tree_root'' (root_bytes env (h1_block_merkle_tree_root self)),
      VarSizeField ''fee_merkle_tree_root'' (root_bytes env (h1_fee_merkle_tree_root self)),
      Field ''fee_info'' (fee_info_commit env (h1_fee_info self))]"

definition header_fields_v3 :: "CommitEnv \<Rightarrow> HeaderV3 \<Rightarrow> CField list" where
  "header_fields_v3 env self =
     [Field ''chain_config'' (resolvable_commit env (h3_chain_config self)),
      U64Field ''height'' (h3_height self),
      U64Field ''timestamp'' (h3_timestamp self),
      U64Field ''l1_head'' (h3_l1_head self),
      Optional ''l1_finalized'' (map_option (l1_block_commit env) (h3_l1_finalized self)),
      ConstantStr ''payload_commitment'', FixedSizeBytes (to_fixed_bytes (h3_payload_commitment self)),
      ConstantStr ''builder_commitment'', FixedSizeBytes (to_fixed_bytes (h3_builder_commitment self)),
      Field ''ns_table'' (ns_table_commit env (h3_ns_table self)),
      VarSizeField ''block_merkle_tree_root'' (root_bytes env (h3_block_merkle_tree_root self)),
      VarSizeField ''fee_merkle_tree_root'' (root_bytes env (h3_fee_merkle_tree_root self)),
      Field ''fee_info'' (fee_info_commit env (h3_fee_info self)),
      VarSizeField ''reward_merkle_tree_root'' (root_bytes env (h3_reward_merkle_tree_root self))]"

definition versioned_fields :: "u64 \<Rightarrow> commitment \<Rightarrow> CField list" where
  "versioned_fields minor fields_commit =
     [U64Field ''version_major'' 0, U64Field ''version_minor'' minor, Field ''fields'' fields_commit]"

definition header_commit :: "CommitEnv \<Rightarrow> Header \<Rightarrow> commitment" where
  "header_commit env h =
     (case h of
        V1 f \<Rightarrow> finalize env (''BLOCK'', header_fields_v1 env f)
      | V2 f \<Rightarrow> finalize env (''BLOCK'',
          versioned_fields 2 (finalize env (''BLOCK'', header_fields_v1 env f)))
      | V3 f \<Rightarrow> finalize env (''BLOCK'',
          versioned_fields 3 (finalize env (''BLOCK'', header_fields_v3 env f))))"

section \<open>The header as consensus sees it\<close>

text \<open>\<open>impl BlockHeader<SeqTypes> for Header\<close>: the getters that consensus uses.\<close>

definition header_block_number :: "Header \<Rightarrow> u64" where
  "header_block_number h = header_height h"

definition header_metadata :: "Header \<Rightarrow> u8 list" where
  "header_metadata h = header_ns_table h"

section \<open>Creating a header\<close>

text \<open>\<open>None\<close> is a panic: a major version other than 0, no fee, or an unknown minor version.\<close>

definition header_create ::
  "ChainConfig \<Rightarrow> u64 \<Rightarrow> u64 \<Rightarrow> u64 \<Rightarrow> L1BlockInfo option \<Rightarrow> commitment \<Rightarrow> commitment \<Rightarrow> u8 list
     \<Rightarrow> MerkleCommitment \<Rightarrow> MerkleCommitment \<Rightarrow> MerkleCommitment \<Rightarrow> FeeInfo list \<Rightarrow> u8 list list
     \<Rightarrow> Version \<Rightarrow> Header option" where
  "header_create cfg height timestamp l1_head l1_finalized payload_commitment builder_commitment
     table fee_merkle_tree_root block_merkle_tree_root reward_merkle_tree_root fee_info
     builder_signature version =
     (if fst version \<noteq> 0 \<or> fee_info = [] then None
      else
        let v1 = \<lparr>h1_chain_config = Resolved (config_to_v1 cfg), h1_height = height,
              h1_timestamp = timestamp, h1_l1_head = l1_head, h1_l1_finalized = l1_finalized,
              h1_payload_commitment = payload_commitment, h1_builder_commitment = builder_commitment,
              h1_ns_table = table, h1_block_merkle_tree_root = block_merkle_tree_root,
              h1_fee_merkle_tree_root = fee_merkle_tree_root, h1_fee_info = fee_info ! 0,
              h1_builder_signature = (case builder_signature of [] \<Rightarrow> None | s # ss \<Rightarrow> Some s)\<rparr>
        in if snd version = 1 then Some (V1 v1)
           else if snd version = 2 then Some (V2 v1)
           else if snd version = 3 then
             Some (V3 \<lparr>h3_chain_config = Resolved cfg, h3_height = height,
              h3_timestamp = timestamp, h3_l1_head = l1_head, h3_l1_finalized = l1_finalized,
              h3_payload_commitment = payload_commitment, h3_builder_commitment = builder_commitment,
              h3_ns_table = table, h3_block_merkle_tree_root = block_merkle_tree_root,
              h3_fee_merkle_tree_root = fee_merkle_tree_root, h3_fee_info = fee_info ! 0,
              h3_builder_signature = (case builder_signature of [] \<Rightarrow> None | s # ss \<Rightarrow> Some s),
              h3_reward_merkle_tree_root = reward_merkle_tree_root\<rparr>)
           else None)"

section \<open>Commitments bind what they commit to\<close>

lemma to_fixed_bytes_inj [simp]:
  assumes "LENGTH('a::len) = 8 * (LENGTH('a) div 8)"
  shows "to_fixed_bytes a = to_fixed_bytes b \<longleftrightarrow> a = (b :: 'a word)"
proof
  assume eq: "to_fixed_bytes a = to_fixed_bytes b"
  have "unat w < 256 ^ (LENGTH('a) div 8)" for w :: "'a word"
  proof -
    have "(2::nat) ^ LENGTH('a) = 256 ^ (LENGTH('a) div 8)"
      using assms power_mult [of "2::nat" 8 "LENGTH('a) div 8"] by simp
    then show ?thesis using unsigned_less [of w] by metis
  qed
  then have "unat a = unat b"
    using eq unfolding to_fixed_bytes_def by (metis le_value_le_bytes)
  then show "a = b" by (simp add: word_unat_eq_iff)
qed simp

lemma config_fields_inj: "config_fields c = config_fields c' \<longleftrightarrow> c = c'"
proof
  assume "config_fields c = config_fields c'"
  then show "c = c'"
    by (cases c; cases c') (auto simp: config_fields_def split: option.splits)
qed simp

text \<open>A version 0.1 configuration keeps its commitment in the form of version 0.3.\<close>

lemma config_commit_of_v1: "config_commit env (config_of_v1 c) = config_commit_v1 env c"
  by (simp add: config_commit_def config_commit_v1_def config_fields_def config_fields_v1_def
      config_of_v1_def)

lemma resolvable_commit_of_v1: "resolvable_commit env (resolvable_of_v1 r) = resolvable_commit_v1 env r"
  by (cases r) (simp_all add: resolvable_commit_def resolvable_commit_v1_def resolvable_of_v1_def
      config_commit_of_v1)

lemma config_to_v1_of_v1: "config_to_v1 (config_of_v1 c) = c"
  by (simp add: config_to_v1_def config_of_v1_def)

lemma config_of_v1_to_v1: "config_of_v1 (config_to_v1 c) = c \<longleftrightarrow> stake_table_contract c = None"
  by (cases c) (auto simp: config_to_v1_def config_of_v1_def)

text \<open>The inputs that are hashed in the course of a header commitment.\<close>

definition commit_inputs :: "CommitEnv \<Rightarrow> Header \<Rightarrow> (string \<times> CField list) set" where
  "commit_inputs env h =
     {(''NSTABLE'', [VarSizeBytes (header_ns_table h)])}
     \<union> (\<lambda>fi. (''FEE_INFO'', fee_info_fields fi)) ` set (header_fee_info h)
     \<union> (\<lambda>b. (''L1BLOCK'', l1_block_fields b)) ` set_option (header_l1_finalized h)
     \<union> (case h of
          V1 f \<Rightarrow> {(''BLOCK'', header_fields_v1 env f)}
        | V2 f \<Rightarrow> {(''BLOCK'', header_fields_v1 env f),
            (''BLOCK'', versioned_fields 2 (finalize env (''BLOCK'', header_fields_v1 env f)))}
        | V3 f \<Rightarrow> {(''BLOCK'', header_fields_v3 env f),
            (''BLOCK'', versioned_fields 3 (finalize env (''BLOCK'', header_fields_v3 env f)))})"

text \<open>Everything but the builder signature, the chain configuration up to its commitment.\<close>

definition header_content ::
  "CommitEnv \<Rightarrow> Header \<Rightarrow> Version \<times> commitment \<times> u64 \<times> u64 \<times> u64 \<times> L1BlockInfo option
     \<times> commitment \<times> commitment \<times> u8 list \<times> MerkleCommitment \<times> MerkleCommitment \<times> FeeInfo list
     \<times> (MerkleCommitment \<Rightarrow> MerkleCommitment)" where
  "header_content env h =
     (header_version h, resolvable_commit env (header_chain_config h), header_height h,
      header_timestamp h, header_l1_head h, header_l1_finalized h, header_payload_commitment h,
      header_builder_commitment h, header_ns_table h, header_block_merkle_tree_root h,
      header_fee_merkle_tree_root h, header_fee_info h,
      \<lambda>empty_root. header_reward_merkle_tree_root empty_root h)"

definition binding_on :: "CommitEnv \<Rightarrow> Header \<Rightarrow> Header \<Rightarrow> bool" where
  "binding_on env h h' \<longleftrightarrow>
     inj_on (finalize env) (commit_inputs env h \<union> commit_inputs env h') \<and> inj (root_bytes env)"

lemma fee_info_fields_inj: "fee_info_fields a = fee_info_fields b \<longleftrightarrow> a = b"
  by (cases a; cases b) (auto simp: fee_info_fields_def)

lemma l1_block_fields_inj: "l1_block_fields a = l1_block_fields b \<longleftrightarrow> a = b"
  by (cases a; cases b) (auto simp: l1_block_fields_def)

lemma binding_onD:
  assumes "binding_on env h h'" "finalize env x = finalize env y"
    "x \<in> commit_inputs env h" "y \<in> commit_inputs env h'"
  shows "x = y"
  using assms unfolding binding_on_def by (auto dest: inj_onD)

lemma l1_commit_inj:
  assumes "binding_on env h h'"
    "map_option (l1_block_commit env) (header_l1_finalized h)
       = map_option (l1_block_commit env) (header_l1_finalized h')"
  shows "header_l1_finalized h = header_l1_finalized h'"
proof (cases "header_l1_finalized h")
  case None
  with assms show ?thesis by simp
next
  case (Some a)
  with assms(2) obtain b where b: "header_l1_finalized h' = Some b"
    "l1_block_commit env a = l1_block_commit env b"
    by (cases "header_l1_finalized h'") auto
  have "(''L1BLOCK'', l1_block_fields a) = (''L1BLOCK'', l1_block_fields b)"
    by (rule binding_onD [OF assms(1) b(2) [unfolded l1_block_commit_def]])
      (simp_all add: commit_inputs_def Some b(1))
  with Some b(1) show ?thesis by (simp add: l1_block_fields_inj)
qed

lemma ns_table_commit_inj:
  assumes "binding_on env h h'"
    "ns_table_commit env (header_ns_table h) = ns_table_commit env (header_ns_table h')"
  shows "header_ns_table h = header_ns_table h'"
  using binding_onD [OF assms(1) assms(2) [unfolded ns_table_commit_def]]
  by (simp add: commit_inputs_def)

lemma fee_info_commit_inj:
  assumes "binding_on env h h'" "fee_info_commit env a = fee_info_commit env b"
    "a \<in> set (header_fee_info h)" "b \<in> set (header_fee_info h')"
  shows "a = b"
  using binding_onD [OF assms(1) assms(2) [unfolded fee_info_commit_def]] assms(3,4)
  by (simp add: commit_inputs_def fee_info_fields_inj)

lemmas component_inj = l1_commit_inj ns_table_commit_inj fee_info_commit_inj

lemma root_bytes_inj: "binding_on env h h' \<Longrightarrow> root_bytes env a = root_bytes env b \<longleftrightarrow> a = b"
  by (auto simp: binding_on_def dest: injD)

lemma versioned_header_inj:
  assumes "binding_on env h h'" "header_commit env h = header_commit env h'"
  shows "header_version h = header_version h'
     \<and> (case (h, h') of
          (V1 f, V1 f') \<Rightarrow> header_fields_v1 env f = header_fields_v1 env f'
        | (V2 f, V2 f') \<Rightarrow> header_fields_v1 env f = header_fields_v1 env f'
        | (V3 f, V3 f') \<Rightarrow> header_fields_v3 env f = header_fields_v3 env f'
        | _ \<Rightarrow> False)"
proof -
  note inj = binding_onD [OF assms(1)]
  show ?thesis
    using assms(2)
    by (cases h; cases h')
      (auto simp: header_commit_def header_version_def commit_inputs_def versioned_fields_def
        header_fields_v1_def header_fields_v3_def dest!: inj)
qed


lemma chain_config_commitment_binds:
  assumes "inj_on (finalize env) {(''CHAIN_CONFIG'', config_fields c), (''CHAIN_CONFIG'', config_fields c')}"
  shows "config_commit env c = config_commit env c' \<longleftrightarrow> c = c'"
  using assms by (auto simp: config_commit_def config_fields_inj dest: inj_onD)

definition count_env :: CommitEnv where
  "count_env =
     \<lparr>finalize = \<lambda>(tag, fs). of_nat (length fs),
      root_bytes = \<lambda>r. to_fixed_bytes (mc_digest r) @ to_fixed_bytes (mc_size r) @ replicate (mc_height r) 0\<rparr>"

definition sample_header :: "u8 list option \<Rightarrow> Header" where
  "sample_header sig =
     V1 \<lparr>h1_chain_config = Unresolved 5, h1_height = 1, h1_timestamp = 2, h1_l1_head = 3,
         h1_l1_finalized = Some \<lparr>l1b_number = 3, l1b_timestamp = 2, l1b_hash = 9\<rparr>,
         h1_payload_commitment = 7, h1_builder_commitment = 8, h1_ns_table = [0, 0, 0, 0],
         h1_block_merkle_tree_root = \<lparr>mc_digest = 1, mc_height = 32, mc_size = 1\<rparr>,
         h1_fee_merkle_tree_root = \<lparr>mc_digest = 2, mc_height = 20, mc_size = 0\<rparr>,
         h1_fee_info = \<lparr>fi_account = 4, fi_amount = 6\<rparr>, h1_builder_signature = sig\<rparr>"

lemma length_to_fixed_bytes [simp]: "length (to_fixed_bytes (w :: 'a::len word)) = LENGTH('a) div 8"
  by (simp add: to_fixed_bytes_def)

lemma count_env_root_bytes: "inj (root_bytes count_env)"
proof (rule injI)
  fix r s :: MerkleCommitment
  assume eq: "root_bytes count_env r = root_bytes count_env s"
  then have "length (root_bytes count_env r) = length (root_bytes count_env s)" by simp
  then have "mc_height r = mc_height s" by (simp add: count_env_def)
  with eq show "r = s"
    by (cases r; cases s) (simp add: count_env_def)
qed


end
