(* ===== verification/Ledger.thy ===== *)
theory Ledger
  imports App_Header Epoch_Committees
begin

text \<open>
  The ledgers of a sequencer state: \<open>types/src/v0/impls/state.rs\<close> (\<open>ValidatedState\<close> and its fee and
  reward operations), \<open>fee_info.rs\<close> and \<open>reward.rs\<close>. The Merkle trees are an external library and
  enter as a record of operations; \<open>tree_laws\<close> states what its documentation promises of a lookup
  after an update. An error of the library (a leaf that is not in memory) is \<open>None\<close> of the operation.
  The closures that the source passes to \<open>update_with\<close> and that record an error on the side are split
  into the new balance and the error, both computed from the balance that the library hands them.
\<close>

section \<open>Merkle trees\<close>

datatype ('v, 'p) LookupResult = LookupOk 'v 'p | NotFound 'p | NotInMemory

record ('t, 'p) UniversalTree =
  ut_lookup :: "'t \<Rightarrow> address \<Rightarrow> (u256, 'p) LookupResult"
  ut_update_with :: "'t \<Rightarrow> address \<Rightarrow> (u256 option \<Rightarrow> u256 option) \<Rightarrow> 't option"
  ut_commitment :: "'t \<Rightarrow> MerkleCommitment"
  ut_new :: "'t"
  ut_from_commitment :: "MerkleCommitment \<Rightarrow> 't"
  ut_elem :: "'p \<Rightarrow> u256 option"
  ut_verify :: "commitment \<Rightarrow> address \<Rightarrow> 'p \<Rightarrow> bool option"
  ut_non_membership_verify :: "'t \<Rightarrow> address \<Rightarrow> 'p \<Rightarrow> bool option"
  ut_remember :: "'t \<Rightarrow> address \<Rightarrow> u256 \<Rightarrow> 'p \<Rightarrow> 't option"
  ut_non_membership_remember :: "'t \<Rightarrow> address \<Rightarrow> 'p \<Rightarrow> 't option"

record 'b AppendTree =
  at_push :: "'b \<Rightarrow> commitment \<Rightarrow> 'b option"
  at_num_leaves :: "'b \<Rightarrow> u64"
  at_lookup :: "'b \<Rightarrow> u64 \<Rightarrow> (commitment, unit) LookupResult"
  at_commitment :: "'b \<Rightarrow> MerkleCommitment"
  at_new :: "'b"
  at_from_commitment :: "MerkleCommitment \<Rightarrow> 'b"

definition stored :: "('t, 'p) UniversalTree \<Rightarrow> 't \<Rightarrow> address \<Rightarrow> u256 option" where
  "stored T t a = (case ut_lookup T t a of LookupOk v p \<Rightarrow> Some v | NotFound p \<Rightarrow> None | NotInMemory \<Rightarrow> None)"

definition in_memory :: "('t, 'p) UniversalTree \<Rightarrow> 't \<Rightarrow> address \<Rightarrow> bool" where
  "in_memory T t a = (case ut_lookup T t a of NotInMemory \<Rightarrow> False | LookupOk v p \<Rightarrow> True | NotFound p \<Rightarrow> True)"

definition unwrap_or_default :: "u256 option \<Rightarrow> u256" where
  "unwrap_or_default b = (case b of Some v \<Rightarrow> v | None \<Rightarrow> 0)"

lemma unwrap_or_default_simps [simp]:
  "unwrap_or_default None = 0" "unwrap_or_default (Some v) = v"
  by (simp_all add: unwrap_or_default_def)

section \<open>Fees\<close>

datatype FeeError = InsufficientFunds "u256 option" u256 | FeeMerkleTreeError

definition as_u64 :: "u256 \<Rightarrow> u64 option" where
  "as_u64 amount = (if amount \<le> ucast (- 1 :: u64) then Some (ucast amount) else None)"

definition try_sum :: "u64 list \<Rightarrow> u64 option" where
  "try_sum amounts = foldl (\<lambda>acc n. Option.bind acc (\<lambda>a. checked_add a n)) (Some 0) amounts"

definition fees_amount :: "FeeInfo list \<Rightarrow> u256 option" where
  "fees_amount fees =
     map_option ucast (Option.bind (those (map (\<lambda>fee_info. as_u64 (fi_amount fee_info)) fees)) try_sum)"

text \<open>\<open>Itertools::unique\<close> keeps the first occurrence of every element.\<close>

definition unique :: "'a list \<Rightarrow> 'a list" where
  "unique xs = rev (remdups (rev xs))"

definition fees_accounts :: "FeeInfo list \<Rightarrow> address list" where
  "fees_accounts fees = unique (map fi_account fees)"

definition insert_fee_deposit :: "('t, 'p) UniversalTree \<Rightarrow> FeeInfo \<Rightarrow> 't \<Rightarrow> 't option" where
  "insert_fee_deposit T fee_info tree =
     ut_update_with T tree (fi_account fee_info)
       (\<lambda>balance. Some (unwrap_or_default balance + fi_amount fee_info))"

definition deducted :: "u256 \<Rightarrow> u256 option \<Rightarrow> u256 option" where
  "deducted amount balance =
     (case checked_sub (unwrap_or_default balance) amount of
        None \<Rightarrow> balance
      | Some updated \<Rightarrow> (if updated = 0 then None else Some updated))"

definition charge_fee ::
  "('t, 'p) UniversalTree \<Rightarrow> FeeInfo \<Rightarrow> address \<Rightarrow> 't \<Rightarrow> (FeeError, 't) result" where
  "charge_fee T fee_info recipient tree =
     (let amount = fi_amount fee_info; account = fi_account fee_info in
      if amount = 0 then Ok tree
      else case ut_update_with T tree account (deducted amount) of
        None \<Rightarrow> Err FeeMerkleTreeError
      | Some fee_state \<Rightarrow>
         (let balance = stored T tree account in
          if checked_sub (unwrap_or_default balance) amount = None
          then Err (InsufficientFunds balance amount)
          else case ut_update_with T fee_state recipient
                      (\<lambda>balance. Some (unwrap_or_default balance + amount)) of
            None \<Rightarrow> Err FeeMerkleTreeError
          | Some fee_state \<Rightarrow> Ok fee_state))"

section \<open>Account proofs\<close>

datatype 'p MerkleProof = Presence 'p | Absence 'p

record 'p AccountProof =
  ap_account :: address
  ap_proof :: "'p MerkleProof"

datatype ProofError = InvalidProof | MissingBalance | ProofTreeError | MissingAccount address

definition prove :: "('t, 'p) UniversalTree \<Rightarrow> 't \<Rightarrow> address \<Rightarrow> ('p AccountProof \<times> u256) option" where
  "prove T tree account =
     (case ut_lookup T tree account of
        LookupOk balance proof \<Rightarrow> Some (\<lparr>ap_account = account, ap_proof = Presence proof\<rparr>, balance)
      | NotFound proof \<Rightarrow> Some (\<lparr>ap_account = account, ap_proof = Absence proof\<rparr>, 0)
      | NotInMemory \<Rightarrow> None)"

definition verify_account ::
  "('t, 'p) UniversalTree \<Rightarrow> 'p AccountProof \<Rightarrow> MerkleCommitment \<Rightarrow> (ProofError, u256) result" where
  "verify_account T self comm =
     (case ap_proof self of
        Presence proof \<Rightarrow>
          (case ut_verify T (mc_digest comm) (ap_account self) proof of
             None \<Rightarrow> Err ProofTreeError
           | Some valid \<Rightarrow>
              (if \<not> valid then Err InvalidProof
               else case ut_elem T proof of None \<Rightarrow> Err MissingBalance | Some balance \<Rightarrow> Ok balance))
      | Absence proof \<Rightarrow>
          (case ut_non_membership_verify T (ut_from_commitment T comm) (ap_account self) proof of
             None \<Rightarrow> Err ProofTreeError
           | Some valid \<Rightarrow> (if \<not> valid then Err InvalidProof else Ok 0)))"

definition remember_account ::
  "('t, 'p) UniversalTree \<Rightarrow> 'p AccountProof \<Rightarrow> 't \<Rightarrow> (ProofError, 't) result" where
  "remember_account T self tree =
     (case ap_proof self of
        Presence proof \<Rightarrow>
          (case ut_elem T proof of
             None \<Rightarrow> Err MissingBalance
           | Some balance \<Rightarrow>
              (case ut_remember T tree (ap_account self) balance proof of
                 None \<Rightarrow> Err ProofTreeError | Some t \<Rightarrow> Ok t))
      | Absence proof \<Rightarrow>
          (case ut_non_membership_remember T tree (ap_account self) proof of
             None \<Rightarrow> Err ProofTreeError | Some t \<Rightarrow> Ok t))"

text \<open>The outer \<open>None\<close> is a panic of an \<open>unwrap\<close>.\<close>

fun retain_loop ::
  "('t, 'p) UniversalTree \<Rightarrow> 't \<Rightarrow> 't \<Rightarrow> address list \<Rightarrow> (ProofError, 't) result option" where
  "retain_loop T state snapshot [] = Some (Ok snapshot)"
| "retain_loop T state snapshot (account # accounts) =
     (case ut_lookup T state account of
        LookupOk elem proof \<Rightarrow>
          (case ut_remember T snapshot account elem proof of
             None \<Rightarrow> None | Some snapshot \<Rightarrow> retain_loop T state snapshot accounts)
      | NotFound proof \<Rightarrow>
          (case ut_non_membership_remember T snapshot account proof of
             None \<Rightarrow> None | Some snapshot \<Rightarrow> retain_loop T state snapshot accounts)
      | NotInMemory \<Rightarrow> Some (Err (MissingAccount account)))"

definition retain_accounts ::
  "('t, 'p) UniversalTree \<Rightarrow> 't \<Rightarrow> address list \<Rightarrow> (ProofError, 't) result option" where
  "retain_accounts T state accounts =
     retain_loop T state (ut_from_commitment T (ut_commitment T state)) accounts"

section \<open>Rewards\<close>

type_synonym u128 = "128 word"

definition TOTAL_SUPPLY :: u128 where
  "TOTAL_SUPPLY = 10000000000 * 10 ^ 18"

definition INFLATION_RATE :: u128 where
  "INFLATION_RATE = 300"

definition BLOCK_TIME_SECONDS :: u128 where
  "BLOCK_TIME_SECONDS = 2"

definition SECONDS_PER_YEAR :: u128 where
  "SECONDS_PER_YEAR = 60 * 60 * 24 * 365"

definition BLOCKS_PER_YEAR :: u128 where
  "BLOCKS_PER_YEAR = SECONDS_PER_YEAR div BLOCK_TIME_SECONDS"

definition COMMISSION_BASIS_POINTS :: u16 where
  "COMMISSION_BASIS_POINTS = 10000"

definition REWARD_PER_BLOCK :: u128 where
  "REWARD_PER_BLOCK =
     ((TOTAL_SUPPLY * INFLATION_RATE) div BLOCKS_PER_YEAR) div ucast COMMISSION_BASIS_POINTS"

definition block_reward :: u256 where
  "block_reward = ucast REWARD_PER_BLOCK"

datatype RewardError =
    CommissionTooHigh | RewardArithmetic | RewardMerkleTreeError | RewardBalanceOverflow

record ComputedRewards =
  leader_address :: address
  leader_commission :: u256
  delegator_rewards :: "(address \<times> u256) list"

definition all_rewards :: "ComputedRewards \<Rightarrow> (address \<times> u256) list" where
  "all_rewards self = delegator_rewards self @ [(leader_address self, leader_commission self)]"

definition delegator_reward :: "u256 \<Rightarrow> u256 \<Rightarrow> u256 \<Rightarrow> u256 option" where
  "delegator_reward delegators_reward tot delegator_stake =
     Option.bind (checked_mul delegator_stake delegators_reward) (\<lambda>a.
     Option.bind (checked_div a tot) (\<lambda>b.
       checked_div b (ucast COMMISSION_BASIS_POINTS)))"

fun delegators_loop ::
  "u256 \<Rightarrow> u256 \<Rightarrow> (address \<times> u256) list \<Rightarrow> (address \<times> u256) list \<Rightarrow> u256
     \<Rightarrow> ((address \<times> u256) list \<times> u256) option" where
  "delegators_loop delegators_reward tot [] rewards distributed = Some (rewards, distributed)"
| "delegators_loop delegators_reward tot ((delegator, delegator_stake) # ds) rewards distributed =
     (case delegator_reward delegators_reward tot delegator_stake of
        None \<Rightarrow> None
      | Some reward \<Rightarrow>
          delegators_loop delegators_reward tot ds (rewards @ [(delegator, reward)])
            (distributed + reward))"

definition compute_rewards :: "('k, 's) Validator \<Rightarrow> (RewardError, ComputedRewards) result" where
  "compute_rewards self =
     (if \<not> v_commission self \<le> COMMISSION_BASIS_POINTS then Err CommissionTooHigh
      else
        case Option.bind (checked_sub (ucast COMMISSION_BASIS_POINTS) (ucast (v_commission self)))
               (\<lambda>ratio. Option.bind (checked_mul ratio block_reward)
               (\<lambda>delegators_reward.
                  Option.bind (delegators_loop delegators_reward (v_stake self) (v_delegators self) [] 0)
               (\<lambda>(rewards, distributed).
                  map_option (\<lambda>commission. \<lparr>leader_address = v_account self,
                      leader_commission = commission, delegator_rewards = rewards\<rparr>)
                    (checked_sub block_reward distributed))))
        of None \<Rightarrow> Err RewardArithmetic | Some rewards \<Rightarrow> Ok rewards)"

definition credited :: "u256 \<Rightarrow> u256 option \<Rightarrow> u256 option" where
  "credited amount balance =
     (case checked_add (unwrap_or_default balance) amount of
        Some updated \<Rightarrow> Some updated | None \<Rightarrow> balance)"

definition update_balance ::
  "('t, 'p) UniversalTree \<Rightarrow> address \<Rightarrow> u256 \<Rightarrow> 't \<Rightarrow> (RewardError, 't) result" where
  "update_balance T account amount reward_state =
     (case ut_update_with T reward_state account (credited amount) of
        None \<Rightarrow> Err RewardMerkleTreeError
      | Some reward_state' \<Rightarrow>
         (if checked_add (unwrap_or_default (stored T reward_state account)) amount = None
          then Err RewardBalanceOverflow else Ok reward_state'))"

fun update_balances ::
  "('t, 'p) UniversalTree \<Rightarrow> (address \<times> u256) list \<Rightarrow> 't \<Rightarrow> (RewardError, 't) result" where
  "update_balances T [] reward_state = Ok reward_state"
| "update_balances T ((account, reward) # rs) reward_state =
     try_bind (update_balance T account reward reward_state) (update_balances T rs)"

definition apply_rewards ::
  "('t, 'p) UniversalTree \<Rightarrow> ('k, 's) Validator \<Rightarrow> 't \<Rightarrow> (RewardError, 't) result" where
  "apply_rewards T self reward_state =
     try_bind (compute_rewards self) (\<lambda>computed_rewards.
       update_balances T (all_rewards computed_rewards) reward_state)"

section \<open>The validated state\<close>

record ('t, 'b) ValidatedState =
  block_merkle_tree :: 'b
  fee_merkle_tree :: 't
  reward_merkle_tree :: 't
  state_chain_config :: "ChainConfig ResolvableChainConfig"

record Delta =
  fees_delta :: "address set"
  rewards_delta :: "address set"

definition delta_default :: Delta where
  "delta_default = \<lparr>fees_delta = {}, rewards_delta = {}\<rparr>"

definition state_default ::
  "('t, 'p) UniversalTree \<Rightarrow> ('t, 'p) UniversalTree \<Rightarrow> 'b AppendTree \<Rightarrow> ('t, 'b) ValidatedState" where
  "state_default F R B =
     \<lparr>block_merkle_tree = at_new B, fee_merkle_tree = ut_new F, reward_merkle_tree = ut_new R,
      state_chain_config = Resolved config_default\<rparr>"

text \<open>An \<open>unwrap\<close> of a failed update is the panic \<open>None\<close>.\<close>

definition prefund_account ::
  "('t, 'p) UniversalTree \<Rightarrow> address \<Rightarrow> u256 \<Rightarrow> ('t, 'b) ValidatedState \<Rightarrow> ('t, 'b) ValidatedState option" where
  "prefund_account F account amount self =
     map_option (\<lambda>t. self\<lparr>fee_merkle_tree := t\<rparr>)
       (ut_update_with F (fee_merkle_tree self) account (\<lambda>_. Some amount))"

definition balance :: "('t, 'p) UniversalTree \<Rightarrow> ('t, 'b) ValidatedState \<Rightarrow> address \<Rightarrow> u256 option" where
  "balance F self account =
     (case ut_lookup F (fee_merkle_tree self) account of
        LookupOk b p \<Rightarrow> Some b | NotFound p \<Rightarrow> Some 0 | NotInMemory \<Rightarrow> None)"

definition forgotten ::
  "('t, 'p) UniversalTree \<Rightarrow> 't \<Rightarrow> address list \<Rightarrow> address list" where
  "forgotten T tree accounts = filter (\<lambda>account. \<not> in_memory T tree account) (unique accounts)"

definition forgotten_accounts ::
  "('t, 'p) UniversalTree \<Rightarrow> ('t, 'b) ValidatedState \<Rightarrow> address list \<Rightarrow> address list" where
  "forgotten_accounts F self accounts = forgotten F (fee_merkle_tree self) accounts"

definition forgotten_reward_accounts ::
  "('t, 'p) UniversalTree \<Rightarrow> ('t, 'b) ValidatedState \<Rightarrow> address list \<Rightarrow> address list" where
  "forgotten_reward_accounts R self accounts = forgotten R (reward_merkle_tree self) accounts"

definition need_to_fetch_blocks_mt_frontier :: "'b AppendTree \<Rightarrow> ('t, 'b) ValidatedState \<Rightarrow> bool" where
  "need_to_fetch_blocks_mt_frontier B self =
     (let num_leaves = at_num_leaves B (block_merkle_tree self) in
      if num_leaves = 0 then False
      else case at_lookup B (block_merkle_tree self) (num_leaves - 1) of
             LookupOk v p \<Rightarrow> False | NotFound p \<Rightarrow> True | NotInMemory \<Rightarrow> True)"

text \<open>\<open>apply_proposal\<close> panics (\<open>None\<close>) when the push or the update of a deposit fails.\<close>

fun apply_deposits ::
  "('t, 'p) UniversalTree \<Rightarrow> FeeInfo list \<Rightarrow> ('t, 'b) ValidatedState \<times> Delta
     \<Rightarrow> (('t, 'b) ValidatedState \<times> Delta) option" where
  "apply_deposits F [] (self, delta) = Some (self, delta)"
| "apply_deposits F (fi # l1_deposits) (self, delta) =
     (case ut_update_with F (fee_merkle_tree self) (fi_account fi)
             (\<lambda>balance. Some (unwrap_or_default balance + fi_amount fi)) of
        None \<Rightarrow> None
      | Some t \<Rightarrow>
          apply_deposits F l1_deposits
            (self\<lparr>fee_merkle_tree := t\<rparr>,
             delta\<lparr>fees_delta := insert (fi_account fi) (fees_delta delta)\<rparr>))"

definition apply_proposal ::
  "('t, 'p) UniversalTree \<Rightarrow> 'b AppendTree \<Rightarrow> commitment \<Rightarrow> FeeInfo list
     \<Rightarrow> ('t, 'b) ValidatedState \<times> Delta \<Rightarrow> (('t, 'b) ValidatedState \<times> Delta) option" where
  "apply_proposal F B parent_header_commit l1_deposits sd =
     (case at_push B (block_merkle_tree (fst sd)) parent_header_commit of
        None \<Rightarrow> None
      | Some b \<Rightarrow> apply_deposits F l1_deposits ((fst sd)\<lparr>block_merkle_tree := b\<rparr>, snd sd))"

fun charge_fees ::
  "('t, 'p) UniversalTree \<Rightarrow> FeeInfo list \<Rightarrow> address \<Rightarrow> ('t, 'b) ValidatedState \<times> Delta
     \<Rightarrow> (FeeError, ('t, 'b) ValidatedState \<times> Delta) result" where
  "charge_fees F [] recipient (self, delta) = Ok (self, delta)"
| "charge_fees F (fee_info # fees) recipient (self, delta) =
     try_bind (charge_fee F fee_info recipient (fee_merkle_tree self)) (\<lambda>t.
       charge_fees F fees recipient
         (self\<lparr>fee_merkle_tree := t\<rparr>,
          delta\<lparr>fees_delta := fees_delta delta \<union> {fi_account fee_info, recipient}\<rparr>))"

definition distribute_rewards ::
  "('t, 'p) UniversalTree \<Rightarrow> ('k, 's) Validator \<Rightarrow> ('t, 'b) ValidatedState \<times> Delta
     \<Rightarrow> (RewardError, ('t, 'b) ValidatedState \<times> Delta) result" where
  "distribute_rewards R validator sd =
     try_bind (apply_rewards R validator (reward_merkle_tree (fst sd))) (\<lambda>reward_state.
       Ok ((fst sd)\<lparr>reward_merkle_tree := reward_state\<rparr>,
           (snd sd)\<lparr>rewards_delta := insert (v_account validator) (rewards_delta (snd sd))
                      \<union> fst ` set (v_delegators validator)\<rparr>))"

definition from_header ::
  "('t, 'p) UniversalTree \<Rightarrow> ('t, 'p) UniversalTree \<Rightarrow> 'b AppendTree \<Rightarrow> Header \<Rightarrow> ('t, 'b) ValidatedState" where
  "from_header F R B block_header =
     (let fee_root = header_fee_merkle_tree_root block_header;
          block_root = header_block_merkle_tree_root block_header;
          reward_root = header_reward_merkle_tree_root (ut_commitment R (ut_new R)) block_header
      in \<lparr>block_merkle_tree =
            (if mc_size block_root = 0 then at_new B else at_from_commitment B block_root),
          fee_merkle_tree =
            (if mc_size fee_root = 0 then ut_new F else ut_from_commitment F fee_root),
          reward_merkle_tree =
            (if mc_size reward_root = 0 then ut_new R else ut_from_commitment R reward_root),
          state_chain_config = header_chain_config block_header\<rparr>)"

section \<open>Laws of the trees\<close>

text \<open>
  What the Merkle tree library promises: an update of a leaf in memory succeeds and replaces the value
  by the result of the closure, it fails on a leaf that was forgotten, and no other leaf changes.
\<close>

definition tree_laws :: "('t, 'p) UniversalTree \<Rightarrow> bool" where
  "tree_laws T \<longleftrightarrow>
     (\<forall>t a f. case ut_update_with T t a f of
        None \<Rightarrow> \<not> in_memory T t a
      | Some t' \<Rightarrow> in_memory T t a \<and> in_memory T t' = in_memory T t
          \<and> stored T t' = (stored T t)(a := f (stored T t a)))"

lemma update_Some:
  assumes "tree_laws T" "ut_update_with T t a f = Some t'"
  shows "in_memory T t a" "in_memory T t' = in_memory T t"
    "stored T t' = (stored T t)(a := f (stored T t a))"
  using assms(1) [unfolded tree_laws_def, rule_format, of t a f] assms(2) by simp_all

lemma update_None_iff: "tree_laws T \<Longrightarrow> ut_update_with T t a f = None \<longleftrightarrow> \<not> in_memory T t a"
  unfolding tree_laws_def by (drule spec [of _ t], drule spec [of _ a], drule spec [of _ f])
    (auto split: option.splits)

definition balances :: "('t, 'p) UniversalTree \<Rightarrow> 't \<Rightarrow> address \<Rightarrow> nat" where
  "balances T t a = unat (unwrap_or_default (stored T t a))"

definition ledger_total :: "('t, 'p) UniversalTree \<Rightarrow> 't \<Rightarrow> nat" where
  "ledger_total T t = sum (balances T t) UNIV"

lemma balance_le_total: "balances T t a \<le> ledger_total T t"
  unfolding ledger_total_def by (rule member_le_sum) auto

lemma two_balances_le_total: "a \<noteq> b \<Longrightarrow> balances T t a + balances T t b \<le> ledger_total T t"
  using sum_mono2 [of UNIV "{a, b}" "balances T t"] unfolding ledger_total_def by simp

section \<open>Sequences of ledger operations\<close>

fun run_ops :: "('s \<Rightarrow> 'op \<Rightarrow> 's option) \<Rightarrow> 's \<Rightarrow> 'op list \<Rightarrow> 's option" where
  "run_ops step s [] = Some s"
| "run_ops step s (op # ops) = (case step s op of None \<Rightarrow> None | Some s' \<Rightarrow> run_ops step s' ops)"

text \<open>
  The contract that deposits, fees and rewards share: an operation changes every balance by its
  \<open>effect\<close>, it mints the amount \<open>mint\<close>, and it is exact while the total stays below \<open>2 ^ 256\<close>.
\<close>

locale ledger_operation =
  fixes step :: "'s \<Rightarrow> 'op \<Rightarrow> 's option"
    and bal :: "'s \<Rightarrow> address \<Rightarrow> nat"
    and ok :: "'s \<Rightarrow> bool"
    and effect :: "'op \<Rightarrow> address \<Rightarrow> int"
    and mint :: "'op \<Rightarrow> nat"
  assumes step_ok: "ok s \<Longrightarrow> step s op = Some s' \<Longrightarrow> ok s'"
    and step_effect: "ok s \<Longrightarrow> sum (bal s) UNIV + mint op < 2 ^ 256 \<Longrightarrow> step s op = Some s'
      \<Longrightarrow> int (bal s' a) = int (bal s a) + effect op a"
    and effect_sum: "sum (effect op) UNIV = int (mint op)"
begin

lemma step_total:
  assumes "ok s" "sum (bal s) UNIV + mint op < 2 ^ 256" "step s op = Some s'"
  shows "sum (bal s') UNIV = sum (bal s) UNIV + mint op"
proof -
  have "int (sum (bal s') UNIV) = (\<Sum>a\<in>UNIV. int (bal s a) + effect op a)"
    using step_effect [OF assms] by simp
  then have "int (sum (bal s') UNIV) = int (sum (bal s) UNIV + mint op)"
    by (simp add: sum.distrib effect_sum)
  then show ?thesis by (simp only: of_nat_eq_iff)
qed

lemma run_effect:
  assumes "ok s" "sum (bal s) UNIV + sum_list (map mint ops) < 2 ^ 256"
    and "run_ops step s ops = Some s'"
  shows "ok s'" "sum (bal s') UNIV = sum (bal s) UNIV + sum_list (map mint ops)"
    "int (bal s' a) = int (bal s a) + (\<Sum>op\<leftarrow>ops. effect op a)"
  using assms
proof (induction ops arbitrary: s)
  case (Cons op ops)
  {
    case 1
    then obtain s1 where s1: "step s op = Some s1" "run_ops step s1 ops = Some s'"
      by (auto split: option.splits)
    from 1 s1 have t: "sum (bal s1) UNIV = sum (bal s) UNIV + mint op" "ok s1"
      using step_total [of s op s1] step_ok [of s op s1] by auto
    with 1 s1 show ?case using Cons.IH(1) [of s1] by simp
  next
    case 2
    then obtain s1 where s1: "step s op = Some s1" "run_ops step s1 ops = Some s'"
      by (auto split: option.splits)
    from 2 s1 have t: "sum (bal s1) UNIV = sum (bal s) UNIV + mint op" "ok s1"
      using step_total [of s op s1] step_ok [of s op s1] by auto
    with 2 s1 show ?case using Cons.IH(2) [of s1] by simp
  next
    case 3
    then obtain s1 where s1: "step s op = Some s1" "run_ops step s1 ops = Some s'"
      by (auto split: option.splits)
    from 3 s1 have t: "sum (bal s1) UNIV = sum (bal s) UNIV + mint op" "ok s1"
      using step_total [of s op s1] step_ok [of s op s1] by auto
    with 3 s1 show ?case
      using Cons.IH(3) [of s1] step_effect [of s op s1 a] by simp
  }
qed simp_all

end

section \<open>Deposits, fees and rewards as ledger operations\<close>

type_synonym ('t, 'p) ledger = "('t, 'p) UniversalTree \<times> 't"

abbreviation ledger_bal :: "('t, 'p) ledger \<Rightarrow> address \<Rightarrow> nat" where
  "ledger_bal s \<equiv> balances (fst s) (snd s)"

abbreviation ledger_ok :: "('t, 'p) ledger \<Rightarrow> bool" where
  "ledger_ok s \<equiv> tree_laws (fst s)"

definition deposit_step :: "('t, 'p) ledger \<Rightarrow> FeeInfo \<Rightarrow> ('t, 'p) ledger option" where
  "deposit_step s fi = map_option (Pair (fst s)) (insert_fee_deposit (fst s) fi (snd s))"

definition charge_step :: "address \<Rightarrow> ('t, 'p) ledger \<Rightarrow> FeeInfo \<Rightarrow> ('t, 'p) ledger option" where
  "charge_step recipient s fi =
     (case charge_fee (fst s) fi recipient (snd s) of Inl e \<Rightarrow> None | Inr t \<Rightarrow> Some (fst s, t))"

definition reward_step :: "('t, 'p) ledger \<Rightarrow> address \<times> u256 \<Rightarrow> ('t, 'p) ledger option" where
  "reward_step s ar =
     (case update_balance (fst s) (fst ar) (snd ar) (snd s) of Inl e \<Rightarrow> None | Inr t \<Rightarrow> Some (fst s, t))"

definition credit_effect :: "address \<Rightarrow> u256 \<Rightarrow> address \<Rightarrow> int" where
  "credit_effect account amount a = (if a = account then int (unat amount) else 0)"

definition charge_effect :: "address \<Rightarrow> FeeInfo \<Rightarrow> address \<Rightarrow> int" where
  "charge_effect recipient fi a =
     credit_effect recipient (fi_amount fi) a - credit_effect (fi_account fi) (fi_amount fi) a"

lemma credit_effect_sum: "sum (credit_effect account amount) UNIV = int (unat amount)"
  by (simp add: credit_effect_def [abs_def])

lemma credit_effectI:
  "balances T t' a = balances T t a + (if a = account then unat amount else 0)
     \<Longrightarrow> int (balances T t' a) = int (balances T t a) + credit_effect account amount a"
  by (simp add: credit_effect_def)

lemma deposit_step_Some:
  assumes "tree_laws T" "insert_fee_deposit T fi t = Some t'"
    and "balances T t (fi_account fi) + unat (fi_amount fi) < 2 ^ 256"
  shows "int (balances T t' a) = int (balances T t a) + credit_effect (fi_account fi) (fi_amount fi) a"
  using update_Some(3) [OF assms(1) assms(2) [unfolded insert_fee_deposit_def]] assms(3)
  by (intro credit_effectI) (auto simp: balances_def unat_add_no_overflow)

lemma charge_fee_Ok:
  assumes "tree_laws T" "charge_fee T fi recipient t = Ok t'" "fi_amount fi \<noteq> 0"
  obtains t1 where "ut_update_with T t (fi_account fi) (deducted (fi_amount fi)) = Some t1"
    "ut_update_with T t1 recipient (\<lambda>b. Some (unwrap_or_default b + fi_amount fi)) = Some t'"
    "unat (fi_amount fi) \<le> balances T t (fi_account fi)"
  using assms
  by (auto simp: charge_fee_def Let_def checked_sub_def balances_def word_le_nat_alt
      split: option.splits if_splits)

lemma charge_fee_effect:
  assumes "tree_laws T" "ledger_total T t < 2 ^ 256" "charge_fee T fi recipient t = Ok t'"
  shows "int (balances T t' a) = int (balances T t a) + charge_effect recipient fi a"
proof (cases "fi_amount fi = 0")
  case True
  with assms show ?thesis by (simp add: charge_fee_def charge_effect_def credit_effect_def)
next
  case False
  let ?acc = "fi_account fi" and ?amt = "fi_amount fi"
  obtain t1 where t1: "ut_update_with T t ?acc (deducted ?amt) = Some t1"
    "ut_update_with T t1 recipient (\<lambda>b. Some (unwrap_or_default b + ?amt)) = Some t'"
    "unat ?amt \<le> balances T t ?acc"
    using charge_fee_Ok [OF assms(1,3) False] .
  note s1 = update_Some(3) [OF assms(1) t1(1)] and s2 = update_Some(3) [OF assms(1) t1(2)]
  have le: "?amt \<le> unwrap_or_default (stored T t ?acc)"
    using t1(3) by (simp add: balances_def word_le_nat_alt)
  have b1: "balances T t1 b = (if b = ?acc then balances T t b - unat ?amt else balances T t b)" for b
    using le by (simp add: balances_def s1 deducted_def checked_sub_def unat_sub)
  have "balances T t1 recipient + unat ?amt < 2 ^ 256"
    using b1 t1(3) two_balances_le_total [of recipient ?acc T t] balance_le_total [of T t ?acc] assms(2)
    by (cases "recipient = ?acc") auto
  then have b2: "balances T t' b = (if b = recipient then balances T t1 b + unat ?amt else balances T t1 b)" for b
    by (simp add: balances_def s2 unat_add_no_overflow)
  show ?thesis
    using t1(3) by (auto simp: b2 b1 charge_effect_def credit_effect_def)
qed

lemma update_balance_effect:
  assumes "tree_laws T" "update_balance T account amount t = Ok t'"
  shows "int (balances T t' a) = int (balances T t a) + credit_effect account amount a"
proof -
  obtain v where v: "checked_add (unwrap_or_default (stored T t account)) amount = Some v"
    and u: "ut_update_with T t account (credited amount) = Some t'"
    using assms(2) by (auto simp: update_balance_def split: option.splits if_splits)
  then have "unat v = balances T t account + unat amount"
    by (simp add: balances_def checked_add_Some_iff)
  then show ?thesis
    by (intro credit_effectI) (auto simp: balances_def update_Some(3) [OF assms(1) u] credited_def v)
qed

interpretation deposits: ledger_operation deposit_step ledger_bal ledger_ok
    "\<lambda>fi. credit_effect (fi_account fi) (fi_amount fi)" "\<lambda>fi. unat (fi_amount fi)"
proof
  fix s s' :: "('t, 'p) ledger" and fi a
  assume ok: "ledger_ok s" and step: "deposit_step s fi = Some s'"
  then show "ledger_ok s'" by (auto simp: deposit_step_def)
  assume "sum (ledger_bal s) UNIV + unat (fi_amount fi) < 2 ^ 256"
  then show "int (ledger_bal s' a) = int (ledger_bal s a) + credit_effect (fi_account fi) (fi_amount fi) a"
    using ok step deposit_step_Some [of "fst s" fi "snd s"] balance_le_total [of "fst s" "snd s" "fi_account fi"]
    by (auto simp: deposit_step_def ledger_total_def)
qed (rule credit_effect_sum)

interpretation charges: ledger_operation "charge_step recipient" ledger_bal ledger_ok
    "charge_effect recipient" "\<lambda>fi. 0" for recipient
proof
  fix s s' :: "('t, 'p) ledger" and fi a
  assume ok: "ledger_ok s" and step: "charge_step recipient s fi = Some s'"
  then show "ledger_ok s'" by (auto simp: charge_step_def split: sum.splits)
  assume "sum (ledger_bal s) UNIV + 0 < 2 ^ 256"
  then show "int (ledger_bal s' a) = int (ledger_bal s a) + charge_effect recipient fi a"
    using ok step charge_fee_effect [of "fst s" "snd s" fi recipient]
    by (auto simp: charge_step_def ledger_total_def split: sum.splits)
next
  show "sum (charge_effect recipient fi) UNIV = int 0" for fi
    by (simp add: charge_effect_def [abs_def] sum_subtractf credit_effect_sum)
qed

interpretation rewards: ledger_operation reward_step ledger_bal ledger_ok
    "\<lambda>ar. credit_effect (fst ar) (snd ar)" "\<lambda>ar. unat (snd ar)"
proof
  fix s s' :: "('t, 'p) ledger" and ar a
  assume ok: "ledger_ok s" and step: "reward_step s ar = Some s'"
  then show "ledger_ok s'" by (auto simp: reward_step_def split: sum.splits)
  show "int (ledger_bal s' a) = int (ledger_bal s a) + credit_effect (fst ar) (snd ar) a"
    using ok step update_balance_effect [of "fst s" "fst ar" "snd ar" "snd s"]
    by (auto simp: reward_step_def split: sum.splits)
qed (rule credit_effect_sum)

section \<open>The reward of a block\<close>

lemma unat_block_reward: "unat block_reward = 19025875190258751902"
proof -
  have r: "REWARD_PER_BLOCK = 19025875190258751902"
    unfolding REWARD_PER_BLOCK_def TOTAL_SUPPLY_def INFLATION_RATE_def BLOCKS_PER_YEAR_def
      SECONDS_PER_YEAR_def BLOCK_TIME_SECONDS_def COMMISSION_BASIS_POINTS_def by simp
  show ?thesis unfolding block_reward_def r by simp
qed

text \<open>
  The share of a delegator: its part of the stake in the reward left after the commission, rounded
  down after the division by the stake and again after the division by the basis points.
\<close>

definition reward_share :: "nat \<Rightarrow> nat \<Rightarrow> nat \<Rightarrow> nat" where
  "reward_share commission stake s = s * ((10000 - commission) * unat block_reward) div stake div 10000"

definition reward_base :: "('k, 's) Validator \<Rightarrow> u256" where
  "reward_base v = (ucast COMMISSION_BASIS_POINTS - ucast (v_commission v)) * block_reward"

definition rewardable :: "('k, 's) Validator \<Rightarrow> bool" where
  "rewardable v \<longleftrightarrow> v_commission v \<le> COMMISSION_BASIS_POINTS \<and> 0 < v_stake v
     \<and> unat (v_stake v) < 2 ^ 178 \<and> (\<Sum>(d, s)\<leftarrow>v_delegators v. unat s) \<le> unat (v_stake v)"

lemma sum_list_div_le: "(\<Sum>x\<leftarrow>xs. f x div n) \<le> (\<Sum>x\<leftarrow>xs. f x) div (n :: nat)"
proof (induction xs)
  case (Cons x xs)
  have "f x div n + sum_list (map f xs) div n \<le> (f x + sum_list (map f xs)) div n"
    by (subst div_add1_eq) simp
  with Cons show ?case by simp
qed simp

lemma commission_unat:
  assumes "v_commission v \<le> COMMISSION_BASIS_POINTS"
  shows "unat (ucast (v_commission v) :: u256) = unat (v_commission v)"
    "unat (v_commission v) \<le> 10000"
    "unat (ucast COMMISSION_BASIS_POINTS - ucast (v_commission v) :: u256) = 10000 - unat (v_commission v)"
proof -
  show 1: "unat (ucast (v_commission v) :: u256) = unat (v_commission v)"
    by (simp add: unsigned_ucast_eq take_bit_nat_eq_self order.strict_trans [OF unsigned_less])
  show 2: "unat (v_commission v) \<le> 10000"
    using assms by (simp add: COMMISSION_BASIS_POINTS_def word_le_nat_alt)
  have "(ucast (v_commission v) :: u256) \<le> 10000"
    using 1 2 by (simp add: word_le_nat_alt)
  then show "unat (ucast COMMISSION_BASIS_POINTS - ucast (v_commission v) :: u256)
      = 10000 - unat (v_commission v)"
    using 1 by (simp add: COMMISSION_BASIS_POINTS_def unat_sub)
qed

lemma reward_base_unat:
  assumes "v_commission v \<le> COMMISSION_BASIS_POINTS"
  shows "unat (reward_base v) = (10000 - unat (v_commission v)) * unat block_reward"
    "unat (reward_base v) < 2 ^ 78"
proof -
  have le: "(10000 - unat (v_commission v)) * unat block_reward \<le> 10000 * unat block_reward"
    by (intro mult_le_mono) simp_all
  then show 1: "unat (reward_base v) = (10000 - unat (v_commission v)) * unat block_reward"
    unfolding reward_base_def
    by (subst unat_mult_no_overflow) (simp_all add: commission_unat(3) [OF assms] unat_block_reward)
  show "unat (reward_base v) < 2 ^ 78"
    unfolding 1 by (rule le_less_trans [OF le]) (simp add: unat_block_reward)
qed

lemma delegator_reward_eq:
  assumes "unat s * unat D < 2 ^ 256" "tot \<noteq> 0"
  obtains r where "delegator_reward D tot s = Some r"
    "unat r = unat s * unat D div unat tot div 10000"
  using assms
  by (simp add: delegator_reward_def checked_mul_def checked_div_def COMMISSION_BASIS_POINTS_def
      unat_div unat_mult_no_overflow)

lemma delegators_loop_eq:
  assumes "tot \<noteq> 0" "\<forall>(d, s) \<in> set ds. unat s * unat D < 2 ^ 256"
    and "unat dist + (\<Sum>(d, s)\<leftarrow>ds. unat s * unat D div unat tot div 10000) < 2 ^ 256"
  shows "\<exists>rs dist'. delegators_loop D tot ds rewards dist = Some (rewards @ rs, dist')
    \<and> map fst rs = map fst ds
    \<and> map (unat \<circ> snd) rs = map (\<lambda>(d, s). unat s * unat D div unat tot div 10000) ds
    \<and> unat dist' = unat dist + (\<Sum>(d, s)\<leftarrow>ds. unat s * unat D div unat tot div 10000)"
  using assms(2,3)
proof (induction ds arbitrary: rewards dist)
  case Nil
  then show ?case by simp
next
  case (Cons ds' ds)
  obtain d s where p: "ds' = (d, s)" by fastforce
  obtain r where r: "delegator_reward D tot s = Some r"
    "unat r = unat s * unat D div unat tot div 10000"
    using delegator_reward_eq [of s D tot] assms(1) Cons.prems(1) p by auto
  have add: "unat (dist + r) = unat dist + unat r"
    using Cons.prems(2) r by (intro unat_add_no_overflow) (simp add: p)
  have "\<forall>(d, s) \<in> set ds. unat s * unat D < 2 ^ 256" using Cons.prems(1) by simp
  moreover have "unat (dist + r) + (\<Sum>(d, s)\<leftarrow>ds. unat s * unat D div unat tot div 10000) < 2 ^ 256"
    using Cons.prems(2) by (simp add: add r(2) p)
  ultimately obtain rs dist' where "delegators_loop D tot ds (rewards @ [(d, r)]) (dist + r) = Some ((rewards @ [(d, r)]) @ rs, dist')"
    "map fst rs = map fst ds"
    "map (unat \<circ> snd) rs = map (\<lambda>(d, s). unat s * unat D div unat tot div 10000) ds"
    "unat dist' = unat (dist + r) + (\<Sum>(d, s)\<leftarrow>ds. unat s * unat D div unat tot div 10000)"
    using Cons.IH by blast
  then show ?case
    unfolding comp_def by (intro exI [of _ "(d, r) # rs"] exI [of _ dist']) (simp add: p r add comp_def)
qed

lemma shares_sum_le:
  assumes "rewardable v"
  shows "(\<Sum>(d, s)\<leftarrow>v_delegators v. reward_share (unat (v_commission v)) (unat (v_stake v)) (unat s))
     \<le> (10000 - unat (v_commission v)) * unat block_reward div 10000"
proof -
  let ?S = "unat (v_stake v)" and ?D = "(10000 - unat (v_commission v)) * unat block_reward"
  have S: "0 < ?S" using assms by (simp add: rewardable_def word_greater_zero_iff unat_gt_0)
  have "(\<Sum>(d, s)\<leftarrow>v_delegators v. unat s * ?D div (?S * 10000))
      \<le> (\<Sum>(d, s)\<leftarrow>v_delegators v. unat s * ?D) div (?S * 10000)"
    unfolding case_prod_beta' by (rule sum_list_div_le)
  also have "(\<Sum>(d, s)\<leftarrow>v_delegators v. unat s * ?D) = (\<Sum>(d, s)\<leftarrow>v_delegators v. unat s) * ?D"
    unfolding case_prod_beta' by (rule sum_list_mult_const)
  also have "\<dots> div (?S * 10000) \<le> ?S * ?D div (?S * 10000)"
    using assms by (intro div_le_mono mult_le_mono1) (simp add: rewardable_def)
  also have "\<dots> = ?D div 10000" using S by simp
  finally show ?thesis by (simp add: reward_share_def div_mult2_eq)
qed

lemma stake_times_base:
  assumes "rewardable v" "(d, s) \<in> set (v_delegators v)"
  shows "unat s * unat (reward_base v) < 2 ^ 256"
proof -
  have "unat s \<in> set (map (\<lambda>(d, s). unat s) (v_delegators v))" using assms(2) by force
  then have "unat s \<le> (\<Sum>(d, s)\<leftarrow>v_delegators v. unat s)" by (simp only: member_le_sum_list)
  then have "unat s < 2 ^ 178" using assms(1) by (simp add: rewardable_def)
  moreover have "unat (reward_base v) < 2 ^ 78"
    using assms(1) by (intro reward_base_unat(2)) (simp add: rewardable_def)
  ultimately have "unat s * unat (reward_base v) < 2 ^ 178 * 2 ^ 78"
    by (intro mult_strict_mono) simp_all
  then show ?thesis by simp
qed

lemma compute_rewards_eq:
  assumes "rewardable v"
  obtains r where "compute_rewards v = Ok r" "leader_address r = v_account v"
    "map fst (delegator_rewards r) = map fst (v_delegators v)"
    "map (unat \<circ> snd) (delegator_rewards r)
       = map (\<lambda>(d, s). reward_share (unat (v_commission v)) (unat (v_stake v)) (unat s)) (v_delegators v)"
    "unat (leader_commission r) + sum_list (map (unat \<circ> snd) (delegator_rewards r)) = unat block_reward"
proof -
  have c: "v_commission v \<le> COMMISSION_BASIS_POINTS" and S: "v_stake v \<noteq> 0"
    using assms by (auto simp: rewardable_def)
  let ?D = "reward_base v" and ?ds = "v_delegators v"
  let ?share = "\<lambda>(d, s). unat s * unat ?D div unat (v_stake v) div 10000"
  have share: "?share = (\<lambda>(d :: address, s). reward_share (unat (v_commission v)) (unat (v_stake v)) (unat s))"
    by (simp add: reward_share_def reward_base_unat(1) [OF c] fun_eq_iff)
  have "10000 - unat (v_commission v) \<le> 10000" by simp
  then have "(10000 - unat (v_commission v)) * unat block_reward div 10000 \<le> 10000 * unat block_reward div 10000"
    by (intro div_le_mono mult_le_mono1)
  then have le: "sum_list (map ?share ?ds) \<le> unat block_reward"
    using shares_sum_le [OF assms] unfolding share by simp
  then have lt: "unat (0 :: u256) + sum_list (map ?share ?ds) < 2 ^ 256"
    by (simp add: unat_block_reward)
  have small: "\<forall>(d, s) \<in> set ?ds. unat s * unat ?D < 2 ^ 256"
    using stake_times_base [OF assms] by blast
  obtain rs dist where "delegators_loop ?D (v_stake v) ?ds [] 0 = Some ([] @ rs, dist)"
    "map fst rs = map fst ?ds" "map (unat \<circ> snd) rs = map ?share ?ds"
    "unat dist = unat (0 :: u256) + sum_list (map ?share ?ds)"
    using delegators_loop_eq [OF S small lt, of "[]"] by blast
  then have rs: "delegators_loop ?D (v_stake v) ?ds [] 0 = Some (rs, dist)"
    "map fst rs = map fst ?ds" "map (unat \<circ> snd) rs = map ?share ?ds"
    "unat dist = sum_list (map ?share ?ds)"
    by simp_all
  have sub: "checked_sub (ucast COMMISSION_BASIS_POINTS) (ucast (v_commission v) :: u256)
      = Some (ucast COMMISSION_BASIS_POINTS - ucast (v_commission v))"
    using commission_unat [OF c] by (simp add: checked_sub_def COMMISSION_BASIS_POINTS_def word_le_nat_alt)
  have mul: "checked_mul (ucast COMMISSION_BASIS_POINTS - ucast (v_commission v)) block_reward = Some ?D"
    using reward_base_unat [OF c] commission_unat(3) [OF c]
    by (simp add: checked_mul_def reward_base_def)
  have dist: "dist \<le> block_reward" using le rs(4) by (simp add: word_le_nat_alt)
  let ?r = "\<lparr>leader_address = v_account v, leader_commission = block_reward - dist, delegator_rewards = rs\<rparr>"
  show ?thesis
  proof (rule that)
    show "compute_rewards v = Ok ?r"
      using c dist by (simp add: compute_rewards_def mul rs(1) sub checked_sub_def [of block_reward])
    show "map (unat \<circ> snd) (delegator_rewards ?r)
       = map (\<lambda>(d, s). reward_share (unat (v_commission v)) (unat (v_stake v)) (unat s)) ?ds"
      using rs(3) by (simp add: share)
    show "unat (leader_commission ?r) + sum_list (map (unat \<circ> snd) (delegator_rewards ?r)) = unat block_reward"
      using dist rs(3,4) by (simp add: unat_sub word_le_nat_alt)
  qed (simp_all add: rs)
qed

section \<open>Crediting the rewards\<close>

lemma update_balances_run:
  "update_balances R rs t = Ok t' \<Longrightarrow> run_ops reward_step (R, t) rs = Some (R, t')"
  by (induction R rs t rule: update_balances.induct)
    (auto simp: reward_step_def try_bind_Inr_iff)

lemma update_balance_succeeds:
  assumes "tree_laws R" "in_memory R t a" "ledger_total R t + unat amount < 2 ^ 256"
  obtains t' where "update_balance R a amount t = Ok t'" "in_memory R t' = in_memory R t"
    "ledger_total R t' = ledger_total R t + unat amount"
proof -
  obtain t' where u: "ut_update_with R t a (credited amount) = Some t'"
    using update_None_iff [OF assms(1)] assms(2) by (metis not_None_eq)
  have "balances R t a + unat amount < 2 ^ 256"
    using balance_le_total [of R t a] assms(3) by linarith
  then have ok: "update_balance R a amount t = Ok t'"
    by (simp add: update_balance_def u checked_add_def balances_def)
  then have "sum (ledger_bal (R, t')) UNIV = sum (ledger_bal (R, t)) UNIV + unat (snd (a, amount))"
    using assms by (intro rewards.step_total) (simp_all add: reward_step_def ledger_total_def)
  then show ?thesis using that [OF ok] update_Some(2) [OF assms(1) u] by (simp add: ledger_total_def)
qed

lemma update_balances_succeeds:
  assumes "tree_laws R" "\<forall>(a, r) \<in> set rs. in_memory R t a"
    "ledger_total R t + (\<Sum>(a, r)\<leftarrow>rs. unat r) < 2 ^ 256"
  shows "\<exists>t'. update_balances R rs t = Ok t'"
  using assms(2,3)
proof (induction rs arbitrary: t)
  case (Cons x rs)
  obtain a r where x: "x = (a, r)" by fastforce
  obtain t1 where "update_balance R a r t = Ok t1" "in_memory R t1 = in_memory R t"
    "ledger_total R t1 = ledger_total R t + unat r"
    using update_balance_succeeds [OF assms(1), of t a r] Cons.prems by (auto simp: x)
  then show ?case using Cons.IH [of t1] Cons.prems by (simp add: x)
qed simp

definition validator_reward :: "('k, 's) Validator \<Rightarrow> address \<Rightarrow> nat" where
  "validator_reward v a =
     (\<Sum>(d, s)\<leftarrow>v_delegators v.
        if d = a then reward_share (unat (v_commission v)) (unat (v_stake v)) (unat s) else 0)
     + (if a = v_account v
        then unat block_reward - (\<Sum>(d, s)\<leftarrow>v_delegators v.
               reward_share (unat (v_commission v)) (unat (v_stake v)) (unat s))
        else 0)"

lemma reward_effects:
  assumes "map fst rs = map fst ds" "map (unat \<circ> snd) rs = map (\<lambda>(d, s). f s) ds"
  shows "(\<Sum>ar\<leftarrow>rs. credit_effect (fst ar) (snd ar) a) = int (\<Sum>(d, s)\<leftarrow>ds. if d = a then f s else 0)"
  using assms
proof (induction rs arbitrary: ds)
  case (Cons x rs)
  then obtain d s ds' where ds: "ds = (d, s) # ds'" by (cases ds) auto
  with Cons show ?case by (auto simp: credit_effect_def)
qed simp

lemma leader_gets_commission:
  assumes "rewardable v"
  shows "unat (v_commission v) * unat block_reward div 10000
     \<le> unat block_reward - (\<Sum>(d, s)\<leftarrow>v_delegators v.
           reward_share (unat (v_commission v)) (unat (v_stake v)) (unat s))"
proof -
  have "unat (v_commission v) \<le> 10000"
    using assms by (intro commission_unat(2)) (simp add: rewardable_def)
  then have "unat (v_commission v) * unat block_reward div 10000
      + (10000 - unat (v_commission v)) * unat block_reward div 10000 \<le> unat block_reward"
    using div_add1_eq [of "unat (v_commission v) * unat block_reward"
        "(10000 - unat (v_commission v)) * unat block_reward" 10000]
    by (simp add: distrib_right [symmetric])
  then show ?thesis
    using shares_sum_le [OF assms] by linarith
qed

text \<open>
  C25: The reward of a block is paid out exactly. For a validator whose commission is at most 100%, whose
  delegations do not exceed its stake and whose stake is below \<open>2 ^ 178\<close>, the computation never fails;
  when its accounts are in memory the credits succeed, every delegator receives its rounded share, the
  validator receives the rest, which is at least its commission, and the total of the reward ledger
  grows by exactly the block reward.
\<close>

theorem block_reward_paid_exactly:
  assumes "rewardable v" "tree_laws R" "ledger_total R t + unat block_reward < 2 ^ 256"
    and "\<forall>a \<in> insert (v_account v) (fst ` set (v_delegators v)). in_memory R t a"
  shows "\<exists>t'. apply_rewards R v t = Ok t'
     \<and> (\<forall>a. balances R t' a = balances R t a + validator_reward v a)
     \<and> ledger_total R t' = ledger_total R t + unat block_reward
     \<and> unat (v_commission v) * unat block_reward div 10000
         \<le> unat block_reward - (\<Sum>(d, s)\<leftarrow>v_delegators v.
               reward_share (unat (v_commission v)) (unat (v_stake v)) (unat s))"
proof -
  let ?share = "\<lambda>s :: u256. reward_share (unat (v_commission v)) (unat (v_stake v)) (unat s)"
  obtain r where r: "compute_rewards v = Ok r" "leader_address r = v_account v"
    "map fst (delegator_rewards r) = map fst (v_delegators v)"
    "map (unat \<circ> snd) (delegator_rewards r) = map (\<lambda>(d, s). ?share s) (v_delegators v)"
    "unat (leader_commission r) + sum_list (map (unat \<circ> snd) (delegator_rewards r)) = unat block_reward"
    using compute_rewards_eq [OF assms(1)] .
  have commission: "unat (leader_commission r) = unat block_reward - (\<Sum>(d, s)\<leftarrow>v_delegators v. ?share s)"
    using r(4,5) by simp
  have all: "(\<Sum>(a, w)\<leftarrow>all_rewards r. unat w) = unat block_reward"
    using r(5) by (simp add: all_rewards_def comp_def case_prod_beta')
  have "fst ` set (delegator_rewards r) = fst ` set (v_delegators v)"
    using r(3) by (metis list.set_map)
  then have "\<forall>(a, w) \<in> set (all_rewards r). in_memory R t a"
    using assms(4) r(2) by (force simp: all_rewards_def)
  then obtain t' where t': "update_balances R (all_rewards r) t = Ok t'"
    using update_balances_succeeds [OF assms(2)] assms(3) all by fastforce
  have sums: "sum_list (map (\<lambda>ar. unat (snd ar)) (all_rewards r)) = unat block_reward"
    using all by (simp add: case_prod_beta')
  note run = rewards.run_effect [of "(R, t)" "all_rewards r", OF _ _ update_balances_run [OF t']]
  have tot: "ledger_total R t' = ledger_total R t + unat block_reward"
    using run(2) assms(2,3) sums by (simp add: ledger_total_def)
  have "int (balances R t' a) = int (balances R t a + validator_reward v a)" for a
  proof -
    have "int (balances R t' a) = int (balances R t a)
        + (\<Sum>ar\<leftarrow>all_rewards r. credit_effect (fst ar) (snd ar) a)"
      using run(3) [of a] assms(2,3) sums by (simp add: ledger_total_def)
    then show ?thesis
      using reward_effects [OF r(3,4), of a] commission r(2)
      by (simp add: all_rewards_def validator_reward_def credit_effect_def)
  qed
  then have bal: "\<forall>a. balances R t' a = balances R t a + validator_reward v a"
    unfolding of_nat_eq_iff by blast
  with bal tot t' r(1) leader_gets_commission [OF assms(1)] show ?thesis by (simp add: apply_rewards_def)
qed

section \<open>The fee ledger across a block\<close>

lemma apply_deposits_run:
  "apply_deposits F ds (st, \<delta>) = Some (st', \<delta>') \<Longrightarrow>
     run_ops deposit_step (F, fee_merkle_tree st) ds = Some (F, fee_merkle_tree st')
     \<and> st' = st\<lparr>fee_merkle_tree := fee_merkle_tree st'\<rparr>
     \<and> \<delta>' = \<delta>\<lparr>fees_delta := fees_delta \<delta> \<union> fi_account ` set ds\<rparr>"
proof (induction F ds "(st, \<delta>)" arbitrary: st \<delta> rule: apply_deposits.induct)
  case (2 F fi ds st \<delta>)
  then obtain t where t: "insert_fee_deposit F fi (fee_merkle_tree st) = Some t"
    by (auto simp: insert_fee_deposit_def split: option.splits)
  with 2 show ?case by (simp add: deposit_step_def insert_fee_deposit_def)
qed simp

lemma charge_fees_run:
  "charge_fees F fees recipient (st, \<delta>) = Ok (st', \<delta>') \<Longrightarrow>
     run_ops (charge_step recipient) (F, fee_merkle_tree st) fees = Some (F, fee_merkle_tree st')
     \<and> st' = st\<lparr>fee_merkle_tree := fee_merkle_tree st'\<rparr>
     \<and> \<delta>' = \<delta>\<lparr>fees_delta := fees_delta \<delta> \<union> (\<Union>fi \<in> set fees. {fi_account fi, recipient})\<rparr>"
proof (induction F fees recipient "(st, \<delta>)" arbitrary: st \<delta> rule: charge_fees.induct)
  case (2 F fi fees recipient st \<delta>)
  then obtain t where t: "charge_fee F fi recipient (fee_merkle_tree st) = Ok t"
    by (auto simp: try_bind_Inr_iff)
  with 2 show ?case by (auto simp: charge_step_def Un_assoc)
qed simp

definition paid_to :: "address \<Rightarrow> FeeInfo list \<Rightarrow> nat" where
  "paid_to a fis = (\<Sum>fi\<leftarrow>fis. if fi_account fi = a then unat (fi_amount fi) else 0)"

definition fees_total :: "FeeInfo list \<Rightarrow> nat" where
  "fees_total fis = (\<Sum>fi\<leftarrow>fis. unat (fi_amount fi))"

lemma credit_effects: "(\<Sum>fi\<leftarrow>fis. credit_effect (fi_account fi) (fi_amount fi) a) = int (paid_to a fis)"
  by (induction fis) (auto simp: paid_to_def credit_effect_def)

lemma charge_effects:
  "(\<Sum>fi\<leftarrow>fis. charge_effect recipient fi a)
     = (if a = recipient then int (fees_total fis) else 0) - int (paid_to a fis)"
  by (induction fis) (auto simp: paid_to_def fees_total_def charge_effect_def credit_effect_def)

lemma paid_to_outside: "a \<notin> fi_account ` set fis \<Longrightarrow> paid_to a fis = 0"
  by (induction fis) (auto simp: paid_to_def)

lemma fees_total_nonempty: "0 < fees_total fis \<Longrightarrow> fis \<noteq> []"
  by (auto simp: fees_total_def)

text \<open>
  Applying a proposal credits every L1 deposit to its account; charging the fees moves each fee from
  its payer to the recipient; the total grows by the deposits alone, and every account whose balance
  changed is recorded in the delta of the block.
\<close>

lemma fee_ledger_exact:
  assumes "tree_laws F" "ledger_total F (fee_merkle_tree st) + fees_total deposits < 2 ^ 256"
    and "apply_proposal F B c deposits (st, \<delta>) = Some (st1, \<delta>1)"
    and "charge_fees F fees recipient (st1, \<delta>1) = Ok (st2, \<delta>2)"
  shows "(\<forall>a. int (balances F (fee_merkle_tree st2) a) = int (balances F (fee_merkle_tree st) a)
         + int (paid_to a deposits) - int (paid_to a fees)
         + (if a = recipient then int (fees_total fees) else 0))
     \<and> ledger_total F (fee_merkle_tree st2) = ledger_total F (fee_merkle_tree st) + fees_total deposits
     \<and> {a. balances F (fee_merkle_tree st2) a \<noteq> balances F (fee_merkle_tree st) a} \<subseteq> fees_delta \<delta>2"
proof -
  obtain b where b: "at_push B (block_merkle_tree st) c = Some b"
    "apply_deposits F deposits (st\<lparr>block_merkle_tree := b\<rparr>, \<delta>) = Some (st1, \<delta>1)"
    using assms(3) by (auto simp: apply_proposal_def split: option.splits)
  note d = apply_deposits_run [OF b(2)] and f = charge_fees_run [OF assms(4)]
  have run1: "run_ops deposit_step (F, fee_merkle_tree st) deposits = Some (F, fee_merkle_tree st1)"
    using d by simp
  have lt: "sum (ledger_bal (F, fee_merkle_tree st)) UNIV
      + sum_list (map (\<lambda>fi. unat (fi_amount fi)) deposits) < 2 ^ 256"
    using assms(2) by (simp add: ledger_total_def fees_total_def)
  note e1 = deposits.run_effect [OF _ lt run1]
  have lt2: "sum (ledger_bal (F, fee_merkle_tree st1)) UNIV + sum_list (map (\<lambda>fi. 0) fees) < 2 ^ 256"
    using e1(2) assms(1) lt by simp
  note e2 = charges.run_effect [OF _ lt2 f [THEN conjunct1]]
  have bal: "int (balances F (fee_merkle_tree st2) a) = int (balances F (fee_merkle_tree st) a)
         + int (paid_to a deposits) - int (paid_to a fees)
         + (if a = recipient then int (fees_total fees) else 0)" for a
    using e1(3) [of a] e2(3) [of a] assms(1) by (simp add: credit_effects charge_effects)
  have tot: "ledger_total F (fee_merkle_tree st2) = ledger_total F (fee_merkle_tree st) + fees_total deposits"
    using e1(2) e2(2) assms(1) by (simp add: ledger_total_def fees_total_def)
  have "a \<in> fees_delta \<delta>2" if "balances F (fee_merkle_tree st2) a \<noteq> balances F (fee_merkle_tree st) a" for a
    using that bal [of a] d f paid_to_outside [of a deposits] paid_to_outside [of a fees]
      fees_total_nonempty [of fees]
    by (cases "a \<in> fi_account ` set deposits \<union> fi_account ` set fees") (auto split: if_splits)
  with bal tot show ?thesis by blast
qed

text \<open>Whether a fee is charged depends on the balance of the payer alone.\<close>

lemma charge_fee_succeeds_iff:
  assumes "tree_laws F" "in_memory F t (fi_account fi)" "in_memory F t recipient"
  shows "is_ok (charge_fee F fi recipient t) \<longleftrightarrow> unat (fi_amount fi) \<le> balances F t (fi_account fi)"
proof (cases "fi_amount fi = 0")
  case False
  obtain t1 where t1: "ut_update_with F t (fi_account fi) (deducted (fi_amount fi)) = Some t1"
    using update_None_iff [OF assms(1)] assms(2) by (metis not_None_eq)
  then have "in_memory F t1 recipient" using update_Some(2) [OF assms(1)] assms(3) by metis
  then have "ut_update_with F t1 recipient (\<lambda>b. Some (unwrap_or_default b + fi_amount fi)) \<noteq> None"
    using update_None_iff [OF assms(1)] by metis
  then show ?thesis
    using False by (auto simp: charge_fee_def Let_def t1 checked_sub_def balances_def word_le_nat_alt
        split: option.splits)
qed (simp add: charge_fee_def)

section \<open>Witnesses\<close>

definition map_tree :: "(address \<Rightarrow> u256 option, unit) UniversalTree" where
  "map_tree =
     \<lparr>ut_lookup = \<lambda>m a. (case m a of Some v \<Rightarrow> LookupOk v () | None \<Rightarrow> NotFound ()),
      ut_update_with = \<lambda>m a f. Some (m(a := f (m a))),
      ut_commitment = \<lambda>m. \<lparr>mc_digest = unwrap_or_default (m 5), mc_height = 20, mc_size = 1\<rparr>,
      ut_new = Map.empty, ut_from_commitment = \<lambda>c. Map.empty, ut_elem = \<lambda>p. None,
      ut_verify = \<lambda>c a p. None, ut_non_membership_verify = \<lambda>t a p. None,
      ut_remember = \<lambda>t a v p. Some (t(a := Some v)), ut_non_membership_remember = \<lambda>t a p. Some t\<rparr>"

definition list_tree :: "commitment list AppendTree" where
  "list_tree =
     \<lparr>at_push = \<lambda>xs c. Some (xs @ [c]), at_num_leaves = \<lambda>xs. of_nat (length xs),
      at_lookup = \<lambda>xs i. (if unat i < length xs then LookupOk (xs ! unat i) () else NotFound ()),
      at_commitment = \<lambda>xs. \<lparr>mc_digest = foldl (\<lambda>a c. 3 * a + c) 1 xs, mc_height = 32, mc_size = of_nat (length xs)\<rparr>,
      at_new = [], at_from_commitment = \<lambda>c. []\<rparr>"

lemma map_tree_simps [simp]:
  "stored map_tree m = m" "in_memory map_tree m a" "ut_update_with map_tree m a f = Some (m(a := f (m a)))"
  by (auto simp: map_tree_def stored_def in_memory_def fun_eq_iff split: option.splits)

lemma map_tree_laws: "tree_laws map_tree"
  by (simp add: tree_laws_def fun_eq_iff)

lemma map_tree_total_empty: "ledger_total map_tree Map.empty = 0"
  by (simp add: ledger_total_def balances_def)

definition sample_validator :: "(nat, nat) Validator" where
  "sample_validator =
     \<lparr>v_account = 1, v_stake_table_key = 1, v_state_ver_key = 1, v_stake = 3000, v_commission = 500,
      v_delegators = [(7, 1000), (1, 2000)]\<rparr>"

lemma sample_validator_rewardable: "rewardable sample_validator"
  by (simp add: rewardable_def sample_validator_def COMMISSION_BASIS_POINTS_def)

theorem block_reward_paid_exactly_witness:
  "\<exists>t'. apply_rewards map_tree sample_validator Map.empty = Ok t'
     \<and> balances map_tree t' 7 = 6024860476915271435
     \<and> balances map_tree t' 1 = 13001014713343480467
     \<and> ledger_total map_tree t' = 19025875190258751902"
proof -
  have "\<exists>t'. apply_rewards map_tree sample_validator Map.empty = Ok t'
     \<and> (\<forall>a. balances map_tree t' a = balances map_tree Map.empty a + validator_reward sample_validator a)
     \<and> ledger_total map_tree t' = ledger_total map_tree Map.empty + unat block_reward"
    using block_reward_paid_exactly [OF sample_validator_rewardable map_tree_laws, of Map.empty]
    by (force simp: map_tree_total_empty unat_block_reward)
  then show ?thesis
    by (auto simp: balances_def validator_reward_def reward_share_def sample_validator_def
        map_tree_total_empty unat_block_reward)
qed

definition sample_state :: "(address \<Rightarrow> u256 option, commitment list) ValidatedState" where
  "sample_state =
     \<lparr>block_merkle_tree = [], fee_merkle_tree = [5 \<mapsto> 100], reward_merkle_tree = Map.empty,
      state_chain_config = Resolved config_default\<rparr>"

lemma sample_state_total: "ledger_total map_tree (fee_merkle_tree sample_state) = 100"
proof -
  have "balances map_tree [5 \<mapsto> 100] = (\<lambda>a. if a = 5 then 100 else 0)"
    by (auto simp: balances_def)
  then show ?thesis by (simp add: ledger_total_def sample_state_def)
qed

end
