(* ===== verification/Sequencer_State.thy ===== *)
theory Sequencer_State
  imports Ledger Leaf
begin

text \<open>
  Proposing and validating a block header: \<open>types/src/v0/impls/state.rs\<close> (\<open>apply_header\<close>,
  \<open>ValidatedTransition::validate\<close> and \<open>validate_and_apply_header\<close>), \<open>impls/header.rs\<close> (\<open>from_info\<close>,
  \<open>BlockHeader::new\<close> and \<open>genesis\<close>), \<open>reward.rs\<close> (\<open>first_two_epochs\<close>, \<open>find_validator_info\<close>) and
  \<open>get_finalized_deposits\<close> of \<open>l1.rs\<close>. The state operations are those of \<open>Ledger\<close>. The peers, the L1
  node, the system clock and the recovery of a signer from a signature are parameters.

  The outer \<open>None\<close> of a result is a panic or a call that does not return.
\<close>

section \<open>Environment\<close>

definition pbind ::
  "('e, 'a) result option \<Rightarrow> ('a \<Rightarrow> ('e, 'b) result option) \<Rightarrow> ('e, 'b) result option" where
  "pbind r f = (case r of None \<Rightarrow> None | Some (Inl e) \<Rightarrow> Some (Inl e) | Some (Inr a) \<Rightarrow> f a)"

lemma pbind_simps [simp]:
  "pbind None f = None" "pbind (Some (Inl e)) f = Some (Inl e)" "pbind (Some (Inr a)) f = f a"
  by (simp_all add: pbind_def)

lemma pbind_Ok_iff: "pbind r f = Some (Inr b) \<longleftrightarrow> (\<exists>a. r = Some (Inr a) \<and> f a = Some (Inr b))"
  by (auto simp: pbind_def split: option.splits sum.splits)

lemma pbind_None_iff:
  "pbind r f = None \<longleftrightarrow> r = None \<or> (\<exists>a. r = Some (Inr a) \<and> f a = None)"
  by (auto simp: pbind_def split: option.splits sum.splits)

definition ok_or :: "'e \<Rightarrow> 'a option \<Rightarrow> ('e, 'a) result" where
  "ok_or e x = (case x of None \<Rightarrow> Err e | Some a \<Rightarrow> Ok a)"

lemma ok_or_simps [simp]: "ok_or e None = Err e" "ok_or e (Some a) = Ok a"
  by (simp_all add: ok_or_def)

lemma ok_or_Ok_iff: "ok_or e x = Inr a \<longleftrightarrow> x = Some a"
  by (cases x) simp_all

datatype UpgradeType = FeeUpgrade ChainConfig | EpochUpgrade ChainConfig

definition upgrade_chain_config :: "UpgradeType \<Rightarrow> ChainConfig" where
  "upgrade_chain_config u = (case u of FeeUpgrade c \<Rightarrow> c | EpochUpgrade c \<Rightarrow> c)"

record ('t, 'p, 'b) Trees =
  fee_trees :: "('t, 'p) UniversalTree"
  reward_trees :: "('t, 'p) UniversalTree"
  block_trees :: "'b AppendTree"

text \<open>\<open>StateCatchup\<close>, with \<open>None\<close> for an error.\<close>

record ('p, 'b) StateCatchup =
  fetch_chain_config :: "commitment \<Rightarrow> ChainConfig option"
  fetch_accounts :: "u64 \<Rightarrow> u64 \<Rightarrow> MerkleCommitment \<Rightarrow> address list \<Rightarrow> 'p AccountProof list option"
  fetch_reward_accounts :: "u64 \<Rightarrow> u64 \<Rightarrow> MerkleCommitment \<Rightarrow> address list \<Rightarrow> 'p AccountProof list option"
  remember_blocks_merkle_tree :: "u64 \<Rightarrow> u64 \<Rightarrow> 'b \<Rightarrow> 'b option"

record L1Snapshot =
  snap_head :: u64
  snap_finalized :: "L1BlockInfo option"

text \<open>
  The L1 client: its snapshot, the finalized block of a number, the deposit events of a block range and
  the bound on a queried range. \<open>l1_fuel\<close> bounds the number of queried ranges.
\<close>

record L1Client =
  l1_snapshot :: L1Snapshot
  l1_finalized_block :: "u64 \<Rightarrow> L1BlockInfo"
  l1_deposit_events :: "address \<Rightarrow> u64 \<Rightarrow> u64 \<Rightarrow> FeeInfo list"
  l1_max_block_range :: u64
  l1_fuel :: nat

record ('k, 's, 't, 'p, 'b) NodeState =
  node_chain_config :: ChainConfig
  l1_client :: L1Client
  state_catchup :: "('p, 'b) StateCatchup"
  genesis_timestamp :: u64
  genesis_state :: "('t, 'b) ValidatedState"
  l1_genesis :: "L1BlockInfo option"
  coordinator :: "('k, 's) EpochCommittees"
  node_epoch_height :: "u64 option"
  upgrades :: "Version \<Rightarrow> UpgradeType option"
  current_version :: Version

record ('k, 't, 'p, 'b) SeqEnv =
  trees :: "('t, 'p, 'b) Trees"
  commit_env :: CommitEnv
  hash_env :: "'k HashEnv"
  recover_address :: "u8 list \<Rightarrow> u8 list \<Rightarrow> address option"
  system_time :: u64

definition EPOCH_VERSION :: Version where
  "EPOCH_VERSION = (0, 3)"

text \<open>\<open>U256::to::<u64>\<close> panics on a value that does not fit.\<close>

definition to_u64 :: "u256 \<Rightarrow> u64 option" where
  "to_u64 x = (if unat x < 2 ^ 64 then Some (ucast x) else None)"

section \<open>Signatures of builder fees\<close>

definition aggregate_fee_data :: "u64 \<Rightarrow> u8 list \<Rightarrow> u8 list" where
  "aggregate_fee_data fee_amount metadata = rev (to_fixed_bytes fee_amount) @ metadata"

definition aggregate_fee_data_with_vid_commitment :: "u64 \<Rightarrow> u8 list \<Rightarrow> commitment \<Rightarrow> u8 list" where
  "aggregate_fee_data_with_vid_commitment fee_amount metadata vid_commitment =
     rev (to_fixed_bytes fee_amount) @ metadata @ to_fixed_bytes vid_commitment"

text \<open>The \<open>unwrap\<close> of a failed recovery panics: \<open>None\<close>.\<close>

definition validate_builder_signature ::
  "(u8 list \<Rightarrow> u8 list \<Rightarrow> address option) \<Rightarrow> address \<Rightarrow> u8 list \<Rightarrow> u8 list \<Rightarrow> bool option" where
  "validate_builder_signature recover self signature data =
     map_option (\<lambda>signer. signer = self) (recover signature data)"

definition validate_fee_signature ::
  "(u8 list \<Rightarrow> u8 list \<Rightarrow> address option) \<Rightarrow> address \<Rightarrow> u8 list \<Rightarrow> u64 \<Rightarrow> u8 list \<Rightarrow> bool option" where
  "validate_fee_signature recover self signature fee_amount metadata =
     validate_builder_signature recover self signature (aggregate_fee_data fee_amount metadata)"

definition validate_fee_signature_with_vid_commitment ::
  "(u8 list \<Rightarrow> u8 list \<Rightarrow> address option) \<Rightarrow> address \<Rightarrow> u8 list \<Rightarrow> u64 \<Rightarrow> u8 list \<Rightarrow> commitment
     \<Rightarrow> bool option" where
  "validate_fee_signature_with_vid_commitment recover self signature fee_amount metadata vid_commitment =
     validate_builder_signature recover self signature
       (aggregate_fee_data_with_vid_commitment fee_amount metadata vid_commitment)"

text \<open>The disjunction of the two checks, which both callers evaluate from left to right.\<close>

definition fee_signature_ok ::
  "(u8 list \<Rightarrow> u8 list \<Rightarrow> address option) \<Rightarrow> address \<Rightarrow> u8 list \<Rightarrow> u64 \<Rightarrow> u8 list \<Rightarrow> commitment \<Rightarrow> bool option" where
  "fee_signature_ok recover self signature fee_amount metadata vid_commitment =
     (case validate_fee_signature recover self signature fee_amount metadata of
        None \<Rightarrow> None
      | Some True \<Rightarrow> Some True
      | Some False \<Rightarrow>
          validate_fee_signature_with_vid_commitment recover self signature fee_amount metadata
            vid_commitment)"

section \<open>Validation errors\<close>

datatype BuilderValidationError =
    SignatureNotFound
  | FeeAmountOutOfRange u256
  | InvalidBuilderSignature

datatype ProposalValidationError =
    InvalidChainConfig ChainConfig "ChainConfig ResolvableChainConfig"
  | MaxBlockSizeExceeded u64 u64
  | InsufficientFee u64 u256 u256
  | InvalidHeight u64 u64
  | InvalidBlockRoot MerkleCommitment MerkleCommitment
  | InvalidFeeRoot MerkleCommitment MerkleCommitment
  | InvalidRewardRoot MerkleCommitment MerkleCommitment
  | InvalidNsTable NsTableValidationError
  | SomeFeeAmountOutOfRange
  | DecrementingTimestamp u64 u64
  | InvalidTimestampDrift u64 u64 u64
  | L1FinalizedNotFound
  | L1FinalizedDecrementing "(u64 \<times> u64) option" "(u64 \<times> u64) option"
  | DecrementingL1Head
  | BuilderValidation BuilderValidationError
  | InvalidL1Finalized
  | RewardRootNotFound

section \<open>Validation of a proposal\<close>

record AppProposal =
  prop_header :: Header
  prop_block_size :: u32

definition proposal_validate_l1_head :: "AppProposal \<Rightarrow> u64 \<Rightarrow> (ProposalValidationError, unit) result" where
  "proposal_validate_l1_head self parent_l1_head =
     (if header_l1_head (prop_header self) < parent_l1_head then Err DecrementingL1Head else Ok ())"

definition proposal_validate_chain_config ::
  "CommitEnv \<Rightarrow> AppProposal \<Rightarrow> ChainConfig \<Rightarrow> (ProposalValidationError, unit) result" where
  "proposal_validate_chain_config env self expected_chain_config =
     (let proposed = header_chain_config (prop_header self) in
      if resolvable_commit env proposed \<noteq> config_commit env expected_chain_config
      then Err (InvalidChainConfig expected_chain_config proposed) else Ok ())"

definition validate_timestamp_non_dec :: "AppProposal \<Rightarrow> u64 \<Rightarrow> (ProposalValidationError, unit) result" where
  "validate_timestamp_non_dec self parent_timestamp =
     (if header_timestamp (prop_header self) < parent_timestamp
      then Err (DecrementingTimestamp (header_timestamp (prop_header self)) parent_timestamp)
      else Ok ())"

definition abs_diff :: "u64 \<Rightarrow> u64 \<Rightarrow> u64" where
  "abs_diff a b = (if a < b then b - a else a - b)"

definition validate_timestamp_drift :: "AppProposal \<Rightarrow> u64 \<Rightarrow> (ProposalValidationError, unit) result" where
  "validate_timestamp_drift self now =
     (let diff = abs_diff (header_timestamp (prop_header self)) now in
      if diff > 12 then Err (InvalidTimestampDrift (header_timestamp (prop_header self)) now diff)
      else Ok ())"

definition proposal_validate_block_merkle_tree ::
  "AppProposal \<Rightarrow> MerkleCommitment \<Rightarrow> (ProposalValidationError, unit) result" where
  "proposal_validate_block_merkle_tree self root =
     (if header_block_merkle_tree_root (prop_header self) \<noteq> root
      then Err (InvalidBlockRoot root (header_block_merkle_tree_root (prop_header self))) else Ok ())"

record ('t, 'b) ValidatedTransition =
  vt_state :: "('t, 'b) ValidatedState"
  vt_expected_chain_config :: ChainConfig
  vt_parent :: Header
  vt_proposal :: AppProposal

text \<open>\<open>new\<close> panics on a state whose chain configuration is only a commitment.\<close>

definition transition_new ::
  "('t, 'b) ValidatedState \<Rightarrow> Header \<Rightarrow> AppProposal \<Rightarrow> ('t, 'b) ValidatedTransition option" where
  "transition_new state parent proposal =
     map_option (\<lambda>expected. \<lparr>vt_state = state, vt_expected_chain_config = expected,
         vt_parent = parent, vt_proposal = proposal\<rparr>)
       (resolve (state_chain_config state))"

definition block_numbers :: "L1BlockInfo option \<Rightarrow> (u64 \<times> u64) option option" where
  "block_numbers b =
     (case b of
        None \<Rightarrow> Some None
      | Some block \<Rightarrow> map_option (\<lambda>ts. Some (l1b_number block, ts)) (to_u64 (l1b_timestamp block)))"

definition validate_l1_finalized ::
  "('t, 'b) ValidatedTransition \<Rightarrow> (ProposalValidationError, unit) result option" where
  "validate_l1_finalized self =
     (let proposed = header_l1_finalized (prop_header (vt_proposal self));
          parent = header_l1_finalized (vt_parent self)
      in if l1_less proposed parent then
           (case (block_numbers parent, block_numbers proposed) of
              (Some a, Some b) \<Rightarrow> Some (Err (L1FinalizedDecrementing a b))
            | _ \<Rightarrow> None)
         else Some (Ok ()))"

definition wait_for_finalized_block ::
  "L1Client \<Rightarrow> ('t, 'b) ValidatedTransition \<Rightarrow> (ProposalValidationError, unit) result" where
  "wait_for_finalized_block l1 self =
     (case header_l1_finalized (prop_header (vt_proposal self)) of
        None \<Rightarrow> Ok ()
      | Some proposed \<Rightarrow>
         (if l1_finalized_block l1 (l1b_number proposed) \<noteq> proposed then Err InvalidL1Finalized
          else Ok ()))"

text \<open>Waiting for the L1 head only delays; it has no result.\<close>

definition wait_for_l1 ::
  "L1Client \<Rightarrow> ('t, 'b) ValidatedTransition \<Rightarrow> (ProposalValidationError, ('t, 'b) ValidatedTransition) result" where
  "wait_for_l1 l1 self = try_bind (wait_for_finalized_block l1 self) (\<lambda>_. Ok self)"

definition validate_l1_head :: "('t, 'b) ValidatedTransition \<Rightarrow> (ProposalValidationError, unit) result" where
  "validate_l1_head self = proposal_validate_l1_head (vt_proposal self) (header_l1_head (vt_parent self))"

fun check_fees ::
  "(u8 list \<Rightarrow> u8 list \<Rightarrow> address option) \<Rightarrow> Header \<Rightarrow> (FeeInfo \<times> u8 list) list
     \<Rightarrow> (BuilderValidationError, unit) result option" where
  "check_fees recover proposed_header [] = Some (Ok ())"
| "check_fees recover proposed_header ((fee_info, signature) # rest) =
     (case as_u64 (fi_amount fee_info) of
        None \<Rightarrow> Some (Err (FeeAmountOutOfRange (fi_amount fee_info)))
      | Some amount \<Rightarrow>
         (case fee_signature_ok recover (fi_account fee_info) signature amount
                 (header_metadata proposed_header) (header_payload_commitment proposed_header) of
            None \<Rightarrow> None
          | Some False \<Rightarrow> Some (Err InvalidBuilderSignature)
          | Some True \<Rightarrow> check_fees recover proposed_header rest))"

definition validate_builder_fee ::
  "(u8 list \<Rightarrow> u8 list \<Rightarrow> address option) \<Rightarrow> Header \<Rightarrow> (BuilderValidationError, unit) result option" where
  "validate_builder_fee recover proposed_header =
     check_fees recover proposed_header
       (zip (header_fee_info proposed_header) (header_builder_signature proposed_header))"

definition transition_validate_builder_fee ::
  "(u8 list \<Rightarrow> u8 list \<Rightarrow> address option) \<Rightarrow> ('t, 'b) ValidatedTransition
     \<Rightarrow> (ProposalValidationError, unit) result option" where
  "transition_validate_builder_fee recover self =
     map_option (map_err BuilderValidation) (validate_builder_fee recover (prop_header (vt_proposal self)))"

definition validate_chain_config ::
  "CommitEnv \<Rightarrow> ('t, 'b) ValidatedTransition \<Rightarrow> (ProposalValidationError, unit) result" where
  "validate_chain_config env self =
     proposal_validate_chain_config env (vt_proposal self) (vt_expected_chain_config self)"

definition validate_block_size :: "('t, 'b) ValidatedTransition \<Rightarrow> (ProposalValidationError, unit) result" where
  "validate_block_size self =
     (let block_size = ucast (prop_block_size (vt_proposal self)) :: u64;
          bound = max_block_size (vt_expected_chain_config self)
      in if block_size > bound then Err (MaxBlockSizeExceeded bound block_size) else Ok ())"

definition validate_fee :: "('t, 'b) ValidatedTransition \<Rightarrow> (ProposalValidationError, unit) result" where
  "validate_fee self =
     (case fees_amount (header_fee_info (prop_header (vt_proposal self))) of
        None \<Rightarrow> Err SomeFeeAmountOutOfRange
      | Some amount \<Rightarrow>
         (let config = vt_expected_chain_config self in
          if amount < base_fee config * ucast (prop_block_size (vt_proposal self))
          then Err (InsufficientFee (max_block_size config) (base_fee config) amount)
          else Ok ()))"

definition validate_height :: "('t, 'b) ValidatedTransition \<Rightarrow> (ProposalValidationError, unit) result" where
  "validate_height self =
     (let height = header_height (prop_header (vt_proposal self)) in
      if height \<noteq> header_height (vt_parent self) + 1
      then Err (InvalidHeight (header_height (vt_parent self)) height) else Ok ())"

definition validate_timestamp ::
  "u64 \<Rightarrow> ('t, 'b) ValidatedTransition \<Rightarrow> (ProposalValidationError, unit) result" where
  "validate_timestamp now self =
     try_bind (validate_timestamp_non_dec (vt_proposal self) (header_timestamp (vt_parent self))) (\<lambda>_.
       validate_timestamp_drift (vt_proposal self) now)"

definition validate_block_merkle_tree ::
  "'b AppendTree \<Rightarrow> ('t, 'b) ValidatedTransition \<Rightarrow> (ProposalValidationError, unit) result" where
  "validate_block_merkle_tree B self =
     proposal_validate_block_merkle_tree (vt_proposal self)
       (at_commitment B (block_merkle_tree (vt_state self)))"

definition validate_reward_merkle_tree ::
  "('t, 'p) UniversalTree \<Rightarrow> ('t, 'b) ValidatedTransition \<Rightarrow> (ProposalValidationError, unit) result" where
  "validate_reward_merkle_tree R self =
     (let root = ut_commitment R (reward_merkle_tree (vt_state self));
          proposed = header_reward_merkle_tree_root (ut_commitment R (ut_new R))
                       (prop_header (vt_proposal self))
      in if proposed \<noteq> root then Err (InvalidRewardRoot root proposed) else Ok ())"

definition validate_fee_merkle_tree ::
  "('t, 'p) UniversalTree \<Rightarrow> ('t, 'b) ValidatedTransition \<Rightarrow> (ProposalValidationError, unit) result" where
  "validate_fee_merkle_tree F self =
     (let root = ut_commitment F (fee_merkle_tree (vt_state self));
          proposed = header_fee_merkle_tree_root (prop_header (vt_proposal self))
      in if proposed \<noteq> root then Err (InvalidFeeRoot root proposed) else Ok ())"

definition validate_namespace_table ::
  "('t, 'b) ValidatedTransition \<Rightarrow> (ProposalValidationError, unit) result option" where
  "validate_namespace_table self =
     map_option (map_err InvalidNsTable)
       (ns_table_validate (header_ns_table (prop_header (vt_proposal self)))
          (unat (prop_block_size (vt_proposal self))))"

definition validate ::
  "('k, 't, 'p, 'b) SeqEnv \<Rightarrow> ('t, 'b) ValidatedTransition
     \<Rightarrow> (ProposalValidationError, ('t, 'b) ValidatedTransition) result option" where
  "validate env self =
     pbind (Some (validate_timestamp (system_time env) self)) (\<lambda>_.
     pbind (transition_validate_builder_fee (recover_address env) self) (\<lambda>_.
     pbind (Some (validate_height self)) (\<lambda>_.
     pbind (Some (validate_chain_config (commit_env env) self)) (\<lambda>_.
     pbind (Some (validate_block_size self)) (\<lambda>_.
     pbind (Some (validate_fee self)) (\<lambda>_.
     pbind (Some (validate_fee_merkle_tree (fee_trees (trees env)) self)) (\<lambda>_.
     pbind (Some (validate_block_merkle_tree (block_trees (trees env)) self)) (\<lambda>_.
     pbind (Some (validate_reward_merkle_tree (reward_trees (trees env)) self)) (\<lambda>_.
     pbind (validate_l1_finalized self) (\<lambda>_.
     pbind (Some (validate_l1_head self)) (\<lambda>_.
     pbind (validate_namespace_table self) (\<lambda>_.
       Some (Ok self)))))))))))))"

section \<open>L1 deposits\<close>

text \<open>\<open>prev_finalized >= Some(new_finalized)\<close>: \<open>None\<close> is below every \<open>Some\<close>.\<close>

definition get_finalized_deposits ::
  "L1Client \<Rightarrow> address \<Rightarrow> u64 option \<Rightarrow> u64 \<Rightarrow> FeeInfo list option" where
  "get_finalized_deposits l1 fee_contract_address prev_finalized new_finalized =
     (if (case prev_finalized of None \<Rightarrow> False | Some prev \<Rightarrow> prev \<ge> new_finalized) then Some []
      else
        let prev = (case prev_finalized of Some prev \<Rightarrow> prev + 1 | None \<Rightarrow> 0) in
        map_option (query_chunks (l1_deposit_events l1 fee_contract_address))
          (chunks (l1_fuel l1) prev new_finalized (l1_max_block_range l1)))"

definition get_l1_deposits ::
  "L1Client \<Rightarrow> L1BlockInfo option \<Rightarrow> Header \<Rightarrow> address option \<Rightarrow> FeeInfo list option" where
  "get_l1_deposits l1 l1_finalized parent_header fee_contract_address =
     (case (fee_contract_address, l1_finalized) of
        (Some addr, Some block_info) \<Rightarrow>
          get_finalized_deposits l1 addr (map_option l1b_number (header_l1_finalized parent_header))
            (l1b_number block_info)
      | _ \<Rightarrow> Some [])"

section \<open>Rewards of a block\<close>

datatype ApplyError =
    ChainConfigFetchFailed | FrontierFetchFailed | AccountsFetchFailed | RememberFailed
  | FeeFailed FeeError | EpochHeightNotFound | EpochHeightIsZero | NoFirstEpoch
  | MembershipUnavailable | LeaderNotFound | ValidatorNotFoundInEpoch | RewardAccountsFetchFailed
  | RewardFailed RewardError

definition first_two_epochs ::
  "u64 \<Rightarrow> ('k, 's, 't, 'p, 'b) NodeState \<Rightarrow> (ApplyError, bool) result" where
  "first_two_epochs height instance_state =
     try_bind (ok_or EpochHeightNotFound (node_epoch_height instance_state)) (\<lambda>epoch_height.
     let epoch = epoch_from_block_number height epoch_height in
     try_bind (ok_or NoFirstEpoch (ecs_first_epoch (coordinator instance_state))) (\<lambda>first_epoch.
       Ok (epoch \<le> first_epoch + 1)))"

text \<open>\<open>membership_for_epoch\<close> fails unless the epoch has a randomized stake table.\<close>

definition has_membership :: "('k, 's) EpochCommittees \<Rightarrow> u64 \<Rightarrow> bool" where
  "has_membership members epoch = (has_randomized_stake_table members epoch = Ok True)"

fun remember_all ::
  "('t, 'p) UniversalTree \<Rightarrow> 'p AccountProof list \<Rightarrow> 't \<Rightarrow> 't option" where
  "remember_all T [] tree = Some tree"
| "remember_all T (proof # proofs) tree =
     (case remember_account T proof tree of
        Inl e \<Rightarrow> None | Inr tree \<Rightarrow> remember_all T proofs tree)"

definition find_validator_info ::
  "('k, 't, 'p, 'b) SeqEnv \<Rightarrow> ('k, 's, 't, 'p, 'b) NodeState \<Rightarrow> ('t, 'b) ValidatedState
     \<Rightarrow> ('g, Header) Leaf2 \<Rightarrow> u64 \<Rightarrow> (ApplyError, ('k, 's) Validator \<times> ('t, 'b) ValidatedState) result option" where
  "find_validator_info env instance_state validated_state parent_leaf view =
     (let parent_height = leaf_height parent_leaf; new_height = parent_height + 1;
          R = reward_trees (trees env); members = coordinator instance_state in
      pbind (Some (ok_or EpochHeightNotFound (node_epoch_height instance_state))) (\<lambda>epoch_height.
      if epoch_height = 0 then Some (Err EpochHeightIsZero)
      else let epoch = epoch_from_block_number new_height epoch_height in
      if \<not> has_membership members epoch then Some (Err MembershipUnavailable)
      else
      pbind (map_option (map_err (\<lambda>_. LeaderNotFound))
               (lookup_leader (hash_env env) members view (Some epoch))) (\<lambda>leader.
      pbind (Some (map_err (\<lambda>_. ValidatorNotFoundInEpoch) (get_validator_config members epoch leader)))
        (\<lambda>validator.
      let missing = forgotten_reward_accounts R validated_state
                      (v_account validator # map fst (v_delegators validator)) in
      if missing = [] then Some (Ok (validator, validated_state))
      else
      pbind (Some (ok_or RewardAccountsFetchFailed
               (fetch_reward_accounts (state_catchup instance_state) parent_height
                  (leaf_view_number parent_leaf) (ut_commitment R (reward_merkle_tree validated_state))
                  missing))) (\<lambda>proofs.
        map_option (\<lambda>t. Ok (validator, validated_state\<lparr>reward_merkle_tree := t\<rparr>))
          (remember_all R proofs (reward_merkle_tree validated_state)))))))"

section \<open>Applying a header\<close>

definition version_le :: "Version \<Rightarrow> Version \<Rightarrow> bool" where
  "version_le v w = version_ge w v"

definition apply_upgrade ::
  "('k, 's, 't, 'p, 'b) NodeState \<Rightarrow> Version \<Rightarrow> ('t, 'b) ValidatedState \<Rightarrow> ('t, 'b) ValidatedState" where
  "apply_upgrade inst version self =
     (if version_le version (current_version inst) then self
      else case upgrades inst version of
        None \<Rightarrow> self
      | Some upgrade \<Rightarrow> self\<lparr>state_chain_config := Resolved (upgrade_chain_config upgrade)\<rparr>)"

definition state_get_chain_config ::
  "CommitEnv \<Rightarrow> ('k, 's, 't, 'p, 'b) NodeState \<Rightarrow> ('p, 'b) StateCatchup
     \<Rightarrow> ChainConfig ResolvableChainConfig \<Rightarrow> ('t, 'b) ValidatedState \<Rightarrow> (ApplyError, ChainConfig) result" where
  "state_get_chain_config cenv inst peers header_cf self =
     (let state_cf = state_chain_config self in
      if resolvable_commit cenv state_cf = config_commit cenv (node_chain_config inst)
      then Ok (node_chain_config inst)
      else case (resolve state_cf, resolve header_cf) of
        (Some cf, _) \<Rightarrow> Ok cf
      | (None, Some cf) \<Rightarrow>
          (if config_commit cenv cf = resolvable_commit cenv state_cf then Ok cf
           else ok_or ChainConfigFetchFailed (fetch_chain_config peers (resolvable_commit cenv state_cf)))
      | (None, None) \<Rightarrow>
          ok_or ChainConfigFetchFailed (fetch_chain_config peers (resolvable_commit cenv state_cf)))"

definition fetch_frontier ::
  "('k, 't, 'p, 'b) SeqEnv \<Rightarrow> ('p, 'b) StateCatchup \<Rightarrow> u64 \<Rightarrow> u64 \<Rightarrow> bool \<Rightarrow> ('t, 'b) ValidatedState
     \<Rightarrow> (ApplyError, ('t, 'b) ValidatedState) result" where
  "fetch_frontier env peers parent_height parent_view needed validated_state =
     (if \<not> needed then Ok validated_state
      else case remember_blocks_merkle_tree peers parent_height parent_view
                  (block_merkle_tree validated_state) of
        None \<Rightarrow> Err FrontierFetchFailed
      | Some b \<Rightarrow> Ok (validated_state\<lparr>block_merkle_tree := b\<rparr>))"

text \<open>The stages of \<open>apply_header\<close> that fetch fee accounts and that distribute the rewards.\<close>

definition fetch_fee_accounts ::
  "('t, 'p) UniversalTree \<Rightarrow> ('p, 'b) StateCatchup \<Rightarrow> u64 \<Rightarrow> u64 \<Rightarrow> address list \<Rightarrow> ('t, 'b) ValidatedState
     \<Rightarrow> (ApplyError, ('t, 'b) ValidatedState) result option" where
  "fetch_fee_accounts F peers parent_height parent_view missing_accounts validated_state =
     (if missing_accounts = [] then Some (Ok validated_state)
      else pbind (Some (ok_or AccountsFetchFailed
             (fetch_accounts peers parent_height parent_view
                (ut_commitment F (fee_merkle_tree validated_state)) missing_accounts))) (\<lambda>proofs.
        map_option (\<lambda>t. Ok (validated_state\<lparr>fee_merkle_tree := t\<rparr>))
          (remember_all F proofs (fee_merkle_tree validated_state))))"

definition reward_stage ::
  "('k, 't, 'p, 'b) SeqEnv \<Rightarrow> ('k, 's, 't, 'p, 'b) NodeState \<Rightarrow> ('g, Header) Leaf2 \<Rightarrow> Version \<Rightarrow> u64
     \<Rightarrow> ('t, 'b) ValidatedState \<times> Delta \<Rightarrow> (ApplyError, ('t, 'b) ValidatedState \<times> Delta) result option" where
  "reward_stage env inst parent_leaf version view_number sd =
     (if \<not> version_ge version EPOCH_VERSION then Some (Ok sd)
      else
      pbind (Some (first_two_epochs (leaf_height parent_leaf + 1) inst)) (\<lambda>first_two.
      if first_two then Some (Ok sd)
      else
      pbind (find_validator_info env inst (fst sd) parent_leaf view_number) (\<lambda>(validator, state).
        Some (map_err RewardFailed
          (distribute_rewards (reward_trees (trees env)) validator (state, snd sd))))))"

definition apply_header ::
  "('k, 't, 'p, 'b) SeqEnv \<Rightarrow> ('k, 's, 't, 'p, 'b) NodeState \<Rightarrow> ('p, 'b) StateCatchup
     \<Rightarrow> ('g, Header) Leaf2 \<Rightarrow> Header \<Rightarrow> Version \<Rightarrow> u64 \<Rightarrow> ('t, 'b) ValidatedState
     \<Rightarrow> (ApplyError, ('t, 'b) ValidatedState \<times> Delta) result option" where
  "apply_header env inst peers parent_leaf proposed_header version view_number self =
     (let F = fee_trees (trees env); B = block_trees (trees env);
          parent_header = hdr_fields (block_header parent_leaf);
          validated_state = apply_upgrade inst version self
      in
      pbind (Some (state_get_chain_config (commit_env env) inst peers
               (header_chain_config proposed_header) validated_state)) (\<lambda>chain_config.
      let validated_state =
            (if Some chain_config \<noteq> resolve (state_chain_config validated_state)
             then validated_state\<lparr>state_chain_config := Resolved chain_config\<rparr> else validated_state)
      in
      pbind (map_option Ok (get_l1_deposits (l1_client inst) (header_l1_finalized proposed_header)
               parent_header (fee_contract chain_config))) (\<lambda>l1_deposits.
      let missing_accounts = forgotten_accounts F self
            ([fee_recipient chain_config] @ fees_accounts (header_fee_info proposed_header)
             @ fees_accounts l1_deposits);
          parent_height = leaf_height parent_leaf; parent_view = leaf_view_number parent_leaf
      in
      pbind (Some (fetch_frontier env peers parent_height parent_view
               (need_to_fetch_blocks_mt_frontier B self) validated_state)) (\<lambda>validated_state.
      pbind (fetch_fee_accounts F peers parent_height parent_view missing_accounts validated_state)
        (\<lambda>validated_state.
      pbind (map_option Ok (apply_proposal F B (header_commit (commit_env env) parent_header) l1_deposits
               (validated_state, delta_default))) (\<lambda>sd.
      pbind (Some (map_err FeeFailed
               (charge_fees F (header_fee_info proposed_header) (fee_recipient chain_config) sd))) (\<lambda>sd.
        reward_stage env inst parent_leaf version view_number sd)))))))"

datatype BlockError =
    FailedHeaderApply ApplyError
  | InvalidBlockHeader ProposalValidationError

definition validate_and_apply_header ::
  "('k, 't, 'p, 'b) SeqEnv \<Rightarrow> ('k, 's, 't, 'p, 'b) NodeState \<Rightarrow> ('g, Header) Leaf2 \<Rightarrow> Header \<Rightarrow> u32
     \<Rightarrow> Version \<Rightarrow> u64 \<Rightarrow> ('t, 'b) ValidatedState
     \<Rightarrow> (BlockError, ('t, 'b) ValidatedState \<times> Delta) result option" where
  "validate_and_apply_header env inst parent_leaf proposed_header payload_byte_len version view_number self =
     pbind (map_option (map_err FailedHeaderApply)
              (apply_header env inst (state_catchup inst) parent_leaf proposed_header version
                 view_number self)) (\<lambda>(validated_state, delta).
     pbind (map_option Ok (transition_new validated_state (hdr_fields (block_header parent_leaf))
              \<lparr>prop_header = proposed_header, prop_block_size = payload_byte_len\<rparr>)) (\<lambda>transition.
     pbind (map_option (map_err InvalidBlockHeader) (validate env transition)) (\<lambda>transition.
     pbind (Some (map_err InvalidBlockHeader (wait_for_l1 (l1_client inst) transition))) (\<lambda>transition.
       Some (Ok (vt_state transition, delta))))))"

section \<open>Proposing a header\<close>

record BuilderFee =
  bf_amount :: u64
  bf_account :: address
  bf_signature :: "u8 list"

definition fee_info_of_builder :: "BuilderFee \<Rightarrow> FeeInfo" where
  "fee_info_of_builder fee = \<lparr>fi_account = bf_account fee, fi_amount = ucast (bf_amount fee)\<rparr>"

datatype HeaderError =
    InvalidMajorVersion u16 | MissingBlocksFrontier | MissingFeeAccount address
  | BadBuilderSignature | InvalidBuilderFee FeeError | HeaderRewards RewardError
  | HeaderApply ApplyError

fun insert_fee_deposits ::
  "('t, 'p) UniversalTree \<Rightarrow> FeeInfo list \<Rightarrow> 't \<Rightarrow> (HeaderError, 't) result" where
  "insert_fee_deposits F [] tree = Ok tree"
| "insert_fee_deposits F (fee_info # fees) tree =
     try_bind (ok_or (MissingFeeAccount (fi_account fee_info)) (insert_fee_deposit F fee_info tree))
       (insert_fee_deposits F fees)"

fun charge_builder_fees ::
  "('k, 't, 'p, 'b) SeqEnv \<Rightarrow> u8 list \<Rightarrow> commitment \<Rightarrow> address \<Rightarrow> BuilderFee list \<Rightarrow> 't
     \<Rightarrow> (HeaderError, 't) result option" where
  "charge_builder_fees env table payload_commitment recipient [] tree = Some (Ok tree)"
| "charge_builder_fees env table payload_commitment recipient (fee # fees) tree =
     (case fee_signature_ok (recover_address env) (bf_account fee) (bf_signature fee) (bf_amount fee)
             table payload_commitment of
        None \<Rightarrow> None
      | Some False \<Rightarrow> Some (Err BadBuilderSignature)
      | Some True \<Rightarrow>
          pbind (Some (map_err InvalidBuilderFee
                   (charge_fee (fee_trees (trees env)) (fee_info_of_builder fee) recipient tree)))
            (charge_builder_fees env table payload_commitment recipient fees))"

definition from_info ::
  "('k, 't, 'p, 'b) SeqEnv \<Rightarrow> commitment \<Rightarrow> commitment \<Rightarrow> u8 list \<Rightarrow> ('g, Header) Leaf2 \<Rightarrow> L1Snapshot
     \<Rightarrow> FeeInfo list \<Rightarrow> BuilderFee list \<Rightarrow> u64 \<Rightarrow> ('t, 'b) ValidatedState \<Rightarrow> ChainConfig \<Rightarrow> Version
     \<Rightarrow> ('k, 's) Validator option \<Rightarrow> (HeaderError, Header) result option" where
  "from_info env payload_commitment builder_commitment table parent_leaf l1 l1_deposits builder_fee
     now state chain_config version validator =
     (if fst version \<noteq> 0 then Some (Err (InvalidMajorVersion (fst version)))
      else
      let F = fee_trees (trees env); R = reward_trees (trees env); B = block_trees (trees env);
          parent_header = hdr_fields (block_header parent_leaf);
          height = header_height parent_header + 1;
          timestamp = (if now < header_timestamp parent_header then header_timestamp parent_header else now);
          head = (if snap_head l1 < header_l1_head parent_header then header_l1_head parent_header
                  else snap_head l1);
          finalized = (if l1_less (snap_finalized l1) (header_l1_finalized parent_header)
                       then header_l1_finalized parent_header else snap_finalized l1)
      in
      case (case finalized of
              None \<Rightarrow> Some timestamp
            | Some l1_block \<Rightarrow>
                map_option (\<lambda>l1_timestamp. if timestamp < l1_timestamp then l1_timestamp else timestamp)
                  (to_u64 (l1b_timestamp l1_block))) of
        None \<Rightarrow> None
      | Some timestamp \<Rightarrow>
      pbind (Some (ok_or MissingBlocksFrontier
               (at_push B (block_merkle_tree state) (header_commit (commit_env env) parent_header)))) (\<lambda>blocks.
      pbind (Some (insert_fee_deposits F l1_deposits (fee_merkle_tree state))) (\<lambda>fees.
      pbind (charge_builder_fees env table payload_commitment (fee_recipient chain_config) builder_fee fees)
        (\<lambda>fees.
      pbind (Some (case validator of
                     None \<Rightarrow> Ok (reward_merkle_tree state)
                   | Some v \<Rightarrow> map_err HeaderRewards (apply_rewards R v (reward_merkle_tree state))))
        (\<lambda>rewards.
        map_option Ok
          (header_create chain_config height timestamp head finalized payload_commitment
             builder_commitment table (ut_commitment F fees) (at_commitment B blocks)
             (ut_commitment R rewards) (map fee_info_of_builder builder_fee)
             (map bf_signature builder_fee) version))))))"

definition header_get_chain_config ::
  "CommitEnv \<Rightarrow> ('k, 's, 't, 'p, 'b) NodeState \<Rightarrow> ('t, 'b) ValidatedState
     \<Rightarrow> (ApplyError, ChainConfig) result" where
  "header_get_chain_config cenv inst validated_state =
     (let validated_cf = state_chain_config validated_state; instance_cf = node_chain_config inst in
      if resolvable_commit cenv validated_cf = config_commit cenv instance_cf then Ok instance_cf
      else case resolve validated_cf of
        Some cf \<Rightarrow> Ok cf
      | None \<Rightarrow>
          ok_or ChainConfigFetchFailed
            (fetch_chain_config (state_catchup inst) (resolvable_commit cenv validated_cf)))"

fun remember_proofs ::
  "('t, 'p) UniversalTree \<Rightarrow> 'p AccountProof list \<Rightarrow> 't \<Rightarrow> (ApplyError, 't) result" where
  "remember_proofs T [] tree = Ok tree"
| "remember_proofs T (proof # proofs) tree =
     (case remember_account T proof tree of
        Inl e \<Rightarrow> Err RememberFailed | Inr tree \<Rightarrow> remember_proofs T proofs tree)"

definition proposal_chain_config ::
  "CommitEnv \<Rightarrow> ('k, 's, 't, 'p, 'b) NodeState \<Rightarrow> Version \<Rightarrow> ('t, 'b) ValidatedState
     \<Rightarrow> (ApplyError, ChainConfig) result" where
  "proposal_chain_config cenv inst version validated_state =
     (if \<not> version_le version (current_version inst) then
        (case upgrades inst version of
           Some upgrade \<Rightarrow> Ok (upgrade_chain_config upgrade)
         | None \<Rightarrow> header_get_chain_config cenv inst validated_state)
      else header_get_chain_config cenv inst validated_state)"

definition header_new ::
  "('k, 't, 'p, 'b) SeqEnv \<Rightarrow> ('t, 'b) ValidatedState \<Rightarrow> ('k, 's, 't, 'p, 'b) NodeState
     \<Rightarrow> ('g, Header) Leaf2 \<Rightarrow> commitment \<Rightarrow> commitment \<Rightarrow> u8 list \<Rightarrow> BuilderFee \<Rightarrow> Version \<Rightarrow> u64
     \<Rightarrow> (HeaderError, Header) result option" where
  "header_new env parent_state inst parent_leaf payload_commitment builder_commitment metadata
     builder_fee version view_number =
     (let F = fee_trees (trees env); R = reward_trees (trees env); B = block_trees (trees env);
          height = leaf_height parent_leaf; view = leaf_view_number parent_leaf;
          parent_header = hdr_fields (block_header parent_leaf); peers = state_catchup inst
      in
      pbind (Some (map_err HeaderApply
               (proposal_chain_config (commit_env env) inst version parent_state))) (\<lambda>chain_config.
      let validated_state = parent_state\<lparr>state_chain_config := Resolved chain_config\<rparr>;
          snapshot = l1_snapshot (l1_client inst)
      in
      pbind (map_option Ok (get_l1_deposits (l1_client inst) (snap_finalized snapshot) parent_header
               (fee_contract chain_config))) (\<lambda>l1_deposits.
      let missing_accounts = forgotten_accounts F parent_state
            ([bf_account builder_fee, fee_recipient chain_config] @ map fi_account l1_deposits)
      in
      pbind (Some (map_err HeaderApply
               (if missing_accounts = [] then Ok validated_state
                else try_bind (ok_or AccountsFetchFailed
                       (fetch_accounts peers height view
                          (ut_commitment F (fee_merkle_tree parent_state)) missing_accounts)) (\<lambda>proofs.
                     try_bind (remember_proofs F proofs (fee_merkle_tree validated_state)) (\<lambda>t.
                       Ok (validated_state\<lparr>fee_merkle_tree := t\<rparr>)))))) (\<lambda>validated_state.
      pbind (Some (map_err HeaderApply (fetch_frontier env peers height view
               (need_to_fetch_blocks_mt_frontier B validated_state) validated_state))) (\<lambda>validated_state.
      pbind (if \<not> version_ge version EPOCH_VERSION then Some (Ok (None, validated_state))
             else
             pbind (Some (map_err HeaderApply (first_two_epochs (leaf_height parent_leaf + 1) inst))) (\<lambda>first_two.
             if first_two then Some (Ok (None, validated_state))
             else map_option (map_err HeaderApply)
                    (pbind (find_validator_info env inst validated_state parent_leaf view_number)
                       (\<lambda>(validator, state). Some (Ok (Some validator, state)))))) (\<lambda>(leader_config, state).
        from_info env payload_commitment builder_commitment metadata parent_leaf snapshot l1_deposits
          [builder_fee] (system_time env) state chain_config version leader_config))))))"

definition genesis_header ::
  "('t, 'p, 'b) Trees \<Rightarrow> ('k, 's, 't, 'p, 'b) NodeState \<Rightarrow> commitment \<Rightarrow> commitment \<Rightarrow> u8 list \<Rightarrow> Header option" where
  "genesis_header ops inst payload_commitment builder_commitment table =
     (let state = genesis_state inst in
      header_create (node_chain_config inst) 0 (genesis_timestamp inst)
        (case l1_genesis inst of Some block \<Rightarrow> l1b_number block | None \<Rightarrow> 0) (l1_genesis inst)
        payload_commitment builder_commitment table
        (ut_commitment (fee_trees ops) (fee_merkle_tree state))
        (at_commitment (block_trees ops) (block_merkle_tree state))
        (ut_commitment (reward_trees ops) (reward_merkle_tree state))
        [\<lparr>fi_account = 0, fi_amount = 0\<rparr>] [] (current_version inst))"

section \<open>What validation accepts\<close>

lemma abs_diff_le: "abs_diff a b \<le> 12 \<longleftrightarrow> unat a \<le> unat b + 12 \<and> unat b \<le> unat a + 12"
  by (cases "a < b") (auto simp: abs_diff_def word_le_nat_alt word_less_nat_alt unat_sub)

lemma u64_bound: "unat (x :: u64) < 18446744073709551616"
proof -
  have "unat x < 2 ^ LENGTH(64)" by (rule unsigned_less)
  then show ?thesis by simp
qed

lemma unat_ucast_u64: "unat (ucast (x :: u64) :: u256) = unat x"
  using u64_bound [of x] by (simp add: unsigned_ucast_eq take_bit_nat_eq_self)

lemma as_u64_eq: "as_u64 x = (if unat x < 2 ^ 64 then Some (ucast x) else None)"
proof -
  have "unat (ucast (- 1 :: u64) :: u256) = 2 ^ 64 - 1"
    by (simp add: unat_ucast_u64 unsigned_minus_1_eq_mask mask_eq_exp_minus_1)
  then show ?thesis by (auto simp: as_u64_def word_le_nat_alt)
qed

lemma as_u64_Some: "as_u64 x = Some y \<Longrightarrow> unat y = unat x"
  by (auto simp: as_u64_eq unsigned_ucast_eq take_bit_nat_eq_self split: if_splits)

lemma as_u64_ucast [simp]: "as_u64 (ucast (x :: u64)) = Some x"
  using u64_bound [of x] by (simp add: as_u64_eq unat_ucast_u64 unsigned_ucast_eq take_bit_word_eq_self)

lemma fees_amount_single: "fees_amount [fi] = map_option ucast (as_u64 (fi_amount fi))"
  using u64_bound
  by (cases "as_u64 (fi_amount fi)") (simp_all add: fees_amount_def try_sum_def checked_add_def)

lemma header_fee_info_single: "\<exists>fi. header_fee_info h = [fi]"
  by (cases h) (simp_all add: header_fee_info_def)

text \<open>Everything that a header that passes \<open>validate\<close> satisfies.\<close>

definition valid_transition :: "('k, 't, 'p, 'b) SeqEnv \<Rightarrow> ('t, 'b) ValidatedTransition \<Rightarrow> bool" where
  "valid_transition env vt \<longleftrightarrow>
     (let h = prop_header (vt_proposal vt); parent = vt_parent vt; st = vt_state vt;
          bytes = prop_block_size (vt_proposal vt); cfg = vt_expected_chain_config vt in
      header_height h = header_height parent + 1
      \<and> header_timestamp parent \<le> header_timestamp h
      \<and> abs_diff (header_timestamp h) (system_time env) \<le> 12
      \<and> validate_builder_fee (recover_address env) h = Some (Ok ())
      \<and> resolvable_commit (commit_env env) (header_chain_config h) = config_commit (commit_env env) cfg
      \<and> ucast bytes \<le> max_block_size cfg
      \<and> (\<exists>amount. fees_amount (header_fee_info h) = Some amount \<and> base_fee cfg * ucast bytes \<le> amount)
      \<and> header_fee_merkle_tree_root h = ut_commitment (fee_trees (trees env)) (fee_merkle_tree st)
      \<and> header_block_merkle_tree_root h = at_commitment (block_trees (trees env)) (block_merkle_tree st)
      \<and> header_reward_merkle_tree_root (ut_commitment (reward_trees (trees env)) (ut_new (reward_trees (trees env)))) h
          = ut_commitment (reward_trees (trees env)) (reward_merkle_tree st)
      \<and> \<not> l1_less (header_l1_finalized h) (header_l1_finalized parent)
      \<and> header_l1_head parent \<le> header_l1_head h
      \<and> ns_table_validate (header_ns_table h) (unat bytes) = Some (Ok ()))"

lemmas validate_defs = validate_timestamp_def validate_timestamp_non_dec_def validate_timestamp_drift_def
  transition_validate_builder_fee_def validate_height_def validate_chain_config_def
  proposal_validate_chain_config_def validate_block_size_def validate_fee_def validate_fee_merkle_tree_def
  validate_block_merkle_tree_def proposal_validate_block_merkle_tree_def validate_reward_merkle_tree_def
  validate_l1_head_def proposal_validate_l1_head_def validate_namespace_table_def

lemma validate_l1_finalized_Ok: "validate_l1_finalized vt = Some (Ok ()) \<longleftrightarrow>
   \<not> l1_less (header_l1_finalized (prop_header (vt_proposal vt))) (header_l1_finalized (vt_parent vt))"
  by (auto simp: validate_l1_finalized_def Let_def split: option.splits)

lemma if_Err_Ok: "(if b then Inl e else Inr u) = Inr v \<longleftrightarrow> \<not> b \<and> u = v"
  by auto

lemma validate_Ok_iff: "validate env vt = Some (Ok vt') \<longleftrightarrow> vt' = vt \<and> valid_transition env vt"
proof -
  have 1: "validate_timestamp (system_time env) vt = Ok () \<longleftrightarrow>
      header_timestamp (vt_parent vt) \<le> header_timestamp (prop_header (vt_proposal vt))
      \<and> abs_diff (header_timestamp (prop_header (vt_proposal vt))) (system_time env) \<le> 12"
    by (simp add: validate_defs try_bind_Inr_iff if_Err_Ok Let_def not_less)
  have 2: "transition_validate_builder_fee (recover_address env) vt = Some (Ok ()) \<longleftrightarrow>
      validate_builder_fee (recover_address env) (prop_header (vt_proposal vt)) = Some (Ok ())"
    by (simp add: validate_defs map_err_Inr)
  have 3: "validate_fee vt = Ok () \<longleftrightarrow> (\<exists>amount. fees_amount (header_fee_info (prop_header (vt_proposal vt))) = Some amount
      \<and> base_fee (vt_expected_chain_config vt) * ucast (prop_block_size (vt_proposal vt)) \<le> amount)"
    by (auto simp: validate_fee_def Let_def not_less split: option.splits)
  have 4: "validate_namespace_table vt = Some (Ok ()) \<longleftrightarrow>
      ns_table_validate (header_ns_table (prop_header (vt_proposal vt))) (unat (prop_block_size (vt_proposal vt))) = Some (Ok ())"
    by (simp add: validate_defs map_err_Inr)
  show ?thesis
    unfolding validate_def valid_transition_def Let_def
    by (simp add: pbind_Ok_iff 1 2 3 4 validate_l1_finalized_Ok, simp add: validate_defs if_Err_Ok Let_def not_less)
      blast
qed

section \<open>What applying a header does\<close>

lemma find_validator_info_Ok:
  assumes "find_validator_info env inst st leaf view = Some (Ok (v, st'))"
  shows "st' = st\<lparr>reward_merkle_tree := reward_merkle_tree st'\<rparr>"
  using assms
  by (auto simp: find_validator_info_def Let_def pbind_Ok_iff split: if_splits)

lemma distribute_rewards_Ok:
  assumes "distribute_rewards R v (st, \<delta>) = Ok (st', \<delta>')"
  shows "st' = st\<lparr>reward_merkle_tree := reward_merkle_tree st'\<rparr>"
    "apply_rewards R v (reward_merkle_tree st) = Ok (reward_merkle_tree st')"
    "fees_delta \<delta>' = fees_delta \<delta>"
  using assms by (auto simp: distribute_rewards_def try_bind_Inr_iff)

lemma reward_stage_Ok:
  assumes "reward_stage env inst leaf version view (st, \<delta>) = Some (Ok (st', \<delta>'))"
  shows "st' = st\<lparr>reward_merkle_tree := reward_merkle_tree st'\<rparr>" "fees_delta \<delta>' = fees_delta \<delta>"
proof -
  have "st' = st\<lparr>reward_merkle_tree := reward_merkle_tree st'\<rparr> \<and> fees_delta \<delta>' = fees_delta \<delta>"
  proof (cases "(st', \<delta>') = (st, \<delta>)")
    case False
    then obtain v s where "find_validator_info env inst st leaf view = Some (Ok (v, s))"
      "distribute_rewards (reward_trees (trees env)) v (s, \<delta>) = Ok (st', \<delta>')"
      using assms by (auto simp: reward_stage_def pbind_Ok_iff map_err_Inr split: if_splits)
    then show ?thesis
      using find_validator_info_Ok distribute_rewards_Ok(1,3)
      by (metis (no_types, lifting) ValidatedState.surjective ValidatedState.update_convs(3))
  qed simp
  then show "st' = st\<lparr>reward_merkle_tree := reward_merkle_tree st'\<rparr>" "fees_delta \<delta>' = fees_delta \<delta>"
    by simp_all
qed

lemma apply_proposal_Some:
  assumes "apply_proposal F B c ds (st, \<delta>) = Some (st', \<delta>')"
  shows "at_push B (block_merkle_tree st) c = Some (block_merkle_tree st')"
    "st' = st\<lparr>block_merkle_tree := block_merkle_tree st', fee_merkle_tree := fee_merkle_tree st'\<rparr>"
proof -
  obtain b where b: "at_push B (block_merkle_tree st) c = Some b"
    "apply_deposits F ds (st\<lparr>block_merkle_tree := b\<rparr>, \<delta>) = Some (st', \<delta>')"
    using assms by (auto simp: apply_proposal_def split: option.splits)
  have st': "st' = st\<lparr>block_merkle_tree := b\<rparr>\<lparr>fee_merkle_tree := fee_merkle_tree st'\<rparr>"
    using apply_deposits_run [OF b(2)] by blast
  then have "block_merkle_tree st' = b" by (metis ValidatedState.select_convs(1) ValidatedState.surjective
        ValidatedState.update_convs(1,2))
  with b(1) st' show "at_push B (block_merkle_tree st) c = Some (block_merkle_tree st')"
    "st' = st\<lparr>block_merkle_tree := block_merkle_tree st', fee_merkle_tree := fee_merkle_tree st'\<rparr>"
    by simp_all
qed

lemma apply_header_Ok:
  assumes "apply_header env inst peers leaf h version view st = Some (Ok (st', \<delta>))"
  obtains cfg deposits vs st1 \<delta>1 st2 \<delta>2 where
    "state_get_chain_config (commit_env env) inst peers (header_chain_config h)
       (apply_upgrade inst version st) = Ok cfg"
    "get_l1_deposits (l1_client inst) (header_l1_finalized h) (hdr_fields (block_header leaf))
       (fee_contract cfg) = Some deposits"
    "state_chain_config vs = Resolved cfg"
    "forgotten_accounts (fee_trees (trees env)) st
       (fee_recipient cfg # fees_accounts (header_fee_info h) @ fees_accounts deposits) = []
       \<Longrightarrow> fee_merkle_tree vs = fee_merkle_tree st"
    "reward_merkle_tree vs = reward_merkle_tree st"
    "apply_proposal (fee_trees (trees env)) (block_trees (trees env))
       (header_commit (commit_env env) (hdr_fields (block_header leaf))) deposits (vs, delta_default)
       = Some (st1, \<delta>1)"
    "charge_fees (fee_trees (trees env)) (header_fee_info h) (fee_recipient cfg) (st1, \<delta>1) = Ok (st2, \<delta>2)"
    "reward_stage env inst leaf version view (st2, \<delta>2) = Some (Ok (st', \<delta>))"
proof -
  let ?F = "fee_trees (trees env)"
  obtain cfg where cfg: "state_get_chain_config (commit_env env) inst peers (header_chain_config h)
       (apply_upgrade inst version st) = Ok cfg"
    using assms by (auto simp: apply_header_def Let_def pbind_Ok_iff)
  let ?vs0 = "if Some cfg \<noteq> resolve (state_chain_config (apply_upgrade inst version st))
      then (apply_upgrade inst version st)\<lparr>state_chain_config := Resolved cfg\<rparr> else apply_upgrade inst version st"
  obtain deposits vs1 vs st1 \<delta>1 st2 \<delta>2 where
    d: "get_l1_deposits (l1_client inst) (header_l1_finalized h) (hdr_fields (block_header leaf))
       (fee_contract cfg) = Some deposits"
    and vs1: "fetch_frontier env peers (leaf_height leaf) (leaf_view_number leaf)
       (need_to_fetch_blocks_mt_frontier (block_trees (trees env)) st) ?vs0 = Ok vs1"
    and vs: "fetch_fee_accounts ?F peers (leaf_height leaf) (leaf_view_number leaf)
       (forgotten_accounts ?F st (fee_recipient cfg # fees_accounts (header_fee_info h) @ fees_accounts deposits)) vs1
       = Some (Ok vs)"
    and rest: "apply_proposal ?F (block_trees (trees env))
       (header_commit (commit_env env) (hdr_fields (block_header leaf))) deposits (vs, delta_default)
       = Some (st1, \<delta>1)"
    "charge_fees ?F (header_fee_info h) (fee_recipient cfg) (st1, \<delta>1) = Ok (st2, \<delta>2)"
    "reward_stage env inst leaf version view (st2, \<delta>2) = Some (Ok (st', \<delta>))"
    using assms cfg by (auto simp: apply_header_def Let_def pbind_Ok_iff map_err_Inr)
  have vs0: "state_chain_config ?vs0 = Resolved cfg" "fee_merkle_tree ?vs0 = fee_merkle_tree st"
    "reward_merkle_tree ?vs0 = reward_merkle_tree st"
    by (auto simp: resolve_def apply_upgrade_def split: ResolvableChainConfig.splits option.splits)
  have vs1': "state_chain_config vs1 = Resolved cfg" "fee_merkle_tree vs1 = fee_merkle_tree st"
    "reward_merkle_tree vs1 = reward_merkle_tree st"
    using vs1 vs0 by (auto simp: fetch_frontier_def split: if_splits option.splits)
  have "state_chain_config vs = Resolved cfg" "reward_merkle_tree vs = reward_merkle_tree st"
    and "forgotten_accounts ?F st (fee_recipient cfg # fees_accounts (header_fee_info h) @ fees_accounts deposits) = []
       \<Longrightarrow> fee_merkle_tree vs = fee_merkle_tree st"
    using vs vs1' by (auto simp: fetch_fee_accounts_def pbind_Ok_iff split: if_splits)
  with that cfg d rest show thesis by blast
qed

lemma apply_header_config:
  assumes "apply_header env inst peers leaf h version view st = Some (Ok (st', \<delta>))"
  shows "\<exists>cfg. state_chain_config st' = Resolved cfg"
  using apply_header_Ok [OF assms] apply_proposal_Some(2) charge_fees_run reward_stage_Ok(1)
  by (metis (no_types, lifting) ValidatedState.select_convs(4) ValidatedState.surjective
      ValidatedState.update_convs(1,2,3))

lemma set_unique [simp]: "set (unique xs) = set xs"
  by (simp add: unique_def)

lemma forgotten_Nil_iff: "forgotten T t xs = [] \<longleftrightarrow> (\<forall>a \<in> set xs. in_memory T t a)"
  by (auto simp: forgotten_def filter_empty_conv)

lemma set_fees_accounts [simp]: "set (fees_accounts fees) = fi_account ` set fees"
  by (simp add: fees_accounts_def)

lemma validate_and_apply_header_Ok:
  assumes "validate_and_apply_header env inst leaf h bytes version view st = Some (Ok (st', \<delta>))"
  obtains cfg where
    "apply_header env inst (state_catchup inst) leaf h version view st = Some (Ok (st', \<delta>))"
    "state_chain_config st' = Resolved cfg"
    "valid_transition env \<lparr>vt_state = st', vt_expected_chain_config = cfg,
       vt_parent = hdr_fields (block_header leaf), vt_proposal = \<lparr>prop_header = h, prop_block_size = bytes\<rparr>\<rparr>"
    "\<And>b. header_l1_finalized h = Some b \<Longrightarrow> l1_finalized_block (l1_client inst) (l1b_number b) = b"
proof -
  obtain s \<delta>' where a: "apply_header env inst (state_catchup inst) leaf h version view st = Some (Ok (s, \<delta>'))"
    using assms by (auto simp: validate_and_apply_header_def pbind_Ok_iff map_err_Inr)
  obtain cfg where cfg: "state_chain_config s = Resolved cfg" using apply_header_config [OF a] by blast
  let ?vt = "\<lparr>vt_state = s, vt_expected_chain_config = cfg,
       vt_parent = hdr_fields (block_header leaf), vt_proposal = \<lparr>prop_header = h, prop_block_size = bytes\<rparr>\<rparr>"
  have "transition_new s (hdr_fields (block_header leaf)) \<lparr>prop_header = h, prop_block_size = bytes\<rparr> = Some ?vt"
    by (simp add: transition_new_def cfg resolve_def)
  then have "s = st'" "\<delta>' = \<delta>" "valid_transition env ?vt" "wait_for_l1 (l1_client inst) ?vt = Ok ?vt"
    using assms a
    by (auto simp: validate_and_apply_header_def pbind_Ok_iff map_err_Inr validate_Ok_iff wait_for_l1_def
        try_bind_Inr_iff)
  then show thesis
    using that [of cfg] a cfg
    by (auto simp: wait_for_l1_def wait_for_finalized_block_def try_bind_Inr_iff if_Err_Ok split: option.splits)
qed

lemma header_signature_cases: "header_builder_signature h = [] \<or> (\<exists>s. header_builder_signature h = [s])"
  unfolding header_builder_signature_def Let_def
  by (metis (no_types, lifting) option.exhaust option.simps(4) option.simps(5))

lemma check_fees_single:
  "check_fees recover h [(fi, sig)] = Some (Ok ()) \<Longrightarrow> as_u64 (fi_amount fi) = Some amount \<Longrightarrow>
     fee_signature_ok recover (fi_account fi) sig amount (header_metadata h) (header_payload_commitment h)
       = Some True"
  by (auto split: option.splits bool.splits)

text \<open>
  C7: A header that a replica accepts is sound. Its height is one above the parent's; its timestamp is
  not below the parent's and within 12 seconds of the local clock; it commits to the chain
  configuration of the resulting state; the payload fits in the block bytes and the fee, a \<open>u64\<close>, pays for
  it; its three Merkle roots are those of the resulting state; its L1 references do not go back and the
  finalized L1 block is the one that the replica sees; its namespace table is valid; and a builder
  signature, if there is one, is the payer's over this fee.
\<close>

theorem accepted_header_sound:
  assumes "validate_and_apply_header env inst leaf h bytes version view st = Some (Ok (st', \<delta>))"
    and "parent = hdr_fields (block_header leaf)"
  shows "header_height h = header_height parent + 1
    \<and> header_timestamp parent \<le> header_timestamp h
    \<and> unat (header_timestamp h) \<le> unat (system_time env) + 12
    \<and> unat (system_time env) \<le> unat (header_timestamp h) + 12
    \<and> (\<exists>cfg. state_chain_config st' = Resolved cfg
        \<and> resolvable_commit (commit_env env) (header_chain_config h) = config_commit (commit_env env) cfg
        \<and> unat bytes \<le> unat (max_block_size cfg)
        \<and> (\<forall>fi \<in> set (header_fee_info h). unat (fi_amount fi) < 2 ^ 64
             \<and> base_fee cfg * ucast bytes \<le> fi_amount fi
             \<and> (\<forall>sig \<in> set (header_builder_signature h).
                  fee_signature_ok (recover_address env) (fi_account fi) sig (ucast (fi_amount fi))
                    (header_metadata h) (header_payload_commitment h) = Some True)))
    \<and> header_fee_merkle_tree_root h = ut_commitment (fee_trees (trees env)) (fee_merkle_tree st')
    \<and> header_block_merkle_tree_root h = at_commitment (block_trees (trees env)) (block_merkle_tree st')
    \<and> header_reward_merkle_tree_root (ut_commitment (reward_trees (trees env)) (ut_new (reward_trees (trees env)))) h
        = ut_commitment (reward_trees (trees env)) (reward_merkle_tree st')
    \<and> \<not> l1_less (header_l1_finalized h) (header_l1_finalized parent)
    \<and> header_l1_head parent \<le> header_l1_head h
    \<and> (\<forall>b. header_l1_finalized h = Some b \<longrightarrow> l1_finalized_block (l1_client inst) (l1b_number b) = b)
    \<and> ns_table_validate (header_ns_table h) (unat bytes) = Some (Ok ())"
proof -
  obtain cfg where cfg: "state_chain_config st' = Resolved cfg"
    and vt: "valid_transition env \<lparr>vt_state = st', vt_expected_chain_config = cfg,
       vt_parent = parent, vt_proposal = \<lparr>prop_header = h, prop_block_size = bytes\<rparr>\<rparr>"
    and l1: "\<And>b. header_l1_finalized h = Some b \<Longrightarrow> l1_finalized_block (l1_client inst) (l1b_number b) = b"
    using validate_and_apply_header_Ok [OF assms(1)] assms(2) by metis
  obtain fi where fi: "header_fee_info h = [fi]" using header_fee_info_single by blast
  from vt obtain amount where amount: "as_u64 (fi_amount fi) = Some amount"
    "base_fee cfg * ucast bytes \<le> ucast amount"
    by (auto simp: valid_transition_def fi fees_amount_single)
  then have fits: "unat (fi_amount fi) < 2 ^ 64" "amount = ucast (fi_amount fi)"
    by (auto simp: as_u64_eq split: if_splits)
  then have fee: "base_fee cfg * ucast bytes \<le> fi_amount fi"
    using amount by (simp add: word_le_nat_alt unat_ucast_u64 as_u64_Some)
  have bytes: "unat bytes \<le> unat (max_block_size cfg)"
    using vt by (simp add: valid_transition_def word_le_nat_alt unsigned_ucast_eq take_bit_nat_eq_self
        order.strict_trans [OF unsigned_less])
  have sig: "fee_signature_ok (recover_address env) (fi_account fi) sig (ucast (fi_amount fi))
                    (header_metadata h) (header_payload_commitment h) = Some True"
    if "sig \<in> set (header_builder_signature h)" for sig
  proof -
    have "header_builder_signature h = [sig]"
      using that header_signature_cases [of h] by auto
    then have "check_fees (recover_address env) h [(fi, sig)] = Some (Ok ())"
      using vt by (simp add: valid_transition_def validate_builder_fee_def fi)
    then show ?thesis using check_fees_single amount(1) fits(2) by blast
  qed
  show ?thesis
    using vt cfg l1 fits fee bytes sig
    by (simp add: valid_transition_def fi abs_diff_le)
qed

text \<open>
  C24: An accepted header settles the fees exactly. When the accounts it touches are in memory, every
  account's balance in the resulting fee ledger is the old one plus its L1 deposits minus the fee it
  pays, the recipient of the chain configuration receives the fee, the total grows by the deposits
  alone, the fee root of the header commits to this ledger, and every changed account is in the delta.
\<close>

theorem accepted_header_settles_fees:
  assumes "validate_and_apply_header env inst leaf h bytes version view st = Some (Ok (st', \<delta>))"
    and "tree_laws (fee_trees (trees env))"
    and "state_chain_config st' = Resolved cfg"
    and "get_l1_deposits (l1_client inst) (header_l1_finalized h) (hdr_fields (block_header leaf))
           (fee_contract cfg) = Some deposits"
    and "\<forall>a \<in> insert (fee_recipient cfg) (fi_account ` set (header_fee_info h @ deposits)).
           in_memory (fee_trees (trees env)) (fee_merkle_tree st) a"
    and "ledger_total (fee_trees (trees env)) (fee_merkle_tree st) + fees_total deposits < 2 ^ 256"
  shows "(\<forall>a. int (balances (fee_trees (trees env)) (fee_merkle_tree st') a)
         = int (balances (fee_trees (trees env)) (fee_merkle_tree st) a)
           + int (paid_to a deposits) - int (paid_to a (header_fee_info h))
           + (if a = fee_recipient cfg then int (fees_total (header_fee_info h)) else 0))
     \<and> ledger_total (fee_trees (trees env)) (fee_merkle_tree st')
         = ledger_total (fee_trees (trees env)) (fee_merkle_tree st) + fees_total deposits
     \<and> header_fee_merkle_tree_root h = ut_commitment (fee_trees (trees env)) (fee_merkle_tree st')
     \<and> {a. balances (fee_trees (trees env)) (fee_merkle_tree st') a
           \<noteq> balances (fee_trees (trees env)) (fee_merkle_tree st) a} \<subseteq> fees_delta \<delta>"
proof -
  let ?F = "fee_trees (trees env)"
  obtain cfg' where a: "apply_header env inst (state_catchup inst) leaf h version view st = Some (Ok (st', \<delta>))"
    and cfg': "state_chain_config st' = Resolved cfg'"
    and vt: "valid_transition env \<lparr>vt_state = st', vt_expected_chain_config = cfg',
       vt_parent = hdr_fields (block_header leaf), vt_proposal = \<lparr>prop_header = h, prop_block_size = bytes\<rparr>\<rparr>"
    using validate_and_apply_header_Ok [OF assms(1)] by metis
  obtain c ds vs st1 \<delta>1 st2 \<delta>2 where
    d: "get_l1_deposits (l1_client inst) (header_l1_finalized h) (hdr_fields (block_header leaf))
       (fee_contract c) = Some ds"
    and vs: "state_chain_config vs = Resolved c"
      "forgotten_accounts ?F st (fee_recipient c # fees_accounts (header_fee_info h) @ fees_accounts ds) = []
       \<Longrightarrow> fee_merkle_tree vs = fee_merkle_tree st"
    and p: "apply_proposal ?F (block_trees (trees env))
       (header_commit (commit_env env) (hdr_fields (block_header leaf))) ds (vs, delta_default) = Some (st1, \<delta>1)"
    and f: "charge_fees ?F (header_fee_info h) (fee_recipient c) (st1, \<delta>1) = Ok (st2, \<delta>2)"
    and r: "reward_stage env inst leaf version view (st2, \<delta>2) = Some (Ok (st', \<delta>))"
    using apply_header_Ok [OF a] by metis
  have "state_chain_config st' = state_chain_config vs"
    using reward_stage_Ok(1) [OF r] charge_fees_run [OF f] apply_proposal_Some(2) [OF p]
    by (metis (no_types, lifting) ValidatedState.select_convs(4) ValidatedState.surjective
      ValidatedState.update_convs(1,2,3))
  then have c: "c = cfg" using vs(1) assms(3) by simp
  then have ds: "ds = deposits" using d assms(4) by simp
  have tree: "fee_merkle_tree vs = fee_merkle_tree st"
    using assms(5) by (intro vs(2)) (auto simp: forgotten_accounts_def forgotten_Nil_iff c ds)
  have fee': "fee_merkle_tree st' = fee_merkle_tree st2"
    using reward_stage_Ok(1) [OF r]
    by (metis ValidatedState.select_convs(2) ValidatedState.surjective ValidatedState.update_convs(3))
  show ?thesis
    using fee_ledger_exact [OF assms(2) _ p f] assms(6) vt reward_stage_Ok(2) [OF r]
    by (simp add: c ds tree fee' valid_transition_def Let_def)
qed

section \<open>A proposed header is accepted\<close>

lemma insert_fee_deposits_apply:
  "insert_fee_deposits F ds (fee_merkle_tree st) = Ok t \<Longrightarrow>
     \<exists>\<delta>'. apply_deposits F ds (st, \<delta>) = Some (st\<lparr>fee_merkle_tree := t\<rparr>, \<delta>')"
proof (induction ds arbitrary: st \<delta>)
  case (Cons fi ds)
  then obtain t1 where t1: "insert_fee_deposit F fi (fee_merkle_tree st) = Some t1"
    "insert_fee_deposits F ds t1 = Ok t"
    by (auto simp: try_bind_Inr_iff ok_or_Ok_iff)
  then show ?case
    using Cons.IH [of "st\<lparr>fee_merkle_tree := t1\<rparr>"] by (simp add: insert_fee_deposit_def)
qed simp

lemma find_validator_info_reward_tree:
  assumes "find_validator_info env inst s leaf view = Some (Ok (v, s1))"
    and "reward_merkle_tree s' = reward_merkle_tree s"
  shows "find_validator_info (env\<lparr>system_time := now\<rparr>) (inst\<lparr>l1_client := l1\<rparr>) s' leaf view
     = Some (Ok (v, s'\<lparr>reward_merkle_tree := reward_merkle_tree s1\<rparr>))"
proof -
  let ?R = "reward_trees (trees env)"
  obtain eh leader where eh: "node_epoch_height inst = Some eh" "eh \<noteq> 0"
    and mem: "has_membership (coordinator inst) (epoch_from_block_number (leaf_height leaf + 1) eh)"
    and leader: "lookup_leader (hash_env env) (coordinator inst) view
       (Some (epoch_from_block_number (leaf_height leaf + 1) eh)) = Some (Ok leader)"
    and v: "get_validator_config (coordinator inst) (epoch_from_block_number (leaf_height leaf + 1) eh) leader = Ok v"
    using assms(1)
    by (auto simp: find_validator_info_def Let_def pbind_Ok_iff ok_or_Ok_iff map_err_Inr split: if_splits)
  have s': "s'\<lparr>reward_merkle_tree := reward_merkle_tree s\<rparr> = s'" using assms(2) by simp
  show ?thesis
    using assms s' unfolding find_validator_info_def Let_def
    by (simp add: eh mem leader v forgotten_reward_accounts_def pbind_Ok_iff split: if_splits)
      (auto simp: ok_or_Ok_iff)
qed

lemma deposits_of_clamped_block:
  assumes "get_l1_deposits l1 fin parent fc = Some ds"
    and "fin' = (if l1_less fin (header_l1_finalized parent) then header_l1_finalized parent else fin)"
    and "get_finalized_deposits l1' = get_finalized_deposits l1"
  shows "get_l1_deposits l1' fin' parent fc = Some ds"
  using assms
  by (cases fin; cases "header_l1_finalized parent")
    (auto simp: get_l1_deposits_def get_finalized_deposits_def split: option.splits if_splits)

lemma proposal_config_accepted:
  assumes "proposal_chain_config cenv inst version st = Ok cfg" "state_chain_config st = Resolved c0"
    and "config_commit cenv cfg = config_commit cenv (node_chain_config inst) \<Longrightarrow> cfg = node_chain_config inst"
  shows "state_get_chain_config cenv (inst\<lparr>l1_client := l1\<rparr>) peers hc (apply_upgrade (inst\<lparr>l1_client := l1\<rparr>) version st) = Ok cfg"
  using assms
  by (auto simp: proposal_chain_config_def header_get_chain_config_def state_get_chain_config_def
      apply_upgrade_def resolvable_commit_def resolve_def Let_def split: if_splits option.splits)

lemma header_create_getters:
  assumes "header_create cfg height ts head fin pc bc table fr br rr fis sigs version = Some h"
  shows "header_height h = height" "header_timestamp h = ts" "header_l1_head h = head"
    "header_l1_finalized h = fin" "header_payload_commitment h = pc" "header_ns_table h = table"
    "header_fee_merkle_tree_root h = fr" "header_block_merkle_tree_root h = br"
    "header_fee_info h = [hd fis]" "header_builder_signature h = take 1 sigs"
    "version = (0, 3) \<Longrightarrow> header_reward_merkle_tree_root e h = rr"
    "version \<noteq> (0, 3) \<Longrightarrow> header_reward_merkle_tree_root e h = e"
    "version = (0, 3) \<or> stake_table_contract cfg = None \<Longrightarrow>
       resolvable_commit env (header_chain_config h) = config_commit env cfg"
  using assms
  by (auto simp: header_create_def Let_def header_getters header_reward_merkle_tree_root_def hd_conv_nth
      resolvable_of_v1_def resolvable_commit_def config_of_v1_to_v1 [THEN iffD2] prod_eq_iff
      split: if_splits list.splits)

lemma l1_less_clamped: "\<not> l1_less (if l1_less a b then b else a) b"
  by (cases a; cases b) auto

lemma from_info_Ok:
  assumes "from_info env pc bc table leaf l1 ds [fee] now st cfg version leader = Some (Ok h)"
  obtains blocks fees0 fees rewards ts where
    "at_push (block_trees (trees env)) (block_merkle_tree st)
       (header_commit (commit_env env) (hdr_fields (block_header leaf))) = Some blocks"
    "insert_fee_deposits (fee_trees (trees env)) ds (fee_merkle_tree st) = Ok fees0"
    "fee_signature_ok (recover_address env) (bf_account fee) (bf_signature fee) (bf_amount fee) table pc = Some True"
    "charge_fee (fee_trees (trees env)) (fee_info_of_builder fee) (fee_recipient cfg) fees0 = Ok fees"
    "case leader of None \<Rightarrow> rewards = reward_merkle_tree st
       | Some v \<Rightarrow> apply_rewards (reward_trees (trees env)) v (reward_merkle_tree st) = Ok rewards"
    "header_timestamp (hdr_fields (block_header leaf)) \<le> ts"
    "header_create cfg (header_height (hdr_fields (block_header leaf)) + 1) ts
       (if snap_head l1 < header_l1_head (hdr_fields (block_header leaf))
        then header_l1_head (hdr_fields (block_header leaf)) else snap_head l1)
       (if l1_less (snap_finalized l1) (header_l1_finalized (hdr_fields (block_header leaf)))
        then header_l1_finalized (hdr_fields (block_header leaf)) else snap_finalized l1)
       pc bc table (ut_commitment (fee_trees (trees env)) fees) (at_commitment (block_trees (trees env)) blocks)
       (ut_commitment (reward_trees (trees env)) rewards) [fee_info_of_builder fee] [bf_signature fee]
       version = Some h"
proof -
  let ?parent = "hdr_fields (block_header leaf)"
  let ?fin = "if l1_less (snap_finalized l1) (header_l1_finalized ?parent) then header_l1_finalized ?parent else snap_finalized l1"
  let ?now = "if now < header_timestamp ?parent then header_timestamp ?parent else now"
  let ?ts = "case ?fin of None \<Rightarrow> Some ?now
     | Some b \<Rightarrow> map_option (\<lambda>t. if ?now < t then t else ?now) (to_u64 (l1b_timestamp b))"
  have "\<exists>ts. ?ts = Some ts" using assms by (auto simp: from_info_def Let_def split: option.splits if_splits)
  then obtain ts where ts: "?ts = Some ts" by blast
  have "header_timestamp ?parent \<le> ts"
    using ts by (auto simp: not_less split: option.splits if_splits)
  moreover have "charge_builder_fees env table pc r [fee] t = Some (Ok t') \<longleftrightarrow>
     fee_signature_ok (recover_address env) (bf_account fee) (bf_signature fee) (bf_amount fee) table pc = Some True
     \<and> charge_fee (fee_trees (trees env)) (fee_info_of_builder fee) r t = Ok t'" for r t t'
    by (auto simp: pbind_Ok_iff map_err_Inr split: option.splits bool.splits)
  ultimately show thesis
    using assms that ts
    by (auto simp: from_info_def Let_def pbind_Ok_iff ok_or_Ok_iff map_err_Inr
        simp del: charge_builder_fees.simps split: if_splits option.splits)
qed

text \<open>The leader whose validator is paid, and the state with its accounts in memory.\<close>

definition reward_leader ::
  "('k, 't, 'p, 'b) SeqEnv \<Rightarrow> ('k, 's, 't, 'p, 'b) NodeState \<Rightarrow> ('g, Header) Leaf2 \<Rightarrow> Version \<Rightarrow> u64
     \<Rightarrow> ('t, 'b) ValidatedState \<Rightarrow> ('k, 's) Validator option \<Rightarrow> ('t, 'b) ValidatedState \<Rightarrow> bool" where
  "reward_leader env inst leaf version view st leader s \<longleftrightarrow>
     (if \<not> version_ge version EPOCH_VERSION \<or> first_two_epochs (leaf_height leaf + 1) inst = Ok True
      then leader = None \<and> s = st
      else first_two_epochs (leaf_height leaf + 1) inst = Ok False
        \<and> (\<exists>v. leader = Some v \<and> find_validator_info env inst st leaf view = Some (Ok (v, s))))"

lemma header_new_Ok:
  assumes "header_new env st inst leaf pc bc md fee version view = Some (Ok h)"
    and "proposal_chain_config (commit_env env) inst version st = Ok cfg"
    and "get_l1_deposits (l1_client inst) (snap_finalized (l1_snapshot (l1_client inst)))
           (hdr_fields (block_header leaf)) (fee_contract cfg) = Some ds"
    and "\<forall>a \<in> {bf_account fee, fee_recipient cfg} \<union> fi_account ` set ds.
           in_memory (fee_trees (trees env)) (fee_merkle_tree st) a"
    and "\<not> need_to_fetch_blocks_mt_frontier (block_trees (trees env)) st"
  obtains leader s where
    "reward_leader env inst leaf version view (st\<lparr>state_chain_config := Resolved cfg\<rparr>) leader s"
    "from_info env pc bc md leaf (l1_snapshot (l1_client inst)) ds [fee] (system_time env) s cfg version leader
       = Some (Ok h)"
proof -
  have mem: "forgotten_accounts (fee_trees (trees env)) st
      (bf_account fee # fee_recipient cfg # map fi_account ds) = []"
    using assms(4) by (auto simp: forgotten_accounts_def forgotten_Nil_iff)
  have frontier: "\<not> need_to_fetch_blocks_mt_frontier (block_trees (trees env)) (st\<lparr>state_chain_config := Resolved cfg\<rparr>)"
    using assms(5) by (simp add: need_to_fetch_blocks_mt_frontier_def Let_def split: if_splits)
  obtain leader s where
    1: "(if \<not> version_ge version EPOCH_VERSION then Some (Ok (None, st\<lparr>state_chain_config := Resolved cfg\<rparr>))
             else
             pbind (Some (map_err HeaderApply (first_two_epochs (leaf_height leaf + 1) inst))) (\<lambda>first_two.
             if first_two then Some (Ok (None, st\<lparr>state_chain_config := Resolved cfg\<rparr>))
             else map_option (map_err HeaderApply)
                    (pbind (find_validator_info env inst (st\<lparr>state_chain_config := Resolved cfg\<rparr>) leaf view)
                       (\<lambda>(validator, state). Some (Ok (Some validator, state))))))
       = Some (Ok (leader, s))"
    and 2: "from_info env pc bc md leaf (l1_snapshot (l1_client inst)) ds [fee] (system_time env) s cfg version leader
       = Some (Ok h)"
    using assms(1) mem frontier unfolding header_new_def
    by (auto simp: Let_def assms(2,3) pbind_Ok_iff fetch_frontier_def)
  have "reward_leader env inst leaf version view (st\<lparr>state_chain_config := Resolved cfg\<rparr>) leader s"
    using 1 unfolding reward_leader_def
    by (auto simp: pbind_Ok_iff map_err_Inr split: if_splits)
  with 2 that show thesis by blast
qed

lemma first_two_epochs_l1 [simp]: "first_two_epochs n (inst\<lparr>l1_client := l1\<rparr>) = first_two_epochs n inst"
  by (simp add: first_two_epochs_def)

lemma reward_stage_of_leader:
  assumes "reward_leader env inst leaf version view st leader s"
    and "case leader of None \<Rightarrow> rewards = reward_merkle_tree s
       | Some v \<Rightarrow> apply_rewards (reward_trees (trees env)) v (reward_merkle_tree s) = Ok rewards"
    and "reward_merkle_tree st2 = reward_merkle_tree st"
  shows "\<exists>\<delta>'. reward_stage (env\<lparr>system_time := now\<rparr>) (inst\<lparr>l1_client := l1\<rparr>) leaf version view (st2, \<delta>)
     = Some (Ok (st2\<lparr>reward_merkle_tree := rewards\<rparr>, \<delta>'))"
proof (cases leader)
  case None
  then have "s = st" and cond: "\<not> version_ge version EPOCH_VERSION \<or> first_two_epochs (leaf_height leaf + 1) inst = Ok True"
    using assms(1) by (auto simp: reward_leader_def split: if_splits)
  then have "st2\<lparr>reward_merkle_tree := rewards\<rparr> = st2" using assms(2,3) None by simp
  then show ?thesis using cond by (auto simp: reward_stage_def)
next
  case (Some v)
  then have f: "find_validator_info env inst st leaf view = Some (Ok (v, s))"
    and cond: "version_ge version EPOCH_VERSION" "first_two_epochs (leaf_height leaf + 1) inst = Ok False"
    using assms(1) by (auto simp: reward_leader_def split: if_splits)
  show ?thesis
    using assms(2) Some cond find_validator_info_reward_tree [OF f assms(3)]
    by (simp add: reward_stage_def distribute_rewards_def)
qed

lemma apply_header_of_proposal:
  assumes cfg: "state_get_chain_config (commit_env env) inst (state_catchup inst) (header_chain_config h)
       (apply_upgrade inst version st) = Ok cfg"
    and ds: "get_l1_deposits (l1_client inst) (header_l1_finalized h) (hdr_fields (block_header leaf))
       (fee_contract cfg) = Some ds"
    and mem: "\<forall>a \<in> {fee_recipient cfg} \<union> fi_account ` set (header_fee_info h @ ds).
       in_memory (fee_trees (trees env)) (fee_merkle_tree st) a"
    and frontier: "\<not> need_to_fetch_blocks_mt_frontier (block_trees (trees env)) st"
    and push: "at_push (block_trees (trees env)) (block_merkle_tree st)
       (header_commit (commit_env env) (hdr_fields (block_header leaf))) = Some blocks"
    and dep: "insert_fee_deposits (fee_trees (trees env)) ds (fee_merkle_tree st) = Ok fees0"
    and fi: "header_fee_info h = [fi]" "charge_fee (fee_trees (trees env)) fi (fee_recipient cfg) fees0 = Ok fees"
    and rewards: "\<And>st2 \<delta>. reward_merkle_tree st2 = reward_merkle_tree st \<Longrightarrow>
       \<exists>\<delta>'. reward_stage env inst leaf version view (st2, \<delta>) = Some (Ok (st2\<lparr>reward_merkle_tree := rewards\<rparr>, \<delta>'))"
  shows "\<exists>\<delta>. apply_header env inst (state_catchup inst) leaf h version view st
     = Some (Ok (\<lparr>block_merkle_tree = blocks, fee_merkle_tree = fees, reward_merkle_tree = rewards,
                  state_chain_config = Resolved cfg\<rparr>, \<delta>))"
proof -
  let ?u = "apply_upgrade inst version st"
  let ?vs = "if Some cfg \<noteq> resolve (state_chain_config ?u) then ?u\<lparr>state_chain_config := Resolved cfg\<rparr> else ?u"
  have vs: "?vs = st\<lparr>state_chain_config := Resolved cfg\<rparr>"
    by (cases st) (auto simp: resolve_def apply_upgrade_def split: ResolvableChainConfig.splits option.splits)
  have mem': "forgotten_accounts (fee_trees (trees env)) st
      (fee_recipient cfg # fees_accounts (header_fee_info h) @ fees_accounts ds) = []"
    using mem by (auto simp: forgotten_accounts_def forgotten_Nil_iff)
  let ?st1 = "st\<lparr>state_chain_config := Resolved cfg, block_merkle_tree := blocks\<rparr>"
  obtain \<delta>1 where d1: "apply_deposits (fee_trees (trees env)) ds (?st1, delta_default) = Some (?st1\<lparr>fee_merkle_tree := fees0\<rparr>, \<delta>1)"
    using insert_fee_deposits_apply [of _ ds ?st1] dep by fastforce
  obtain \<delta>2 where d2: "charge_fees (fee_trees (trees env)) (header_fee_info h) (fee_recipient cfg) (?st1\<lparr>fee_merkle_tree := fees0\<rparr>, \<delta>1)
      = Ok (?st1\<lparr>fee_merkle_tree := fees\<rparr>, \<delta>2)"
    using fi by simp
  obtain \<delta>3 where d3: "reward_stage env inst leaf version view (?st1\<lparr>fee_merkle_tree := fees\<rparr>, \<delta>2)
      = Some (Ok (?st1\<lparr>fee_merkle_tree := fees, reward_merkle_tree := rewards\<rparr>, \<delta>3))"
    using rewards [of "?st1\<lparr>fee_merkle_tree := fees\<rparr>" \<delta>2] by auto
  have "apply_header env inst (state_catchup inst) leaf h version view st
     = Some (Ok (?st1\<lparr>fee_merkle_tree := fees, reward_merkle_tree := rewards\<rparr>, \<delta>3))"
    unfolding apply_header_def Let_def cfg pbind_simps vs
    using frontier by (simp add: ds mem' fetch_frontier_def fetch_fee_accounts_def apply_proposal_def push d1 d2 d3)
  then show ?thesis by (cases st) auto
qed

lemma reward_leader_state:
  assumes "reward_leader env inst leaf version view st leader s"
  shows "s = st\<lparr>reward_merkle_tree := reward_merkle_tree s\<rparr>"
    "\<not> version_ge version EPOCH_VERSION \<Longrightarrow> leader = None \<and> s = st"
  using assms find_validator_info_Ok by (auto simp: reward_leader_def split: if_splits)

lemma valid_transition_of_proposal:
  assumes "header_create cfg (header_height parent + 1) ts
       (if head < header_l1_head parent then header_l1_head parent else head)
       (if l1_less fin (header_l1_finalized parent) then header_l1_finalized parent else fin)
       pc bc table (ut_commitment (fee_trees (trees env)) (fee_merkle_tree st))
       (at_commitment (block_trees (trees env)) (block_merkle_tree st))
       (ut_commitment (reward_trees (trees env)) (reward_merkle_tree st)) [fee_info_of_builder fee]
       [bf_signature fee] version = Some h"
    and "header_timestamp parent \<le> ts" "abs_diff (header_timestamp h) (system_time env) \<le> 12"
    and "fee_signature_ok (recover_address env) (bf_account fee) (bf_signature fee) (bf_amount fee) table pc = Some True"
    and "version = (0, 3) \<or> stake_table_contract cfg = None
      \<and> ut_commitment (reward_trees (trees env)) (reward_merkle_tree st)
          = ut_commitment (reward_trees (trees env)) (ut_new (reward_trees (trees env)))"
    and "ns_table_validate table (unat bytes) = Some (Ok ())" "ucast bytes \<le> max_block_size cfg"
    and "base_fee cfg * ucast bytes \<le> ucast (bf_amount fee)"
  shows "valid_transition env \<lparr>vt_state = st, vt_expected_chain_config = cfg, vt_parent = parent,
       vt_proposal = \<lparr>prop_header = h, prop_block_size = bytes\<rparr>\<rparr>"
proof -
  note g = header_create_getters [OF assms(1)]
  have fi: "header_fee_info h = [fee_info_of_builder fee]" using g(9) by simp
  have "fees_amount (header_fee_info h) = Some (ucast (bf_amount fee))"
    by (simp add: fi fees_amount_single fee_info_of_builder_def)
  moreover have "validate_builder_fee (recover_address env) h = Some (Ok ())"
    using assms(4) g(5,6,10)
    by (simp add: validate_builder_fee_def fi fee_info_of_builder_def header_metadata_def)
  moreover have "header_reward_merkle_tree_root (ut_commitment (reward_trees (trees env)) (ut_new (reward_trees (trees env)))) h
      = ut_commitment (reward_trees (trees env)) (reward_merkle_tree st)"
    using assms(5) g(11,12) by (cases "version = (0, 3)") auto
  moreover have "resolvable_commit (commit_env env) (header_chain_config h) = config_commit (commit_env env) cfg"
    using assms(5) g(13) by blast
  moreover have "header_l1_head parent \<le> header_l1_head h" using g(3) by auto
  ultimately show ?thesis
    using assms(2,3,6-8) g(1,2,4,6-8) l1_less_clamped unfolding valid_transition_def Let_def by simp
qed

lemma header_create_version:
  "header_create cfg height ts head fin pc bc table fr br rr fis sigs version = Some h \<Longrightarrow>
     version = (0, 3) \<or> \<not> version_ge version EPOCH_VERSION"
  by (auto simp: header_create_def Let_def version_ge_def EPOCH_VERSION_def prod_eq_iff word_le_nat_alt
      split: if_splits)

lemma proposed_header_applies:
  assumes new: "header_new env st inst leaf pc bc md fee version view = Some (Ok h)"
    and resolved: "state_chain_config st = Resolved c0"
    and cfg: "proposal_chain_config (commit_env env) inst version st = Ok cfg"
    and binding: "config_commit (commit_env env) cfg = config_commit (commit_env env) (node_chain_config inst)
           \<longrightarrow> cfg = node_chain_config inst"
    and ds: "get_l1_deposits (l1_client inst) (snap_finalized (l1_snapshot (l1_client inst)))
           (hdr_fields (block_header leaf)) (fee_contract cfg) = Some ds"
    and mem: "\<forall>a \<in> {bf_account fee, fee_recipient cfg} \<union> fi_account ` set ds.
           in_memory (fee_trees (trees env)) (fee_merkle_tree st) a"
    and frontier: "\<not> need_to_fetch_blocks_mt_frontier (block_trees (trees env)) st"
    and l1: "get_finalized_deposits l1 = get_finalized_deposits (l1_client inst)"
  obtains st' \<delta> ts head fin where
    "apply_header (env\<lparr>system_time := now\<rparr>) (inst\<lparr>l1_client := l1\<rparr>) (state_catchup inst) leaf h version view st
       = Some (Ok (st', \<delta>))"
    "state_chain_config st' = Resolved cfg" "header_timestamp (hdr_fields (block_header leaf)) \<le> ts"
    "fee_signature_ok (recover_address env) (bf_account fee) (bf_signature fee) (bf_amount fee) md pc = Some True"
    "header_create cfg (header_height (hdr_fields (block_header leaf)) + 1) ts
       (if head < header_l1_head (hdr_fields (block_header leaf))
        then header_l1_head (hdr_fields (block_header leaf)) else head)
       (if l1_less fin (header_l1_finalized (hdr_fields (block_header leaf)))
        then header_l1_finalized (hdr_fields (block_header leaf)) else fin)
       pc bc md (ut_commitment (fee_trees (trees env)) (fee_merkle_tree st'))
       (at_commitment (block_trees (trees env)) (block_merkle_tree st'))
       (ut_commitment (reward_trees (trees env)) (reward_merkle_tree st')) [fee_info_of_builder fee]
       [bf_signature fee] version = Some h"
    "version = (0, 3) \<or> reward_merkle_tree st' = reward_merkle_tree st"
proof -
  let ?env = "env\<lparr>system_time := now\<rparr>" and ?inst = "inst\<lparr>l1_client := l1\<rparr>"
  let ?parent = "hdr_fields (block_header leaf)" and ?snap = "l1_snapshot (l1_client inst)"
  obtain leader s where leader: "reward_leader env inst leaf version view (st\<lparr>state_chain_config := Resolved cfg\<rparr>) leader s"
    and info: "from_info env pc bc md leaf ?snap ds [fee] (system_time env) s cfg version leader = Some (Ok h)"
    using header_new_Ok [OF new cfg ds mem frontier] .
  note parts = from_info_Ok [OF info]
  obtain blocks fees0 fees rewards ts where
    push: "at_push (block_trees (trees env)) (block_merkle_tree s) (header_commit (commit_env env) ?parent) = Some blocks"
    and dep: "insert_fee_deposits (fee_trees (trees env)) ds (fee_merkle_tree s) = Ok fees0"
    and sig: "fee_signature_ok (recover_address env) (bf_account fee) (bf_signature fee) (bf_amount fee) md pc = Some True"
    and charge: "charge_fee (fee_trees (trees env)) (fee_info_of_builder fee) (fee_recipient cfg) fees0 = Ok fees"
    and rewards: "case leader of None \<Rightarrow> rewards = reward_merkle_tree s
       | Some v \<Rightarrow> apply_rewards (reward_trees (trees env)) v (reward_merkle_tree s) = Ok rewards"
    and ts: "header_timestamp ?parent \<le> ts"
    and create: "header_create cfg (header_height ?parent + 1) ts
       (if snap_head ?snap < header_l1_head ?parent then header_l1_head ?parent else snap_head ?snap)
       (if l1_less (snap_finalized ?snap) (header_l1_finalized ?parent)
        then header_l1_finalized ?parent else snap_finalized ?snap)
       pc bc md (ut_commitment (fee_trees (trees env)) fees) (at_commitment (block_trees (trees env)) blocks)
       (ut_commitment (reward_trees (trees env)) rewards) [fee_info_of_builder fee] [bf_signature fee] version = Some h"
    using parts by blast
  have s: "block_merkle_tree s = block_merkle_tree st" "fee_merkle_tree s = fee_merkle_tree st"
    by (subst reward_leader_state(1) [OF leader], simp)+
  have old: "version = (0, 3) \<or> rewards = reward_merkle_tree st"
    using header_create_version [OF create] reward_leader_state(2) [OF leader] rewards by auto
  note g = header_create_getters [OF create]
  have fi: "header_fee_info h = [fee_info_of_builder fee]" using g(9) by simp
  let ?st = "\<lparr>block_merkle_tree = blocks, fee_merkle_tree = fees, reward_merkle_tree = rewards,
      state_chain_config = Resolved cfg\<rparr>"
  have "\<exists>\<delta>. apply_header ?env ?inst (state_catchup ?inst) leaf h version view st = Some (Ok (?st, \<delta>))"
  proof (rule apply_header_of_proposal)
    show "state_get_chain_config (commit_env ?env) ?inst (state_catchup ?inst) (header_chain_config h)
        (apply_upgrade ?inst version st) = Ok cfg"
      using proposal_config_accepted [OF cfg resolved] binding by simp
    show "get_l1_deposits (l1_client ?inst) (header_l1_finalized h) ?parent (fee_contract cfg) = Some ds"
      using deposits_of_clamped_block [OF ds g(4) l1] by simp
    show "\<forall>a \<in> {fee_recipient cfg} \<union> fi_account ` set (header_fee_info h @ ds).
       in_memory (fee_trees (trees ?env)) (fee_merkle_tree st) a"
      using mem fi by (auto simp: fee_info_of_builder_def)
    show "\<exists>\<delta>'. reward_stage ?env ?inst leaf version view (st2, \<delta>) = Some (Ok (st2\<lparr>reward_merkle_tree := rewards\<rparr>, \<delta>'))"
      if "reward_merkle_tree st2 = reward_merkle_tree st" for st2 \<delta>
      using reward_stage_of_leader [OF leader rewards] that by simp
  qed (use frontier push dep charge s fi in simp_all)
  then show thesis using that [of ?st] ts sig create old by auto
qed


section \<open>Witnesses\<close>

definition demo_config :: ChainConfig where
  "demo_config =
     \<lparr>chain_id = 1, max_block_size = 1000, base_fee = 2, fee_contract = Some 77, fee_recipient = 8,
      stake_table_contract = None\<rparr>"

definition demo_state :: "(address \<Rightarrow> u256 option, commitment list) ValidatedState" where
  "demo_state =
     \<lparr>block_merkle_tree = [4], fee_merkle_tree = [5 \<mapsto> 100], reward_merkle_tree = Map.empty,
      state_chain_config = Resolved demo_config\<rparr>"

definition demo_l1 :: L1Client where
  "demo_l1 =
     \<lparr>l1_snapshot = \<lparr>snap_head = 5, snap_finalized = Some \<lparr>l1b_number = 4, l1b_timestamp = 50, l1b_hash = 9\<rparr>\<rparr>,
      l1_finalized_block = \<lambda>n. \<lparr>l1b_number = n, l1b_timestamp = 50, l1b_hash = 9\<rparr>,
      l1_deposit_events = \<lambda>addr a b. [\<lparr>fi_account = 6, fi_amount = 40\<rparr>],
      l1_max_block_range = 10, l1_fuel = 5\<rparr>"

definition demo_parent :: Header where
  "demo_parent = sample_header None"

definition demo_leaf :: "(nat, Header) Leaf2" where
  "demo_leaf =
     \<lparr>leaf_view_number = 3,
      justify_qc = \<lparr>cert_data = \<lparr>leaf_commit = 0, qd_epoch = None, qd_block_number = None\<rparr>,
        cert_vote_commitment = 0, cert_view_number = 2, cert_signatures = None\<rparr>,
      next_epoch_justify_qc = None, parent_commitment = 0,
      block_header = \<lparr>hdr_block_number = header_block_number demo_parent,
        hdr_payload_commitment = header_payload_commitment demo_parent, hdr_fields = demo_parent\<rparr>,
      upgrade_certificate = None, block_payload = None, view_change_evidence = None,
      next_drb_result = None, with_epoch = False\<rparr>"

definition demo_node :: "(nat, nat, address \<Rightarrow> u256 option, unit, commitment list) NodeState" where
  "demo_node =
     \<lparr>node_chain_config = demo_config, l1_client = demo_l1,
      state_catchup = \<lparr>fetch_chain_config = \<lambda>c. None, fetch_accounts = \<lambda>h v c as. None,
        fetch_reward_accounts = \<lambda>h v c as. None, remember_blocks_merkle_tree = \<lambda>h v b. None\<rparr>,
      genesis_timestamp = 0, genesis_state = demo_state, l1_genesis = None,
      coordinator = sample_committees, node_epoch_height = Some 10, upgrades = \<lambda>v. None,
      current_version = (0, 1)\<rparr>"

definition ledger_demo_env :: "(nat, address \<Rightarrow> u256 option, unit, commitment list) SeqEnv" where
  "ledger_demo_env =
     \<lparr>trees = \<lparr>fee_trees = map_tree, reward_trees = map_tree, block_trees = list_tree\<rparr>,
      commit_env = count_env, hash_env = sample_henv, recover_address = \<lambda>sig msg. Some 5,
      system_time = 100\<rparr>"

definition demo_fee :: BuilderFee where
  "demo_fee = \<lparr>bf_amount = 30, bf_account = 5, bf_signature = [1]\<rparr>"

lemma count_env_simps [simp]: "finalize count_env (tag, fs) = of_nat (length fs)"
  by (simp add: count_env_def)

lemma demo_parent_fields [simp]:
  "header_height demo_parent = 1" "header_timestamp demo_parent = 2" "header_l1_head demo_parent = 3"
  "header_l1_finalized demo_parent = Some \<lparr>l1b_number = 3, l1b_timestamp = 2, l1b_hash = 9\<rparr>"
  "header_commit count_env demo_parent = 13"
  by (simp_all add: demo_parent_def sample_header_def header_getters header_commit_def header_fields_v1_def)

lemma demo_config_commit: "config_commit count_env demo_config = 6"
  by (simp add: config_commit_def config_fields_def demo_config_def)

lemma demo_deposits:
  "get_l1_deposits demo_l1 (Some \<lparr>l1b_number = 4, l1b_timestamp = 50, l1b_hash = 9\<rparr>) demo_parent (Some 77)
     = Some [\<lparr>fi_account = 6, fi_amount = 40\<rparr>]"
proof -
  have "chunks 5 4 4 10 = Some [(4, 4)]" by code_simp
  then show ?thesis
    by (simp add: get_l1_deposits_def get_finalized_deposits_def demo_l1_def query_chunks_def)
qed

definition demo_header :: Header where
  "demo_header =
     V1 \<lparr>h1_chain_config = Resolved (config_to_v1 demo_config), h1_height = 2, h1_timestamp = 100, h1_l1_head = 5,
         h1_l1_finalized = Some \<lparr>l1b_number = 4, l1b_timestamp = 50, l1b_hash = 9\<rparr>,
         h1_payload_commitment = 7, h1_builder_commitment = 8, h1_ns_table = [0, 0, 0, 0],
         h1_block_merkle_tree_root = \<lparr>mc_digest = 34, mc_height = 32, mc_size = 2\<rparr>,
         h1_fee_merkle_tree_root = \<lparr>mc_digest = 70, mc_height = 20, mc_size = 1\<rparr>,
         h1_fee_info = \<lparr>fi_account = 5, fi_amount = 30\<rparr>, h1_builder_signature = Some [1]\<rparr>"

lemma demo_frontier: "need_to_fetch_blocks_mt_frontier list_tree demo_state = False"
  by (simp add: need_to_fetch_blocks_mt_frontier_def demo_state_def list_tree_def)

lemma demo_proposal_config: "proposal_chain_config count_env demo_node (0, 1) demo_state = Ok demo_config"
  by (simp add: proposal_chain_config_def version_le_def version_ge_def demo_node_def header_get_chain_config_def
      demo_state_def resolvable_commit_def resolve_def Let_def)

lemma demo_forgotten: "forgotten_accounts map_tree demo_state xs = []"
  by (simp add: forgotten_accounts_def forgotten_def)

lemma demo_signature: "fee_signature_ok (\<lambda>sig msg. Some 5) 5 sig amount md pc = Some True"
  by (simp add: fee_signature_ok_def validate_fee_signature_def validate_builder_signature_def)

lemma demo_no_rewards: "version_ge (0, 1) EPOCH_VERSION = False"
  by (simp add: version_ge_def EPOCH_VERSION_def word_le_nat_alt)

lemma demo_push: "at_push list_tree xs c = Some (xs @ [c])"
  by (simp add: list_tree_def)

lemma demo_commitments:
  "ut_commitment map_tree m = \<lparr>mc_digest = unwrap_or_default (m 5), mc_height = 20, mc_size = 1\<rparr>"
  "at_commitment list_tree xs = \<lparr>mc_digest = foldl (\<lambda>a c. 3 * a + c) 1 xs, mc_height = 32, mc_size = of_nat (length xs)\<rparr>"
  by (simp_all add: map_tree_def list_tree_def)

lemma demo_recipient: "fee_recipient demo_config = 8"
  by (simp add: demo_config_def)

lemma demo_new_tree: "ut_new map_tree = Map.empty"
  by (simp add: map_tree_def)

lemma demo_frontier_update:
  "need_to_fetch_blocks_mt_frontier list_tree (demo_state\<lparr>state_chain_config := c\<rparr>) = False"
  by (simp add: need_to_fetch_blocks_mt_frontier_def demo_state_def list_tree_def)

lemma demo_node_client: "l1_client demo_node = demo_l1"
  by (simp add: demo_node_def)

lemma demo_leaf_parent: "hdr_fields (block_header demo_leaf) = demo_parent"
  by (simp add: demo_leaf_def)

lemma demo_snapshot:
  "snap_finalized (l1_snapshot demo_l1) = Some \<lparr>l1b_number = 4, l1b_timestamp = 50, l1b_hash = 9\<rparr>"
  by (simp add: demo_l1_def)

lemma demo_config_contract: "fee_contract demo_config = Some 77"
  by (simp add: demo_config_def)

lemma demo_header_new:
  "header_new ledger_demo_env demo_state demo_node demo_leaf 7 8 [0, 0, 0, 0] demo_fee (0, 1) 3 = Some (Ok demo_header)"
proof -
  have "from_info ledger_demo_env 7 8 [0, 0, 0, 0] demo_leaf (l1_snapshot demo_l1) [\<lparr>fi_account = 6, fi_amount = 40\<rparr>] [demo_fee]
     100 (demo_state\<lparr>state_chain_config := Resolved demo_config\<rparr>) demo_config (0, 1) (None :: (nat, nat) Validator option)
     = Some (Ok demo_header)"
    by (simp add: from_info_def Let_def demo_leaf_def demo_l1_def ledger_demo_env_def demo_state_def demo_push to_u64_def
        insert_fee_deposit_def demo_fee_def demo_signature charge_fee_def fee_info_of_builder_def checked_sub_def
        demo_config_def header_create_def demo_header_def demo_commitments deducted_def)
  then show ?thesis
    unfolding header_new_def Let_def
    by (simp add: ledger_demo_env_def demo_proposal_config demo_forgotten demo_node_client demo_leaf_parent
        demo_snapshot demo_config_contract demo_deposits fetch_frontier_def demo_frontier_update demo_no_rewards)
qed

lemma demo_table: "ns_table_validate [0, 0, 0, 0] 0 = Some (Ok ())"
proof -
  have "le_bytes 4 0 = [0, 0, 0, 0]" by code_simp
  then have "table_bytes [] = [0, 0, 0, 0]" "raw_bytes [] = []"
    by (simp_all add: table_bytes_def table_entries_def raw_bytes_def)
  then show ?thesis using ns_table_validate_payload_for [of "[]"] by (simp add: fits_def)
qed


definition ledger_demo_after :: "(address \<Rightarrow> u256 option, commitment list) ValidatedState" where
  "ledger_demo_after =
     \<lparr>block_merkle_tree = [4, 13], fee_merkle_tree = [6 \<mapsto> 40, 5 \<mapsto> 70, 8 \<mapsto> 30],
      reward_merkle_tree = Map.empty, state_chain_config = Resolved demo_config\<rparr>"

lemma demo_header_fields:
  "header_fee_info demo_header = [\<lparr>fi_account = 5, fi_amount = 30\<rparr>]"
  "header_l1_finalized demo_header = Some \<lparr>l1b_number = 4, l1b_timestamp = 50, l1b_hash = 9\<rparr>"
  by (simp_all add: demo_header_def header_getters)

lemma demo_upgrade: "apply_upgrade demo_node (0, 1) demo_state = demo_state"
  by (simp add: apply_upgrade_def version_le_def version_ge_def demo_node_def)

lemma demo_apply_header:
  "\<exists>\<delta>. apply_header ledger_demo_env demo_node (state_catchup demo_node) demo_leaf demo_header (0, 1) 3 demo_state
     = Some (Ok (ledger_demo_after, \<delta>))"
proof -
  have cfg: "state_get_chain_config count_env demo_node (state_catchup demo_node) (header_chain_config demo_header)
      demo_state = Ok demo_config"
    by (simp add: state_get_chain_config_def demo_node_def demo_state_def resolvable_commit_def)
  have state: "state_chain_config demo_state = Resolved demo_config"
    by (simp add: demo_state_def)
  have "\<exists>\<delta>. apply_proposal map_tree list_tree 13 [\<lparr>fi_account = 6, fi_amount = 40\<rparr>] (demo_state, delta_default)
      = Some (demo_state\<lparr>block_merkle_tree := [4, 13], fee_merkle_tree := [5 \<mapsto> 100, 6 \<mapsto> 40]\<rparr>, \<delta>)"
    by (simp add: apply_proposal_def demo_push demo_state_def)
  then obtain \<delta>1 where p: "apply_proposal map_tree list_tree 13 [\<lparr>fi_account = 6, fi_amount = 40\<rparr>] (demo_state, delta_default)
      = Some (demo_state\<lparr>block_merkle_tree := [4, 13], fee_merkle_tree := [5 \<mapsto> 100, 6 \<mapsto> 40]\<rparr>, \<delta>1)" ..
  have "\<exists>\<delta>. charge_fees map_tree [\<lparr>fi_account = 5, fi_amount = 30\<rparr>] 8
      (demo_state\<lparr>block_merkle_tree := [4, 13], fee_merkle_tree := [5 \<mapsto> 100, 6 \<mapsto> 40]\<rparr>, \<delta>1) = Ok (ledger_demo_after, \<delta>)"
    by (simp add: charge_fee_def checked_sub_def deducted_def ledger_demo_after_def demo_state_def)
  then obtain \<delta>2 where f: "charge_fees map_tree [\<lparr>fi_account = 5, fi_amount = 30\<rparr>] 8
      (demo_state\<lparr>block_merkle_tree := [4, 13], fee_merkle_tree := [5 \<mapsto> 100, 6 \<mapsto> 40]\<rparr>, \<delta>1) = Ok (ledger_demo_after, \<delta>2)" ..
  have "apply_header ledger_demo_env demo_node (state_catchup demo_node) demo_leaf demo_header (0, 1) 3 demo_state
     = Some (Ok (ledger_demo_after, \<delta>2))"
    unfolding apply_header_def Let_def demo_upgrade
    by (simp add: ledger_demo_env_def cfg state resolve_def demo_forgotten demo_node_client demo_leaf_parent
        demo_header_fields demo_recipient demo_config_contract demo_deposits fetch_frontier_def demo_frontier
        fetch_fee_accounts_def p f reward_stage_def demo_no_rewards del: charge_fees.simps)
  then show ?thesis by blast
qed

lemma demo_applied:
  "\<exists>\<delta>. validate_and_apply_header ledger_demo_env demo_node demo_leaf demo_header 0 (0, 1) 3 demo_state
     = Some (Ok (ledger_demo_after, \<delta>))"
proof -
  obtain \<delta> where applied: "apply_header ledger_demo_env demo_node (state_catchup demo_node) demo_leaf demo_header (0, 1) 3 demo_state
     = Some (Ok (ledger_demo_after, \<delta>))"
    using demo_apply_header ..
  let ?vt = "\<lparr>vt_state = ledger_demo_after, vt_expected_chain_config = demo_config, vt_parent = demo_parent,
     vt_proposal = \<lparr>prop_header = demo_header, prop_block_size = 0\<rparr>\<rparr>"
  have "valid_transition ledger_demo_env ?vt"
    by (simp add: valid_transition_def demo_header_def header_getters ledger_demo_env_def ledger_demo_after_def demo_table abs_diff_def
        validate_builder_fee_def demo_signature fees_amount_single as_u64_eq demo_parent_def sample_header_def resolvable_of_v1_def resolvable_commit_def
        config_of_v1_to_v1 [THEN iffD2] demo_config_def demo_commitments demo_new_tree header_reward_merkle_tree_root_def)
  then have v: "validate ledger_demo_env ?vt = Some (Ok ?vt)" by (simp add: validate_Ok_iff)
  have "transition_new ledger_demo_after demo_parent \<lparr>prop_header = demo_header, prop_block_size = 0\<rparr> = Some ?vt"
    by (simp add: transition_new_def ledger_demo_after_def resolve_def)
  moreover have "wait_for_l1 demo_l1 ?vt = Ok ?vt"
    by (simp add: wait_for_l1_def wait_for_finalized_block_def demo_header_fields) (simp add: demo_l1_def)
  ultimately show ?thesis
    by (simp add: validate_and_apply_header_def applied demo_leaf_parent v demo_node_client)
qed

theorem accepted_header_sound_witness:
  "\<exists>\<delta>. validate_and_apply_header ledger_demo_env demo_node demo_leaf demo_header 0 (0, 1) 3 demo_state
       = Some (Ok (ledger_demo_after, \<delta>))
     \<and> header_height demo_header = header_height demo_parent + 1
     \<and> header_fee_merkle_tree_root demo_header = ut_commitment map_tree (fee_merkle_tree ledger_demo_after)"
proof -
  obtain \<delta> where a: "validate_and_apply_header ledger_demo_env demo_node demo_leaf demo_header 0 (0, 1) 3 demo_state
       = Some (Ok (ledger_demo_after, \<delta>))"
    using demo_applied ..
  from accepted_header_sound [OF a refl] a show ?thesis by (auto simp: demo_leaf_parent ledger_demo_env_def)
qed

theorem accepted_header_settles_fees_witness:
  "ledger_total map_tree (fee_merkle_tree ledger_demo_after) = ledger_total map_tree (fee_merkle_tree demo_state) + 40"
proof -
  obtain \<delta> where a: "validate_and_apply_header ledger_demo_env demo_node demo_leaf demo_header 0 (0, 1) 3 demo_state
       = Some (Ok (ledger_demo_after, \<delta>))"
    using demo_applied ..
  have F: "fee_trees (trees ledger_demo_env) = map_tree" by (simp add: ledger_demo_env_def)
  have tot: "ledger_total map_tree (fee_merkle_tree demo_state) = 100"
    using sample_state_total by (simp add: sample_state_def demo_state_def)
  from accepted_header_settles_fees [OF a, unfolded F, OF map_tree_laws, of demo_config "[\<lparr>fi_account = 6, fi_amount = 40\<rparr>]"]
  show ?thesis
    by (simp add: ledger_demo_after_def demo_node_client demo_header_fields demo_leaf_parent demo_config_contract
        demo_deposits tot fees_total_def)
qed

section \<open>Builder signatures and panics\<close>

definition without_signature :: "Header \<Rightarrow> Header" where
  "without_signature h =
     (case h of V1 f \<Rightarrow> V1 (f\<lparr>h1_builder_signature := None\<rparr>) | V2 f \<Rightarrow> V2 (f\<lparr>h1_builder_signature := None\<rparr>)
      | V3 f \<Rightarrow> V3 (f\<lparr>h3_builder_signature := None\<rparr>))"

lemma without_signature_getters [simp]:
  "header_chain_config (without_signature h) = header_chain_config h"
  "header_height (without_signature h) = header_height h"
  "header_timestamp (without_signature h) = header_timestamp h"
  "header_l1_head (without_signature h) = header_l1_head h"
  "header_l1_finalized (without_signature h) = header_l1_finalized h"
  "header_ns_table (without_signature h) = header_ns_table h"
  "header_block_merkle_tree_root (without_signature h) = header_block_merkle_tree_root h"
  "header_fee_merkle_tree_root (without_signature h) = header_fee_merkle_tree_root h"
  "header_reward_merkle_tree_root e (without_signature h) = header_reward_merkle_tree_root e h"
  "header_fee_info (without_signature h) = header_fee_info h"
  "header_builder_signature (without_signature h) = []"
  by (cases h; simp add: without_signature_def header_getters header_reward_merkle_tree_root_def)+

lemma find_validator_info_recover [simp]:
  "find_validator_info (env\<lparr>recover_address := r\<rparr>) inst st leaf view = find_validator_info env inst st leaf view"
  by (simp add: find_validator_info_def Let_def cong: if_cong)

lemma apply_header_without_signature:
  "apply_header (env\<lparr>recover_address := r\<rparr>) inst peers leaf (without_signature h) version view st
     = apply_header env inst peers leaf h version view st"
  by (simp add: apply_header_def reward_stage_def fetch_frontier_def Let_def cong: if_cong)

text \<open>
  The builder signature is never required. Whenever a header is accepted, the same header without
  its signature is accepted too, with the same resulting state and under any signature scheme, so a
  leader can charge the fee to an account whose owner has signed nothing.
\<close>

theorem builder_signature_not_required:
  assumes "validate_and_apply_header env inst leaf h bytes version view st = Some (Ok (st', \<delta>))"
  shows "validate_and_apply_header (env\<lparr>recover_address := r\<rparr>) inst leaf (without_signature h) bytes version view st
     = Some (Ok (st', \<delta>))"
proof -
  obtain cfg where a: "apply_header env inst (state_catchup inst) leaf h version view st = Some (Ok (st', \<delta>))"
    and cfg: "state_chain_config st' = Resolved cfg"
    and vt: "valid_transition env \<lparr>vt_state = st', vt_expected_chain_config = cfg,
       vt_parent = hdr_fields (block_header leaf), vt_proposal = \<lparr>prop_header = h, prop_block_size = bytes\<rparr>\<rparr>"
    and l1: "\<And>b. header_l1_finalized h = Some b \<Longrightarrow> l1_finalized_block (l1_client inst) (l1b_number b) = b"
    using validate_and_apply_header_Ok [OF assms] by metis
  let ?vt = "\<lparr>vt_state = st', vt_expected_chain_config = cfg, vt_parent = hdr_fields (block_header leaf),
      vt_proposal = \<lparr>prop_header = without_signature h, prop_block_size = bytes\<rparr>\<rparr>"
  have "valid_transition (env\<lparr>recover_address := r\<rparr>) ?vt"
    using vt by (simp add: valid_transition_def validate_builder_fee_def Let_def)
  then have "validate (env\<lparr>recover_address := r\<rparr>) ?vt = Some (Ok ?vt)" by (simp add: validate_Ok_iff)
  moreover have "wait_for_l1 (l1_client inst) ?vt = Ok ?vt"
    using l1 by (simp add: wait_for_l1_def wait_for_finalized_block_def split: option.splits)
  ultimately show ?thesis
    using a cfg by (simp add: validate_and_apply_header_def apply_header_without_signature transition_new_def resolve_def)
qed

lemma fee_signature_ok_returns:
  "(\<And>msg. recover sig msg \<noteq> None) \<Longrightarrow> fee_signature_ok recover a sig amount md pc \<noteq> None"
  by (auto simp: fee_signature_ok_def validate_fee_signature_def validate_builder_signature_def
      validate_fee_signature_with_vid_commitment_def split: option.splits bool.splits)

lemma validate_builder_fee_returns:
  assumes "\<forall>sig \<in> set (header_builder_signature h). \<forall>msg. recover sig msg \<noteq> None"
  shows "validate_builder_fee recover h \<noteq> None"
proof -
  have "check_fees recover h fs \<noteq> None" if "\<forall>(fi, sig) \<in> set fs. \<forall>msg. recover sig msg \<noteq> None" for fs
    using that
  proof (induction recover h fs rule: check_fees.induct)
    case (2 recover h fi sig fs)
    then have rest: "check_fees recover h fs \<noteq> None"
      if "as_u64 (fi_amount fi) = Some amount"
        "fee_signature_ok recover (fi_account fi) sig amount (header_metadata h) (header_payload_commitment h) = Some True"
      for amount
      using that by auto
    show ?case
    proof (cases "as_u64 (fi_amount fi)")
      case (Some amount)
      have "recover sig msg \<noteq> None" for msg using 2(2) by simp
      from fee_signature_ok_returns [of recover sig, OF this]
      obtain b where "fee_signature_ok recover (fi_account fi) sig amount (header_metadata h)
          (header_payload_commitment h) = Some b"
        by blast
      with Some rest show ?thesis by (cases b) auto
    qed simp
  qed simp
  then show ?thesis
    unfolding validate_builder_fee_def using assms by (fastforce dest: set_zip_rightD)
qed

lemma block_numbers_returns:
  "block_numbers b \<noteq> None \<longleftrightarrow> (\<forall>block. b = Some block \<longrightarrow> unat (l1b_timestamp block) < 2 ^ 64)"
  by (auto simp: block_numbers_def to_u64_def split: option.splits)

lemma validate_returns:
  assumes "\<forall>sig \<in> set (header_builder_signature (prop_header (vt_proposal vt))). \<forall>msg. recover_address env sig msg \<noteq> None"
    and "\<forall>b \<in> set_option (header_l1_finalized (prop_header (vt_proposal vt)))
            \<union> set_option (header_l1_finalized (vt_parent vt)). unat (l1b_timestamp b) < 2 ^ 64"
  shows "validate env vt \<noteq> None"
proof -
  have "transition_validate_builder_fee (recover_address env) vt \<noteq> None"
    using validate_builder_fee_returns [OF assms(1)] by (simp add: transition_validate_builder_fee_def)
  moreover have "block_numbers (header_l1_finalized (prop_header (vt_proposal vt))) \<noteq> None"
    "block_numbers (header_l1_finalized (vt_parent vt)) \<noteq> None"
    unfolding block_numbers_returns using assms(2) by auto
  then have "validate_l1_finalized vt \<noteq> None"
    by (auto simp: validate_l1_finalized_def Let_def split: option.splits)
  moreover have "validate_namespace_table vt \<noteq> None"
    using ns_table_validate_not_None by (simp add: validate_namespace_table_def)
  ultimately show ?thesis unfolding validate_def by (simp add: pbind_None_iff)
qed

lemma unrecoverable_signature_panics:
  assumes "validate_timestamp (system_time env) vt = Ok ()"
    and "sig \<in> set (header_builder_signature (prop_header (vt_proposal vt)))" "\<forall>msg. recover_address env sig msg = None"
    and "\<forall>fi \<in> set (header_fee_info (prop_header (vt_proposal vt))). unat (fi_amount fi) < 2 ^ 64"
  shows "validate env vt = None"
proof -
  obtain fi where fi: "header_fee_info (prop_header (vt_proposal vt)) = [fi]" using header_fee_info_single by blast
  have "header_builder_signature (prop_header (vt_proposal vt)) = [sig]"
    using assms(2) header_signature_cases [of "prop_header (vt_proposal vt)"] by auto
  then have "validate_builder_fee (recover_address env) (prop_header (vt_proposal vt)) = None"
    using assms(3,4) by (simp add: validate_builder_fee_def fi as_u64_eq fee_signature_ok_def validate_fee_signature_def
        validate_builder_signature_def)
  then show ?thesis using assms(1) by (simp add: validate_def transition_validate_builder_fee_def)
qed

lemma l1_timestamp_panics:
  assumes "validate_timestamp (system_time env) vt = Ok ()"
    "transition_validate_builder_fee (recover_address env) vt = Some (Ok ())" "validate_height vt = Ok ()"
    "validate_chain_config (commit_env env) vt = Ok ()" "validate_block_size vt = Ok ()" "validate_fee vt = Ok ()"
    "validate_fee_merkle_tree (fee_trees (trees env)) vt = Ok ()"
    "validate_block_merkle_tree (block_trees (trees env)) vt = Ok ()"
    "validate_reward_merkle_tree (reward_trees (trees env)) vt = Ok ()"
    and "header_l1_finalized (prop_header (vt_proposal vt)) = Some b" "2 ^ 64 \<le> unat (l1b_timestamp b)"
    and "l1_less (Some b) (header_l1_finalized (vt_parent vt))"
  shows "validate env vt = None"
proof -
  have "validate_l1_finalized vt = None"
    using assms(10-12) by (auto simp: validate_l1_finalized_def block_numbers_def to_u64_def Let_def split: option.splits)
  with assms(1-9) show ?thesis by (simp add: validate_def)
qed

text \<open>
  C29: Validation of a header returns a verdict, an error or acceptance, when its builder signature can be
  recovered to some signer and the timestamps of the L1 blocks fit in 64 bits. The condition on the
  signature is needed: once the timestamp passes, a header with a fee in range and an unrecoverable
  signature makes the replica panic instead of rejecting it.
\<close>

theorem header_validation_panics:
  assumes "h = prop_header (vt_proposal vt)"
  shows "((\<forall>sig \<in> set (header_builder_signature h). \<forall>msg. recover_address env sig msg \<noteq> None)
      \<and> (\<forall>b \<in> set_option (header_l1_finalized h) \<union> set_option (header_l1_finalized (vt_parent vt)).
           unat (l1b_timestamp b) < 2 ^ 64)
      \<longrightarrow> validate env vt \<noteq> None)
     \<and> (validate_timestamp (system_time env) vt = Ok ()
        \<and> (\<exists>sig \<in> set (header_builder_signature h). \<forall>msg. recover_address env sig msg = None)
        \<and> (\<forall>fi \<in> set (header_fee_info h). unat (fi_amount fi) < 2 ^ 64)
      \<longrightarrow> validate env vt = None)"
  using validate_returns [of vt env] unrecoverable_signature_panics [of env vt] unfolding assms by blast

theorem builder_signature_not_required_witness:
  "\<exists>\<delta>. validate_and_apply_header (ledger_demo_env\<lparr>recover_address := \<lambda>sig msg. None\<rparr>) demo_node demo_leaf
     (without_signature demo_header) 0 (0, 1) 3 demo_state = Some (Ok (ledger_demo_after, \<delta>))"
proof -
  obtain \<delta> where "validate_and_apply_header ledger_demo_env demo_node demo_leaf demo_header 0 (0, 1) 3 demo_state
       = Some (Ok (ledger_demo_after, \<delta>))"
    using demo_applied ..
  from builder_signature_not_required [OF this] show ?thesis by blast
qed

theorem header_validation_panics_witness:
  "\<exists>vt :: (address \<Rightarrow> u256 option, commitment list) ValidatedTransition. prop_header (vt_proposal vt) = demo_header
     \<and> validate ledger_demo_env vt \<noteq> None
     \<and> validate (ledger_demo_env\<lparr>recover_address := \<lambda>sig msg. None\<rparr>) vt = None"
proof -
  let ?vt = "\<lparr>vt_state = ledger_demo_after, vt_expected_chain_config = demo_config, vt_parent = demo_parent,
     vt_proposal = \<lparr>prop_header = demo_header, prop_block_size = 0\<rparr>\<rparr>"
  have ts: "validate_timestamp 100 ?vt = Ok ()"
    by (simp add: validate_timestamp_def validate_timestamp_non_dec_def validate_timestamp_drift_def abs_diff_def
        demo_header_def header_timestamp_def demo_parent_def sample_header_def)
  have sig: "header_builder_signature demo_header = [[1]]" by (simp add: demo_header_def header_getters)
  have "validate ledger_demo_env ?vt \<noteq> None"
    using header_validation_panics [of demo_header ?vt ledger_demo_env]
    by (simp add: ledger_demo_env_def demo_header_fields)
  moreover have "validate (ledger_demo_env\<lparr>recover_address := \<lambda>sig msg. None\<rparr>) ?vt = None"
    using header_validation_panics [of demo_header ?vt "ledger_demo_env\<lparr>recover_address := \<lambda>sig msg. None\<rparr>"]
    by (simp add: ledger_demo_env_def demo_header_fields ts sig)
  ultimately show ?thesis by (intro exI [of _ ?vt]) simp
qed

end
