(* ===== verification/Vote_Collection.thy ===== *)
theory Vote_Collection
  imports Events
begin

text \<open>
  Vote collection (\<open>crates/hotshot/task-impls/src/vote_collection.rs\<close>): one collector per view wraps a
  \<open>VoteAccumulator\<close>, checks that this node leads the view the votes are for, and emits an event when a
  certificate forms. \<open>handle_vote\<close> keeps the collectors of a vote type in a \<open>BTreeMap\<close> by view. The
  trait \<open>AggregatableVote\<close> is the record \<open>VoteKind\<close>, with one value for each vote type.
  \<open>handle_epoch_root_vote\<close> collects the votes of an epoch root, which carry a second signature for the
  light client. Signatures and hashes are parameters.
\<close>

section \<open>Vote types\<close>

datatype CollectError =
    NotLeader | NoLeaderFor | NoMembershipFor | VoteViewMismatch | NoAccumulator
  | OnlyOneCertificate | AccumulatorPanic AccumulatePanic

text \<open>
  What \<open>Vote\<close>, \<open>Certificate\<close> and \<open>AggregatableVote\<close> provide for a type of vote, together with the
  signature scheme. \<open>vk_received\<close> is the pattern of \<open>handle_vote_event\<close>: the vote that an event carries,
  if it is an event of this type.
\<close>

record ('k, 'g, 'd) VoteKind =
  vk_commit :: "'d \<Rightarrow> u64 \<Rightarrow> commitment"
  vk_validate :: "'k \<Rightarrow> 'g \<Rightarrow> commitment \<Rightarrow> bool"
  vk_aggregate :: "('k, 'g) aggregate_fn"
  vk_cert_membership :: "('k, u8 list) EpochMembership \<Rightarrow> ('k, u8 list) CertMembership"
  vk_leader :: "('k, 'g, 'd) SimpleVote \<Rightarrow> ('k, u8 list) EpochMembership \<Rightarrow> (CollectError, 'k) result"
  vk_make_cert_event :: "('d, 'g) SimpleCertificate \<Rightarrow> 'k \<Rightarrow> ('k, 'g) HotShotEvent"
  vk_received :: "('k, 'g) HotShotEvent \<Rightarrow> ('k, 'g, 'd) SimpleVote option"

definition membership_leader ::
  "('k, 's) EpochMembership \<Rightarrow> u64 \<Rightarrow> (CollectError, 'k) result" where
  "membership_leader membership view =
     (case em_leader membership view of Some k \<Rightarrow> Ok k | None \<Rightarrow> Err NoLeaderFor)"

section \<open>Collecting the votes of one view\<close>

record ('k, 'g) VoteCollectionTaskState =
  vc_public_key :: 'k
  vc_membership :: "('k, u8 list) EpochMembership"
  vc_accumulator :: "('k, 'g, 'g) VoteAccumulator option"
  vc_view :: u64
  vc_id :: u64
  vc_transition_indicator :: EpochTransitionIndicator

definition accumulate_vote ::
  "('k, 'g, 'd) VoteKind \<Rightarrow> ('k, 'g, 'd) SimpleVote \<Rightarrow> ('k, 'g) VoteCollectionTaskState
     \<Rightarrow> ('k, 'g) VoteCollectionTaskState \<times> ('k, 'g) HotShotEvent list
          \<times> (CollectError, ('d, 'g) SimpleCertificate option) result" where
  "accumulate_vote kind vote self =
     (case (if vc_transition_indicator self = InTransition then Ok ()
            else try_bind (vk_leader kind vote (vc_membership self))
              (\<lambda>leader. if leader = vc_public_key self then Ok () else Err NotLeader)) of
        Inl e \<Rightarrow> (self, [], Err e)
      | Inr _ \<Rightarrow>
         (if vote_view_number vote \<noteq> vc_view self then (self, [], Err VoteViewMismatch)
          else case vc_accumulator self of
            None \<Rightarrow> (self, [], Err NoAccumulator)
          | Some accumulator \<Rightarrow>
             (case accumulate (vk_commit kind) (vk_validate kind) (vk_aggregate kind) vote
                     (vk_cert_membership kind (vc_membership self)) accumulator of
                (accumulator', Inl panic) \<Rightarrow>
                  (self\<lparr>vc_accumulator := Some accumulator'\<rparr>, [], Err (AccumulatorPanic panic))
              | (accumulator', Inr None) \<Rightarrow>
                  (self\<lparr>vc_accumulator := Some accumulator'\<rparr>, [], Ok None)
              | (accumulator', Inr (Some cert)) \<Rightarrow>
                  (self\<lparr>vc_accumulator := None\<rparr>,
                   [vk_make_cert_event kind cert (vc_public_key self)], Ok (Some cert)))))"

definition handle_vote_event ::
  "('k, 'g, 'd) VoteKind \<Rightarrow> ('k, 'g) HotShotEvent \<Rightarrow> ('k, 'g) VoteCollectionTaskState
     \<Rightarrow> ('k, 'g) VoteCollectionTaskState \<times> ('k, 'g) HotShotEvent list
          \<times> (CollectError, ('d, 'g) SimpleCertificate option) result" where
  "handle_vote_event kind event self =
     (case vk_received kind event of
        Some vote \<Rightarrow> accumulate_vote kind vote self
      | None \<Rightarrow> (self, [], Ok None))"

record 'k AccumulatorInfo =
  ai_public_key :: 'k
  ai_membership :: "('k, u8 list) EpochMembership"
  ai_view :: u64
  ai_id :: u64

definition create_vote_accumulator ::
  "('k, 'g, 'd) VoteKind \<Rightarrow> 'k AccumulatorInfo \<Rightarrow> ('k, 'g) HotShotEvent \<Rightarrow> 'g UpgradeLock
     \<Rightarrow> EpochTransitionIndicator
     \<Rightarrow> ('k, 'g) HotShotEvent list \<times> (CollectError, ('k, 'g) VoteCollectionTaskState) result" where
  "create_vote_accumulator kind info event upgrade_lock transition_indicator =
     (let new_accumulator = \<lparr>vote_outcomes = Map.empty, acc_signers = Map.empty,
                             acc_upgrade_lock = upgrade_lock\<rparr>;
          state = \<lparr>vc_public_key = ai_public_key info, vc_membership = ai_membership info,
                   vc_accumulator = Some new_accumulator, vc_view = ai_view info, vc_id = ai_id info,
                   vc_transition_indicator = transition_indicator\<rparr>
      in case handle_vote_event kind event state of
           (state', events, Inl e) \<Rightarrow> (events, Err e)
         | (state', events, Inr _) \<Rightarrow> (events, Ok state'))"

section \<open>The collectors by view\<close>

type_synonym ('k, 'g) VoteCollectorsMap = "(u64, ('k, 'g) VoteCollectionTaskState) btree"

definition bt_remove :: "'a \<Rightarrow> ('a, 'v) btree \<Rightarrow> ('a, 'v) btree" where
  "bt_remove k m = filter (\<lambda>e. fst e \<noteq> k) m"

definition handle_vote ::
  "('k, 'g, 'd) VoteKind \<Rightarrow> ('k, 'g, 'd) SimpleVote \<Rightarrow> 'k \<Rightarrow> ('k, u8 list) EpochMembership \<Rightarrow> u64
     \<Rightarrow> ('k, 'g) HotShotEvent \<Rightarrow> 'g UpgradeLock \<Rightarrow> EpochTransitionIndicator
     \<Rightarrow> ('k, 'g) VoteCollectorsMap
     \<Rightarrow> ('k, 'g) VoteCollectorsMap \<times> ('k, 'g) HotShotEvent list \<times> (CollectError, unit) result" where
  "handle_vote kind vote public_key membership id1 event upgrade_lock transition_indicator collectors =
     (let view = vote_view_number vote in
      case bt_get collectors view of
        None \<Rightarrow>
         (case create_vote_accumulator kind
                 \<lparr>ai_public_key = public_key, ai_membership = membership, ai_view = view, ai_id = id1\<rparr>
                 event upgrade_lock transition_indicator of
            (events, Inl e) \<Rightarrow> (collectors, events, Err e)
          | (events, Inr collector) \<Rightarrow> (bt_insert view collector collectors, events, Ok ()))
      | Some entry \<Rightarrow>
         (case handle_vote_event kind event entry of
            (entry', events, Inl e) \<Rightarrow> (bt_insert view entry' collectors, events, Err e)
          | (entry', events, Inr None) \<Rightarrow> (bt_insert view entry' collectors, events, Ok ())
          | (entry', events, Inr (Some _)) \<Rightarrow>
              (bt_split_off view (bt_remove view collectors), events, Ok ())))"

section \<open>The vote types of the protocol\<close>

text \<open>
  Hashes of the vote data, the signature scheme, and \<open>membership_for_epoch\<close> of the coordinator, which
  fails while the epoch has no randomised stake table.
\<close>

record ('k, 'g) CollectEnv =
  ce_validate :: "'k \<Rightarrow> 'g \<Rightarrow> commitment \<Rightarrow> bool"
  ce_aggregate :: "('k, 'g) aggregate_fn"
  ce_quorum_commit :: "QuorumData2 \<Rightarrow> u64 \<Rightarrow> commitment"
  ce_next_epoch_commit :: "QuorumData2 \<Rightarrow> u64 \<Rightarrow> commitment"
  ce_upgrade_commit :: "UpgradeProposalData \<Rightarrow> u64 \<Rightarrow> commitment"
  ce_da_commit :: "DaData2 \<Rightarrow> u64 \<Rightarrow> commitment"
  ce_timeout_commit :: "TimeoutData2 \<Rightarrow> u64 \<Rightarrow> commitment"
  ce_pre_commit_commit :: "ViewSyncPreCommitData2 \<Rightarrow> u64 \<Rightarrow> commitment"
  ce_commit_commit :: "ViewSyncCommitData2 \<Rightarrow> u64 \<Rightarrow> commitment"
  ce_finalize_commit :: "ViewSyncFinalizeData2 \<Rightarrow> u64 \<Rightarrow> commitment"
  ce_membership_for_epoch :: "u64 option \<Rightarrow> ('k, u8 list) EpochMembership option"
  ce_stake_table_for_epoch :: "u64 option \<Rightarrow> ('k, u8 list) EpochMembership option"
  ce_verify_state_sig :: "u8 list \<Rightarrow> u8 list \<Rightarrow> LightClientState \<Rightarrow> StakeTableState \<Rightarrow> bool"

definition quorum_vote_kind :: "('k, 'g) CollectEnv \<Rightarrow> ('k, 'g, QuorumData2) VoteKind" where
  "quorum_vote_kind env =
     \<lparr>vk_commit = ce_quorum_commit env, vk_validate = ce_validate env, vk_aggregate = ce_aggregate env,
      vk_cert_membership = quorum_cert_membership SuccessThreshold,
      vk_leader = (\<lambda>vote membership. membership_leader membership (vote_view_number vote + 1)),
      vk_make_cert_event = (\<lambda>certificate _. Qc2Formed (Inl certificate)),
      vk_received = (\<lambda>event. case event of QuorumVoteRecv vote \<Rightarrow> Some vote | _ \<Rightarrow> None)\<rparr>"

text \<open>The leader of a next-epoch vote is looked up in the epoch before that of the collector.\<close>

definition next_epoch_leader ::
  "('k, 'g) CollectEnv \<Rightarrow> ('k, 'g) NextEpochQuorumVote2 \<Rightarrow> ('k, u8 list) EpochMembership
     \<Rightarrow> (CollectError, 'k) result" where
  "next_epoch_leader env vote membership =
     (let epoch = map_option (\<lambda>e. saturating_sub e 1) (em_epoch membership) in
      case ce_membership_for_epoch env epoch of
        None \<Rightarrow> Err NoMembershipFor
      | Some m \<Rightarrow> membership_leader m (vote_view_number vote + 1))"

definition next_epoch_quorum_vote_kind :: "('k, 'g) CollectEnv \<Rightarrow> ('k, 'g, QuorumData2) VoteKind" where
  "next_epoch_quorum_vote_kind env =
     \<lparr>vk_commit = ce_next_epoch_commit env, vk_validate = ce_validate env,
      vk_aggregate = ce_aggregate env,
      vk_cert_membership = quorum_cert_membership SuccessThreshold,
      vk_leader = next_epoch_leader env,
      vk_make_cert_event = (\<lambda>certificate _. NextEpochQc2Formed certificate),
      vk_received = (\<lambda>event. case event of QuorumVoteRecv vote \<Rightarrow> Some vote | _ \<Rightarrow> None)\<rparr>"

definition upgrade_vote_kind :: "('k, 'g) CollectEnv \<Rightarrow> ('k, 'g, UpgradeProposalData) VoteKind" where
  "upgrade_vote_kind env =
     \<lparr>vk_commit = ce_upgrade_commit env, vk_validate = ce_validate env, vk_aggregate = ce_aggregate env,
      vk_cert_membership = quorum_cert_membership UpgradeThreshold,
      vk_leader = (\<lambda>vote membership. membership_leader membership (vote_view_number vote)),
      vk_make_cert_event = (\<lambda>certificate _. UpgradeCertificateFormed certificate),
      vk_received = (\<lambda>event. case event of UpgradeVoteRecv vote \<Rightarrow> Some vote | _ \<Rightarrow> None)\<rparr>"

definition da_vote_kind :: "('k, 'g) CollectEnv \<Rightarrow> ('k, 'g, DaData2) VoteKind" where
  "da_vote_kind env =
     \<lparr>vk_commit = ce_da_commit env, vk_validate = ce_validate env, vk_aggregate = ce_aggregate env,
      vk_cert_membership = da_cert_membership,
      vk_leader = (\<lambda>vote membership. membership_leader membership (vote_view_number vote)),
      vk_make_cert_event = (\<lambda>certificate key. DacSend certificate key),
      vk_received = (\<lambda>event. case event of DaVoteRecv vote \<Rightarrow> Some vote | _ \<Rightarrow> None)\<rparr>"

definition timeout_vote_kind :: "('k, 'g) CollectEnv \<Rightarrow> ('k, 'g, TimeoutData2) VoteKind" where
  "timeout_vote_kind env =
     \<lparr>vk_commit = ce_timeout_commit env, vk_validate = ce_validate env, vk_aggregate = ce_aggregate env,
      vk_cert_membership = quorum_cert_membership SuccessThreshold,
      vk_leader = (\<lambda>vote membership. membership_leader membership (vote_view_number vote + 1)),
      vk_make_cert_event = (\<lambda>certificate _. Qc2Formed (Inr certificate)),
      vk_received = (\<lambda>event. case event of TimeoutVoteRecv vote \<Rightarrow> Some vote | _ \<Rightarrow> None)\<rparr>"

definition pre_commit_vote_kind ::
  "('k, 'g) CollectEnv \<Rightarrow> ('k, 'g, ViewSyncPreCommitData2) VoteKind" where
  "pre_commit_vote_kind env =
     \<lparr>vk_commit = ce_pre_commit_commit env, vk_validate = ce_validate env,
      vk_aggregate = ce_aggregate env,
      vk_cert_membership = quorum_cert_membership OneHonestThreshold,
      vk_leader = (\<lambda>vote membership.
         membership_leader membership (vsp_round (vote_date vote) + vsp_relay (vote_date vote))),
      vk_make_cert_event = (\<lambda>certificate key. ViewSyncPreCommitCertificateSend certificate key),
      vk_received = (\<lambda>event. case event of ViewSyncPreCommitVoteRecv vote \<Rightarrow> Some vote | _ \<Rightarrow> None)\<rparr>"

definition commit_vote_kind :: "('k, 'g) CollectEnv \<Rightarrow> ('k, 'g, ViewSyncCommitData2) VoteKind" where
  "commit_vote_kind env =
     \<lparr>vk_commit = ce_commit_commit env, vk_validate = ce_validate env, vk_aggregate = ce_aggregate env,
      vk_cert_membership = quorum_cert_membership SuccessThreshold,
      vk_leader = (\<lambda>vote membership.
         membership_leader membership (vsc_round (vote_date vote) + vsc_relay (vote_date vote))),
      vk_make_cert_event = (\<lambda>certificate key. ViewSyncCommitCertificateSend certificate key),
      vk_received = (\<lambda>event. case event of ViewSyncCommitVoteRecv vote \<Rightarrow> Some vote | _ \<Rightarrow> None)\<rparr>"

definition finalize_vote_kind ::
  "('k, 'g) CollectEnv \<Rightarrow> ('k, 'g, ViewSyncFinalizeData2) VoteKind" where
  "finalize_vote_kind env =
     \<lparr>vk_commit = ce_finalize_commit env, vk_validate = ce_validate env,
      vk_aggregate = ce_aggregate env,
      vk_cert_membership = quorum_cert_membership SuccessThreshold,
      vk_leader = (\<lambda>vote membership.
         membership_leader membership (vs_round (vote_date vote) + vs_relay (vote_date vote))),
      vk_make_cert_event = (\<lambda>certificate key. ViewSyncFinalizeCertificateSend certificate key),
      vk_received = (\<lambda>event. case event of ViewSyncFinalizeVoteRecv vote \<Rightarrow> Some vote | _ \<Rightarrow> None)\<rparr>"

section \<open>Epoch roots\<close>

record ('k, 'g) EpochRootVoteCollectionTaskState =
  er_public_key :: 'k
  er_membership :: "('k, u8 list) EpochMembership"
  er_accumulator :: "('k, 'g, 'g) VoteAccumulator option"
  er_state_vote_accumulator :: "(u8 list, LightClientState, StakeTableState, u8 list) LCAccumulator option"
  er_view :: u64
  er_epoch :: "u64 option"
  er_id :: u64

text \<open>
  Both accumulators run on every vote, the second one on the key that signed the quorum vote.
\<close>

definition epoch_root_accumulate_vote ::
  "('k, 'g) CollectEnv \<Rightarrow> ('k, 'g) EpochRootQuorumVote \<Rightarrow> ('k, 'g) EpochRootVoteCollectionTaskState
     \<Rightarrow> ('k, 'g) EpochRootVoteCollectionTaskState \<times> ('k, 'g) HotShotEvent list
          \<times> (CollectError, 'g EpochRootQuorumCertificate option) result" where
  "epoch_root_accumulate_vote env root_vote self =
     (let vote = erv_vote root_vote; state_vote = erv_state_vote root_vote in
      if vote_view_number vote \<noteq> er_view self then (self, [], Err VoteViewMismatch)
      else case er_accumulator self of
        None \<Rightarrow> (self, [], Err NoAccumulator)
      | Some accumulator \<Rightarrow>
         (case er_state_vote_accumulator self of
            None \<Rightarrow> (self, [], Err NoAccumulator)
          | Some state_vote_accumulator \<Rightarrow>
             (case accumulate (ce_quorum_commit env) (ce_validate env) (ce_aggregate env) vote
                     (quorum_cert_membership SuccessThreshold (er_membership self)) accumulator of
                (accumulator', Inl panic) \<Rightarrow>
                  (self\<lparr>er_accumulator := Some accumulator'\<rparr>, [], Err (AccumulatorPanic panic))
              | (accumulator', Inr cert) \<Rightarrow>
                 (case lc_accumulate (ce_verify_state_sig env) (vote_signing_key vote) state_vote
                         (er_membership self) state_vote_accumulator of
                    (state_vote_accumulator', state_cert) \<Rightarrow>
                     (let self' = self\<lparr>er_accumulator := Some accumulator',
                                       er_state_vote_accumulator := Some state_vote_accumulator'\<rparr>
                      in case (cert, state_cert) of
                           (None, None) \<Rightarrow> (self', [], Ok None)
                         | (Some qc, Some sc) \<Rightarrow>
                             (let root_qc = \<lparr>erc_qc = qc, erc_state_cert = sc\<rparr>
                              in (self'\<lparr>er_accumulator := None\<rparr>, [EpochRootQcFormed root_qc],
                                  Ok (Some root_qc)))
                         | _ \<Rightarrow> (self', [], Err OnlyOneCertificate))))))"

definition epoch_root_handle_vote_event ::
  "('k, 'g) CollectEnv \<Rightarrow> ('k, 'g) HotShotEvent \<Rightarrow> ('k, 'g) EpochRootVoteCollectionTaskState
     \<Rightarrow> ('k, 'g) EpochRootVoteCollectionTaskState \<times> ('k, 'g) HotShotEvent list
          \<times> (CollectError, 'g EpochRootQuorumCertificate option) result" where
  "epoch_root_handle_vote_event env event self =
     (case event of
        EpochRootQuorumVoteRecv vote \<Rightarrow> epoch_root_accumulate_vote env vote self
      | _ \<Rightarrow> (self, [], Ok None))"

definition create_epoch_root_vote_collection_task_state ::
  "('k, 'g) CollectEnv \<Rightarrow> 'k AccumulatorInfo \<Rightarrow> ('k, 'g) HotShotEvent \<Rightarrow> 'g UpgradeLock
     \<Rightarrow> ('k, 'g) HotShotEvent list
          \<times> (CollectError, ('k, 'g) EpochRootVoteCollectionTaskState) result" where
  "create_epoch_root_vote_collection_task_state env info event upgrade_lock =
     (let new_accumulator = \<lparr>vote_outcomes = Map.empty, acc_signers = Map.empty,
                             acc_upgrade_lock = upgrade_lock\<rparr>;
          state = \<lparr>er_public_key = ai_public_key info, er_membership = ai_membership info,
                   er_accumulator = Some new_accumulator,
                   er_state_vote_accumulator = Some Map.empty, er_view = ai_view info,
                   er_epoch = em_epoch (ai_membership info), er_id = ai_id info\<rparr>
      in case epoch_root_handle_vote_event env event state of
           (state', events, Inl e) \<Rightarrow> (events, Err e)
         | (state', events, Inr _) \<Rightarrow> (events, Ok state'))"

type_synonym ('k, 'g) EpochRootVoteCollectorsMap =
  "(u64, ('k, 'g) EpochRootVoteCollectionTaskState) btree"

definition handle_epoch_root_vote ::
  "('k, 'g) CollectEnv \<Rightarrow> ('k, 'g) EpochRootQuorumVote \<Rightarrow> 'k \<Rightarrow> ('k, u8 list) EpochMembership \<Rightarrow> u64
     \<Rightarrow> ('k, 'g) HotShotEvent \<Rightarrow> 'g UpgradeLock \<Rightarrow> ('k, 'g) EpochRootVoteCollectorsMap
     \<Rightarrow> ('k, 'g) EpochRootVoteCollectorsMap \<times> ('k, 'g) HotShotEvent list
          \<times> (CollectError, unit) result" where
  "handle_epoch_root_vote env vote public_key membership id1 event upgrade_lock collectors =
     (let view = vote_view_number (erv_vote vote) in
      case bt_get collectors view of
        None \<Rightarrow>
         (case create_epoch_root_vote_collection_task_state env
                 \<lparr>ai_public_key = public_key, ai_membership = membership, ai_view = view, ai_id = id1\<rparr>
                 event upgrade_lock of
            (events, Inl e) \<Rightarrow> (collectors, events, Err e)
          | (events, Inr collector) \<Rightarrow> (bt_insert view collector collectors, events, Ok ()))
      | Some entry \<Rightarrow>
         (case epoch_root_handle_vote_event env event entry of
            (entry', events, Inl e) \<Rightarrow> (bt_insert view entry' collectors, events, Err e)
          | (entry', events, Inr None) \<Rightarrow> (bt_insert view entry' collectors, events, Ok ())
          | (entry', events, Inr (Some _)) \<Rightarrow>
              (bt_split_off view (bt_remove view collectors), events, Ok ())))"

section \<open>Maps of collectors\<close>

lemma bt_get_remove: "bt_get (bt_remove k m) k' = (if k' = k then None else bt_get m k')"
  using bt_get_filter [of "\<lambda>x. x \<noteq> k" m k'] by (simp add: bt_remove_def)

text \<open>
  A log of a sequence of inputs: for every input its view and the events it produced.
\<close>

fun log_run ::
  "('i \<Rightarrow> 'm \<Rightarrow> 'm \<times> 'e list \<times> 'r) \<Rightarrow> ('i \<Rightarrow> u64) \<Rightarrow> 'i list \<Rightarrow> 'm \<Rightarrow> 'm \<times> (u64 \<times> 'e list) list" where
  "log_run step view_of [] m = (m, [])"
| "log_run step view_of (i # is) m =
     (case step i m of (m1, events, _) \<Rightarrow>
      case log_run step view_of is m1 of (m2, log) \<Rightarrow> (m2, (view_of i, events) # log))"

lemma log_run_snoc:
  "log_run step view_of (is @ [i]) m =
     (case log_run step view_of is m of (m1, log) \<Rightarrow>
      case step i m1 of (m2, events, _) \<Rightarrow> (m2, log @ [(view_of i, events)]))"
  by (induction "is" arbitrary: m) (auto split: prod.splits)

text \<open>
  \<open>handle_vote\<close> and \<open>handle_epoch_root_vote\<close> treat their maps alike. The contract: on a vacant view
  a fresh collector takes the input and is kept unless that fails, on an occupied view the collector
  takes the input, and goes together with the collectors of all earlier views once it hands out a
  certificate; an event is sent exactly with a certificate.
\<close>

locale view_collectors =
  fixes step :: "'i \<Rightarrow> (u64, 'c) btree \<Rightarrow> (u64, 'c) btree \<times> 'e list \<times> ('x, unit) result"
    and feed :: "'i \<Rightarrow> 'c \<Rightarrow> 'c \<times> 'e list \<times> ('x, 'q option) result"
    and fresh :: "'i \<Rightarrow> 'c"
    and view_of :: "'i \<Rightarrow> u64"
  assumes step_vacant: "bt_get m (view_of i) = None \<Longrightarrow> step i m =
      (case feed i (fresh i) of
         (c, events, Inl e) \<Rightarrow> (m, events, Inl e)
       | (c, events, Inr _) \<Rightarrow> (bt_insert (view_of i) c m, events, Inr ()))"
    and step_occupied: "bt_get m (view_of i) = Some c \<Longrightarrow> step i m =
      (case feed i c of
         (c', events, Inl e) \<Rightarrow> (bt_insert (view_of i) c' m, events, Inl e)
       | (c', events, Inr None) \<Rightarrow> (bt_insert (view_of i) c' m, events, Inr ())
       | (c', events, Inr (Some _)) \<Rightarrow>
           (bt_split_off (view_of i) (bt_remove (view_of i) m), events, Inr ()))"
    and feed_events: "feed i c = (c', events, r) \<Longrightarrow> (events \<noteq> []) = (\<exists>q. r = Inr (Some q))"
begin

lemma step_cases:
  assumes "step i m = (m', events, r)"
  obtains (fed) c c' r' where "bt_get m (view_of i) = Some c \<or> bt_get m (view_of i) = None \<and> c = fresh i"
      "feed i c = (c', events, r')"
      "\<forall>w. bt_get m' w = bt_get m w \<or> w = view_of i \<and> bt_get m' w = Some c' \<or> bt_get m' w = None"
      "\<forall>w. view_of i < w \<or> events = [] \<and> w \<noteq> view_of i \<longrightarrow> bt_get m' w = bt_get m w"
      "events = [] \<Longrightarrow> bt_get m (view_of i) \<noteq> None \<or> is_ok r' \<Longrightarrow> bt_get m' (view_of i) = Some c'"
proof (cases "bt_get m (view_of i)")
  case None
  obtain c' ev r' where f: "feed i (fresh i) = (c', ev, r')" by (cases "feed i (fresh i)") auto
  then show thesis using assms None step_vacant [OF None]
    by (intro fed [of "fresh i" c' r']) (auto simp: bt_get_insert split: sum.splits if_splits)
next
  case (Some c)
  obtain c' ev r' where f: "feed i c = (c', ev, r')" by (cases "feed i c") auto
  note ev = feed_events [OF f]
  show thesis using assms Some step_occupied [OF Some] f ev
    by (intro fed [of c c' r'])
       (auto simp: bt_get_insert bt_get_split_off bt_get_remove
          split: sum.splits option.splits if_splits)
qed

text \<open>
  Safety: what holds of a fresh collector and is kept by every input holds of every collector in the
  map, and every event was sent by such a collector.
\<close>

lemma run_safe:
  assumes "\<And>i. i \<in> set is \<Longrightarrow> P (view_of i) (fresh i)"
    and "\<And>i c c' events r. i \<in> set is \<Longrightarrow> P (view_of i) c \<Longrightarrow> feed i c = (c', events, r) \<Longrightarrow>
      P (view_of i) c' \<and> (\<forall>e \<in> set events. E i c e)"
    and "log_run step view_of is [] = (m, log)"
  shows "(\<forall>w c. bt_get m w = Some c \<longrightarrow> P w c)
    \<and> (\<forall>(w, events) \<in> set log. \<forall>e \<in> set events. \<exists>i \<in> set is. \<exists>c. view_of i = w \<and> P w c \<and> E i c e)"
  using assms
proof (induction "is" arbitrary: m log rule: rev_induct)
  case Nil
  then show ?case by simp
next
  case (snoc i "is")
  obtain m1 log1 where r1: "log_run step view_of is [] = (m1, log1)" by fastforce
  obtain m2 ev r where st: "step i m1 = (m2, ev, r)" by (cases "step i m1") auto
  have out: "m = m2" "log = log1 @ [(view_of i, ev)]"
    using snoc.prems(3) r1 st by (auto simp: log_run_snoc)
  have "(\<forall>w c. bt_get m1 w = Some c \<longrightarrow> P w c) \<and> (\<forall>(w, events) \<in> set log1. \<forall>e \<in> set events.
      \<exists>i \<in> set is. \<exists>c. view_of i = w \<and> P w c \<and> E i c e)"
  proof (rule snoc.IH [OF _ _ r1], goal_cases)
    case (1 j)
    then show ?case by (intro snoc.prems(1)) simp
  next
    case (2 j c c' events r)
    then show ?case by (intro snoc.prems(2)) simp_all
  qed
  then have IH: "\<forall>w c. bt_get m1 w = Some c \<longrightarrow> P w c"
    "\<forall>(w, events) \<in> set log1. \<forall>e \<in> set events. \<exists>i \<in> set is. \<exists>c. view_of i = w \<and> P w c \<and> E i c e"
    by blast+
  show ?case
    using st
  proof (cases rule: step_cases)
    case (fed c c' r')
    have Pc: "P (view_of i) c" using fed(1) IH(1) snoc.prems(1) by auto
    have fd: "P (view_of i) c'" "\<forall>e \<in> set ev. E i c e"
      using snoc.prems(2) [OF _ Pc fed(2)] by auto
    have "P w d" if "bt_get m2 w = Some d" for w d
      using spec [OF fed(3), of w] that IH(1) fd(1) by auto
    moreover have "\<exists>i \<in> set (is @ [i]). \<exists>c. view_of i = w \<and> P w c \<and> E i c e"
      if "(w, events) \<in> set log" "e \<in> set events" for w events e
    proof (cases "(w, events) \<in> set log1")
      case True
      with IH(2) that(2) show ?thesis by fastforce
    next
      case False
      then have "w = view_of i" "events = ev" using that(1) out(2) by auto
      then show ?thesis using Pc fd(2) that(2) by auto
    qed
    ultimately show ?thesis unfolding out(1) by blast
  qed
qed

text \<open>
  Liveness: as long as no certificate came out for the view or a later one, the collector of the
  view has taken every input for it.
\<close>

lemma run_takes_all:
  assumes "\<And>i c events r. i \<in> set is \<Longrightarrow> view_of i = v \<Longrightarrow> feed i (fresh i) = (c, events, r) \<Longrightarrow>
      is_ok r"
    and "\<And>i. i \<in> set is \<Longrightarrow> view_of i = v \<Longrightarrow> Q [] (fresh i)"
    and "\<And>xs i c c' r. i \<in> set is \<Longrightarrow> view_of i = v \<Longrightarrow> Q xs c \<Longrightarrow> feed i c = (c', [], r) \<Longrightarrow>
      Q (xs @ [i]) c'"
    and "log_run step view_of is [] = (m, log)"
    and "\<forall>(w, events) \<in> set log. v \<le> w \<longrightarrow> events = []"
  shows "case bt_get m v of
      None \<Rightarrow> \<forall>i \<in> set is. view_of i \<noteq> v
    | Some c \<Rightarrow> Q (filter (\<lambda>i. view_of i = v) is) c"
  using assms
proof (induction "is" arbitrary: m log rule: rev_induct)
  case Nil
  then show ?case by simp
next
  case (snoc i "is")
  obtain m1 log1 where r1: "log_run step view_of is [] = (m1, log1)" by fastforce
  obtain m2 ev r where st: "step i m1 = (m2, ev, r)" by (cases "step i m1") auto
  have out: "m = m2" "log = log1 @ [(view_of i, ev)]"
    using snoc.prems(4) r1 st by (auto simp: log_run_snoc)
  have IH: "case bt_get m1 v of None \<Rightarrow> \<forall>i \<in> set is. view_of i \<noteq> v
    | Some c \<Rightarrow> Q (filter (\<lambda>i. view_of i = v) is) c"
  proof (rule snoc.IH [OF _ _ _ r1], goal_cases)
    case (1 j c events r)
    then show ?case by (intro snoc.prems(1)) simp_all
  next
    case (2 j)
    then show ?case by (intro snoc.prems(2)) simp_all
  next
    case (3 xs j c c' r)
    then show ?case by (intro snoc.prems(3)) simp_all
  next
    case 4
    then show ?case using snoc.prems(5) out(2) by simp
  qed
  have ev: "v \<le> view_of i \<Longrightarrow> ev = []" using snoc.prems(5) out(2) by auto
  show ?case
    using st
  proof (cases rule: step_cases)
    case (fed c c' r')
    show ?thesis
    proof (cases "view_of i = v")
      case False
      then have "bt_get m v = bt_get m1 v"
        using fed(4) ev out(1) by (metis linorder_not_less order.strict_iff_order)
      then show ?thesis using IH False by (auto split: option.splits)
    next
      case True
      have e: "ev = []" using ev True by simp
      have k: "bt_get m1 v \<noteq> None \<or> is_ok r'"
        using fed(1,2) snoc.prems(1) [of i c' ev r'] True by auto
      have m: "bt_get m v = Some c'" using fed(5) e k True out(1) by simp
      have "Q (filter (\<lambda>i. view_of i = v) is) c"
        using fed(1) IH True snoc.prems(2) by (auto simp: filter_False split: option.splits)
      then have "Q (filter (\<lambda>i. view_of i = v) is @ [i]) c'"
        using snoc.prems(3) [of i _ c c' r'] True fed(2) e by auto
      then show ?thesis using m True by simp
    qed
  qed
qed

end

text \<open>Both handlers keep this contract.\<close>

type_synonym ('k, 'g, 'd) VoteInput =
  "('k, 'g, 'd) SimpleVote \<times> ('k, u8 list) EpochMembership \<times> EpochTransitionIndicator"

definition input_view :: "('k, 'g, 'd) VoteInput \<Rightarrow> u64" where
  "input_view i = vote_view_number (fst i)"

definition vote_step ::
  "('k, 'g, 'd) VoteKind \<Rightarrow> (('k, 'g, 'd) SimpleVote \<Rightarrow> ('k, 'g) HotShotEvent) \<Rightarrow> 'k \<Rightarrow> u64
     \<Rightarrow> 'g UpgradeLock \<Rightarrow> ('k, 'g, 'd) VoteInput \<Rightarrow> ('k, 'g) VoteCollectorsMap
     \<Rightarrow> ('k, 'g) VoteCollectorsMap \<times> ('k, 'g) HotShotEvent list \<times> (CollectError, unit) result" where
  "vote_step kind event key id1 lock i =
     (case i of (vote, membership, indicator) \<Rightarrow>
        handle_vote kind vote key membership id1 (event vote) lock indicator)"

definition fresh_collector ::
  "'k \<Rightarrow> u64 \<Rightarrow> 'g UpgradeLock \<Rightarrow> ('k, 'g, 'd) VoteInput \<Rightarrow> ('k, 'g) VoteCollectionTaskState" where
  "fresh_collector key id1 lock i =
     (case i of (vote, membership, indicator) \<Rightarrow>
        \<lparr>vc_public_key = key, vc_membership = membership,
         vc_accumulator = Some (empty_accumulator lock), vc_view = vote_view_number vote, vc_id = id1,
         vc_transition_indicator = indicator\<rparr>)"

definition root_step ::
  "('k, 'g) CollectEnv \<Rightarrow> 'k \<Rightarrow> u64 \<Rightarrow> 'g UpgradeLock
     \<Rightarrow> ('k, 'g) EpochRootQuorumVote \<times> ('k, u8 list) EpochMembership
     \<Rightarrow> ('k, 'g) EpochRootVoteCollectorsMap
     \<Rightarrow> ('k, 'g) EpochRootVoteCollectorsMap \<times> ('k, 'g) HotShotEvent list
          \<times> (CollectError, unit) result" where
  "root_step env key id1 lock i =
     (case i of (vote, membership) \<Rightarrow>
        handle_epoch_root_vote env vote key membership id1 (EpochRootQuorumVoteRecv vote) lock)"

definition fresh_root_collector ::
  "'k \<Rightarrow> u64 \<Rightarrow> 'g UpgradeLock \<Rightarrow> ('k, 'g) EpochRootQuorumVote \<times> ('k, u8 list) EpochMembership
     \<Rightarrow> ('k, 'g) EpochRootVoteCollectionTaskState" where
  "fresh_root_collector key id1 lock i =
     (case i of (vote, membership) \<Rightarrow>
        \<lparr>er_public_key = key, er_membership = membership,
         er_accumulator = Some (empty_accumulator lock), er_state_vote_accumulator = Some Map.empty,
         er_view = vote_view_number (erv_vote vote), er_epoch = em_epoch membership, er_id = id1\<rparr>)"

lemma accumulate_vote_events:
  "accumulate_vote kind vote self = (self', events, r) \<Longrightarrow>
     (events \<noteq> []) = (\<exists>cert. r = Ok (Some cert))"
  by (auto simp: accumulate_vote_def split: sum.splits if_splits option.splits prod.splits)

lemma epoch_root_accumulate_vote_events:
  "epoch_root_accumulate_vote env vote self = (self', events, r) \<Longrightarrow>
     (events \<noteq> []) = (\<exists>cert. r = Ok (Some cert))"
  by (auto simp: epoch_root_accumulate_vote_def Let_def
      split: sum.splits if_splits option.splits prod.splits)

interpretation votes: view_collectors
  "vote_step kind event key id1 lock"
  "\<lambda>i. handle_vote_event kind (event (fst i))"
  "fresh_collector key id1 lock" input_view
  for kind :: "('k, 'g, 'd) VoteKind" and event key id1 lock
proof (unfold_locales, goal_cases)
  case (1 m i)
  then show ?case
    by (cases i) (auto simp: vote_step_def input_view_def handle_vote_def create_vote_accumulator_def
        fresh_collector_def empty_accumulator_def Let_def split: prod.splits sum.splits)
next
  case (2 m i c)
  then show ?case
    by (cases i) (auto simp: vote_step_def input_view_def handle_vote_def Let_def
        split: prod.splits sum.splits option.splits)
next
  case (3 i c c' events r)
  then show ?case
    by (auto simp: handle_vote_event_def accumulate_vote_events split: option.splits)
qed

interpretation root_votes: view_collectors
  "root_step env key id1 lock"
  "\<lambda>i. epoch_root_accumulate_vote env (fst i)"
  "fresh_root_collector key id1 lock" "\<lambda>i. vote_view_number (erv_vote (fst i))"
  for env :: "('k, 'g) CollectEnv" and key id1 lock
proof (unfold_locales, goal_cases)
  case (1 m i)
  then show ?case
    by (cases i) (auto simp: root_step_def handle_epoch_root_vote_def
        create_epoch_root_vote_collection_task_state_def epoch_root_handle_vote_event_def
        fresh_root_collector_def empty_accumulator_def Let_def split: prod.splits sum.splits)
next
  case (2 m i c)
  then show ?case
    by (cases i) (auto simp: root_step_def handle_epoch_root_vote_def epoch_root_handle_vote_event_def
        Let_def split: prod.splits sum.splits option.splits)
next
  case (3 i c c' events r)
  then show ?case by (auto simp: epoch_root_accumulate_vote_events)
qed

section \<open>Certificates that leave the collectors\<close>

abbreviation kind_entries where
  "kind_entries kind m \<equiv> stake_table_entries (cm_stake_table (vk_cert_membership kind m))"

abbreviation kind_threshold where
  "kind_threshold kind m \<equiv> cm_threshold (vk_cert_membership kind m)"

definition collector_ok ::
  "('k, 'g, 'd) VoteKind \<Rightarrow> 'g UpgradeLock \<Rightarrow> ('k, 'g) VoteCollectionTaskState \<Rightarrow> bool" where
  "collector_ok kind lock c \<longleftrightarrow>
     cert_membership_ok (vk_cert_membership kind (vc_membership c))
     \<and> (\<forall>acc. vc_accumulator c = Some acc \<longrightarrow>
          accumulator_ok (vk_validate kind) (kind_entries kind (vc_membership c)) acc
          \<and> acc_upgrade_lock acc = lock)"

definition authorised ::
  "('k, 'g, 'd) VoteKind \<Rightarrow> 'k \<Rightarrow> ('k, u8 list) EpochMembership \<Rightarrow> EpochTransitionIndicator
     \<Rightarrow> ('k, 'g, 'd) SimpleVote \<Rightarrow> bool" where
  "authorised kind key membership indicator vote \<longleftrightarrow>
     indicator = InTransition \<or> vk_leader kind vote membership = Ok key"

definition certifies ::
  "('k, 'g, 'd) VoteKind \<Rightarrow> ('k, 'g) multi_verify_fn \<Rightarrow> 'g UpgradeLock \<Rightarrow> 'k
     \<Rightarrow> ('k, u8 list) EpochMembership \<Rightarrow> ('k, 'g, 'd) SimpleVote \<Rightarrow> ('k, 'g) HotShotEvent \<Rightarrow> bool" where
  "certifies kind msv lock key membership vote e \<longleftrightarrow>
     (\<exists>cert. e = vk_make_cert_event kind cert key
        \<and> cert_data cert = vote_date vote \<and> cert_view_number cert = vote_view_number vote
        \<and> is_valid_cert msv (vk_commit kind) cert (kind_entries kind membership)
            (kind_threshold kind membership) lock = Ok ())"

lemma accumulate_cert_fields:
  assumes "accumulate vote_commit validate aggregate vote membership acc = (acc', Ok (Some cert))"
  shows "cert_data cert = vote_date vote \<and> cert_view_number cert = vote_view_number vote"
  using assms
  by (auto simp: accumulate_def Let_def create_signed_certificate_def
      split: sum.splits if_splits option.splits prod.splits)

lemma accumulate_below_threshold:
  assumes mem: "cert_membership_ok membership"
    and agg: "aggregate_complete validate aggregate msv"
    and d: "distinct (map stake_key (stake_table_entries (cm_stake_table membership)))"
    and ok: "accumulator_ok validate (stake_table_entries (cm_stake_table membership)) acc"
    and run: "accumulate vote_commit validate aggregate vote membership acc = (acc', Ok None)"
    and below: "\<forall>c. stake_of (recorded acc c) (stake_table_entries (cm_stake_table membership))
      < cm_threshold membership"
  shows "\<forall>c. stake_of (recorded acc' c) (stake_table_entries (cm_stake_table membership))
      < cm_threshold membership"
proof (cases "vote_accepted vote_commit validate vote membership acc")
  case False
  then show ?thesis using accumulate_rejected [OF ok False, of aggregate] run below by auto
next
  case True
  let ?es = "stake_table_entries (cm_stake_table membership)"
  let ?c = "vote_commit (vote_date vote) (vote_view_number vote)"
  obtain t m where acc': "accumulator_ok validate ?es acc'"
      "vote_outcomes acc' = (vote_outcomes acc)(?c \<mapsto> (t, m))"
    and t: "cm_threshold membership \<le> t \<longrightarrow> (\<exists>cert. (Ok None :: (AccumulatePanic, _) result) = Ok (Some cert))"
    by (rule accumulate_accepted_result [OF mem agg ok True run]) blast
  have "stake_of (recorded acc' c) ?es < cm_threshold membership" for c
  proof (cases "c = ?c")
    case True
    then have "stake_of (recorded acc' c) ?es = t"
      using tally_eq_stake_of_recorded [OF acc'(1) d, of c] acc'(2) by (simp add: tally_def)
    then show ?thesis using t by auto
  next
    case False
    then have "recorded acc' c = recorded acc c" using acc'(2) by (simp add: recorded_def)
    then show ?thesis using below by simp
  qed
  then show ?thesis by blast
qed

lemma accumulate_vote_cases:
  assumes "accumulate_vote kind vote c = (c', events, r)"
  obtains (refused) e where "c' = c" "events = []" "r = Err e"
      "\<not> authorised kind (vc_public_key c) (vc_membership c) (vc_transition_indicator c) vote
       \<or> vote_view_number vote \<noteq> vc_view c \<or> vc_accumulator c = None"
  | (fed) acc acc' r' where
      "authorised kind (vc_public_key c) (vc_membership c) (vc_transition_indicator c) vote"
      "vote_view_number vote = vc_view c" "vc_accumulator c = Some acc"
      "accumulate (vk_commit kind) (vk_validate kind) (vk_aggregate kind) vote
         (vk_cert_membership kind (vc_membership c)) acc = (acc', r')"
      "c' = c\<lparr>vc_accumulator := (case r' of Inr (Some cert) \<Rightarrow> None | _ \<Rightarrow> Some acc')\<rparr>"
      "events = (case r' of Inr (Some cert) \<Rightarrow> [vk_make_cert_event kind cert (vc_public_key c)] | _ \<Rightarrow> [])"
      "r = map_sum AccumulatorPanic id r'"
proof (cases "authorised kind (vc_public_key c) (vc_membership c) (vc_transition_indicator c) vote
       \<and> vote_view_number vote = vc_view c \<and> vc_accumulator c \<noteq> None")
  case False
  show thesis
    using assms False refused
    by (auto simp: accumulate_vote_def authorised_def try_bind_def
        split: sum.splits if_splits option.splits)
next
  case True
  then obtain acc where a: "vc_accumulator c = Some acc" by auto
  obtain acc' r' where "accumulate (vk_commit kind) (vk_validate kind) (vk_aggregate kind) vote
         (vk_cert_membership kind (vc_membership c)) acc = (acc', r')" by fastforce
  with assms True a fed [of acc acc' r'] show thesis
    by (auto simp: accumulate_vote_def authorised_def try_bind_def
        split: sum.splits if_splits option.splits prod.splits)
qed

lemma accumulate_vote_step:
  assumes agg: "aggregate_complete (vk_validate kind) (vk_aggregate kind) msv"
    and ok: "collector_ok kind lock c"
    and run: "accumulate_vote kind vote c = (c', events, r)"
  shows "collector_ok kind lock c' \<and> vc_public_key c' = vc_public_key c
    \<and> vc_membership c' = vc_membership c \<and> vc_transition_indicator c' = vc_transition_indicator c
    \<and> (\<forall>e \<in> set events. certifies kind msv lock (vc_public_key c) (vc_membership c) vote e
         \<and> authorised kind (vc_public_key c) (vc_membership c) (vc_transition_indicator c) vote)"
  using run
proof (cases rule: accumulate_vote_cases)
  case (refused e)
  then show ?thesis using ok by simp
next
  case (fed acc acc' r')
  have o: "cert_membership_ok (vk_cert_membership kind (vc_membership c))"
      "accumulator_ok (vk_validate kind) (kind_entries kind (vc_membership c)) acc"
      "acc_upgrade_lock acc = lock"
    using ok fed(3) by (auto simp: collector_ok_def)
  note st = accumulate_step [OF o(1) agg o(2) fed(4)]
  have "\<forall>cert. r' = Ok (Some cert) \<longrightarrow>
      certifies kind msv lock (vc_public_key c) (vc_membership c) vote
        (vk_make_cert_event kind cert (vc_public_key c))"
    using st o(3) fed(4) by (auto simp: certifies_def good_outcome_def dest!: accumulate_cert_fields)
  then show ?thesis
    using st o fed by (auto simp: collector_ok_def split: sum.splits option.splits)
qed



section \<open>Certificates of epoch roots\<close>

text \<open>
  A membership with one entry per key and per state key that looks its members up correctly.
\<close>

definition root_membership_ok :: "('k, 's) EpochMembership \<Rightarrow> bool" where
  "root_membership_ok m \<longleftrightarrow>
     em_total_nodes m = length (em_stake_table m)
     \<and> distinct (map stake_key (stake_table_entries (em_stake_table m)))
     \<and> distinct (map state_ver_key (em_stake_table m))
     \<and> (\<forall>k p. em_stake m k = Some p \<longleftrightarrow> p \<in> set (em_stake_table m) \<and> stake_key (stake_table_entry p) = k)"

lemma root_membership_ok_cert:
  "root_membership_ok m \<Longrightarrow> cert_membership_ok (quorum_cert_membership SuccessThreshold m)"
  by (auto simp: root_membership_ok_def cert_membership_ok_def quorum_cert_membership_def)

lemma root_membership_keys_inject:
  assumes "root_membership_ok m" "p \<in> set (em_stake_table m)" "q \<in> set (em_stake_table m)"
  shows "stake_key (stake_table_entry p) = stake_key (stake_table_entry q) \<longleftrightarrow> p = q"
    "state_ver_key p = state_ver_key q \<longleftrightarrow> p = q"
  using assms unfolding root_membership_ok_def stake_table_entries_def map_map comp_def
  by (metis (no_types, lifting) distinct_map inj_onD)+

text \<open>The two halves of a vote: the quorum signature over \<open>c\<close> and the state signature over \<open>s\<close>.\<close>

definition quorum_part_valid ::
  "('k, 'g) CollectEnv \<Rightarrow> 'g UpgradeLock \<Rightarrow> ('k, u8 list) EpochMembership \<Rightarrow> commitment
     \<Rightarrow> ('k, 'g) EpochRootQuorumVote \<Rightarrow> bool" where
  "quorum_part_valid env lock m c rv \<longleftrightarrow>
     ce_quorum_commit env (vote_date (erv_vote rv)) (vote_view_number (erv_vote rv)) = c
     \<and> is_ok (lock_version lock (vote_view_number (erv_vote rv)))
     \<and> ce_validate env (vote_signing_key (erv_vote rv)) (vote_signature (erv_vote rv)) c
     \<and> em_stake m (vote_signing_key (erv_vote rv)) \<noteq> None"

definition state_part_valid ::
  "('k, 'g) CollectEnv \<Rightarrow> ('k, u8 list) EpochMembership \<Rightarrow> LightClientState \<times> StakeTableState
     \<Rightarrow> ('k, 'g) EpochRootQuorumVote \<Rightarrow> bool" where
  "state_part_valid env m s rv \<longleftrightarrow>
     (lcv_light_client_state (erv_state_vote rv), lcv_next_stake_table_state (erv_state_vote rv)) = s
     \<and> (\<exists>p. em_stake m (vote_signing_key (erv_vote rv)) = Some p
          \<and> ce_verify_state_sig env (state_ver_key p) (lcv_signature (erv_state_vote rv)) (fst s) (snd s))"

definition lc_recorded :: "('s, 'l, 't, 'q) LCAccumulator \<Rightarrow> 'l \<times> 't \<Rightarrow> 's set" where
  "lc_recorded acc s = (case acc s of None \<Rightarrow> {} | Some (_, sigs) \<Rightarrow> fst ` set sigs)"

lemma voters_quorum_part:
  assumes "root_membership_ok m"
  shows "voters (ce_quorum_commit env) (ce_validate env) (quorum_cert_membership SuccessThreshold m) lock
     [erv_vote rv] c = (if quorum_part_valid env lock m c rv then {vote_signing_key (erv_vote rv)} else {})"
proof -
  have "em_stake m k = Some p \<Longrightarrow> p \<in> set (em_stake_table m)" for k p
    using assms by (simp add: root_membership_ok_def)
  then show ?thesis
    by (auto simp: voters_def quorum_part_valid_def quorum_cert_membership_def split: option.splits)
qed

lemma lc_accumulate_records:
  assumes mem: "root_membership_ok m" "em_epoch m \<noteq> None"
    and ok: "lc_ok (ce_verify_state_sig env) (em_stake_table m) acc"
    and run: "lc_accumulate (ce_verify_state_sig env) (vote_signing_key (erv_vote rv)) (erv_state_vote rv)
      m acc = (acc', r)"
  shows "lc_recorded acc' s = lc_recorded acc s \<union> (if state_part_valid env m s rv
       then {state_ver_key (the (em_stake m (vote_signing_key (erv_vote rv))))} else {})"
    and "lc_recorded acc' s \<noteq> lc_recorded acc s \<Longrightarrow>
      r = None \<longleftrightarrow> state_stake_of (lc_recorded acc' s) (em_stake_table m) < em_success_threshold m"
    and "r \<noteq> None \<Longrightarrow> \<exists>s. lc_recorded acc' s \<noteq> lc_recorded acc s"
proof -
  let ?l = "lcv_light_client_state (erv_state_vote rv)"
  let ?t = "lcv_next_stake_table_state (erv_state_vote rv)"
  let ?k = "vote_signing_key (erv_vote rv)"
  have "(lc_recorded acc' s = lc_recorded acc s \<union> (if state_part_valid env m s rv
       then {state_ver_key (the (em_stake m ?k))} else {})) \<and> (lc_recorded acc' s \<noteq> lc_recorded acc s
     \<longrightarrow> r = None \<longleftrightarrow> state_stake_of (lc_recorded acc' s) (em_stake_table m) < em_success_threshold m)"
  proof (cases "\<exists>p. em_stake m ?k = Some p \<and>
      ce_verify_state_sig env (state_ver_key p) (lcv_signature (erv_state_vote rv)) ?l ?t")
    case False
    then have "acc' = acc" "\<not> state_part_valid env m s rv"
      using run by (auto simp: lc_accumulate_def Let_def state_part_valid_def split: option.splits)
    then show ?thesis by simp
  next
    case True
    then obtain p where p: "em_stake m ?k = Some p"
        "ce_verify_state_sig env (state_ver_key p) (lcv_signature (erv_state_vote rv)) ?l ?t" by blast
    obtain epoch where e: "em_epoch m = Some epoch" using mem(2) by blast
    have pt: "p \<in> set (em_stake_table m)" using mem(1) p(1) by (simp add: root_membership_ok_def)
    have d: "distinct (map state_ver_key (em_stake_table m))" using mem(1) by (simp add: root_membership_ok_def)
    obtain tot sigs where o: "(case acc (?l, ?t) of Some o1 \<Rightarrow> o1 | None \<Rightarrow> (0, [])) = (tot, sigs)"
      by fastforce
    have inv: "tot = state_stake_of (fst ` set sigs) (em_stake_table m)"
        "lc_recorded acc (?l, ?t) = fst ` set sigs"
      using o ok by (auto simp: lc_ok_def lc_recorded_def state_stake_of_def split: option.splits)
    have sv: "state_part_valid env m s rv \<longleftrightarrow> s = (?l, ?t)"
      using p by (auto simp: state_part_valid_def)
    show ?thesis
    proof (cases "state_ver_key p \<in> fst ` set sigs")
      case True
      then have "map_of sigs (state_ver_key p) \<noteq> None" by (simp add: map_of_eq_None_iff)
      then have "acc' = acc((?l, ?t) \<mapsto> (tot, sigs))"
        using run e p o by (auto simp: lc_accumulate_def Let_def)
      then show ?thesis using True inv(2) sv p(1) by (auto simp: lc_recorded_def)
    next
      case False
      then have "map_of sigs (state_ver_key p) = None" by (simp add: map_of_eq_None_iff)
      then have res: "acc' = acc((?l, ?t) \<mapsto> (tot + stake_amount (stake_table_entry p),
            sigs @ [(state_ver_key p, lcv_signature (erv_state_vote rv))]))"
          "r = None \<longleftrightarrow> \<not> em_success_threshold m \<le> tot + stake_amount (stake_table_entry p)"
        using run e p o by (auto simp: lc_accumulate_def Let_def split: if_splits)
      have "tot + stake_amount (stake_table_entry p)
          = state_stake_of (insert (state_ver_key p) (fst ` set sigs)) (em_stake_table m)"
        using state_stake_of_insert [OF d pt False] inv(1) by simp
      moreover have "lc_recorded acc' s = (if s = (?l, ?t)
          then insert (state_ver_key p) (fst ` set sigs) else lc_recorded acc s)"
        using res(1) by (auto simp: lc_recorded_def)
      ultimately show ?thesis using res(2) inv(2) sv p(1) by auto
    qed
  qed
  then show "lc_recorded acc' s = lc_recorded acc s \<union> (if state_part_valid env m s rv
       then {state_ver_key (the (em_stake m ?k))} else {})"
    "lc_recorded acc' s \<noteq> lc_recorded acc s \<Longrightarrow>
      r = None \<longleftrightarrow> state_stake_of (lc_recorded acc' s) (em_stake_table m) < em_success_threshold m"
    by blast+
  show "r \<noteq> None \<Longrightarrow> \<exists>s. lc_recorded acc' s \<noteq> lc_recorded acc s"
  proof -
    assume "r \<noteq> None"
    then obtain p where p: "em_stake m ?k = Some p"
      using run by (auto simp: lc_accumulate_def split: option.splits)
    have "state_ver_key p \<notin> lc_recorded acc (?l, ?t) \<and> state_ver_key p \<in> lc_recorded acc' (?l, ?t)"
      using run \<open>r \<noteq> None\<close> p
      by (auto simp: lc_accumulate_def Let_def lc_recorded_def map_of_eq_None_iff
          split: option.splits if_splits prod.splits)
    then show ?thesis by blast
  qed
qed

text \<open>
  When one accumulation step records a key, it yields a certificate exactly if the recorded stake
  reaches the threshold.
\<close>

lemma accumulate_new_iff_threshold:
  assumes mem: "cert_membership_ok membership"
    and agg: "aggregate_complete validate aggregate msv"
    and d: "distinct (map stake_key (stake_table_entries (cm_stake_table membership)))"
    and ok: "accumulator_ok validate (stake_table_entries (cm_stake_table membership)) acc"
    and run: "accumulate vote_commit validate aggregate vote membership acc = (acc', r)"
    and new: "recorded acc' c \<noteq> recorded acc c"
  shows "r = Ok None \<longleftrightarrow>
    stake_of (recorded acc' c) (stake_table_entries (cm_stake_table membership)) < cm_threshold membership"
proof (cases "vote_accepted vote_commit validate vote membership acc")
  case False
  then show ?thesis using accumulate_rejected [OF ok False, of aggregate] run new by auto
next
  case True
  let ?es = "stake_table_entries (cm_stake_table membership)"
  let ?c = "vote_commit (vote_date vote) (vote_view_number vote)"
  obtain t m where acc': "accumulator_ok validate ?es acc'"
      "vote_outcomes acc' = (vote_outcomes acc)(?c \<mapsto> (t, m))"
    and r: "t < cm_threshold membership \<longrightarrow> r = Ok None"
      "cm_threshold membership \<le> t \<longrightarrow> (\<exists>cert. r = Ok (Some cert))"
    by (rule accumulate_accepted_result [OF mem agg ok True run]) blast
  have "c = ?c" using new acc'(2) by (auto simp: recorded_def split: if_splits)
  then have "stake_of (recorded acc' c) ?es = t"
    using tally_eq_stake_of_recorded [OF acc'(1) d, of c] acc'(2) by (simp add: tally_def)
  then show ?thesis using r by (cases "t < cm_threshold membership") (auto simp: not_less)
qed

lemma accumulate_certificate_records:
  assumes ok: "accumulator_ok validate (stake_table_entries (cm_stake_table membership)) acc"
    and mem: "cert_membership_ok membership"
    and agg: "aggregate_complete validate aggregate msv"
    and run: "accumulate vote_commit validate aggregate vote membership acc = (acc', Ok (Some cert))"
  shows "\<exists>c. recorded acc' c \<noteq> recorded acc c"
proof -
  have a: "vote_accepted vote_commit validate vote membership acc"
  proof (rule ccontr)
    assume "\<not> vote_accepted vote_commit validate vote membership acc"
    from accumulate_rejected [OF ok this, of aggregate] run show False by auto
  qed
  then show ?thesis
    using accumulate_step [OF mem agg ok run]
    by (intro exI [of _ "vote_commit (vote_date vote) (vote_view_number vote)"])
       (auto simp: vote_accepted_iff_voters Let_def)
qed

lemma stake_of_single:
  assumes "distinct (map stake_key es)" "e \<in> set es"
  shows "stake_of {stake_key e} es = stake_amount e"
proof -
  have "filter (\<lambda>x. stake_key x \<in> {stake_key e}) es = [e]"
    using assms
  proof (induction es)
    case (Cons x es)
    then show ?case by (auto simp: filter_empty_conv image_iff)
  qed simp
  then show ?thesis by (simp add: stake_of_def)
qed

lemma stake_of_mono:
  assumes "stake_fits es" "A \<subseteq> B"
  shows "stake_of A es \<le> stake_of B es"
proof -
  have n: "unat (stake_of X es) = stake_sum (filter (\<lambda>e. stake_key e \<in> X) es)" for X
    unfolding stake_of_def
  proof (rule unat_stake_sum)
    show "stake_fits (filter (\<lambda>e. stake_key e \<in> X) es)"
      using assms(1) stake_sum_filter_le [of "\<lambda>e. stake_key e \<in> X" es] by (simp add: stake_fits_def)
  qed
  have "stake_sum (filter (\<lambda>e. stake_key e \<in> A) es) \<le> stake_sum (filter (\<lambda>e. stake_key e \<in> B) es)"
    using assms(2) by (induction es) auto
  then show ?thesis by (simp add: word_le_nat_alt n)
qed

lemma state_stake_of_members:
  assumes "root_membership_ok m"
  shows "state_stake_of (state_ver_key ` {p \<in> set (em_stake_table m). stake_key (stake_table_entry p) \<in> H})
      (em_stake_table m) = stake_of H (stake_table_entries (em_stake_table m))"
proof -
  have "filter (\<lambda>p. state_ver_key p \<in> state_ver_key `
        {p \<in> set (em_stake_table m). stake_key (stake_table_entry p) \<in> H}) (em_stake_table m)
      = filter (\<lambda>p. stake_key (stake_table_entry p) \<in> H) (em_stake_table m)"
    using root_membership_keys_inject(2) [OF assms] by (intro filter_cong) auto
  then show ?thesis
    by (simp add: state_stake_of_def stake_of_def stake_table_entries_def filter_map comp_def)
qed

lemma epoch_root_accumulate_vote_cases:
  assumes mem: "root_membership_ok (er_membership st)"
    and agg: "aggregate_complete (ce_validate env) (ce_aggregate env) msv"
    and st: "er_accumulator st = Some acc" "er_state_vote_accumulator st = Some lc"
      "vote_view_number (erv_vote rv) = er_view st"
    and ok: "accumulator_ok (ce_validate env) (stake_table_entries (em_stake_table (er_membership st))) acc"
    and run: "epoch_root_accumulate_vote env rv st = (st', events, r)"
  obtains acc' lc' cert sc where
    "accumulate (ce_quorum_commit env) (ce_validate env) (ce_aggregate env) (erv_vote rv)
       (quorum_cert_membership SuccessThreshold (er_membership st)) acc = (acc', Ok cert)"
    "lc_accumulate (ce_verify_state_sig env) (vote_signing_key (erv_vote rv)) (erv_state_vote rv)
       (er_membership st) lc = (lc', sc)"
    "events = [] \<longleftrightarrow> cert = None \<or> sc = None"
    "\<forall>e \<in> set events. \<exists>qc state_cert. cert = Some qc \<and> sc = Some state_cert
       \<and> e = EpochRootQcFormed \<lparr>erc_qc = qc, erc_state_cert = state_cert\<rparr>"
    "is_ok r \<longleftrightarrow> (cert = None \<longleftrightarrow> sc = None)"
    "st' = st\<lparr>er_accumulator := (if cert \<noteq> None \<and> sc \<noteq> None then None else Some acc'),
       er_state_vote_accumulator := Some lc'\<rparr>"
proof -
  obtain acc' ra where a: "accumulate (ce_quorum_commit env) (ce_validate env) (ce_aggregate env)
      (erv_vote rv) (quorum_cert_membership SuccessThreshold (er_membership st)) acc = (acc', ra)"
    by fastforce
  have "good_outcome msv (ce_quorum_commit env) (quorum_cert_membership SuccessThreshold (er_membership st))
      (acc_upgrade_lock acc) ra"
    using accumulate_step [OF root_membership_ok_cert [OF mem] agg _ a] ok
    by (simp add: quorum_cert_membership_def)
  then obtain cert where ra: "ra = Ok cert" by (cases ra) (auto simp: good_outcome_def)
  obtain lc' sc where l: "lc_accumulate (ce_verify_state_sig env) (vote_signing_key (erv_vote rv))
      (erv_state_vote rv) (er_membership st) lc = (lc', sc)" by fastforce
  show thesis
    using run a l ra st
    by (intro that [of acc' cert lc' sc])
       (auto simp: epoch_root_accumulate_vote_def Let_def split: option.splits)
qed

text \<open>
  What an epoch root collector has recorded for the commitment \<open>c\<close> and the light client state \<open>s\<close>:
  the members of \<open>H\<close> appear in both accumulators or in none, and not all of them have voted.
\<close>

definition root_progress ::
  "('k, 'g) CollectEnv \<Rightarrow> 'g UpgradeLock \<Rightarrow> ('k, u8 list) EpochMembership \<Rightarrow> u64 \<Rightarrow> 'k set
     \<Rightarrow> commitment \<Rightarrow> LightClientState \<times> StakeTableState
     \<Rightarrow> (('k, 'g) EpochRootQuorumVote \<times> ('k, u8 list) EpochMembership) list
     \<Rightarrow> ('k, 'g) EpochRootVoteCollectionTaskState \<Rightarrow> bool" where
  "root_progress env lock m view H c s xs st \<longleftrightarrow>
     (\<exists>acc lc. er_accumulator st = Some acc \<and> er_state_vote_accumulator st = Some lc
        \<and> er_membership st = m \<and> er_view st = view
        \<and> accumulator_ok (ce_validate env) (stake_table_entries (em_stake_table m)) acc
        \<and> acc_upgrade_lock acc = lock \<and> lc_ok (ce_verify_state_sig env) (em_stake_table m) lc
        \<and> (\<forall>h \<in> H. h \<in> recorded acc c \<longleftrightarrow> state_ver_key (the (em_stake m h)) \<in> lc_recorded lc s)
        \<and> (\<forall>x \<in> set xs. quorum_part_valid env lock m c (fst x) \<longrightarrow>
             vote_signing_key (erv_vote (fst x)) \<in> recorded acc c)
        \<and> \<not> H \<subseteq> recorded acc c)"

lemma member_state_key_inject:
  assumes "root_membership_ok m" "em_stake m h \<noteq> None" "em_stake m k \<noteq> None"
  shows "state_ver_key (the (em_stake m h)) = state_ver_key (the (em_stake m k)) \<longleftrightarrow> h = k"
proof -
  obtain p q where "em_stake m h = Some p" "em_stake m k = Some q" using assms by auto
  moreover from this assms(1) have "p \<in> set (em_stake_table m)" "q \<in> set (em_stake_table m)"
      "stake_key (stake_table_entry p) = h" "stake_key (stake_table_entry q) = k"
    unfolding root_membership_ok_def by blast+
  ultimately show ?thesis using root_membership_keys_inject [OF assms(1), of p q] by auto
qed

lemma both_thresholds_met:
  assumes m: "root_membership_ok m" "stake_fits (stake_table_entries (em_stake_table m))"
    and H: "H \<subseteq> R" "\<forall>h \<in> H. em_stake m h \<noteq> None \<and> state_ver_key (the (em_stake m h)) \<in> S"
      "em_success_threshold m \<le> stake_of H (stake_table_entries (em_stake_table m))"
  shows "em_success_threshold m \<le> stake_of R (stake_table_entries (em_stake_table m))"
    "em_success_threshold m \<le> state_stake_of S (em_stake_table m)"
proof -
  let ?t = "em_stake_table m"
  show "em_success_threshold m \<le> stake_of R (stake_table_entries ?t)"
    using H(3) stake_of_mono [OF m(2) H(1)] by simp
  define K where "K = {k. \<exists>p \<in> set ?t. stake_key (stake_table_entry p) = k \<and> state_ver_key p \<in> S}"
  have "H \<subseteq> K"
  proof
    fix h assume "h \<in> H"
    then obtain p where "em_stake m h = Some p" "state_ver_key p \<in> S" using H(2) by fastforce
    then show "h \<in> K" using m(1) unfolding K_def root_membership_ok_def by blast
  qed
  then have "em_success_threshold m \<le> stake_of K (stake_table_entries ?t)"
    using H(3) stake_of_mono [OF m(2)] order.trans by blast
  moreover have "filter (\<lambda>p. state_ver_key p \<in> S) ?t = filter (\<lambda>p. stake_key (stake_table_entry p) \<in> K) ?t"
    using root_membership_keys_inject(1) [OF m(1)] by (intro filter_cong) (auto simp: K_def)
  ultimately show "em_success_threshold m \<le> state_stake_of S ?t"
    by (simp add: state_stake_of_def stake_of_def stake_table_entries_def filter_map comp_def)
qed

lemma root_progress_step:
  assumes agg: "aggregate_complete (ce_validate env) (ce_aggregate env) msv"
    and mem: "root_membership_ok m" "em_epoch m \<noteq> None" "stake_fits (stake_table_entries (em_stake_table m))"
    and thr: "em_success_threshold m \<le> stake_of H (stake_table_entries (em_stake_table m))"
    and H: "\<forall>h \<in> H. em_stake m h \<noteq> None"
    and whole: "vote_signing_key (erv_vote rv) \<in> H \<longrightarrow>
      quorum_part_valid env lock m c rv = state_part_valid env m s rv"
    and view: "vote_view_number (erv_vote rv) = view"
    and pr: "root_progress env lock m view H c s xs st"
    and run: "epoch_root_accumulate_vote env rv st = (st', events, r)" "events = []"
  shows "root_progress env lock m view H c s (xs @ [(rv, m')]) st'"
proof -
  let ?es = "stake_table_entries (em_stake_table m)"
  let ?k = "vote_signing_key (erv_vote rv)"
  let ?sk = "\<lambda>h. state_ver_key (the (em_stake m h))"
  from pr obtain acc lc where st: "er_accumulator st = Some acc" "er_state_vote_accumulator st = Some lc"
      "er_membership st = m" "er_view st = view" "accumulator_ok (ce_validate env) ?es acc"
      "acc_upgrade_lock acc = lock" "lc_ok (ce_verify_state_sig env) (em_stake_table m) lc"
      "\<forall>h \<in> H. h \<in> recorded acc c \<longleftrightarrow> ?sk h \<in> lc_recorded lc s"
      "\<forall>x \<in> set xs. quorum_part_valid env lock m c (fst x) \<longrightarrow>
         vote_signing_key (erv_vote (fst x)) \<in> recorded acc c"
      "\<not> H \<subseteq> recorded acc c"
    unfolding root_progress_def by blast
  have pre: "root_membership_ok (er_membership st)" "vote_view_number (erv_vote rv) = er_view st"
      "accumulator_ok (ce_validate env) (stake_table_entries (em_stake_table (er_membership st))) acc"
    using mem(1) st(3-5) view by simp_all
  obtain acc' lc' cert sc where
    a: "accumulate (ce_quorum_commit env) (ce_validate env) (ce_aggregate env) (erv_vote rv)
       (quorum_cert_membership SuccessThreshold m) acc = (acc', Ok cert)"
    and l: "lc_accumulate (ce_verify_state_sig env) (vote_signing_key (erv_vote rv)) (erv_state_vote rv) m
       lc = (lc', sc)"
    and ev: "events = [] \<longleftrightarrow> cert = None \<or> sc = None"
    and r: "is_ok r \<longleftrightarrow> (cert = None \<longleftrightarrow> sc = None)"
    and st1: "st' = st\<lparr>er_accumulator := (if cert \<noteq> None \<and> sc \<noteq> None then None else Some acc'),
       er_state_vote_accumulator := Some lc'\<rparr>"
    by (rule epoch_root_accumulate_vote_cases [OF pre(1) agg st(1,2) pre(2,3) run(1), unfolded st(3)]) blast
  have none: "cert = None \<or> sc = None" using ev run(2) by simp
  have st': "st' = st\<lparr>er_accumulator := Some acc', er_state_vote_accumulator := Some lc'\<rparr>"
    using st1 none by auto
  have cm: "cm_stake_table (quorum_cert_membership SuccessThreshold m) = em_stake_table m"
      "cm_threshold (quorum_cert_membership SuccessThreshold m) = em_success_threshold m"
    by (simp_all add: quorum_cert_membership_def threshold_of_def)
  note mc = root_membership_ok_cert [OF mem(1)]
  note ok = st(5) [folded cm(1)]
  have d: "distinct (map stake_key (stake_table_entries
      (cm_stake_table (quorum_cert_membership SuccessThreshold m))))"
    using mem(1) by (simp add: cm root_membership_ok_def)
  have rec: "recorded acc' c = recorded acc c \<union> (if quorum_part_valid env lock m c rv then {?k} else {})"
    using accumulate_step [OF mc agg ok a] st(6) by (simp add: voters_quorum_part [OF mem(1)])
  note lrec = lc_accumulate_records [OF mem(1,2) st(7) l]
  have same: "\<forall>h \<in> H. h \<in> recorded acc' c \<longleftrightarrow> ?sk h \<in> lc_recorded lc' s"
  proof
    fix h assume h: "h \<in> H"
    have "quorum_part_valid env lock m c rv \<and> h = ?k \<longleftrightarrow> state_part_valid env m s rv \<and> ?sk h = ?sk ?k"
      using h whole member_state_key_inject [OF mem(1), of h ?k] H
      by (cases "em_stake m ?k") (auto simp: quorum_part_valid_def state_part_valid_def)
    then show "h \<in> recorded acc' c \<longleftrightarrow> ?sk h \<in> lc_recorded lc' s"
      using st(8) h unfolding rec lrec(1) by auto
  qed
  have "\<not> H \<subseteq> recorded acc' c"
  proof
    assume sub: "H \<subseteq> recorded acc' c"
    have k: "?k \<in> H" "?k \<notin> recorded acc c" "quorum_part_valid env lock m c rv"
      using sub st(10) rec by (auto split: if_splits)
    have S: "\<forall>h \<in> H. em_stake m h \<noteq> None \<and> ?sk h \<in> lc_recorded lc' s" using same sub H by blast
    note thrs = both_thresholds_met [OF mem(1,3) sub S thr]
    have "recorded acc' c \<noteq> recorded acc c" using k rec by auto
    then have "cert \<noteq> None"
      using accumulate_new_iff_threshold [OF mc agg d ok a] thrs(1) by (auto simp: cm)
    moreover have "lc_recorded lc' s \<noteq> lc_recorded lc s"
      using same st(8) sub k by blast
    then have "sc \<noteq> None" using lrec(2) thrs(2) by auto
    ultimately show False using none by blast
  qed
  moreover have "accumulator_ok (ce_validate env) ?es acc'" "acc_upgrade_lock acc' = lock"
    using accumulate_step [OF mc agg ok a] st(6) by (simp_all add: cm)
  moreover have "lc_ok (ce_verify_state_sig env) (em_stake_table m) lc'"
    using lc_accumulate_step [OF _ _ st(7) l] mem(1) by (simp add: root_membership_ok_def)
  moreover have "\<forall>x \<in> set (xs @ [(rv, m')]). quorum_part_valid env lock m c (fst x) \<longrightarrow>
      vote_signing_key (erv_vote (fst x)) \<in> recorded acc' c"
    using st(9) rec by auto
  moreover have "er_accumulator st' = Some acc'" "er_state_vote_accumulator st' = Some lc'"
      "er_membership st' = m" "er_view st' = view"
    using st(3,4) by (simp_all add: st')
  ultimately show ?thesis using same unfolding root_progress_def by blast
qed

lemma root_first_vote_ok:
  assumes agg: "aggregate_complete (ce_validate env) (ce_aggregate env) msv"
    and mem: "root_membership_ok m" "em_epoch m \<noteq> None" "0 < em_success_threshold m"
      "\<forall>p \<in> set (em_stake_table m). stake_amount (stake_table_entry p) < em_success_threshold m"
    and run: "epoch_root_accumulate_vote env rv (fresh_root_collector key id1 lock (rv, m)) = (st', events, r)"
  shows "is_ok r"
proof -
  let ?st = "fresh_root_collector key id1 lock (rv, m)"
  let ?es = "stake_table_entries (em_stake_table m)"
  have st: "er_accumulator ?st = Some (empty_accumulator lock)" "er_state_vote_accumulator ?st = Some Map.empty"
      "er_membership ?st = m" "vote_view_number (erv_vote rv) = er_view ?st"
    by (simp_all add: fresh_root_collector_def)
  have cm: "cm_stake_table (quorum_cert_membership SuccessThreshold m) = em_stake_table m"
      "cm_threshold (quorum_cert_membership SuccessThreshold m) = em_success_threshold m"
    by (simp_all add: quorum_cert_membership_def threshold_of_def)
  have pre: "root_membership_ok (er_membership ?st)"
      "accumulator_ok (ce_validate env) (stake_table_entries (em_stake_table (er_membership ?st)))
         (empty_accumulator lock)"
    using mem(1) st(3) by (simp_all add: accumulator_ok_empty)
  obtain acc' lc' cert sc where
    a: "accumulate (ce_quorum_commit env) (ce_validate env) (ce_aggregate env) (erv_vote rv)
       (quorum_cert_membership SuccessThreshold m) (empty_accumulator lock) = (acc', Ok cert)"
    and l: "lc_accumulate (ce_verify_state_sig env) (vote_signing_key (erv_vote rv)) (erv_state_vote rv) m
       Map.empty = (lc', sc)"
    and ev: "events = [] \<longleftrightarrow> cert = None \<or> sc = None"
    and r: "is_ok r \<longleftrightarrow> (cert = None \<longleftrightarrow> sc = None)"
    and st1: "st' = ?st\<lparr>er_accumulator := (if cert \<noteq> None \<and> sc \<noteq> None then None else Some acc'),
       er_state_vote_accumulator := Some lc'\<rparr>"
    by (rule epoch_root_accumulate_vote_cases [OF pre(1) agg st(1,2,4) pre(2) run, unfolded st(3)]) blast
  note mc = root_membership_ok_cert [OF mem(1)]
  have d: "distinct (map stake_key (stake_table_entries
      (cm_stake_table (quorum_cert_membership SuccessThreshold m))))" "distinct (map stake_key ?es)"
    using mem(1) by (simp_all add: cm root_membership_ok_def)
  have small: "stake_of {k} ?es < em_success_threshold m" for k
  proof (cases "\<exists>p \<in> set (em_stake_table m). stake_key (stake_table_entry p) = k")
    case True
    then obtain p where "p \<in> set (em_stake_table m)" "k = stake_key (stake_table_entry p)" by blast
    then show ?thesis using mem(4) stake_of_single [OF d(2), of "stake_table_entry p"]
      by (simp add: stake_table_entries_def)
  next
    case False
    then have "filter (\<lambda>e. stake_key e \<in> {k}) ?es = []"
      by (auto simp: filter_empty_conv stake_table_entries_def)
    then show ?thesis using mem(3) by (simp add: stake_of_def)
  qed
  have "cert = None"
  proof (rule ccontr)
    assume "cert \<noteq> None"
    then obtain q where q: "cert = Some q" by auto
    obtain c where c: "recorded acc' c \<noteq> recorded (empty_accumulator lock :: ('a, 'b, 'b) VoteAccumulator) c"
      using accumulate_certificate_records [OF accumulator_ok_empty mc agg a [unfolded q]] by blast
    have "recorded acc' c \<subseteq> {vote_signing_key (erv_vote rv)}"
      using accumulate_step [OF mc agg accumulator_ok_empty a]
      by (auto simp: empty_accumulator_def recorded_def voters_def)
    then have "recorded acc' c = {vote_signing_key (erv_vote rv)}"
      using c by (auto simp: recorded_def empty_accumulator_def)
    then show False
      using accumulate_new_iff_threshold [OF mc agg d(1) accumulator_ok_empty a c] small q
      by (simp add: cm)
  qed
  moreover have "sc = None"
  proof (rule ccontr)
    assume "sc \<noteq> None"
    have ok: "lc_ok (ce_verify_state_sig env) (em_stake_table m) Map.empty" by (simp add: lc_ok_def)
    note rec = lc_accumulate_records [OF mem(1,2) ok l]
    from rec(3) [OF \<open>sc \<noteq> None\<close>] obtain s where s: "lc_recorded lc' s \<noteq>
        lc_recorded (Map.empty :: (u8 list, LightClientState, StakeTableState, u8 list) LCAccumulator) s" ..
    have s1: "state_part_valid env m s rv" using s rec(1) [of s] by (auto split: if_splits)
    then obtain p where p: "em_stake m (vote_signing_key (erv_vote rv)) = Some p"
      by (auto simp: state_part_valid_def)
    then have pt: "p \<in> set (em_stake_table m)" using mem(1) by (simp add: root_membership_ok_def)
    have "lc_recorded lc' s = {state_ver_key p}"
      using rec(1) [of s] s1 p by (simp add: lc_recorded_def)
    moreover have "state_stake_of {state_ver_key p} (em_stake_table m) = stake_amount (stake_table_entry p)"
      using state_stake_of_insert [of "em_stake_table m" p "{}"] pt mem(1)
      by (simp add: root_membership_ok_def) (simp add: state_stake_of_def)
    ultimately show False using rec(2) [OF s] mem(4) pt \<open>sc \<noteq> None\<close> by simp
  qed
  ultimately show ?thesis using r by simp
qed

abbreviation root_input_view where
  "root_input_view \<equiv> \<lambda>i. vote_view_number (erv_vote (fst i))"

lemma root_progress_fresh:
  assumes "H \<noteq> {}"
  shows "root_progress env lock m (vote_view_number (erv_vote rv)) H c s []
    (fresh_root_collector key id1 lock (rv, m))"
proof -
  have "recorded (empty_accumulator lock :: ('a, 'b, 'b) VoteAccumulator) c = {}"
    "acc_upgrade_lock (empty_accumulator lock :: ('a, 'b, 'b) VoteAccumulator) = lock"
    by (simp_all add: recorded_def empty_accumulator_def)
  then show ?thesis
    unfolding root_progress_def using assms
    by (intro exI [of _ "empty_accumulator lock"] exI [of _ Map.empty])
       (auto simp: fresh_root_collector_def accumulator_ok_empty lc_ok_def lc_recorded_def)
qed


section \<open>A concrete committee\<close>

definition demo_committee :: "nat list \<Rightarrow> u64 \<Rightarrow> (nat, u8 list) EpochMembership" where
  "demo_committee ks epoch =
     (let table = map (\<lambda>k. \<lparr>stake_table_entry = \<lparr>stake_key = k, stake_amount = 1\<rparr>,
                            state_ver_key = [of_nat k]\<rparr>) ks
      in \<lparr>em_epoch = Some epoch, em_stake_table = table, em_da_stake_table = table,
          em_stake = (\<lambda>k. find (\<lambda>p. stake_key (stake_table_entry p) = k) table),
          em_da_stake = (\<lambda>k. find (\<lambda>p. stake_key (stake_table_entry p) = k) table),
          em_has_stake = (\<lambda>k. k \<in> set ks), em_da_committee_members = (\<lambda>view. ks),
          em_total_nodes = length ks, em_da_total_nodes = length ks,
          em_success_threshold = 3, em_da_success_threshold = 3,
          em_failure_threshold = 2, em_upgrade_threshold = 4, em_leader = (\<lambda>view. Some 1)\<rparr>)"

definition demo_collect_env :: "(nat, nat) CollectEnv" where
  "demo_collect_env =
     \<lparr>ce_validate = sum_validate, ce_aggregate = sum_aggregate,
      ce_quorum_commit = (\<lambda>d view. leaf_commit d + ucast view),
      ce_next_epoch_commit = (\<lambda>d view. leaf_commit d + ucast view),
      ce_upgrade_commit = (\<lambda>d view. ucast view), ce_da_commit = (\<lambda>d view. payload_commit d + ucast view),
      ce_timeout_commit = (\<lambda>d view. ucast view), ce_pre_commit_commit = (\<lambda>d view. ucast view),
      ce_commit_commit = (\<lambda>d view. ucast view), ce_finalize_commit = (\<lambda>d view. ucast view),
      ce_membership_for_epoch = map_option (demo_committee [1, 2, 3, 4]),
      ce_stake_table_for_epoch = map_option (demo_committee [1, 2, 3, 4]),
      ce_verify_state_sig = (\<lambda>k g l t. g = k)\<rparr>"

definition demo_quorum_vote :: "nat \<Rightarrow> nat \<Rightarrow> (nat, nat) QuorumVote2" where
  "demo_quorum_vote k g = \<lparr>vote_signing_key = k, vote_signature = g,
     vote_date = \<lparr>leaf_commit = 7, qd_epoch = Some 1, qd_block_number = Some 8\<rparr>, vote_view_number = 5\<rparr>"

definition demo_root_vote :: "nat \<Rightarrow> u8 list \<Rightarrow> (nat, nat) EpochRootQuorumVote" where
  "demo_root_vote k sg = \<lparr>erv_vote = demo_quorum_vote k k,
     erv_state_vote = \<lparr>lcv_epoch = 1,
       lcv_light_client_state = \<lparr>lcs_view_number = 5, lcs_block_height = 8, lcs_block_comm_root = 9\<rparr>,
       lcv_next_stake_table_state =
         \<lparr>sts_bls_key_comm = 0, sts_schnorr_key_comm = 0, sts_amount_comm = 0, sts_threshold = 3\<rparr>,
       lcv_signature = sg\<rparr>\<rparr>"

definition demo_kind where
  "demo_kind = quorum_vote_kind demo_collect_env"

abbreviation demo_log where
  "demo_log inputs \<equiv> snd (log_run (vote_step demo_kind QuorumVoteRecv 1 0 sample_lock) input_view inputs [])"


text \<open>
  an epoch root vote that pairs the genuine quorum signature of a member with a worthless state
  signature uses up that member's quorum vote. When it arrives before the member's own vote, the
  genuine votes of members holding the threshold do not produce a certificate; without it they do.
\<close>

theorem replayed_root_vote_blocks_certificate:
  "(let log = (\<lambda>votes. snd (log_run (root_step demo_collect_env 1 0 sample_lock) root_input_view
                  (map (\<lambda>v. (v, demo_committee [1, 2, 3, 4] 1)) votes) []));
        genuine = map (\<lambda>k. demo_root_vote k [of_nat k]) [1, 2, 3]
    in map (\<lambda>l. length (snd l)) (log genuine) = [0, 0, 1]
       \<and> map (\<lambda>l. length (snd l)) (log (demo_root_vote 3 [] # genuine)) = [0, 0, 0, 0])"
  by code_simp

section \<open>Witnesses\<close>

definition demo_inputs :: "(nat, nat, QuorumData2) VoteInput list" where
  "demo_inputs = map (\<lambda>k. (demo_quorum_vote k k, demo_committee [1, 2, 3, 4] 1, NotInTransition)) [1, 2, 1, 4]"

lemma demo_committee_simps [simp]:
  "em_stake_table (demo_committee ks e) = map (\<lambda>k. \<lparr>stake_table_entry = \<lparr>stake_key = k, stake_amount = 1\<rparr>,
     state_ver_key = [of_nat k]\<rparr>) ks"
  "em_total_nodes (demo_committee ks e) = length ks"
  "em_success_threshold (demo_committee ks e) = 3" "em_epoch (demo_committee ks e) = Some e"
  "em_leader (demo_committee ks e) view = Some 1"
  by (simp_all add: demo_committee_def Let_def)

lemma demo_root_membership_ok: "root_membership_ok (demo_committee [1, 2, 3, 4] 1)"
proof -
  have "em_stake (demo_committee [1, 2, 3, 4] 1) k = Some p \<longleftrightarrow>
      p \<in> set (em_stake_table (demo_committee [1, 2, 3, 4] 1)) \<and> stake_key (stake_table_entry p) = k" for k p
    by (auto simp: demo_committee_def Let_def split: if_splits)
  then show ?thesis
    unfolding root_membership_ok_def by (simp add: stake_table_entries_def)
qed

lemma demo_kind_simps:
  "vk_validate demo_kind = sum_validate" "vk_aggregate demo_kind = sum_aggregate"
  "vk_cert_membership demo_kind = quorum_cert_membership SuccessThreshold"
  "vk_received demo_kind (QuorumVoteRecv vote) = Some vote"
  "vk_commit demo_kind d view = leaf_commit d + ucast view"
  "vk_leader demo_kind vote m = membership_leader m (vote_view_number vote + 1)"
  by (simp_all add: demo_kind_def quorum_vote_kind_def demo_collect_env_def)

lemma demo_log_lengths: "map (\<lambda>l. length (snd l)) (demo_log demo_inputs) = [0, 0, 0, 1]"
  by code_simp



definition demo_root_inputs where
  "demo_root_inputs = map (\<lambda>v. (v, demo_committee [1, 2, 3, 4] 1))
     [demo_root_vote 4 [], demo_root_vote 1 [1], demo_root_vote 2 [2], demo_root_vote 3 [3]]"


end
