(* ===== verification/View_Sync.thy ===== *)
theory View_Sync
  imports Vote_Collection
begin

text \<open>
  View synchronisation (\<open>crates/hotshot/task-impls/src/view_sync.rs\<close>): after two timeouts in a row a
  node asks a relay, the leader of the target view shifted by a relay index, to collect pre-commit
  votes; pre-commit, commit and finalize certificates then move the replicas to the target view. The
  main task keeps a replica state per (view, epoch) and, for its own turns as a relay, collectors of
  the three vote types. Spawned timers are effects; a timer sends a \<open>ViewSyncTimeout\<close> later.
\<close>

section \<open>State\<close>

record ('k, 'g) TaskEnv =
  te_collect :: "('k, 'g) CollectEnv"
  te_multi_sig_verify :: "('k, 'g) multi_verify_fn"
  te_sign :: "commitment \<Rightarrow> 'g option"

text \<open>A timer is the event it will send.\<close>

type_synonym Timer = "u64 \<times> u64 \<times> ViewSyncPhase"

datatype ('k, 'g) TaskEffect =
    Broadcast "('k, 'g) HotShotEvent"
  | SpawnTimer Timer
  | AbortTimer Timer

record ('k, 'g) ViewSyncReplicaTaskState =
  vr_view_sync_timeout :: u64
  vr_cur_view :: u64
  vr_next_view :: u64
  vr_relay :: u64
  vr_finalized :: bool
  vr_sent_view_change_event :: bool
  vr_timeout_task :: "Timer option"
  vr_id :: u64
  vr_public_key :: 'k
  vr_upgrade_lock :: "'g UpgradeLock"
  vr_cur_epoch :: "u64 option"
  vr_first_epoch :: "(u64 \<times> u64) option"

type_synonym ('k, 'g) ReplicaTaskMap =
  "u64 \<times> u64 option \<rightharpoonup> ('k, 'g) ViewSyncReplicaTaskState"

type_synonym ('k, 'g) RelayMap =
  "u64 \<times> u64 option \<rightharpoonup> (u64, ('k, 'g) VoteCollectionTaskState) btree"

record ('k, 'g) ViewSyncTaskState =
  vs_cur_view :: u64
  vs_next_view :: u64
  vs_cur_epoch :: "u64 option"
  vs_public_key :: 'k
  vs_id :: u64
  vs_num_timeouts_tracked :: u64
  vs_replica_task_map :: "('k, 'g) ReplicaTaskMap"
  vs_pre_commit_relay_map :: "('k, 'g) RelayMap"
  vs_commit_relay_map :: "('k, 'g) RelayMap"
  vs_finalize_relay_map :: "('k, 'g) RelayMap"
  vs_view_sync_timeout :: u64
  vs_last_garbage_collected_view :: u64
  vs_upgrade_lock :: "'g UpgradeLock"
  vs_first_epoch :: "(u64 \<times> u64) option"

section \<open>The replica\<close>

text \<open>
  Every branch returns the replica, its effects and whether the task has completed; \<open>None\<close> is a
  panic. The checks that the three certificate handlers share: an old round is ignored, the epoch
  needs a membership, the certificate must be valid (checking one without signatures panics), and a
  certificate of a higher round ends the task.
\<close>

datatype CertCheck = CertIgnored | CertHigherRound | CertAccepted

definition check_view_sync_cert ::
  "('k, 'g) TaskEnv \<Rightarrow> ('d \<Rightarrow> u64 \<Rightarrow> commitment) \<Rightarrow> (('k, u8 list) EpochMembership \<Rightarrow> u256)
     \<Rightarrow> ('d, 'g) SimpleCertificate \<Rightarrow> u64 option \<Rightarrow> ('k, 'g) ViewSyncReplicaTaskState
     \<Rightarrow> CertCheck option" where
  "check_view_sync_cert env vote_commit thr certificate epoch self =
     (if cert_view_number certificate < vr_next_view self then Some CertIgnored
      else case ce_membership_for_epoch (te_collect env) epoch of
        None \<Rightarrow> Some CertIgnored
      | Some membership \<Rightarrow>
         (case is_valid_cert (te_multi_sig_verify env) vote_commit certificate
                 (stake_table_entries (em_stake_table membership)) (thr membership)
                 (vr_upgrade_lock self) of
            Inl MissingSignaturePanic \<Rightarrow> None
          | Inl e \<Rightarrow> Some CertIgnored
          | Inr _ \<Rightarrow>
             (if cert_view_number certificate > vr_next_view self then Some CertHigherRound
              else Some CertAccepted)))"

definition abort_timer :: "('k, 'g) ViewSyncReplicaTaskState \<Rightarrow> ('k, 'g) TaskEffect list" where
  "abort_timer self = (case vr_timeout_task self of Some t \<Rightarrow> [AbortTimer t] | None \<Rightarrow> [])"

type_synonym ('k, 'g) ReplicaOutcome =
  "(('k, 'g) ViewSyncReplicaTaskState \<times> ('k, 'g) TaskEffect list \<times> bool) option"

definition replica_pre_commit_cert ::
  "('k, 'g) TaskEnv \<Rightarrow> 'g ViewSyncPreCommitCertificate2 \<Rightarrow> ('k, 'g) ViewSyncReplicaTaskState
     \<Rightarrow> ('k, 'g) ReplicaOutcome" where
  "replica_pre_commit_cert env certificate self =
     (let last_seen_certificate = PhasePreCommit; data = cert_data certificate in
      case check_view_sync_cert env (ce_pre_commit_commit (te_collect env)) em_failure_threshold
             certificate (vsp_epoch data) self of
        None \<Rightarrow> None
      | Some CertIgnored \<Rightarrow> Some (self, [], False)
      | Some CertHigherRound \<Rightarrow> Some (self, [], True)
      | Some CertAccepted \<Rightarrow>
         (let self1 = (if vsp_relay data > vr_relay self then self\<lparr>vr_relay := vsp_relay data\<rparr> else self) in
          case create_vote (ce_commit_commit (te_collect env)) (te_sign env)
                 \<lparr>vsc_relay = vsp_relay data, vsc_round = vr_next_view self1, vsc_epoch = vsp_epoch data\<rparr>
                 (vr_next_view self1) (vr_public_key self1) (vr_upgrade_lock self1) of
            None \<Rightarrow> Some (self1, [], False)
          | Some vote \<Rightarrow>
             (let timer = (vr_next_view self1, vr_relay self1, last_seen_certificate)
              in Some (self1\<lparr>vr_timeout_task := Some timer\<rparr>,
                   [Broadcast (ViewSyncCommitVoteSend vote)] @ abort_timer self1 @ [SpawnTimer timer],
                   False))))"

definition replica_commit_cert ::
  "('k, 'g) TaskEnv \<Rightarrow> 'g ViewSyncCommitCertificate2 \<Rightarrow> ('k, 'g) ViewSyncReplicaTaskState
     \<Rightarrow> ('k, 'g) ReplicaOutcome" where
  "replica_commit_cert env certificate self =
     (let last_seen_certificate = PhaseCommit; data = cert_data certificate in
      case check_view_sync_cert env (ce_commit_commit (te_collect env)) em_success_threshold
             certificate (vsc_epoch data) self of
        None \<Rightarrow> None
      | Some CertIgnored \<Rightarrow> Some (self, [], False)
      | Some CertHigherRound \<Rightarrow> Some (self, [], True)
      | Some CertAccepted \<Rightarrow>
         (let self1 = (if vsc_relay data > vr_relay self then self\<lparr>vr_relay := vsc_relay data\<rparr> else self) in
          case create_vote (ce_finalize_commit (te_collect env)) (te_sign env)
                 \<lparr>vs_relay = vsc_relay data, vs_round = vr_next_view self1, vs_epoch = vsc_epoch data\<rparr>
                 (vr_next_view self1) (vr_public_key self1) (vr_upgrade_lock self1) of
            None \<Rightarrow> Some (self1, [], False)
          | Some vote \<Rightarrow>
             (let timer = (vr_next_view self1, vr_relay self1, last_seen_certificate)
              in Some (self1\<lparr>vr_timeout_task := Some timer\<rparr>,
                   [Broadcast (ViewSyncFinalizeVoteSend vote),
                    Broadcast (broadcast_view_change (vr_next_view self1) (vsc_epoch data)
                      (vr_first_epoch self1))]
                   @ abort_timer self1 @ [SpawnTimer timer], False))))"

definition replica_finalize_cert ::
  "('k, 'g) TaskEnv \<Rightarrow> 'g ViewSyncFinalizeCertificate2 \<Rightarrow> ('k, 'g) ViewSyncReplicaTaskState
     \<Rightarrow> ('k, 'g) ReplicaOutcome" where
  "replica_finalize_cert env certificate self =
     (let data = cert_data certificate in
      case check_view_sync_cert env (ce_finalize_commit (te_collect env)) em_success_threshold
             certificate (vs_epoch data) self of
        None \<Rightarrow> None
      | Some CertIgnored \<Rightarrow> Some (self, [], False)
      | Some CertHigherRound \<Rightarrow> Some (self, [], True)
      | Some CertAccepted \<Rightarrow>
         (let self1 = (if vs_relay data > vr_relay self then self\<lparr>vr_relay := vs_relay data\<rparr> else self)
          in Some (self1\<lparr>vr_timeout_task := None\<rparr>,
               abort_timer self1 @ [Broadcast (broadcast_view_change (vr_next_view self1) (vs_epoch data)
                 (vr_first_epoch self1))], True)))"

text \<open>The trigger replaces the timer without aborting it.\<close>

definition replica_trigger ::
  "('k, 'g) TaskEnv \<Rightarrow> u64 \<Rightarrow> ('k, 'g) ViewSyncReplicaTaskState \<Rightarrow> ('k, 'g) ReplicaOutcome" where
  "replica_trigger env view_number self =
     (if vr_next_view self \<noteq> view_number then Some (self, [], False)
      else case create_vote (ce_pre_commit_commit (te_collect env)) (te_sign env)
             \<lparr>vsp_relay = 0, vsp_round = view_number, vsp_epoch = vr_cur_epoch self\<rparr>
             view_number (vr_public_key self) (vr_upgrade_lock self) of
        None \<Rightarrow> Some (self, [], False)
      | Some vote \<Rightarrow>
         (let timer = (vr_next_view self, vr_relay self, PhaseNone)
          in Some (self\<lparr>vr_timeout_task := Some timer\<rparr>,
               [Broadcast (ViewSyncPreCommitVoteSend vote), SpawnTimer timer], False)))"

definition replica_timeout ::
  "('k, 'g) TaskEnv \<Rightarrow> u64 \<Rightarrow> u64 \<Rightarrow> ViewSyncPhase \<Rightarrow> ('k, 'g) ViewSyncReplicaTaskState
     \<Rightarrow> ('k, 'g) ReplicaOutcome" where
  "replica_timeout env round relay last_seen_certificate self =
     (if round = vr_next_view self \<and> relay = vr_relay self then
        (let aborted = abort_timer self;
             self1 = self\<lparr>vr_timeout_task := None, vr_relay := vr_relay self + 1\<rparr>
         in if last_seen_certificate = PhaseFinalize then None
            else case create_vote (ce_pre_commit_commit (te_collect env)) (te_sign env)
                   \<lparr>vsp_relay = vr_relay self1, vsp_round = vr_next_view self1,
                    vsp_epoch = vr_cur_epoch self1\<rparr>
                   (vr_next_view self1) (vr_public_key self1) (vr_upgrade_lock self1) of
              None \<Rightarrow> Some (self1, aborted, False)
            | Some vote \<Rightarrow>
               (let timer = (vr_next_view self1, vr_relay self1, last_seen_certificate)
                in Some (self1\<lparr>vr_timeout_task := Some timer\<rparr>,
                     aborted @ [Broadcast (ViewSyncPreCommitVoteSend vote), SpawnTimer timer], False)))
      else Some (self, [], False))"

definition replica_handle ::
  "('k, 'g) TaskEnv \<Rightarrow> ('k, 'g) HotShotEvent \<Rightarrow> ('k, 'g) ViewSyncReplicaTaskState
     \<Rightarrow> ('k, 'g) ReplicaOutcome" where
  "replica_handle env event self =
     (case event of
        ViewSyncPreCommitCertificateRecv certificate \<Rightarrow> replica_pre_commit_cert env certificate self
      | ViewSyncCommitCertificateRecv certificate \<Rightarrow> replica_commit_cert env certificate self
      | ViewSyncFinalizeCertificateRecv certificate \<Rightarrow> replica_finalize_cert env certificate self
      | ViewSyncTrigger view_number \<Rightarrow> replica_trigger env view_number self
      | ViewSyncTimeout round relay phase \<Rightarrow> replica_timeout env round relay phase self
      | _ \<Rightarrow> Some (self, [], False))"

section \<open>The main task\<close>

definition new_replica ::
  "u64 \<Rightarrow> ('k, 'g) ViewSyncTaskState \<Rightarrow> ('k, 'g) ViewSyncReplicaTaskState" where
  "new_replica view self =
     \<lparr>vr_view_sync_timeout = vs_view_sync_timeout self, vr_cur_view = view, vr_next_view = view,
      vr_relay = 0, vr_finalized = False, vr_sent_view_change_event = False, vr_timeout_task = None,
      vr_id = vs_id self, vr_public_key = vs_public_key self, vr_upgrade_lock = vs_upgrade_lock self,
      vr_cur_epoch = vs_cur_epoch self, vr_first_epoch = vs_first_epoch self\<rparr>"

definition send_to_or_create_replica ::
  "('k, 'g) TaskEnv \<Rightarrow> ('k, 'g) HotShotEvent \<Rightarrow> u64 \<Rightarrow> u64 option \<Rightarrow> ('k, 'g) ViewSyncTaskState
     \<Rightarrow> (('k, 'g) ViewSyncTaskState \<times> ('k, 'g) TaskEffect list) option" where
  "send_to_or_create_replica env event view epoch self =
     (if vs_cur_view self > view then Some (self, [])
      else case vs_replica_task_map self (view, epoch) of
        Some replica_task \<Rightarrow>
         (case replica_handle env event replica_task of
            None \<Rightarrow> None
          | Some (replica', effects, completed) \<Rightarrow>
              Some (self\<lparr>vs_replica_task_map := (vs_replica_task_map self)
                      ((view, epoch) := (if completed then None else Some replica'))\<rparr>, effects))
      | None \<Rightarrow>
         (case replica_handle env event (new_replica view self) of
            None \<Rightarrow> None
          | Some (replica', effects, completed) \<Rightarrow>
              Some (if completed then self
                    else self\<lparr>vs_replica_task_map := (vs_replica_task_map self)
                           ((view, epoch) \<mapsto> replica')\<rparr>, effects)))"

datatype ViewSyncError =
    VSNoMembership | VSNoLeader | VSWrongLeader | VSCollect CollectError | VSOldTimeout

text \<open>
  A vote for this node as a relay. The three handlers differ in the map and the vote type, and in
  that the one for finalize votes ignores an error of \<open>create_vote_accumulator\<close>.
\<close>

definition handle_relay_vote ::
  "('k, 'g) TaskEnv \<Rightarrow> ('k, 'g, 'd) VoteKind \<Rightarrow> bool \<Rightarrow> ('k, 'g) HotShotEvent \<Rightarrow> u64 \<Rightarrow> u64 \<Rightarrow> u64 option
     \<Rightarrow> ('k, 'g) ViewSyncTaskState \<Rightarrow> ('k, 'g) RelayMap
     \<Rightarrow> ('k, 'g) RelayMap \<times> ('k, 'g) HotShotEvent list \<times> (ViewSyncError, unit) result" where
  "handle_relay_vote env kind ignore_error event vote_view relay epoch self map0 =
     (let relay_map = (case map0 (vote_view, epoch) of Some rm \<Rightarrow> rm | None \<Rightarrow> []);
          map1 = map0((vote_view, epoch) \<mapsto> relay_map)
      in case bt_get relay_map relay of
        Some relay_task \<Rightarrow>
         (case handle_vote_event kind event relay_task of
            (task', events, Inl e) \<Rightarrow>
              (map1((vote_view, epoch) \<mapsto> bt_insert relay task' relay_map), events, Err (VSCollect e))
          | (task', events, Inr None) \<Rightarrow>
              (map1((vote_view, epoch) \<mapsto> bt_insert relay task' relay_map), events, Ok ())
          | (task', events, Inr (Some _)) \<Rightarrow> (map1((vote_view, epoch) := None), events, Ok ()))
      | None \<Rightarrow>
         (case ce_membership_for_epoch (te_collect env) epoch of
            None \<Rightarrow> (map1, [], Err VSNoMembership)
          | Some epoch_mem \<Rightarrow>
             (case em_leader epoch_mem (vote_view + relay) of
                None \<Rightarrow> (map1, [], Err VSNoLeader)
              | Some leader \<Rightarrow>
                 (if leader \<noteq> vs_public_key self then (map1, [], Err VSWrongLeader)
                  else case create_vote_accumulator kind
                         \<lparr>ai_public_key = vs_public_key self, ai_membership = epoch_mem,
                          ai_view = vote_view, ai_id = vs_id self\<rparr>
                         event (vs_upgrade_lock self) NotInTransition of
                    (events, Inl e) \<Rightarrow> (map1, events, if ignore_error then Ok () else Err (VSCollect e))
                  | (events, Inr vote_collector) \<Rightarrow>
                      (map1((vote_view, epoch) \<mapsto> bt_insert relay vote_collector relay_map),
                       events, Ok ())))))"

type_synonym ('k, 'g) ViewSyncOutcome =
  "(('k, 'g) ViewSyncTaskState \<times> ('k, 'g) TaskEffect list \<times> (ViewSyncError, unit) result) option"

definition vs_pre_commit_vote_recv where
  "vs_pre_commit_vote_recv env event vote self =
     (case handle_relay_vote env (pre_commit_vote_kind (te_collect env)) False event
             (vote_view_number vote) (vsp_relay (vote_date vote)) (vsp_epoch (vote_date vote)) self
             (vs_pre_commit_relay_map self) of
        (m, events, r) \<Rightarrow> Some (self\<lparr>vs_pre_commit_relay_map := m\<rparr>, map Broadcast events, r))"

definition vs_commit_vote_recv where
  "vs_commit_vote_recv env event vote self =
     (case handle_relay_vote env (commit_vote_kind (te_collect env)) False event
             (vote_view_number vote) (vsc_relay (vote_date vote)) (vsc_epoch (vote_date vote)) self
             (vs_commit_relay_map self) of
        (m, events, r) \<Rightarrow> Some (self\<lparr>vs_commit_relay_map := m\<rparr>, map Broadcast events, r))"

definition vs_finalize_vote_recv where
  "vs_finalize_vote_recv env event vote self =
     (case handle_relay_vote env (finalize_vote_kind (te_collect env)) True event
             (vote_view_number vote) (vs_relay (vote_date vote)) (vs_epoch (vote_date vote)) self
             (vs_finalize_relay_map self) of
        (m, events, r) \<Rightarrow> Some (self\<lparr>vs_finalize_relay_map := m\<rparr>, map Broadcast events, r))"

text \<open>Garbage collection removes the entries of the new epoch only, view by view.\<close>

definition view_range :: "u64 \<Rightarrow> u64 \<Rightarrow> u64 list" where
  "view_range lo hi = map of_nat [unat lo ..< unat hi]"

definition remove_entries :: "u64 option \<Rightarrow> u64 list \<Rightarrow> (u64 \<times> u64 option \<rightharpoonup> 'v) \<Rightarrow> (u64 \<times> u64 option \<rightharpoonup> 'v)" where
  "remove_entries epoch views m = foldl (\<lambda>m i. m((i, epoch) := None)) m views"

definition vs_view_change ::
  "u64 \<Rightarrow> u64 option \<Rightarrow> ('k, 'g) ViewSyncTaskState \<Rightarrow> ('k, 'g) ViewSyncTaskState" where
  "vs_view_change new_view epoch self =
     (let self1 = (if epoch_less (vs_cur_epoch self) epoch then self\<lparr>vs_cur_epoch := epoch\<rparr> else self) in
      if vs_cur_view self1 < new_view then
        (let views = view_range (vs_last_garbage_collected_view self1) new_view
         in self1\<lparr>vs_cur_view := new_view, vs_next_view := new_view, vs_num_timeouts_tracked := 0,
              vs_replica_task_map := remove_entries epoch views (vs_replica_task_map self1),
              vs_pre_commit_relay_map := remove_entries epoch views (vs_pre_commit_relay_map self1),
              vs_commit_relay_map := remove_entries epoch views (vs_commit_relay_map self1),
              vs_finalize_relay_map := remove_entries epoch views (vs_finalize_relay_map self1),
              vs_last_garbage_collected_view := new_view - 1\<rparr>)
      else self1)"

definition vs_timeout ::
  "('k, 'g) TaskEnv \<Rightarrow> u64 \<Rightarrow> ('k, 'g) ViewSyncTaskState \<Rightarrow> ('k, 'g) ViewSyncOutcome" where
  "vs_timeout env view_number self =
     (if \<not> view_number \<ge> vs_cur_view self then Some (self, [], Err VSOldTimeout)
      else
       (let self1 = self\<lparr>vs_num_timeouts_tracked := vs_num_timeouts_tracked self + 1\<rparr> in
        case ce_membership_for_epoch (te_collect env) (vs_cur_epoch self1) of
          None \<Rightarrow> Some (self1, [], Err VSNoMembership)
        | Some membership \<Rightarrow>
           (case em_leader membership view_number of
              None \<Rightarrow> Some (self1, [], Err VSNoLeader)
            | Some _ \<Rightarrow>
               (if vs_num_timeouts_tracked self1 \<ge> 2 then
                  map_option (\<lambda>(self', effects). (self', effects, Ok ()))
                    (send_to_or_create_replica env (ViewSyncTrigger (view_number + 1)) (view_number + 1)
                       (vs_cur_epoch self1) self1)
                else
                  Some (self1\<lparr>vs_cur_view := view_number + 1\<rparr>,
                    [Broadcast (broadcast_view_change (view_number + 1) (vs_cur_epoch self1)
                       (vs_first_epoch self1))], Ok ())))))"

definition vs_send ::
  "('k, 'g) TaskEnv \<Rightarrow> ('k, 'g) HotShotEvent \<Rightarrow> u64 \<Rightarrow> u64 option \<Rightarrow> ('k, 'g) ViewSyncTaskState
     \<Rightarrow> ('k, 'g) ViewSyncOutcome" where
  "vs_send env event view epoch self =
     map_option (\<lambda>(self', effects). (self', effects, Ok ()))
       (send_to_or_create_replica env event view epoch self)"

definition view_sync_handle ::
  "('k, 'g) TaskEnv \<Rightarrow> ('k, 'g) HotShotEvent \<Rightarrow> ('k, 'g) ViewSyncTaskState \<Rightarrow> ('k, 'g) ViewSyncOutcome" where
  "view_sync_handle env event self =
     (case event of
        ViewSyncPreCommitCertificateRecv certificate \<Rightarrow>
          vs_send env event (cert_view_number certificate) (vsp_epoch (cert_data certificate)) self
      | ViewSyncCommitCertificateRecv certificate \<Rightarrow>
          vs_send env event (cert_view_number certificate) (vsc_epoch (cert_data certificate)) self
      | ViewSyncFinalizeCertificateRecv certificate \<Rightarrow>
          vs_send env event (cert_view_number certificate) (vs_epoch (cert_data certificate)) self
      | ViewSyncTimeout view _ _ \<Rightarrow> vs_send env event view (vs_cur_epoch self) self
      | ViewSyncPreCommitVoteRecv vote \<Rightarrow> vs_pre_commit_vote_recv env event vote self
      | ViewSyncCommitVoteRecv vote \<Rightarrow> vs_commit_vote_recv env event vote self
      | ViewSyncFinalizeVoteRecv vote \<Rightarrow> vs_finalize_vote_recv env event vote self
      | ViewChange new_view epoch \<Rightarrow> Some (vs_view_change new_view epoch self, [], Ok ())
      | Timeout view_number _ \<Rightarrow> vs_timeout env view_number self
      | SetFirstEpoch view epoch \<Rightarrow> Some (self\<lparr>vs_first_epoch := Some (view, epoch)\<rparr>, [], Ok ())
      | _ \<Rightarrow> Some (self, [], Ok ()))"

section \<open>What a replica does\<close>

lemma check_view_sync_cert_Accepted:
  assumes "check_view_sync_cert env vote_commit thr certificate epoch self = Some CertAccepted"
  obtains membership where "ce_membership_for_epoch (te_collect env) epoch = Some membership"
    "is_valid_cert (te_multi_sig_verify env) vote_commit certificate
       (stake_table_entries (em_stake_table membership)) (thr membership) (vr_upgrade_lock self) = Ok ()"
    "cert_view_number certificate = vr_next_view self"
  using assms
  by (auto simp: check_view_sync_cert_def split: if_splits option.splits sum.splits CertError.splits)

text \<open>
  The certificate that an event carries, as evidence: valid for the threshold of its phase in the
  membership of its epoch.
\<close>

definition valid_in_epoch ::
  "('k, 'g) TaskEnv \<Rightarrow> 'g UpgradeLock \<Rightarrow> ('d \<Rightarrow> u64 \<Rightarrow> commitment) \<Rightarrow> (('k, u8 list) EpochMembership \<Rightarrow> u256)
     \<Rightarrow> ('d, 'g) SimpleCertificate \<Rightarrow> u64 option \<Rightarrow> bool" where
  "valid_in_epoch env lock vote_commit thr certificate epoch \<longleftrightarrow>
     (\<exists>membership. ce_membership_for_epoch (te_collect env) epoch = Some membership
        \<and> is_valid_cert (te_multi_sig_verify env) vote_commit certificate
            (stake_table_entries (em_stake_table membership)) (thr membership) lock = Ok ())"

text \<open>
  What justifies an effect of the view sync task: the event it handled, and for view changes after
  a timeout that it is the first in a row.
\<close>

definition pre_commit_evidence where
  "pre_commit_evidence env lock event view relay epoch \<longleftrightarrow>
     (\<exists>certificate. event = ViewSyncPreCommitCertificateRecv certificate
        \<and> cert_view_number certificate = view \<and> vsp_relay (cert_data certificate) = relay
        \<and> vsp_epoch (cert_data certificate) = epoch
        \<and> valid_in_epoch env lock (ce_pre_commit_commit (te_collect env)) em_failure_threshold
            certificate epoch)"

definition commit_evidence where
  "commit_evidence env lock event view relay epoch \<longleftrightarrow>
     (\<exists>certificate. event = ViewSyncCommitCertificateRecv certificate
        \<and> cert_view_number certificate = view \<and> vsc_relay (cert_data certificate) = relay
        \<and> vsc_epoch (cert_data certificate) = epoch
        \<and> valid_in_epoch env lock (ce_commit_commit (te_collect env)) em_success_threshold
            certificate epoch)"

definition finalize_evidence where
  "finalize_evidence env lock event view epoch \<longleftrightarrow>
     (\<exists>certificate. event = ViewSyncFinalizeCertificateRecv certificate
        \<and> cert_view_number certificate = view \<and> vs_epoch (cert_data certificate) = epoch
        \<and> valid_in_epoch env lock (ce_finalize_commit (te_collect env)) em_success_threshold
            certificate epoch)"

fun justified ::
  "('k, 'g) TaskEnv \<Rightarrow> 'g UpgradeLock \<Rightarrow> (u64 \<times> u64) option \<Rightarrow> ('k, 'g) HotShotEvent
     \<Rightarrow> ('k, 'g) TaskEffect \<Rightarrow> bool" where
  "justified env lock first_epoch event (Broadcast (ViewSyncCommitVoteSend vote)) =
     (vsc_round (vote_date vote) = vote_view_number vote
      \<and> pre_commit_evidence env lock event (vote_view_number vote) (vsc_relay (vote_date vote))
          (vsc_epoch (vote_date vote)))"
| "justified env lock first_epoch event (Broadcast (ViewSyncFinalizeVoteSend vote)) =
     (vs_round (vote_date vote) = vote_view_number vote
      \<and> commit_evidence env lock event (vote_view_number vote) (vs_relay (vote_date vote))
          (vs_epoch (vote_date vote)))"
| "justified env lock first_epoch event (Broadcast (ViewSyncPreCommitVoteSend vote)) =
     (vsp_round (vote_date vote) = vote_view_number vote
      \<and> (event = ViewSyncTrigger (vote_view_number vote) \<and> vsp_relay (vote_date vote) = 0
         \<or> (\<exists>relay phase. event = ViewSyncTimeout (vote_view_number vote) relay phase
              \<and> vsp_relay (vote_date vote) = relay + 1)))"
| "justified env lock first_epoch event (Broadcast (ViewChange view epoch')) =
     (\<exists>epoch relay. epoch' = broadcast_epoch view epoch first_epoch
        \<and> (commit_evidence env lock event view relay epoch \<or> finalize_evidence env lock event view epoch))"
| "justified env lock first_epoch event (Broadcast _) = False"
| "justified env lock first_epoch event (SpawnTimer (view, relay, phase)) = (phase \<noteq> PhaseFinalize)"
| "justified env lock first_epoch event (AbortTimer _) = True"

lemma justified_abort_timer: "e \<in> set (abort_timer r) \<Longrightarrow> justified env lock first_epoch event e"
  by (auto simp: abort_timer_def split: option.splits)

lemma replica_handle_justified:
  assumes "replica_handle env event r = Some (r', effects, completed)" "e \<in> set effects"
  shows "justified env (vr_upgrade_lock r) (vr_first_epoch r) event e"
proof -
  note defs = replica_pre_commit_cert_def replica_commit_cert_def replica_finalize_cert_def
    replica_trigger_def replica_timeout_def
  note ev = pre_commit_evidence_def commit_evidence_def finalize_evidence_def valid_in_epoch_def
  show ?thesis
  proof (cases event)
    case (ViewSyncPreCommitCertificateRecv cert)
    with assms show ?thesis
      by (auto simp: replica_handle_def defs Let_def ev justified_abort_timer
          split: option.splits CertCheck.splits if_splits
          dest!: create_vote_SomeD elim!: check_view_sync_cert_Accepted)
  next
    case (ViewSyncCommitCertificateRecv cert)
    with assms show ?thesis
      by (auto simp: replica_handle_def defs Let_def ev justified_abort_timer broadcast_view_change_def
          split: option.splits CertCheck.splits if_splits
          dest!: create_vote_SomeD elim!: check_view_sync_cert_Accepted)
  next
    case (ViewSyncFinalizeCertificateRecv cert)
    with assms show ?thesis
      by (auto simp: replica_handle_def defs Let_def ev justified_abort_timer broadcast_view_change_def
          split: option.splits CertCheck.splits if_splits
          dest!: create_vote_SomeD elim!: check_view_sync_cert_Accepted)
  next
    case (ViewSyncTrigger view)
    with assms show ?thesis
      by (auto simp: replica_handle_def defs Let_def split: option.splits if_splits
          dest!: create_vote_SomeD)
  next
    case (ViewSyncTimeout view relay phase)
    with assms show ?thesis
      by (auto simp: replica_handle_def defs Let_def justified_abort_timer split: option.splits if_splits
          dest!: create_vote_SomeD)
  qed (use assms in \<open>auto simp: replica_handle_def\<close>)
qed

text \<open>A replica never leaves its view, and its relay index only grows.\<close>

definition same_replica where
  "same_replica r r' \<longleftrightarrow> vr_next_view r' = vr_next_view r \<and> vr_cur_view r' = vr_cur_view r
     \<and> vr_public_key r' = vr_public_key r \<and> vr_upgrade_lock r' = vr_upgrade_lock r
     \<and> vr_cur_epoch r' = vr_cur_epoch r \<and> vr_first_epoch r' = vr_first_epoch r"

lemma replica_handle_same:
  assumes "replica_handle env event r = Some (r', effects, completed)"
  shows "same_replica r r'"
  using assms
  by (cases event)
     (auto simp: replica_handle_def same_replica_def replica_pre_commit_cert_def replica_commit_cert_def
        replica_finalize_cert_def replica_trigger_def replica_timeout_def Let_def
        split: option.splits CertCheck.splits if_splits)

section \<open>The relay\<close>

definition relay_map_ok ::
  "('k, 'g) TaskEnv \<Rightarrow> ('k, 'g, 'd) VoteKind \<Rightarrow> 'k \<Rightarrow> 'g UpgradeLock \<Rightarrow> ('k, 'g) RelayMap \<Rightarrow> bool" where
  "relay_map_ok env kind key lock relay_maps \<longleftrightarrow>
     (\<forall>view epoch relay_map relay c.
        relay_maps (view, epoch) = Some relay_map \<and> bt_get relay_map relay = Some c \<longrightarrow>
        collector_ok kind lock c \<and> vc_public_key c = key \<and> vc_transition_indicator c = NotInTransition
        \<and> ce_membership_for_epoch (te_collect env) epoch = Some (vc_membership c))"

lemma relay_map_ok_empty [simp]: "relay_map_ok env kind key lock Map.empty"
  by (simp add: relay_map_ok_def)

lemma relay_map_ok_remove: "relay_map_ok env kind key lock m \<Longrightarrow> relay_map_ok env kind key lock (m(k := None))"
  unfolding relay_map_ok_def by (cases k) (auto split: if_splits)

lemma relay_map_ok_update:
  assumes "relay_map_ok env kind key lock m" "collector_ok kind lock c" "vc_public_key c = key"
    "vc_transition_indicator c = NotInTransition"
    "ce_membership_for_epoch (te_collect env) epoch = Some (vc_membership c)"
    "relay_map = (case m (view, epoch) of Some rm \<Rightarrow> rm | None \<Rightarrow> [])"
  shows "relay_map_ok env kind key lock (m((view, epoch) \<mapsto> bt_insert relay c relay_map))"
  using assms unfolding relay_map_ok_def
  by (auto simp: bt_get_insert split: if_splits option.splits)

lemma relay_map_ok_touch:
  assumes "relay_map_ok env kind key lock m"
    "relay_map = (case m (view, epoch) of Some rm \<Rightarrow> rm | None \<Rightarrow> [])"
  shows "relay_map_ok env kind key lock (m((view, epoch) \<mapsto> relay_map))"
  using assms unfolding relay_map_ok_def by (auto split: if_splits option.splits)

definition relay_certifies ::
  "('k, 'g) TaskEnv \<Rightarrow> ('k, 'g, 'd) VoteKind \<Rightarrow> 'k \<Rightarrow> 'g UpgradeLock \<Rightarrow> ('k, 'g, 'd) SimpleVote
     \<Rightarrow> u64 option \<Rightarrow> ('k, 'g) HotShotEvent \<Rightarrow> bool" where
  "relay_certifies env kind key lock vote epoch e \<longleftrightarrow>
     (\<exists>membership. ce_membership_for_epoch (te_collect env) epoch = Some membership
        \<and> certifies kind (te_multi_sig_verify env) lock key membership vote e
        \<and> vk_leader kind vote membership = Ok key)"

lemma handle_relay_vote_step:
  assumes agg: "aggregate_complete (vk_validate kind) (vk_aggregate kind) (te_multi_sig_verify env)"
    and mem: "\<And>m. ce_membership_for_epoch (te_collect env) epoch = Some m \<Longrightarrow>
      cert_membership_ok (vk_cert_membership kind m)"
    and ev: "vk_received kind event = Some vote"
    and ok: "relay_map_ok env kind (vs_public_key self) (vs_upgrade_lock self) m"
    and run: "handle_relay_vote env kind ignore_error event view relay epoch self m = (m', events, r)"
  shows "relay_map_ok env kind (vs_public_key self) (vs_upgrade_lock self) m'
    \<and> (\<forall>e \<in> set events.
         relay_certifies env kind (vs_public_key self) (vs_upgrade_lock self) vote epoch e)"
proof -
  let ?key = "vs_public_key self" and ?lock = "vs_upgrade_lock self"
  define rm where "rm = (case m (view, epoch) of Some rm \<Rightarrow> rm | None \<Rightarrow> [])"
  note touch = relay_map_ok_touch [OF ok rm_def]
  have step: "collector_ok kind ?lock c' \<and> vc_public_key c' = ?key
      \<and> vc_transition_indicator c' = NotInTransition \<and> vc_membership c' = vc_membership c
      \<and> (\<forall>e \<in> set evs. relay_certifies env kind ?key ?lock vote epoch e)"
    if "handle_vote_event kind event c = (c', evs, res)" "collector_ok kind ?lock c"
      "vc_public_key c = ?key" "vc_transition_indicator c = NotInTransition"
      "ce_membership_for_epoch (te_collect env) epoch = Some (vc_membership c)" for c c' evs res
    using accumulate_vote_step [OF agg that(2), of vote c' evs res] that ev
    by (auto simp: handle_vote_event_def relay_certifies_def authorised_def)
  show ?thesis
  proof (cases "bt_get rm relay")
    case (Some c)
    obtain rm0 where "m (view, epoch) = Some rm0" "rm = rm0"
      using Some rm_def by (cases "m (view, epoch)") auto
    then have c: "collector_ok kind ?lock c" "vc_public_key c = ?key"
        "vc_transition_indicator c = NotInTransition"
        "ce_membership_for_epoch (te_collect env) epoch = Some (vc_membership c)"
      using ok Some unfolding relay_map_ok_def by blast+
    obtain c' evs res where h: "handle_vote_event kind event c = (c', evs, res)"
      by (cases "handle_vote_event kind event c") auto
    note s = step [OF h c]
    have up: "relay_map_ok env kind ?key ?lock (m((view, epoch) \<mapsto> bt_insert relay c' rm))"
      using s c(4) by (intro relay_map_ok_update [OF ok _ _ _ _ rm_def]) auto
    have rem: "relay_map_ok env kind ?key ?lock (m((view, epoch) := None))"
      by (rule relay_map_ok_remove [OF ok])
    show ?thesis
      using run Some h s up rem
      by (auto simp: handle_relay_vote_def rm_def [symmetric] Let_def split: sum.splits option.splits)
  next
    case None
    show ?thesis
    proof (cases "\<exists>em. ce_membership_for_epoch (te_collect env) epoch = Some em
        \<and> em_leader em (view + relay) = Some ?key")
      case False
      then show ?thesis using run None touch
        by (auto simp: handle_relay_vote_def rm_def [symmetric] Let_def split: option.splits if_splits)
    next
      case True
      then obtain em where em: "ce_membership_for_epoch (te_collect env) epoch = Some em"
          "em_leader em (view + relay) = Some ?key" by blast
      let ?c = "\<lparr>vc_public_key = ?key, vc_membership = em,
          vc_accumulator = Some (empty_accumulator ?lock), vc_view = view, vc_id = vs_id self,
          vc_transition_indicator = NotInTransition\<rparr>"
      have c: "collector_ok kind ?lock ?c"
        using mem [OF em(1)] accumulator_ok_empty
        by (simp add: collector_ok_def) (simp add: empty_accumulator_def)
      obtain c' evs res where h: "handle_vote_event kind event ?c = (c', evs, res)"
        by (cases "handle_vote_event kind event ?c") auto
      note s = step [OF h c, simplified, OF em(1)]
      have up: "relay_map_ok env kind ?key ?lock (m((view, epoch) \<mapsto> bt_insert relay c' rm))"
        using s em(1) by (intro relay_map_ok_update [OF ok _ _ _ _ rm_def]) auto
      show ?thesis
        using run None em h s up touch
        by (auto simp: handle_relay_vote_def rm_def [symmetric] Let_def create_vote_accumulator_def
            empty_accumulator_def split: sum.splits)
    qed
  qed
qed

section \<open>The main task\<close>

definition view_sync_ok :: "('k, 'g) TaskEnv \<Rightarrow> ('k, 'g) ViewSyncTaskState \<Rightarrow> bool" where
  "view_sync_ok env self \<longleftrightarrow>
     (\<forall>view epoch r. vs_replica_task_map self (view, epoch) = Some r \<longrightarrow>
        vr_next_view r = view \<and> vr_upgrade_lock r = vs_upgrade_lock self
        \<and> vr_public_key r = vs_public_key self)
     \<and> relay_map_ok env (pre_commit_vote_kind (te_collect env)) (vs_public_key self)
         (vs_upgrade_lock self) (vs_pre_commit_relay_map self)
     \<and> relay_map_ok env (commit_vote_kind (te_collect env)) (vs_public_key self)
         (vs_upgrade_lock self) (vs_commit_relay_map self)
     \<and> relay_map_ok env (finalize_vote_kind (te_collect env)) (vs_public_key self)
         (vs_upgrade_lock self) (vs_finalize_relay_map self)"

text \<open>What justifies an effect of the main task in a state in which it handles an event.\<close>

definition task_justified ::
  "('k, 'g) TaskEnv \<Rightarrow> ('k, 'g) ViewSyncTaskState \<Rightarrow> ('k, 'g) HotShotEvent \<Rightarrow> ('k, 'g) TaskEffect \<Rightarrow> bool" where
  "task_justified env self event e \<longleftrightarrow>
     (let lock = vs_upgrade_lock self; key = vs_public_key self in
      (\<exists>first_epoch. justified env lock first_epoch event e)
      \<or> (\<exists>view epoch. event = Timeout view epoch \<and> vs_cur_view self \<le> view
           \<and> (if vs_num_timeouts_tracked self + 1 < 2
              then e = Broadcast (ViewChange (view + 1)
                     (broadcast_epoch (view + 1) (vs_cur_epoch self) (vs_first_epoch self)))
              else \<exists>first_epoch. justified env lock first_epoch (ViewSyncTrigger (view + 1)) e))
      \<or> (\<exists>vote x. event = ViewSyncPreCommitVoteRecv vote \<and> e = Broadcast x
           \<and> relay_certifies env (pre_commit_vote_kind (te_collect env)) key lock vote
               (vsp_epoch (vote_date vote)) x)
      \<or> (\<exists>vote x. event = ViewSyncCommitVoteRecv vote \<and> e = Broadcast x
           \<and> relay_certifies env (commit_vote_kind (te_collect env)) key lock vote
               (vsc_epoch (vote_date vote)) x)
      \<or> (\<exists>vote x. event = ViewSyncFinalizeVoteRecv vote \<and> e = Broadcast x
           \<and> relay_certifies env (finalize_vote_kind (te_collect env)) key lock vote
               (vs_epoch (vote_date vote)) x))"

lemma send_step:
  assumes ok: "view_sync_ok env self"
    and run: "send_to_or_create_replica env event view epoch self = Some (self', effects)"
  shows "view_sync_ok env self' \<and> vs_public_key self' = vs_public_key self
    \<and> vs_upgrade_lock self' = vs_upgrade_lock self \<and> vs_cur_view self' = vs_cur_view self
    \<and> (\<forall>e \<in> set effects. \<exists>first_epoch. justified env (vs_upgrade_lock self) first_epoch event e)"
proof -
  define r where "r = (case vs_replica_task_map self (view, epoch) of
      Some r \<Rightarrow> r | None \<Rightarrow> new_replica view self)"
  show ?thesis
  proof (cases "view < vs_cur_view self")
    case True
    then show ?thesis using run ok by (simp add: send_to_or_create_replica_def)
  next
    case False
    obtain r' completed where h: "replica_handle env event r = Some (r', effects, completed)"
        "self' = self\<lparr>vs_replica_task_map := (vs_replica_task_map self)
            ((view, epoch) := (if completed then None else Some r'))\<rparr>"
      using run False
      by (auto simp: send_to_or_create_replica_def r_def fun_upd_idem split: option.splits if_splits)
    have r: "vr_next_view r = view" "vr_upgrade_lock r = vs_upgrade_lock self"
        "vr_public_key r = vs_public_key self"
      using ok by (auto simp: r_def view_sync_ok_def new_replica_def split: option.splits)
    then show ?thesis
      using ok h(2) replica_handle_same [OF h(1)] replica_handle_justified [OF h(1)]
      by (auto simp: view_sync_ok_def same_replica_def split: if_splits)
  qed
qed

lemma view_range_set: "set (view_range lo hi) = {v. lo \<le> v \<and> v < hi}"
proof -
  have "v \<in> of_nat ` {unat lo ..< unat hi}" if "lo \<le> v" "v < hi" for v :: u64
    using that by (intro image_eqI [of _ _ "unat v"]) (simp_all add: word_le_nat_alt word_less_nat_alt)
  moreover have "lo \<le> of_nat n \<and> of_nat n < hi" if "unat lo \<le> n" "n < unat hi" for n
  proof -
    have "n < 2 ^ LENGTH(64)" by (rule order.strict_trans [OF that(2) unsigned_less])
    then have "unat (of_nat n :: u64) = n" by (rule unat_of_nat_fits)
    then show ?thesis using that by (simp add: word_le_nat_alt word_less_nat_alt)
  qed
  ultimately show ?thesis unfolding view_range_def by auto
qed

lemma remove_entries_apply:
  "remove_entries epoch views m (v, e) = (if e = epoch \<and> v \<in> set views then None else m (v, e))"
  unfolding remove_entries_def by (induction views arbitrary: m) auto

lemma relay_map_ok_remove_entries:
  "relay_map_ok env kind key lock m \<Longrightarrow> relay_map_ok env kind key lock (remove_entries epoch views m)"
  unfolding relay_map_ok_def by (simp add: remove_entries_apply)

lemma vs_view_change_ok: "view_sync_ok env self \<Longrightarrow> view_sync_ok env (vs_view_change view epoch self)"
  by (auto simp: view_sync_ok_def vs_view_change_def Let_def remove_entries_apply
      intro: relay_map_ok_remove_entries)

lemma vote_kind_received [simp]:
  "vk_received (pre_commit_vote_kind env) (ViewSyncPreCommitVoteRecv vp) = Some vp"
  "vk_received (commit_vote_kind env) (ViewSyncCommitVoteRecv vc) = Some vc"
  "vk_received (finalize_vote_kind env) (ViewSyncFinalizeVoteRecv vf) = Some vf"
  by (simp_all add: pre_commit_vote_kind_def commit_vote_kind_def finalize_vote_kind_def)

lemma vote_kind_scheme [simp]:
  "vk_validate (pre_commit_vote_kind env) = ce_validate env"
  "vk_validate (commit_vote_kind env) = ce_validate env"
  "vk_validate (finalize_vote_kind env) = ce_validate env"
  "vk_aggregate (pre_commit_vote_kind env) = ce_aggregate env"
  "vk_aggregate (commit_vote_kind env) = ce_aggregate env"
  "vk_aggregate (finalize_vote_kind env) = ce_aggregate env"
  by (simp_all add: pre_commit_vote_kind_def commit_vote_kind_def finalize_vote_kind_def)

text \<open>The committee lookups of the coordinator are consistent.\<close>

definition memberships_ok :: "('k, 'g) TaskEnv \<Rightarrow> bool" where
  "memberships_ok env \<longleftrightarrow> (\<forall>epoch m. ce_membership_for_epoch (te_collect env) epoch = Some m \<longrightarrow>
     cert_membership_ok (quorum_cert_membership SuccessThreshold m))"

lemma memberships_ok_kinds:
  assumes "memberships_ok env" "ce_membership_for_epoch (te_collect env) epoch = Some m"
  shows "cert_membership_ok (vk_cert_membership (pre_commit_vote_kind (te_collect env)) m)"
    "cert_membership_ok (vk_cert_membership (commit_vote_kind (te_collect env)) m)"
    "cert_membership_ok (vk_cert_membership (finalize_vote_kind (te_collect env)) m)"
  using assms by (auto simp: memberships_ok_def cert_membership_ok_def quorum_cert_membership_def
      pre_commit_vote_kind_def commit_vote_kind_def finalize_vote_kind_def)

definition scheme_ok :: "('k, 'g) TaskEnv \<Rightarrow> bool" where
  "scheme_ok env \<longleftrightarrow> aggregate_complete (ce_validate (te_collect env)) (ce_aggregate (te_collect env))
     (te_multi_sig_verify env)"

lemma vs_vote_recv_step:
  assumes "scheme_ok env" "memberships_ok env" "view_sync_ok env self"
    and "event = ViewSyncPreCommitVoteRecv vp \<and> vs_pre_commit_vote_recv env event vp self = Some (self', effects, r)
      \<or> event = ViewSyncCommitVoteRecv vc \<and> vs_commit_vote_recv env event vc self = Some (self', effects, r)
      \<or> event = ViewSyncFinalizeVoteRecv vf \<and> vs_finalize_vote_recv env event vf self = Some (self', effects, r)"
  shows "view_sync_ok env self' \<and> vs_public_key self' = vs_public_key self
    \<and> vs_upgrade_lock self' = vs_upgrade_lock self \<and> vs_cur_view self' = vs_cur_view self
    \<and> (\<forall>e \<in> set effects. task_justified env self event e)"
proof -
  from assms(4) consider
      (pre) m events where "event = ViewSyncPreCommitVoteRecv vp"
        "handle_relay_vote env (pre_commit_vote_kind (te_collect env)) False event (vote_view_number vp)
           (vsp_relay (vote_date vp)) (vsp_epoch (vote_date vp)) self (vs_pre_commit_relay_map self) = (m, events, r)"
        "self' = self\<lparr>vs_pre_commit_relay_map := m\<rparr>" "effects = map Broadcast events"
    | (com) m events where "event = ViewSyncCommitVoteRecv vc"
        "handle_relay_vote env (commit_vote_kind (te_collect env)) False event (vote_view_number vc)
           (vsc_relay (vote_date vc)) (vsc_epoch (vote_date vc)) self (vs_commit_relay_map self) = (m, events, r)"
        "self' = self\<lparr>vs_commit_relay_map := m\<rparr>" "effects = map Broadcast events"
    | (fin) m events where "event = ViewSyncFinalizeVoteRecv vf"
        "handle_relay_vote env (finalize_vote_kind (te_collect env)) True event (vote_view_number vf)
           (vs_relay (vote_date vf)) (vs_epoch (vote_date vf)) self (vs_finalize_relay_map self) = (m, events, r)"
        "self' = self\<lparr>vs_finalize_relay_map := m\<rparr>" "effects = map Broadcast events"
    by (auto simp: vs_pre_commit_vote_recv_def vs_commit_vote_recv_def vs_finalize_vote_recv_def
        split: prod.splits)
  then show ?thesis
  proof cases
    case pre
    have "relay_map_ok env (pre_commit_vote_kind (te_collect env)) (vs_public_key self)
        (vs_upgrade_lock self) m \<and> (\<forall>e \<in> set events. relay_certifies env
          (pre_commit_vote_kind (te_collect env)) (vs_public_key self) (vs_upgrade_lock self) vp
          (vsp_epoch (vote_date vp)) e)"
      by (rule handle_relay_vote_step [OF _ memberships_ok_kinds(1) [OF assms(2)] _ _ pre(2)])
         (use assms(1,3) pre(1) in \<open>simp_all add: scheme_ok_def view_sync_ok_def\<close>)
    then show ?thesis using assms(3) pre by (auto simp: view_sync_ok_def task_justified_def Let_def)
  next
    case com
    have "relay_map_ok env (commit_vote_kind (te_collect env)) (vs_public_key self)
        (vs_upgrade_lock self) m \<and> (\<forall>e \<in> set events. relay_certifies env
          (commit_vote_kind (te_collect env)) (vs_public_key self) (vs_upgrade_lock self) vc
          (vsc_epoch (vote_date vc)) e)"
      by (rule handle_relay_vote_step [OF _ memberships_ok_kinds(2) [OF assms(2)] _ _ com(2)])
         (use assms(1,3) com(1) in \<open>simp_all add: scheme_ok_def view_sync_ok_def\<close>)
    then show ?thesis using assms(3) com by (auto simp: view_sync_ok_def task_justified_def Let_def)
  next
    case fin
    have "relay_map_ok env (finalize_vote_kind (te_collect env)) (vs_public_key self)
        (vs_upgrade_lock self) m \<and> (\<forall>e \<in> set events. relay_certifies env
          (finalize_vote_kind (te_collect env)) (vs_public_key self) (vs_upgrade_lock self) vf
          (vs_epoch (vote_date vf)) e)"
      by (rule handle_relay_vote_step [OF _ memberships_ok_kinds(3) [OF assms(2)] _ _ fin(2)])
         (use assms(1,3) fin(1) in \<open>simp_all add: scheme_ok_def view_sync_ok_def\<close>)
    then show ?thesis using assms(3) fin by (auto simp: view_sync_ok_def task_justified_def Let_def)
  qed
qed

lemma vs_send_step:
  assumes "view_sync_ok env self" "vs_send env event view epoch self = Some (self', effects, r)"
  shows "view_sync_ok env self' \<and> vs_public_key self' = vs_public_key self
    \<and> vs_upgrade_lock self' = vs_upgrade_lock self \<and> vs_cur_view self' = vs_cur_view self
    \<and> (\<forall>e \<in> set effects. task_justified env self event e)"
  using assms send_step [OF assms(1)] by (auto simp: vs_send_def task_justified_def Let_def)

lemma vs_timeout_step:
  assumes ok: "view_sync_ok env self" and run: "vs_timeout env view self = Some (self', effects, r)"
    and fits: "view < - 1"
  shows "view_sync_ok env self' \<and> vs_public_key self' = vs_public_key self
    \<and> vs_upgrade_lock self' = vs_upgrade_lock self \<and> vs_cur_view self \<le> vs_cur_view self'
    \<and> (\<forall>e \<in> set effects. task_justified env self (Timeout view epoch) e)"
proof -
  let ?self1 = "self\<lparr>vs_num_timeouts_tracked := vs_num_timeouts_tracked self + 1\<rparr>"
  have ok1: "view_sync_ok env ?self1" using ok by (simp add: view_sync_ok_def)
  have up: "view \<le> view + 1" by (simp add: word_le_nat_alt unat_Suc_less [OF fits])
  consider (stay) "self' = self \<or> self' = ?self1" "effects = []"
    | (first) "vs_cur_view self \<le> view" "vs_num_timeouts_tracked self + 1 < 2"
        "self' = ?self1\<lparr>vs_cur_view := view + 1\<rparr>"
        "effects = [Broadcast (broadcast_view_change (view + 1) (vs_cur_epoch self) (vs_first_epoch self))]"
    | (sync) "vs_cur_view self \<le> view" "\<not> vs_num_timeouts_tracked self + 1 < 2"
        "send_to_or_create_replica env (ViewSyncTrigger (view + 1)) (view + 1) (vs_cur_epoch self) ?self1
           = Some (self', effects)"
    using run by (auto simp: vs_timeout_def Let_def not_less split: if_splits option.splits)
  then show ?thesis
  proof cases
    case stay
    then show ?thesis using ok ok1 by auto
  next
    case first
    then show ?thesis using ok up
      by (auto simp: view_sync_ok_def task_justified_def Let_def broadcast_view_change_def intro: order.trans)
  next
    case sync
    from send_step [OF ok1 this(3)] sync(1,2) show ?thesis
      by (auto simp: task_justified_def Let_def)
  qed
qed

text \<open>Timeouts are for views below the largest one, so that the next view exists.\<close>

definition timeout_in_range :: "('k, 'g) HotShotEvent \<Rightarrow> bool" where
  "timeout_in_range event \<longleftrightarrow> (case event of Timeout view epoch \<Rightarrow> view < - 1 | _ \<Rightarrow> True)"

lemma view_sync_step:
  assumes scheme: "scheme_ok env" "memberships_ok env" and ok: "view_sync_ok env self"
    and run: "view_sync_handle env event self = Some (self', effects, r)"
    and fits: "timeout_in_range event"
  shows "view_sync_ok env self' \<and> vs_public_key self' = vs_public_key self
    \<and> vs_upgrade_lock self' = vs_upgrade_lock self \<and> vs_cur_view self \<le> vs_cur_view self'
    \<and> (\<forall>e \<in> set effects. task_justified env self event e)"
proof (cases event)
  case (ViewChange v e)
  then show ?thesis using run vs_view_change_ok [OF ok, of v e]
    by (auto simp: view_sync_handle_def vs_view_change_def Let_def)
next
  case (Timeout v e)
  then show ?thesis using run vs_timeout_step [OF ok, of v self' effects r e] fits
    by (simp add: view_sync_handle_def timeout_in_range_def)
next
  case (ViewSyncTimeout v x p)
  then show ?thesis using run vs_send_step [OF ok] by (fastforce simp: view_sync_handle_def)
next
  case (ViewSyncPreCommitVoteRecv vote)
  then show ?thesis using run vs_vote_recv_step [OF scheme ok] by (fastforce simp: view_sync_handle_def)
next
  case (ViewSyncCommitVoteRecv vote)
  then show ?thesis using run vs_vote_recv_step [OF scheme ok] by (fastforce simp: view_sync_handle_def)
next
  case (ViewSyncFinalizeVoteRecv vote)
  then show ?thesis using run vs_vote_recv_step [OF scheme ok] by (fastforce simp: view_sync_handle_def)
next
  case (ViewSyncPreCommitCertificateRecv cert)
  then show ?thesis using run vs_send_step [OF ok] by (fastforce simp: view_sync_handle_def)
next
  case (ViewSyncCommitCertificateRecv cert)
  then show ?thesis using run vs_send_step [OF ok] by (fastforce simp: view_sync_handle_def)
next
  case (ViewSyncFinalizeCertificateRecv cert)
  then show ?thesis using run vs_send_step [OF ok] by (fastforce simp: view_sync_handle_def)
qed (use run ok in \<open>auto simp: view_sync_handle_def view_sync_ok_def\<close>)

section \<open>Runs of the task\<close>

fun view_sync_run ::
  "('k, 'g) TaskEnv \<Rightarrow> ('k, 'g) HotShotEvent list \<Rightarrow> ('k, 'g) ViewSyncTaskState
     \<Rightarrow> (('k, 'g) ViewSyncTaskState
          \<times> (('k, 'g) ViewSyncTaskState \<times> ('k, 'g) HotShotEvent \<times> ('k, 'g) TaskEffect list) list) option" where
  "view_sync_run env [] self = Some (self, [])"
| "view_sync_run env (event # events) self =
     (case view_sync_handle env event self of
        None \<Rightarrow> None
      | Some (self1, effects, _) \<Rightarrow>
          map_option (\<lambda>(self2, log). (self2, (self, event, effects) # log))
            (view_sync_run env events self1))"

definition fresh_task :: "('k, 'g) ViewSyncTaskState \<Rightarrow> bool" where
  "fresh_task self \<longleftrightarrow> vs_replica_task_map self = Map.empty \<and> vs_pre_commit_relay_map self = Map.empty
     \<and> vs_commit_relay_map self = Map.empty \<and> vs_finalize_relay_map self = Map.empty"

lemma fresh_task_ok: "fresh_task self \<Longrightarrow> view_sync_ok env self"
  by (simp add: fresh_task_def view_sync_ok_def)

lemma view_sync_run_invariant:
  assumes scheme: "scheme_ok env" "memberships_ok env"
  shows "view_sync_ok env self \<Longrightarrow> view_sync_run env events self = Some (self', log) \<Longrightarrow>
    list_all timeout_in_range events \<Longrightarrow>
    view_sync_ok env self' \<and> vs_cur_view self \<le> vs_cur_view self'
    \<and> vs_public_key self' = vs_public_key self \<and> vs_upgrade_lock self' = vs_upgrade_lock self
    \<and> (\<forall>(st, event, effects) \<in> set log. vs_cur_view self \<le> vs_cur_view st \<and> vs_cur_view st \<le> vs_cur_view self'
         \<and> (\<forall>e \<in> set effects. task_justified env st event e))"
proof (induction events arbitrary: self log)
  case Nil
  then show ?case by simp
next
  case (Cons event events)
  from Cons.prems(2) obtain self1 effects r log1 where
    h: "view_sync_handle env event self = Some (self1, effects, r)"
    and run: "view_sync_run env events self1 = Some (self', log1)" "log = (self, event, effects) # log1"
    by (auto split: option.splits)
  note step = view_sync_step [OF scheme Cons.prems(1) h]
  have IH: "view_sync_ok env self' \<and> vs_cur_view self1 \<le> vs_cur_view self'
    \<and> vs_public_key self' = vs_public_key self1 \<and> vs_upgrade_lock self' = vs_upgrade_lock self1
    \<and> (\<forall>(st, event, effects) \<in> set log1. vs_cur_view self1 \<le> vs_cur_view st \<and> vs_cur_view st \<le> vs_cur_view self'
         \<and> (\<forall>e \<in> set effects. task_justified env st event e))"
    using Cons.IH [OF _ run(1)] step Cons.prems(3) by simp
  have "vs_cur_view self \<le> vs_cur_view self1" using step Cons.prems(3) by simp
  then show ?case using IH step Cons.prems(3) run(2) by (fastforce intro: order.trans)
qed

text \<open>
  C11: in every run of the view sync task from a state without replicas and relays, whatever events
  arrive, each message it sends is backed by what it handled: a commit vote by a pre-commit
  certificate of one honest node's worth of stake for that view, relay and epoch, a finalize vote by a
  commit certificate of a quorum, a change of view by a commit or finalize certificate of a quorum for
  that view, or by the first timeout in a row, which moves one view ahead; a pre-commit vote by a
  second timeout or by the timer of the previous relay; and the certificates it hands out as a relay
  are valid and it is the relay they are for. The current view never goes back.
\<close>

theorem view_sync_messages_justified:
  assumes "scheme_ok env" "memberships_ok env" "fresh_task self"
    and "list_all timeout_in_range events"
    and "view_sync_run env events self = Some (self', log)"
    and "(state, event, effects) \<in> set log"
  shows "(\<forall>e \<in> set effects. task_justified env state event e)
    \<and> vs_cur_view self \<le> vs_cur_view state \<and> vs_cur_view state \<le> vs_cur_view self'"
  using view_sync_run_invariant [OF assms(1,2) fresh_task_ok [OF assms(3)] assms(5,4)] assms(6)
  by fastforce

section \<open>Garbage collection\<close>

lemma vs_view_change_maps:
  assumes "vs_cur_view self < new_view"
  shows "vs_replica_task_map (vs_view_change new_view epoch self) (v, e) =
      (if e = epoch \<and> vs_last_garbage_collected_view self \<le> v \<and> v < new_view then None
       else vs_replica_task_map self (v, e))"
    "vs_last_garbage_collected_view (vs_view_change new_view epoch self) = new_view - 1"
    "vs_cur_view (vs_view_change new_view epoch self) = new_view"
  using assms
  by (auto simp: vs_view_change_def Let_def remove_entries_apply view_range_set)

lemma send_keeps_old_entries:
  assumes "send_to_or_create_replica env event view epoch self = Some (self', effects)"
    "v < vs_cur_view self"
  shows "vs_replica_task_map self' (v, e) = vs_replica_task_map self (v, e)
    \<and> vs_cur_view self' = vs_cur_view self
    \<and> vs_last_garbage_collected_view self' = vs_last_garbage_collected_view self"
  using assms
  by (auto simp: send_to_or_create_replica_def split: if_splits option.splits)

text \<open>
  An entry below both the current view and the last collected view is out of reach of every event.
\<close>

definition out_of_reach :: "u64 \<Rightarrow> ('k, 'g) ViewSyncTaskState \<Rightarrow> bool" where
  "out_of_reach v self \<longleftrightarrow> v < vs_cur_view self \<and> v < vs_last_garbage_collected_view self"

lemma unat_pred: "a < b \<Longrightarrow> unat (b - 1) = unat b - 1" for a b :: u64
proof -
  assume "a < b"
  then have "1 \<le> b" by (simp add: word_le_nat_alt word_less_nat_alt)
  then show ?thesis using unat_sub_le [of 1 b] by simp
qed

lemma view_change_keeps_old_entries:
  assumes "out_of_reach v self"
  shows "vs_replica_task_map (vs_view_change new_view epoch self) (v, e) = vs_replica_task_map self (v, e)
    \<and> out_of_reach v (vs_view_change new_view epoch self)"
proof (cases "vs_cur_view self < new_view")
  case True
  have "v < new_view - 1"
    using assms True unat_pred [OF True] unfolding out_of_reach_def word_less_nat_alt by linarith
  then show ?thesis using assms vs_view_change_maps [OF True] True
    by (auto simp: out_of_reach_def)
next
  case False
  then show ?thesis using assms by (auto simp: vs_view_change_def Let_def out_of_reach_def)
qed

lemma handle_keeps_old_entries:
  assumes "out_of_reach v self" "view_sync_handle env event self = Some (self', effects, r)"
    and fits: "timeout_in_range event"
  shows "vs_replica_task_map self' (v, e) = vs_replica_task_map self (v, e) \<and> out_of_reach v self'"
proof -
  note sends = send_keeps_old_entries [where v = v and e = e]
  note reach = assms(1) [unfolded out_of_reach_def]
  have s: "vs_replica_task_map self' (v, e) = vs_replica_task_map self (v, e) \<and> out_of_reach v self'"
    if "vs_send env event w ep self = Some (self', effects, r)" for w ep
    using that reach by (auto simp: vs_send_def out_of_reach_def dest!: sends)
  show ?thesis
  proof (cases event)
    case (ViewChange w ep)
    then show ?thesis using assms view_change_keeps_old_entries [OF assms(1)]
      by (auto simp: view_sync_handle_def)
  next
    case (Timeout w ep)
    then have "w < - 1" using fits by (simp add: timeout_in_range_def)
    then have "v < w + 1" if "vs_cur_view self \<le> w"
      using that reach by (simp add: word_less_nat_alt word_le_nat_alt unat_Suc_less [of w "- 1"])
    then show ?thesis using Timeout assms(2) reach
      by (auto simp: view_sync_handle_def vs_timeout_def Let_def out_of_reach_def
          split: if_splits option.splits dest!: sends)
  qed (use assms s in \<open>auto simp: view_sync_handle_def vs_pre_commit_vote_recv_def vs_commit_vote_recv_def
      vs_finalize_vote_recv_def out_of_reach_def split: prod.splits\<close>)
qed

lemma run_keeps_old_entries:
  "out_of_reach v self \<Longrightarrow> view_sync_run env events self = Some (self', log) \<Longrightarrow>
   list_all timeout_in_range events \<Longrightarrow>
   vs_replica_task_map self' (v, e) = vs_replica_task_map self (v, e)"
proof (induction events arbitrary: self log)
  case (Cons event events)
  from Cons.prems(2) obtain self1 effects r log1 where
    h: "view_sync_handle env event self = Some (self1, effects, r)"
    and run: "view_sync_run env events self1 = Some (self', log1)"
    by (auto split: option.splits)
  then show ?case
    using Cons.IH [OF _ run] handle_keeps_old_entries [OF Cons.prems(1) h] Cons.prems(3) by simp
qed simp


section \<open>Panics\<close>

text \<open>
  A certificate whose check unwraps missing signatures: it is not for the genesis view, its epoch has
  a membership and its view a supported version.
\<close>

definition unsigned_certificate ::
  "('k, 'g) TaskEnv \<Rightarrow> 'g UpgradeLock \<Rightarrow> ('d, 'g) SimpleCertificate \<Rightarrow> u64 option \<Rightarrow> bool" where
  "unsigned_certificate env lock cert epoch \<longleftrightarrow>
     cert_signatures cert = None \<and> cert_view_number cert \<noteq> 0
     \<and> is_ok (lock_version lock (cert_view_number cert))
     \<and> ce_membership_for_epoch (te_collect env) epoch \<noteq> None"

lemma is_valid_cert_panics:
  "is_valid_cert msv vc cert es thr lock = Inl MissingSignaturePanic \<longleftrightarrow>
     cert_signatures cert = None \<and> cert_view_number cert \<noteq> 0
     \<and> is_ok (lock_version lock (cert_view_number cert))"
proof (cases "lock_version lock (cert_view_number cert)")
  case (Inl e)
  then have "e \<noteq> MissingSignaturePanic"
    by (auto simp: lock_version_def split: option.splits if_splits)
  then show ?thesis using Inl by (auto simp: is_valid_cert_def data_commitment_def Let_def)
next
  case (Inr v)
  then show ?thesis
    by (auto simp: is_valid_cert_def data_commitment_def Let_def split: option.splits sum.splits)
qed

lemma check_view_sync_cert_panics:
  "check_view_sync_cert env vc thr cert epoch r = None \<longleftrightarrow>
     vr_next_view r \<le> cert_view_number cert \<and> unsigned_certificate env (vr_upgrade_lock r) cert epoch"
proof (cases "ce_membership_for_epoch (te_collect env) epoch")
  case None
  then show ?thesis by (auto simp: check_view_sync_cert_def unsigned_certificate_def)
next
  case (Some m)
  show ?thesis
    using is_valid_cert_panics [of "te_multi_sig_verify env" vc cert
        "stake_table_entries (em_stake_table m)" "thr m" "vr_upgrade_lock r"] Some
    by (auto simp: check_view_sync_cert_def unsigned_certificate_def not_less
        split: sum.splits CertError.splits)
qed

lemma replica_cert_panics:
  "replica_pre_commit_cert env cp r = None \<longleftrightarrow>
     vr_next_view r \<le> cert_view_number cp
     \<and> unsigned_certificate env (vr_upgrade_lock r) cp (vsp_epoch (cert_data cp))"
  "replica_commit_cert env cc r = None \<longleftrightarrow>
     vr_next_view r \<le> cert_view_number cc
     \<and> unsigned_certificate env (vr_upgrade_lock r) cc (vsc_epoch (cert_data cc))"
  "replica_finalize_cert env cf r = None \<longleftrightarrow>
     vr_next_view r \<le> cert_view_number cf
     \<and> unsigned_certificate env (vr_upgrade_lock r) cf (vs_epoch (cert_data cf))"
proof -
  have "replica_pre_commit_cert env cp r = None \<longleftrightarrow> check_view_sync_cert env
      (ce_pre_commit_commit (te_collect env)) em_failure_threshold cp (vsp_epoch (cert_data cp)) r = None"
    by (auto simp: replica_pre_commit_cert_def Let_def split: option.splits CertCheck.splits)
  then show "replica_pre_commit_cert env cp r = None \<longleftrightarrow> vr_next_view r \<le> cert_view_number cp
     \<and> unsigned_certificate env (vr_upgrade_lock r) cp (vsp_epoch (cert_data cp))"
    by (simp add: check_view_sync_cert_panics)
next
  have "replica_commit_cert env cc r = None \<longleftrightarrow> check_view_sync_cert env
      (ce_commit_commit (te_collect env)) em_success_threshold cc (vsc_epoch (cert_data cc)) r = None"
    by (auto simp: replica_commit_cert_def Let_def split: option.splits CertCheck.splits)
  then show "replica_commit_cert env cc r = None \<longleftrightarrow> vr_next_view r \<le> cert_view_number cc
     \<and> unsigned_certificate env (vr_upgrade_lock r) cc (vsc_epoch (cert_data cc))"
    by (simp add: check_view_sync_cert_panics)
next
  have "replica_finalize_cert env cf r = None \<longleftrightarrow> check_view_sync_cert env
      (ce_finalize_commit (te_collect env)) em_success_threshold cf (vs_epoch (cert_data cf)) r = None"
    by (auto simp: replica_finalize_cert_def Let_def split: option.splits CertCheck.splits)
  then show "replica_finalize_cert env cf r = None \<longleftrightarrow> vr_next_view r \<le> cert_view_number cf
     \<and> unsigned_certificate env (vr_upgrade_lock r) cf (vs_epoch (cert_data cf))"
    by (simp add: check_view_sync_cert_panics)
qed

lemma replica_other_no_panic:
  "replica_trigger env view r \<noteq> None"
  "replica_timeout env view relay phase r = None \<longleftrightarrow>
     view = vr_next_view r \<and> relay = vr_relay r \<and> phase = PhaseFinalize"
  by (auto simp: replica_trigger_def replica_timeout_def Let_def split: option.splits)

definition replica_for :: "('k, 'g) ViewSyncTaskState \<Rightarrow> u64 \<Rightarrow> u64 option \<Rightarrow> ('k, 'g) ViewSyncReplicaTaskState" where
  "replica_for self view epoch =
     (case vs_replica_task_map self (view, epoch) of Some r \<Rightarrow> r | None \<Rightarrow> new_replica view self)"

lemma replica_for_ok:
  assumes "view_sync_ok env self"
  shows "vr_next_view (replica_for self view epoch) = view"
    "vr_upgrade_lock (replica_for self view epoch) = vs_upgrade_lock self"
  using assms by (auto simp: replica_for_def view_sync_ok_def new_replica_def split: option.splits)

lemma send_panics:
  "send_to_or_create_replica env event view epoch self = None \<longleftrightarrow>
     vs_cur_view self \<le> view \<and> replica_handle env event (replica_for self view epoch) = None"
  by (auto simp: send_to_or_create_replica_def replica_for_def not_less split: option.splits if_splits)

lemma vs_timeout_no_panic: "vs_timeout env view self \<noteq> None"
proof -
  have "send_to_or_create_replica env (ViewSyncTrigger v) w e s \<noteq> None" for v w e s
    by (simp add: send_panics replica_handle_def replica_other_no_panic)
  then have "\<exists>a b. send_to_or_create_replica env (ViewSyncTrigger v) w e s = Some (a, b)" for v w e s
    by (metis not_None_eq surj_pair)
  then show ?thesis by (auto simp: vs_timeout_def Let_def split: option.splits)
qed


section \<open>Timers\<close>

text \<open>
  C40: a timer is handed to the replica of the current epoch of the task, not to the one that started
  it. When the epochs differ, the replica that started it keeps its relay and its state for good, as
  far as timers go: it never moves on to the next relay.
\<close>

theorem timer_misses_replica_of_other_epoch:
  assumes "vs_replica_task_map self (view, epoch) = Some replica" "epoch \<noteq> vs_cur_epoch self"
    and "view_sync_handle env (ViewSyncTimeout view relay phase) self = Some (self', effects, r)"
  shows "vs_replica_task_map self' (view, epoch) = Some replica
    \<and> (relay \<noteq> vr_relay (replica_for self view (vs_cur_epoch self)) \<longrightarrow> effects = [])"
  using assms
  by (auto simp: view_sync_handle_def vs_send_def send_to_or_create_replica_def replica_for_def
      replica_handle_def replica_timeout_def split: option.splits if_splits)

section \<open>A concrete task\<close>

definition demo_task_env :: "(nat, nat) TaskEnv" where
  "demo_task_env = \<lparr>te_collect = demo_collect_env, te_multi_sig_verify = sum_multi_verify,
     te_sign = (\<lambda>c. Some 1)\<rparr>"

definition demo_task :: "(nat, nat) ViewSyncTaskState" where
  "demo_task = \<lparr>vs_cur_view = 5, vs_next_view = 5, vs_cur_epoch = Some 1, vs_public_key = 1, vs_id = 0,
     vs_num_timeouts_tracked = 0, vs_replica_task_map = Map.empty, vs_pre_commit_relay_map = Map.empty,
     vs_commit_relay_map = Map.empty, vs_finalize_relay_map = Map.empty, vs_view_sync_timeout = 1000,
     vs_last_garbage_collected_view = 0, vs_upgrade_lock = sample_lock, vs_first_epoch = None\<rparr>"

definition demo_commit_cert :: "nat Qc option \<Rightarrow> nat ViewSyncCommitCertificate2" where
  "demo_commit_cert sigs = \<lparr>cert_data = \<lparr>vsc_relay = 0, vsc_round = 7, vsc_epoch = Some 1\<rparr>,
     cert_vote_commitment = 7, cert_view_number = 7, cert_signatures = sigs\<rparr>"

definition demo_events :: "(nat, nat) HotShotEvent list" where
  "demo_events = [Timeout 5 (Some 1), Timeout 6 (Some 1), ViewSyncTimeout 7 0 PhaseNone,
     ViewSyncCommitCertificateRecv (demo_commit_cert (Some (6, [True, True, True, False])))]"

lemma demo_task_fresh: "fresh_task demo_task"
  by (simp add: fresh_task_def demo_task_def)

lemma demo_scheme_ok: "scheme_ok demo_task_env"
  by (simp add: scheme_ok_def demo_task_env_def demo_collect_env_def sum_scheme_complete)

lemma demo_memberships_ok: "memberships_ok demo_task_env"
  by (auto simp: memberships_ok_def demo_task_env_def demo_collect_env_def cert_membership_ok_def
      quorum_cert_membership_def demo_committee_def Let_def split: if_splits)

definition demo_broadcasts where
  "demo_broadcasts effects = map (\<lambda>e. case e of Broadcast (ViewChange v ep) \<Rightarrow> Some v | _ \<Rightarrow> None) effects"

lemma demo_view_sync_run:
  "map_option (\<lambda>(st, log). map (\<lambda>(_, _, effects). demo_broadcasts effects) log)
     (view_sync_run demo_task_env demo_events demo_task)
   = Some [[Some 6], [None, None], [None, None, None], [None, Some 7, None, None]]"
  by code_simp

theorem view_sync_messages_justified_witness:
  "\<exists>self' log state event effects e. view_sync_run demo_task_env demo_events demo_task = Some (self', log)
     \<and> length log = 4 \<and> (state, event, effects) \<in> set log \<and> e \<in> set effects
     \<and> task_justified demo_task_env state event e"
proof -
  from demo_view_sync_run obtain self' log where run: "view_sync_run demo_task_env demo_events demo_task = Some (self', log)"
    "map (\<lambda>(_, _, effects). demo_broadcasts effects) log =
       [[Some 6], [None, None], [None, None, None], [None, Some 7, None, None]]"
    by (auto split: option.splits)
  have "length log = 4" using arg_cong [OF run(2), of length] by simp
  moreover obtain state event effects e where "(state, event, effects) \<in> set log" "e \<in> set effects"
    using run(2) by (fastforce simp: Cons_eq_map_conv demo_broadcasts_def)
  moreover have "list_all timeout_in_range demo_events"
    by (simp add: demo_events_def timeout_in_range_def)
  ultimately show ?thesis
    using view_sync_messages_justified [OF demo_scheme_ok demo_memberships_ok demo_task_fresh _ run(1)] run(1)
    by blast
qed



theorem timer_misses_replica_of_other_epoch_witness:
  "\<exists>self' effects r. view_sync_handle demo_task_env (ViewSyncTimeout 7 0 PhaseCommit)
       (demo_task\<lparr>vs_replica_task_map := [(7, Some 2) \<mapsto> new_replica 7 demo_task]\<rparr>) = Some (self', effects, r)
     \<and> vs_replica_task_map self' (7, Some 2) = Some (new_replica 7 demo_task)"
proof -
  let ?self = "demo_task\<lparr>vs_replica_task_map := [(7, Some 2) \<mapsto> new_replica 7 demo_task]\<rparr>"
  have "view_sync_handle demo_task_env (ViewSyncTimeout 7 0 PhaseCommit) ?self \<noteq> None" by code_simp
  then obtain self' effects r where run:
    "view_sync_handle demo_task_env (ViewSyncTimeout 7 0 PhaseCommit) ?self = Some (self', effects, r)"
    by fastforce
  from timer_misses_replica_of_other_epoch [OF _ _ run, of "Some 2" "new_replica 7 demo_task"]
  have "vs_replica_task_map self' (7, Some 2) = Some (new_replica 7 demo_task)" by (simp add: demo_task_def)
  with run show ?thesis by blast
qed

end
