(* ===== verification/Consensus_Task.thy ===== *)
theory Consensus_Task
  imports Proposal_Validation View_Sync
begin

text \<open>
  The consensus task (\<open>crates/hotshot/task-impls/src/consensus/mod.rs\<close> and \<open>handlers.rs\<close>): it collects
  quorum, epoch root and timeout votes as the leader of the next view, changes the view and the epoch
  of the node, sends the highest QC to the next leader, and votes for a timeout. It owns the
  collectors of \<open>Vote_Collection\<close> and changes the shared \<open>Consensus\<close> state. The coordinator, the hashes
  and the scheme are those of \<open>CollectEnv\<close>; the check of a received extended QC uses \<open>Env\<close>.
\<close>

section \<open>State\<close>

record ('k, 'g, 'h, 'st) ConsensusTaskEnv =
  cte_env :: "('k, 'g, 'h, 'st) Env"
  cte_collect :: "('k, 'g) CollectEnv"
  cte_sign :: "commitment \<Rightarrow> 'g option"

record ('k, 'g, 'h, 'st, 'dl) ConsensusTaskState =
  ct_public_key :: 'k
  ct_vote_collectors :: "('k, 'g) VoteCollectorsMap"
  ct_epoch_root_vote_collectors :: "('k, 'g) EpochRootVoteCollectorsMap"
  ct_next_epoch_vote_collectors :: "('k, 'g) VoteCollectorsMap"
  ct_timeout_vote_collectors :: "('k, 'g) VoteCollectorsMap"
  ct_cur_view :: u64
  ct_cur_epoch :: "u64 option"
  ct_timeout_task :: "u64 \<times> u64 option"
  ct_consensus :: "('k, 'g, 'h, 'st, 'dl) Consensus"
  ct_id :: u64
  ct_upgrade_lock :: "'g UpgradeLock"
  ct_epoch_height :: u64
  ct_first_epoch :: "(u64 \<times> u64) option"

text \<open>
  Effects: events to the other tasks, events to the application, and the timer of the view, which
  sends a \<open>Timeout\<close> for its view and epoch unless it is aborted.
\<close>

datatype OutputEvent = ViewFinished u64 | ViewTimeout u64 | ReplicaViewTimeout u64

datatype ('k, 'g) ConsensusEffect =
    SendEvent "('k, 'g) HotShotEvent"
  | SendOutput OutputEvent
  | SpawnTimeout u64 "u64 option"
  | AbortTimeout u64 "u64 option"

datatype ConsensusTaskError =
    CTNoStakeTable | CTNoLeader | CTNotLeader | CTCollect CollectError | CTNotEpochRoot | CTNoNextEpoch
  | CTOldVersion | CTNoNextEpochHighQc | CTNoTransitionQc | CTTransitionQcDiffers | CTNoStateCert
  | CTStateCertDiffers | CTViewNotNewer | CTUpdateView ConsensusError | CTOldTimeout | CTNoStake
  | CTSigning | CTStorage

type_synonym ('k, 'g, 'h, 'st, 'dl) CTOutcome =
  "('k, 'g, 'h, 'st, 'dl) ConsensusTaskState \<times> ('k, 'g) ConsensusEffect list
     \<times> (ConsensusTaskError, unit) result"

definition ct_membership ::
  "('k, 'g, 'h, 'st) ConsensusTaskEnv \<Rightarrow> u64 option
     \<Rightarrow> (ConsensusTaskError, ('k, u8 list) EpochMembership) result" where
  "ct_membership env epoch =
     (case ce_membership_for_epoch (cte_collect env) epoch of
        Some m \<Rightarrow> Ok m | None \<Rightarrow> Err CTNoStakeTable)"

definition ct_leader ::
  "('k, u8 list) EpochMembership \<Rightarrow> u64 \<Rightarrow> (ConsensusTaskError, 'k) result" where
  "ct_leader membership view =
     (case em_leader membership view of Some k \<Rightarrow> Ok k | None \<Rightarrow> Err CTNoLeader)"

section \<open>Votes\<close>

text \<open>
  The part of \<open>handle_quorum_vote_recv\<close> for a vote of the next epoch. \<open>next_epoch_stake_table\<close> and
  \<open>next_epoch\<close> of the membership fail when it has no epoch or the coordinator has no table.
\<close>

definition collect_next_epoch_vote ::
  "('k, 'g, 'h, 'st) ConsensusTaskEnv \<Rightarrow> ('k, 'g) QuorumVote2 \<Rightarrow> ('k, 'g) HotShotEvent
     \<Rightarrow> ('k, u8 list) EpochMembership \<Rightarrow> EpochTransitionIndicator
     \<Rightarrow> ('k, 'g, 'h, 'st, 'dl) ConsensusTaskState \<Rightarrow> ('k, 'g, 'h, 'st, 'dl) CTOutcome" where
  "collect_next_epoch_vote env vote event epoch_membership transition_indicator self =
     (case em_epoch epoch_membership of
        None \<Rightarrow> (self, [], Err CTNoNextEpoch)
      | Some e \<Rightarrow>
         (case ce_stake_table_for_epoch (cte_collect env) (Some (e + 1)) of
            None \<Rightarrow> (self, [], Err CTNoStakeTable)
          | Some next_table \<Rightarrow>
             (if \<not> em_has_stake next_table (vote_signing_key vote) then (self, [], Ok ())
              else case ct_membership env (Some (e + 1)) of
                Inl err \<Rightarrow> (self, [], Err err)
              | Inr next_membership \<Rightarrow>
                 (case handle_vote (next_epoch_quorum_vote_kind (cte_collect env)) vote
                         (ct_public_key self) next_membership (ct_id self) event
                         (ct_upgrade_lock self) transition_indicator
                         (ct_next_epoch_vote_collectors self) of
                    (collectors, events, r) \<Rightarrow>
                      (self\<lparr>ct_next_epoch_vote_collectors := collectors\<rparr>, map SendEvent events,
                       map_err CTCollect r)))))"

definition handle_quorum_vote_recv ::
  "('k, 'g, 'h, 'st) ConsensusTaskEnv \<Rightarrow> ('k, 'g) QuorumVote2 \<Rightarrow> ('k, 'g) HotShotEvent
     \<Rightarrow> ('k, 'g, 'h, 'st, 'dl) ConsensusTaskState \<Rightarrow> ('k, 'g, 'h, 'st, 'dl) CTOutcome" where
  "handle_quorum_vote_recv env vote event self =
     (let in_transition = is_high_qc_for_epoch_transition (ct_consensus self) in
      case ct_membership env (qd_epoch (vote_date vote)) of
        Inl e \<Rightarrow> (self, [], Err e)
      | Inr epoch_membership \<Rightarrow>
         (case ct_leader epoch_membership (vote_view_number vote + 1) of
            Inl e \<Rightarrow> (self, [], Err e)
          | Inr leader \<Rightarrow>
             (if \<not> (in_transition \<or> leader = ct_public_key self) then (self, [], Err CTNotLeader)
              else
               (let transition_indicator = (if in_transition then InTransition else NotInTransition) in
                case handle_vote (quorum_vote_kind (cte_collect env)) vote (ct_public_key self)
                       epoch_membership (ct_id self) event (ct_upgrade_lock self) transition_indicator
                       (ct_vote_collectors self) of
                  (collectors, events, Inl e) \<Rightarrow>
                    (self\<lparr>ct_vote_collectors := collectors\<rparr>, map SendEvent events, Err (CTCollect e))
                | (collectors, events, Inr _) \<Rightarrow>
                   (let self1 = self\<lparr>ct_vote_collectors := collectors\<rparr> in
                    if qd_epoch (vote_date vote) \<noteq> None
                       \<and> (case qd_block_number (vote_date vote) of
                            Some b \<Rightarrow> is_epoch_transition b (ct_epoch_height self) | None \<Rightarrow> False)
                    then (case collect_next_epoch_vote env vote event epoch_membership
                                 transition_indicator self1 of
                            (self2, effects, r) \<Rightarrow> (self2, map SendEvent events @ effects, r))
                    else (self1, map SendEvent events, Ok ()))))))"

definition handle_epoch_root_quorum_vote_recv ::
  "('k, 'g, 'h, 'st) ConsensusTaskEnv \<Rightarrow> ('k, 'g) EpochRootQuorumVote \<Rightarrow> ('k, 'g) HotShotEvent
     \<Rightarrow> ('k, 'g, 'h, 'st, 'dl) ConsensusTaskState \<Rightarrow> ('k, 'g, 'h, 'st, 'dl) CTOutcome" where
  "handle_epoch_root_quorum_vote_recv env vote event self =
     (if \<not> (case qd_block_number (vote_date (erv_vote vote)) of
              Some bn \<Rightarrow> is_epoch_root bn (ct_epoch_height self) | None \<Rightarrow> False)
      then (self, [], Err CTNotEpochRoot)
      else case ct_membership env (qd_epoch (vote_date (erv_vote vote))) of
        Inl e \<Rightarrow> (self, [], Err e)
      | Inr epoch_membership \<Rightarrow>
         (case ct_leader epoch_membership (vote_view_number (erv_vote vote) + 1) of
            Inl e \<Rightarrow> (self, [], Err e)
          | Inr leader \<Rightarrow>
             (if leader \<noteq> ct_public_key self then (self, [], Err CTNotLeader)
              else case handle_epoch_root_vote (cte_collect env) vote (ct_public_key self)
                     epoch_membership (ct_id self) event (ct_upgrade_lock self)
                     (ct_epoch_root_vote_collectors self) of
                (collectors, events, r) \<Rightarrow>
                  (self\<lparr>ct_epoch_root_vote_collectors := collectors\<rparr>, map SendEvent events,
                   map_err CTCollect r))))"

text \<open>The leader is looked up in the current epoch, the votes are counted in the epoch they name.\<close>

definition handle_timeout_vote_recv ::
  "('k, 'g, 'h, 'st) ConsensusTaskEnv \<Rightarrow> ('k, 'g) TimeoutVote2 \<Rightarrow> ('k, 'g) HotShotEvent
     \<Rightarrow> ('k, 'g, 'h, 'st, 'dl) ConsensusTaskState \<Rightarrow> ('k, 'g, 'h, 'st, 'dl) CTOutcome" where
  "handle_timeout_vote_recv env vote event self =
     (case ct_membership env (ct_cur_epoch self) of
        Inl e \<Rightarrow> (self, [], Err e)
      | Inr epoch_membership \<Rightarrow>
         (case ct_leader epoch_membership (vote_view_number vote + 1) of
            Inl e \<Rightarrow> (self, [], Err e)
          | Inr leader \<Rightarrow>
             (if leader \<noteq> ct_public_key self then (self, [], Err CTNotLeader)
              else case ct_membership env (td_epoch (vote_date vote)) of
                Inl e \<Rightarrow> (self, [], Err e)
              | Inr vote_membership \<Rightarrow>
                 (case handle_vote (timeout_vote_kind (cte_collect env)) vote (ct_public_key self)
                         vote_membership (ct_id self) event (ct_upgrade_lock self) NotInTransition
                         (ct_timeout_vote_collectors self) of
                    (collectors, events, r) \<Rightarrow>
                      (self\<lparr>ct_timeout_vote_collectors := collectors\<rparr>, map SendEvent events,
                       map_err CTCollect r)))))"

section \<open>Views\<close>

definition block_is :: "(u64 \<Rightarrow> u64 \<Rightarrow> bool) \<Rightarrow> 'g QuorumCertificate2 \<Rightarrow> u64 \<Rightarrow> bool" where
  "block_is P qc h = (case qd_block_number (cert_data qc) of Some b \<Rightarrow> P b h | None \<Rightarrow> False)"

definition send_high_qc ::
  "('k, 'g, 'h, 'st) ConsensusTaskEnv \<Rightarrow> u64 \<Rightarrow> ('k, 'g, 'h, 'st, 'dl) ConsensusTaskState
     \<Rightarrow> (ConsensusTaskError, ('k, 'g) HotShotEvent) result" where
  "send_high_qc env new_view_number self =
     (case lock_version (ct_upgrade_lock self) new_view_number of
        Inl _ \<Rightarrow> Err CTOldVersion
      | Inr version \<Rightarrow>
         (if \<not> version_ge version (epochs_version (lock_versions (ct_upgrade_lock self)))
          then Err CTOldVersion
          else
           (let consensus = ct_consensus self; qc = high_qc consensus; h = ct_epoch_height self;
                is_eqc = block_is is_last_block qc h;
                is_root = block_is is_epoch_root qc h;
                maybe_state_cert = (if is_root then state_cert consensus else None)
            in if is_eqc then
                 (case next_epoch_high_qc consensus of
                    None \<Rightarrow> Err CTNoNextEpochHighQc
                  | Some neqc \<Rightarrow>
                     (if leaf_commit (cert_data neqc) \<noteq> leaf_commit (cert_data qc)
                      then Err CTNoNextEpochHighQc
                      else Ok (ExtendedQcSend qc neqc (ct_public_key self))))
               else
                 try_bind (ct_membership env (ct_cur_epoch self)) (\<lambda>membership.
                 try_bind (ct_leader membership new_view_number) (\<lambda>leader.
                 try_bind
                   (if block_is is_epoch_transition qc h then
                      (case transition_qc consensus of
                         None \<Rightarrow> Err CTNoTransitionQc
                       | Some (tqc, next_epoch_qc) \<Rightarrow>
                          (if leaf_commit (cert_data next_epoch_qc) \<noteq> leaf_commit (cert_data tqc)
                           then Err CTTransitionQcDiffers else Ok (tqc, Some next_epoch_qc)))
                    else Ok (qc, None))
                   (\<lambda>(sent_qc, maybe_next_epoch_qc).
                      if is_root then
                        (case maybe_state_cert of
                           None \<Rightarrow> Err CTNoStateCert
                         | Some sc \<Rightarrow>
                            (if \<not> check_qc_state_cert_correspondence sent_qc sc h
                             then Err CTStateCertDiffers
                             else Ok (EpochRootQcSend \<lparr>erc_qc = sent_qc, erc_state_cert = sc\<rparr> leader
                                    (ct_public_key self))))
                      else Ok (HighQcSend sent_qc maybe_next_epoch_qc leader (ct_public_key self))))))))"

definition enter_epoch ::
  "u64 option \<Rightarrow> ('k, 'g, 'h, 'st, 'dl) ConsensusTaskState \<Rightarrow> ('k, 'g, 'h, 'st, 'dl) ConsensusTaskState" where
  "enter_epoch epoch_number self =
     (if epoch_less (ct_cur_epoch self) epoch_number then
        self\<lparr>ct_cur_epoch := epoch_number,
             ct_consensus := (case epoch_number of
                Some new_epoch \<Rightarrow>
                  (case update_epoch new_epoch (ct_consensus self) of
                     Inr c \<Rightarrow> c | Inl _ \<Rightarrow> ct_consensus self)
              | None \<Rightarrow> ct_consensus self)\<rparr>
      else self)"

definition handle_view_change ::
  "('k, 'g, 'h, 'st) ConsensusTaskEnv \<Rightarrow> u64 \<Rightarrow> u64 option
     \<Rightarrow> ('k, 'g, 'h, 'st, 'dl) ConsensusTaskState \<Rightarrow> ('k, 'g, 'h, 'st, 'dl) CTOutcome" where
  "handle_view_change env new_view_number epoch_number self0 =
     (let self = enter_epoch epoch_number self0 in
      if \<not> new_view_number > ct_cur_view self then (self, [], Err CTViewNotNewer)
      else
       (let old_view_number = ct_cur_view self;
            sent = (case send_high_qc env new_view_number self of
                      Inr e \<Rightarrow> [SendEvent e] | Inl _ \<Rightarrow> []);
            self1 = self\<lparr>ct_cur_view := new_view_number\<rparr>
        in case update_view new_view_number (ct_consensus self1) of
             Inl e \<Rightarrow> (self1, sent, Err (CTUpdateView e))
           | Inr c \<Rightarrow>
              (let (old_timer_view, old_timer_epoch) = ct_timeout_task self1;
                   self2 = self1\<lparr>ct_consensus := c, ct_timeout_task := (new_view_number, epoch_number)\<rparr>;
                   effects = sent @ [SpawnTimeout new_view_number epoch_number,
                                     AbortTimeout old_timer_view old_timer_epoch]
               in case try_bind (ct_membership env (ct_cur_epoch self2))
                         (\<lambda>m. ct_leader m old_view_number) of
                    Inl e \<Rightarrow> (self2, effects, Err e)
                  | Inr _ \<Rightarrow> (self2, effects @ [SendOutput (ViewFinished old_view_number)], Ok ()))))"

definition handle_timeout ::
  "('k, 'g, 'h, 'st) ConsensusTaskEnv \<Rightarrow> u64 \<Rightarrow> u64 option
     \<Rightarrow> ('k, 'g, 'h, 'st, 'dl) ConsensusTaskState \<Rightarrow> ('k, 'g, 'h, 'st, 'dl) CTOutcome" where
  "handle_timeout env view_number epoch self =
     (if \<not> ct_cur_view self \<le> view_number then (self, [], Err CTOldTimeout)
      else case ce_stake_table_for_epoch (cte_collect env) epoch of
        None \<Rightarrow> (self, [], Err CTNoStakeTable)
      | Some table \<Rightarrow>
         (if \<not> em_has_stake table (ct_public_key self) then (self, [], Err CTNoStake)
          else case create_vote (ce_timeout_commit (cte_collect env)) (cte_sign env)
                 \<lparr>td_view = view_number, td_epoch = epoch\<rparr> view_number (ct_public_key self)
                 (ct_upgrade_lock self) of
            None \<Rightarrow> (self, [], Err CTSigning)
          | Some vote \<Rightarrow>
             (self,
              [SendEvent (TimeoutVoteSend vote), SendOutput (ViewTimeout view_number),
               SendOutput (ReplicaViewTimeout view_number)],
              try_bind (ct_membership env (ct_cur_epoch self)) (\<lambda>m.
              try_bind (ct_leader m view_number) (\<lambda>_. Ok ())))))"

section \<open>The task\<close>

definition handle_extended_qc_formed ::
  "('k, 'g, 'h, 'st) ConsensusTaskEnv \<Rightarrow> 'g QuorumCertificate2
     \<Rightarrow> ('k, 'g, 'h, 'st, 'dl) ConsensusTaskState \<Rightarrow> ('k, 'g, 'h, 'st, 'dl) CTOutcome" where
  "handle_extended_qc_formed env eqc self =
     (case qd_block_number (cert_data eqc) of
        None \<Rightarrow> (self, [], Ok ())
      | Some cert_block_number \<Rightarrow>
         (let next_epoch = epoch_from_block_number cert_block_number (ct_epoch_height self) + 1
          in (self,
              [SendEvent (broadcast_view_change (cert_view_number eqc + 1) (Some next_epoch)
                 (ct_first_epoch self))],
              if ce_stake_table_for_epoch (cte_collect env) (Some next_epoch) = None
                 \<or> ce_stake_table_for_epoch (cte_collect env) (Some (next_epoch + 1)) = None
              then Err CTNoStakeTable else Ok ())))"

definition handle_extended_qc_recv ::
  "('k, 'g, 'h, 'st) ConsensusTaskEnv \<Rightarrow> 'g QuorumCertificate2 \<Rightarrow> 'g NextEpochQuorumCertificate2
     \<Rightarrow> ('k, 'g, 'h, 'st, 'dl) ConsensusTaskState \<Rightarrow> ('k, 'g, 'h, 'st, 'dl) CTOutcome" where
  "handle_extended_qc_recv env qc next_epoch_qc self =
     (if \<not> block_is is_last_block qc (ct_epoch_height self) then (self, [], Ok ())
      else case validate_qc_and_next_epoch_qc (cte_env env) qc (Some next_epoch_qc)
             (ct_upgrade_lock self) (ct_epoch_height self) of
        Inl _ \<Rightarrow> (self, [], Ok ())
      | Inr _ \<Rightarrow>
         (let r1 = update_high_qc qc (ct_consensus self);
              c1 = (case r1 of Inr c \<Rightarrow> c | Inl _ \<Rightarrow> ct_consensus self);
              r2 = update_next_epoch_high_qc next_epoch_qc c1;
              c2 = (case r2 of Inr c \<Rightarrow> c | Inl _ \<Rightarrow> c1);
              self1 = self\<lparr>ct_consensus := c2\<rparr>
          in if \<not> env_store_high_qc2 (cte_env env) qc then (self1, [], Err CTStorage)
             else if \<not> env_store_next_epoch_high_qc2 (cte_env env) next_epoch_qc
             then (self1, [], Err CTStorage)
             else (self1,
                   if is_ok r1 \<or> is_ok r2 then
                     [SendEvent (broadcast_view_change (cert_view_number qc + 1)
                        (map_option (\<lambda>x. x + 1) (qd_epoch (cert_data qc))) (ct_first_epoch self))]
                   else [], Ok ())))"

text \<open>Errors of the handlers of votes, view changes and timeouts are only logged.\<close>

definition consensus_task_handle ::
  "('k, 'g, 'h, 'st) ConsensusTaskEnv \<Rightarrow> ('k, 'g) HotShotEvent
     \<Rightarrow> ('k, 'g, 'h, 'st, 'dl) ConsensusTaskState \<Rightarrow> ('k, 'g, 'h, 'st, 'dl) CTOutcome" where
  "consensus_task_handle env event self =
     (let logged = (\<lambda>(self', effects, _). (self', effects, Ok ())) in
      case event of
        QuorumVoteRecv vote \<Rightarrow> logged (handle_quorum_vote_recv env vote event self)
      | EpochRootQuorumVoteRecv vote \<Rightarrow> logged (handle_epoch_root_quorum_vote_recv env vote event self)
      | TimeoutVoteRecv vote \<Rightarrow> logged (handle_timeout_vote_recv env vote event self)
      | SetFirstEpoch view epoch \<Rightarrow> (self\<lparr>ct_first_epoch := Some (view, epoch)\<rparr>, [], Ok ())
      | ViewChange new_view_number epoch_number \<Rightarrow>
          logged (handle_view_change env new_view_number epoch_number self)
      | Timeout view_number epoch \<Rightarrow> logged (handle_timeout env view_number epoch self)
      | ExtendedQc2Formed eqc \<Rightarrow> handle_extended_qc_formed env eqc self
      | ExtendedQcRecv qc next_epoch_qc _ \<Rightarrow> handle_extended_qc_recv env qc next_epoch_qc self
      | _ \<Rightarrow> (self, [], Ok ()))"

section \<open>Certificates\<close>

definition good_memberships :: "('k, 'g) CollectEnv \<Rightarrow> bool" where
  "good_memberships env \<longleftrightarrow>
     (\<forall>epoch m. ce_membership_for_epoch env epoch = Some m \<longrightarrow> root_membership_ok m)"

definition known_membership :: "('k, 'g) CollectEnv \<Rightarrow> ('k, u8 list) EpochMembership \<Rightarrow> bool" where
  "known_membership env m \<longleftrightarrow> (\<exists>epoch. ce_membership_for_epoch env epoch = Some m)"

definition collectors_ok ::
  "('k, 'g) CollectEnv \<Rightarrow> ('k, 'g, 'd) VoteKind \<Rightarrow> 'g UpgradeLock \<Rightarrow> 'k \<Rightarrow> ('k, 'g) VoteCollectorsMap \<Rightarrow> bool" where
  "collectors_ok env kind lock key collectors \<longleftrightarrow>
     (\<forall>view c. bt_get collectors view = Some c \<longrightarrow>
        collector_ok kind lock c \<and> vc_public_key c = key \<and> known_membership env (vc_membership c))"

lemma collectors_ok_empty [simp]: "collectors_ok env kind lock key []"
  by (simp add: collectors_ok_def)

lemma handle_vote_step:
  assumes agg: "aggregate_complete (vk_validate kind) (vk_aggregate kind) msv"
    and mem: "known_membership env membership" "cert_membership_ok (vk_cert_membership kind membership)"
    and ev: "vk_received kind event = Some vote"
    and ok: "collectors_ok env kind lock key collectors"
    and run: "handle_vote kind vote key membership id1 event lock indicator collectors = (collectors', events, r)"
  shows "collectors_ok env kind lock key collectors'
    \<and> (\<forall>e \<in> set events. \<exists>m. known_membership env m \<and> certifies kind msv lock key m vote e)"
proof -
  have st: "vote_step kind (\<lambda>_. event) key id1 lock (vote, membership, indicator) collectors
      = (collectors', events, r)"
    using run by (simp add: vote_step_def)
  let ?i = "(vote, membership, indicator)"
  let ?P = "\<lambda>c. collector_ok kind lock c \<and> vc_public_key c = key \<and> known_membership env (vc_membership c)"
  have fresh: "?P (fresh_collector key id1 lock ?i)"
    using mem accumulator_ok_empty
    by (simp add: fresh_collector_def collector_ok_def) (simp add: empty_accumulator_def)
  show ?thesis
    using st
  proof (cases rule: votes.step_cases)
    case (fed c c' r')
    have c: "?P c" using fed(1) fresh ok by (auto simp: collectors_ok_def)
    have "accumulate_vote kind vote c = (c', events, r')"
      using fed(2) ev by (simp add: handle_vote_event_def)
    from accumulate_vote_step [OF agg _ this] c
    have c': "?P c'" "\<forall>e \<in> set events. certifies kind msv lock key (vc_membership c) vote e"
      by auto
    have "?P d" if "bt_get collectors' w = Some d" for w d
      using spec [OF fed(3), of w] that ok c'(1) by (auto simp: collectors_ok_def)
    then show ?thesis using c c'(2) by (auto simp: collectors_ok_def)
  qed
qed

text \<open>The two certificates of an epoch root against one membership.\<close>

definition valid_root_certificate ::
  "('k, 'g) CollectEnv \<Rightarrow> ('k, 'g) multi_verify_fn \<Rightarrow> 'g UpgradeLock \<Rightarrow> ('k, u8 list) EpochMembership
     \<Rightarrow> 'g EpochRootQuorumCertificate \<Rightarrow> bool" where
  "valid_root_certificate env msv lock m rc \<longleftrightarrow>
     is_valid_cert msv (ce_quorum_commit env) (erc_qc rc) (stake_table_entries (em_stake_table m))
       (em_success_threshold m) lock = Ok ()
     \<and> validate_light_client_state_update_certificate (ce_verify_state_sig env) (erc_state_cert rc) m = Ok ()"

definition root_collector_ok ::
  "('k, 'g) CollectEnv \<Rightarrow> 'g UpgradeLock \<Rightarrow> ('k, 'g) EpochRootVoteCollectionTaskState \<Rightarrow> bool" where
  "root_collector_ok env lock c \<longleftrightarrow> known_membership env (er_membership c)
     \<and> (\<forall>acc. er_accumulator c = Some acc \<longrightarrow>
          accumulator_ok (ce_validate env) (stake_table_entries (em_stake_table (er_membership c))) acc
          \<and> acc_upgrade_lock acc = lock)
     \<and> (\<forall>lc. er_state_vote_accumulator c = Some lc \<longrightarrow>
          lc_ok (ce_verify_state_sig env) (em_stake_table (er_membership c)) lc)"

definition root_collectors_ok ::
  "('k, 'g) CollectEnv \<Rightarrow> 'g UpgradeLock \<Rightarrow> ('k, 'g) EpochRootVoteCollectorsMap \<Rightarrow> bool" where
  "root_collectors_ok env lock collectors \<longleftrightarrow>
     (\<forall>view c. bt_get collectors view = Some c \<longrightarrow> root_collector_ok env lock c)"

lemma root_collectors_ok_empty [simp]: "root_collectors_ok env lock []"
  by (simp add: root_collectors_ok_def)

lemma epoch_root_accumulate_step:
  assumes agg: "aggregate_complete (ce_validate env) (ce_aggregate env) msv"
    and good: "good_memberships env" and ok: "root_collector_ok env lock c"
    and run: "epoch_root_accumulate_vote env rv c = (c', events, r)"
  shows "root_collector_ok env lock c'
    \<and> (\<forall>e \<in> set events. \<exists>m rc. e = EpochRootQcFormed rc \<and> known_membership env m
         \<and> valid_root_certificate env msv lock m rc)"
proof (cases "vote_view_number (erv_vote rv) = er_view c \<and> er_accumulator c \<noteq> None
    \<and> er_state_vote_accumulator c \<noteq> None")
  case False
  then show ?thesis using run ok
    by (auto simp: epoch_root_accumulate_vote_def Let_def split: if_splits option.splits)
next
  case True
  let ?m = "er_membership c"
  have m: "known_membership env ?m" using ok by (simp add: root_collector_ok_def)
  then have rm: "root_membership_ok ?m"
    using good by (auto simp: known_membership_def good_memberships_def)
  obtain acc lc where al: "er_accumulator c = Some acc" "er_state_vote_accumulator c = Some lc"
      "accumulator_ok (ce_validate env) (stake_table_entries (em_stake_table ?m)) acc"
      "acc_upgrade_lock acc = lock" "lc_ok (ce_verify_state_sig env) (em_stake_table ?m) lc"
    using True ok by (auto simp: root_collector_ok_def)
  obtain acc' lc' cert sc where
    a: "accumulate (ce_quorum_commit env) (ce_validate env) (ce_aggregate env) (erv_vote rv)
       (quorum_cert_membership SuccessThreshold ?m) acc = (acc', Ok cert)"
    and l: "lc_accumulate (ce_verify_state_sig env) (vote_signing_key (erv_vote rv)) (erv_state_vote rv)
       ?m lc = (lc', sc)"
    and e: "\<forall>e \<in> set events. \<exists>qc state_cert. cert = Some qc \<and> sc = Some state_cert
       \<and> e = EpochRootQcFormed \<lparr>erc_qc = qc, erc_state_cert = state_cert\<rparr>"
    and c': "c' = c\<lparr>er_accumulator := (if cert \<noteq> None \<and> sc \<noteq> None then None else Some acc'),
       er_state_vote_accumulator := Some lc'\<rparr>"
    by (rule epoch_root_accumulate_vote_cases [OF rm agg al(1,2) _ al(3) run]) (use True in blast)+
  have cm: "cm_stake_table (quorum_cert_membership SuccessThreshold ?m) = em_stake_table ?m"
      "cm_threshold (quorum_cert_membership SuccessThreshold ?m) = em_success_threshold ?m"
    by (simp_all add: quorum_cert_membership_def threshold_of_def)
  note st = accumulate_step [OF root_membership_ok_cert [OF rm] agg al(3) [folded cm(1)] a, unfolded cm]
  have t: "distinct (map state_ver_key (em_stake_table ?m))"
      "\<forall>k config. em_stake ?m k = Some config \<longrightarrow> config \<in> set (em_stake_table ?m)"
    using rm by (simp_all add: root_membership_ok_def)
  note sl = lc_accumulate_step [OF t al(5) l]
  have "valid_root_certificate env msv lock ?m \<lparr>erc_qc = qc, erc_state_cert = state_cert\<rparr>"
    if "cert = Some qc" "sc = Some state_cert" for qc state_cert
    using st sl that al(4) by (force simp: valid_root_certificate_def good_outcome_def cm)
  then have "\<exists>m rc. e = EpochRootQcFormed rc \<and> known_membership env m
      \<and> valid_root_certificate env msv lock m rc" if "e \<in> set events" for e
    using bspec [OF \<open>\<forall>e \<in> set events. _\<close> that] m by blast
  moreover have "root_collector_ok env lock c'"
    using st sl m al(4) by (auto simp: c' root_collector_ok_def split: if_splits)
  ultimately show ?thesis by blast
qed

lemma handle_epoch_root_vote_step:
  assumes agg: "aggregate_complete (ce_validate env) (ce_aggregate env) msv"
    and good: "good_memberships env" and mem: "known_membership env membership"
    and ok: "root_collectors_ok env lock collectors"
    and run: "handle_epoch_root_vote env vote key membership id1 (EpochRootQuorumVoteRecv vote) lock collectors
      = (collectors', events, r)"
  shows "root_collectors_ok env lock collectors'
    \<and> (\<forall>e \<in> set events. \<exists>m rc. e = EpochRootQcFormed rc \<and> known_membership env m
         \<and> valid_root_certificate env msv lock m rc)"
proof -
  have st: "root_step env key id1 lock (vote, membership) collectors = (collectors', events, r)"
    using run by (simp add: root_step_def)
  have fresh: "root_collector_ok env lock (fresh_root_collector key id1 lock (vote, membership))"
    using mem accumulator_ok_empty
    by (simp add: fresh_root_collector_def root_collector_ok_def lc_ok_def)
       (simp add: empty_accumulator_def)
  show ?thesis
    using st
  proof (cases rule: root_votes.step_cases)
    case (fed c c' r')
    have c: "root_collector_ok env lock c" using fed(1) fresh ok by (auto simp: root_collectors_ok_def)
    have "epoch_root_accumulate_vote env vote c = (c', events, r')" using fed(2) by simp
    note s = epoch_root_accumulate_step [OF agg good c this]
    have "root_collector_ok env lock d" if "bt_get collectors' w = Some d" for w d
      using spec [OF fed(3), of w] that ok s by (auto simp: root_collectors_ok_def)
    then show ?thesis using s by (auto simp: root_collectors_ok_def)
  qed
qed

section \<open>What the task sends\<close>

definition task_scheme_ok :: "('k, 'g, 'h, 'st) ConsensusTaskEnv \<Rightarrow> bool" where
  "task_scheme_ok env \<longleftrightarrow>
     aggregate_complete (ce_validate (cte_collect env)) (ce_aggregate (cte_collect env))
       (env_multi_sig_verify (cte_env env))
     \<and> good_memberships (cte_collect env)"

definition task_collectors_ok ::
  "('k, 'g, 'h, 'st) ConsensusTaskEnv \<Rightarrow> ('k, 'g, 'h, 'st, 'dl) ConsensusTaskState \<Rightarrow> bool" where
  "task_collectors_ok env self \<longleftrightarrow>
     (let cenv = cte_collect env; lock = ct_upgrade_lock self; key = ct_public_key self in
      collectors_ok cenv (quorum_vote_kind cenv) lock key (ct_vote_collectors self)
      \<and> collectors_ok cenv (next_epoch_quorum_vote_kind cenv) lock key (ct_next_epoch_vote_collectors self)
      \<and> collectors_ok cenv (timeout_vote_kind cenv) lock key (ct_timeout_vote_collectors self)
      \<and> root_collectors_ok cenv lock (ct_epoch_root_vote_collectors self))"

text \<open>A certificate over data \<open>d\<close> of a vote, valid in a membership that the coordinator gave out.\<close>

definition certified_in ::
  "('k, 'g, 'h, 'st) ConsensusTaskEnv \<Rightarrow> 'g UpgradeLock \<Rightarrow> ('d \<Rightarrow> u64 \<Rightarrow> commitment)
     \<Rightarrow> ('k, 'g, 'd) SimpleVote \<Rightarrow> ('d, 'g) SimpleCertificate \<Rightarrow> bool" where
  "certified_in env lock vote_commit vote cert \<longleftrightarrow>
     cert_data cert = vote_date vote \<and> cert_view_number cert = vote_view_number vote
     \<and> (\<exists>m. known_membership (cte_collect env) m
          \<and> is_valid_cert (env_multi_sig_verify (cte_env env)) vote_commit cert
              (stake_table_entries (em_stake_table m)) (em_success_threshold m) lock = Ok ())"

text \<open>What justifies an event that the task sends, in the state in which it handled another one.\<close>

fun event_justified ::
  "('k, 'g, 'h, 'st) ConsensusTaskEnv \<Rightarrow> ('k, 'g, 'h, 'st, 'dl) ConsensusTaskState
     \<Rightarrow> ('k, 'g) HotShotEvent \<Rightarrow> ('k, 'g) HotShotEvent \<Rightarrow> bool" where
  "event_justified env st event (Qc2Formed (Inl qc)) =
     (\<exists>vote. event = QuorumVoteRecv vote
        \<and> certified_in env (ct_upgrade_lock st) (ce_quorum_commit (cte_collect env)) vote qc)"
| "event_justified env st event (NextEpochQc2Formed qc) =
     (\<exists>vote. event = QuorumVoteRecv vote
        \<and> certified_in env (ct_upgrade_lock st) (ce_next_epoch_commit (cte_collect env)) vote qc)"
| "event_justified env st event (Qc2Formed (Inr tc)) =
     (\<exists>vote. event = TimeoutVoteRecv vote
        \<and> certified_in env (ct_upgrade_lock st) (ce_timeout_commit (cte_collect env)) vote tc)"
| "event_justified env st event (EpochRootQcFormed rc) =
     (\<exists>vote m. event = EpochRootQuorumVoteRecv vote \<and> known_membership (cte_collect env) m
        \<and> valid_root_certificate (cte_collect env) (env_multi_sig_verify (cte_env env))
            (ct_upgrade_lock st) m rc)"
| "event_justified env st event (TimeoutVoteSend vote) =
     (\<exists>table. event = Timeout (vote_view_number vote) (td_epoch (vote_date vote))
        \<and> td_view (vote_date vote) = vote_view_number vote
        \<and> ct_cur_view st \<le> vote_view_number vote
        \<and> ce_stake_table_for_epoch (cte_collect env) (td_epoch (vote_date vote)) = Some table
        \<and> em_has_stake table (ct_public_key st))"
| "event_justified env st event (ExtendedQcSend qc next_qc key) =
     ((\<exists>view epoch. event = ViewChange view epoch \<and> ct_cur_view st < view) \<and> key = ct_public_key st
      \<and> qc = high_qc (ct_consensus st) \<and> next_epoch_high_qc (ct_consensus st) = Some next_qc
      \<and> block_is is_last_block qc (ct_epoch_height st)
      \<and> leaf_commit (cert_data next_qc) = leaf_commit (cert_data qc))"
| "event_justified env st event (HighQcSend qc None leader key) =
     ((\<exists>view epoch. event = ViewChange view epoch \<and> ct_cur_view st < view) \<and> key = ct_public_key st
      \<and> qc = high_qc (ct_consensus st)
      \<and> \<not> block_is is_last_block qc (ct_epoch_height st)
      \<and> \<not> block_is is_epoch_transition qc (ct_epoch_height st)
      \<and> \<not> block_is is_epoch_root qc (ct_epoch_height st))"
| "event_justified env st event (HighQcSend qc (Some next_qc) leader key) =
     ((\<exists>view epoch. event = ViewChange view epoch \<and> ct_cur_view st < view) \<and> key = ct_public_key st
      \<and> block_is is_epoch_transition (high_qc (ct_consensus st)) (ct_epoch_height st)
      \<and> transition_qc (ct_consensus st) = Some (qc, next_qc)
      \<and> leaf_commit (cert_data next_qc) = leaf_commit (cert_data qc))"
| "event_justified env st event (EpochRootQcSend rc leader key) =
     ((\<exists>view epoch. event = ViewChange view epoch \<and> ct_cur_view st < view) \<and> key = ct_public_key st
      \<and> state_cert (ct_consensus st) = Some (erc_state_cert rc)
      \<and> check_qc_state_cert_correspondence (erc_qc rc) (erc_state_cert rc) (ct_epoch_height st))"
| "event_justified env st event (ViewChange view epoch) =
     ((\<exists>eqc b. event = ExtendedQc2Formed eqc \<and> view = cert_view_number eqc + 1
         \<and> qd_block_number (cert_data eqc) = Some b
         \<and> epoch = broadcast_epoch view (Some (epoch_from_block_number b (ct_epoch_height st) + 1))
             (ct_first_epoch st))
      \<or> (\<exists>qc next_qc key. event = ExtendedQcRecv qc next_qc key \<and> view = cert_view_number qc + 1
         \<and> block_is is_last_block qc (ct_epoch_height st)
         \<and> validate_qc_and_next_epoch_qc (cte_env env) qc (Some next_qc) (ct_upgrade_lock st)
             (ct_epoch_height st) = Ok ()
         \<and> epoch = broadcast_epoch view (map_option (\<lambda>x. x + 1) (qd_epoch (cert_data qc)))
             (ct_first_epoch st)))"
| "event_justified env st event _ = False"

lemma collect_kind_simps [simp]:
  "vk_validate (quorum_vote_kind env) = ce_validate env"
  "vk_validate (next_epoch_quorum_vote_kind env) = ce_validate env"
  "vk_validate (timeout_vote_kind env) = ce_validate env"
  "vk_aggregate (quorum_vote_kind env) = ce_aggregate env"
  "vk_aggregate (next_epoch_quorum_vote_kind env) = ce_aggregate env"
  "vk_aggregate (timeout_vote_kind env) = ce_aggregate env"
  "vk_cert_membership (quorum_vote_kind env) = quorum_cert_membership SuccessThreshold"
  "vk_cert_membership (next_epoch_quorum_vote_kind env) = quorum_cert_membership SuccessThreshold"
  "vk_cert_membership (timeout_vote_kind env) = quorum_cert_membership SuccessThreshold"
  "vk_received (quorum_vote_kind env) (QuorumVoteRecv vote) = Some vote"
  "vk_received (next_epoch_quorum_vote_kind env) (QuorumVoteRecv vote) = Some vote"
  "vk_received (timeout_vote_kind env) (TimeoutVoteRecv tvote) = Some tvote"
  by (simp_all add: quorum_vote_kind_def next_epoch_quorum_vote_kind_def timeout_vote_kind_def)

lemma certifies_justified:
  assumes "known_membership (cte_collect env) m"
  shows "certifies (quorum_vote_kind (cte_collect env)) (env_multi_sig_verify (cte_env env))
      (ct_upgrade_lock st) key m qv e \<Longrightarrow> event_justified env st (QuorumVoteRecv qv) e"
    "certifies (next_epoch_quorum_vote_kind (cte_collect env)) (env_multi_sig_verify (cte_env env))
      (ct_upgrade_lock st) key m qv e \<Longrightarrow> event_justified env st (QuorumVoteRecv qv) e"
    "certifies (timeout_vote_kind (cte_collect env)) (env_multi_sig_verify (cte_env env))
      (ct_upgrade_lock st) key m tv e \<Longrightarrow> event_justified env st (TimeoutVoteRecv tv) e"
  using assms
  by (auto simp: certifies_def certified_in_def quorum_vote_kind_def next_epoch_quorum_vote_kind_def
      timeout_vote_kind_def quorum_cert_membership_def threshold_of_def)

definition same_task where
  "same_task self self' \<longleftrightarrow> ct_public_key self' = ct_public_key self
     \<and> ct_upgrade_lock self' = ct_upgrade_lock self \<and> ct_cur_view self' = ct_cur_view self
     \<and> ct_cur_epoch self' = ct_cur_epoch self \<and> ct_consensus self' = ct_consensus self"

lemma known_membershipI: "ct_membership env epoch = Inr m \<Longrightarrow> known_membership (cte_collect env) m"
  by (auto simp: ct_membership_def known_membership_def split: option.splits)

lemma known_cert_membership_ok:
  "task_scheme_ok env \<Longrightarrow> known_membership (cte_collect env) m \<Longrightarrow>
     cert_membership_ok (quorum_cert_membership SuccessThreshold m)"
  by (auto simp: task_scheme_ok_def known_membership_def good_memberships_def root_membership_ok_cert)

lemma collect_next_epoch_vote_step:
  assumes scheme: "task_scheme_ok env" and ok: "task_collectors_ok env self"
    and run: "collect_next_epoch_vote env vote (QuorumVoteRecv vote) m ind self = (self', effects, r)"
  shows "task_collectors_ok env self' \<and> same_task self self'
    \<and> (\<forall>x \<in> set effects. \<exists>e. x = SendEvent e \<and> event_justified env self (QuorumVoteRecv vote) e)"
proof (cases "self' = self \<and> effects = []")
  case True
  then show ?thesis using ok by (simp add: same_task_def)
next
  case False
  obtain e0 where e0: "em_epoch m = Some e0"
    using run False by (auto simp: collect_next_epoch_vote_def split: option.splits)
  obtain m' where c0: "ct_membership env (Some (e0 + 1)) = Inr m'"
    using run False e0 by (auto simp: collect_next_epoch_vote_def split: option.splits if_splits sum.splits)
  note m' = known_membershipI [OF c0]
  obtain collectors events r' where
    h: "handle_vote (next_epoch_quorum_vote_kind (cte_collect env)) vote (ct_public_key self) m'
       (ct_id self) (QuorumVoteRecv vote) (ct_upgrade_lock self) ind (ct_next_epoch_vote_collectors self)
       = (collectors, events, r')" by (metis prod_cases3)
  have s: "self' = self\<lparr>ct_next_epoch_vote_collectors := collectors\<rparr>" "effects = map SendEvent events"
    using run False e0 c0 h
    by (auto simp: collect_next_epoch_vote_def split: option.splits if_splits)
  have "collectors_ok (cte_collect env) (next_epoch_quorum_vote_kind (cte_collect env)) (ct_upgrade_lock self)
      (ct_public_key self) collectors \<and> (\<forall>e \<in> set events. \<exists>m. known_membership (cte_collect env) m
        \<and> certifies (next_epoch_quorum_vote_kind (cte_collect env)) (env_multi_sig_verify (cte_env env))
            (ct_upgrade_lock self) (ct_public_key self) m vote e)"
    by (rule handle_vote_step [OF _ m' _ _ _ h])
       (use scheme ok known_cert_membership_ok [OF scheme m'] in
         \<open>simp_all add: task_scheme_ok_def task_collectors_ok_def Let_def\<close>)
  then show ?thesis
    using ok s by (auto simp: task_collectors_ok_def same_task_def Let_def intro: certifies_justified)
qed

lemma handle_quorum_vote_recv_step:
  assumes scheme: "task_scheme_ok env" and ok: "task_collectors_ok env self"
    and run: "handle_quorum_vote_recv env vote (QuorumVoteRecv vote) self = (self', effects, r)"
  shows "task_collectors_ok env self' \<and> same_task self self'
    \<and> (\<forall>x \<in> set effects. \<exists>e. x = SendEvent e \<and> event_justified env self (QuorumVoteRecv vote) e)"
proof (cases "self' = self \<and> effects = []")
  case True
  then show ?thesis using ok by (simp add: same_task_def)
next
  case False
  let ?ind = "if is_high_qc_for_epoch_transition (ct_consensus self) then InTransition else NotInTransition"
  obtain m where m: "ct_membership env (qd_epoch (vote_date vote)) = Inr m"
    using run False by (auto simp: handle_quorum_vote_recv_def Let_def split: sum.splits)
  obtain collectors events r' where
    h: "handle_vote (quorum_vote_kind (cte_collect env)) vote (ct_public_key self) m
       (ct_id self) (QuorumVoteRecv vote) (ct_upgrade_lock self) ?ind (ct_vote_collectors self)
       = (collectors, events, r')" by (metis prod_cases3)
  let ?self1 = "self\<lparr>ct_vote_collectors := collectors\<rparr>"
  have c: "collectors_ok (cte_collect env) (quorum_vote_kind (cte_collect env)) (ct_upgrade_lock self)
      (ct_public_key self) collectors \<and> (\<forall>e \<in> set events. \<exists>m. known_membership (cte_collect env) m
        \<and> certifies (quorum_vote_kind (cte_collect env)) (env_multi_sig_verify (cte_env env))
            (ct_upgrade_lock self) (ct_public_key self) m vote e)"
    by (rule handle_vote_step [OF _ known_membershipI [OF m] _ _ _ h])
       (use scheme ok known_cert_membership_ok [OF scheme known_membershipI [OF m]] in
         \<open>simp_all add: task_scheme_ok_def task_collectors_ok_def Let_def\<close>)
  have ok1: "task_collectors_ok env ?self1" using ok c by (simp add: task_collectors_ok_def Let_def)
  have ev: "\<forall>x \<in> set (map SendEvent events). \<exists>e. x = SendEvent e \<and> event_justified env self (QuorumVoteRecv vote) e"
    using c by (auto intro: certifies_justified)
  have js: "event_justified env ?self1 (QuorumVoteRecv vote) e \<Longrightarrow> event_justified env self (QuorumVoteRecv vote) e" for e
    by (cases "(env, ?self1, QuorumVoteRecv vote, e)" rule: event_justified.cases) auto
  consider (one) "self' = ?self1" "effects = map SendEvent events"
    | (two) effects2 r2 where "collect_next_epoch_vote env vote (QuorumVoteRecv vote) m ?ind ?self1
          = (self', effects2, r2)" "effects = map SendEvent events @ effects2"
    using run False m h
    by (auto simp: handle_quorum_vote_recv_def Let_def split: sum.splits if_splits prod.splits option.splits)
  then show ?thesis
  proof cases
    case one
    then show ?thesis using ok1 ev by (simp add: same_task_def)
  next
    case two
    from collect_next_epoch_vote_step [OF scheme ok1 two(1)] ev js two(2)
    show ?thesis by (fastforce simp: same_task_def)
  qed
qed

lemma handle_epoch_root_quorum_vote_recv_step:
  assumes scheme: "task_scheme_ok env" and ok: "task_collectors_ok env self"
    and run: "handle_epoch_root_quorum_vote_recv env vote (EpochRootQuorumVoteRecv vote) self = (self', effects, r)"
  shows "task_collectors_ok env self' \<and> same_task self self'
    \<and> (\<forall>x \<in> set effects. \<exists>e. x = SendEvent e \<and> event_justified env self (EpochRootQuorumVoteRecv vote) e)"
proof (cases "self' = self \<and> effects = []")
  case True
  then show ?thesis using ok by (simp add: same_task_def)
next
  case False
  obtain m where m: "ct_membership env (qd_epoch (vote_date (erv_vote vote))) = Inr m"
    using run False by (auto simp: handle_epoch_root_quorum_vote_recv_def split: if_splits sum.splits)
  obtain collectors events r' where
    h: "handle_epoch_root_vote (cte_collect env) vote (ct_public_key self) m (ct_id self)
       (EpochRootQuorumVoteRecv vote) (ct_upgrade_lock self) (ct_epoch_root_vote_collectors self)
       = (collectors, events, r')" by (metis prod_cases3)
  have s: "self' = self\<lparr>ct_epoch_root_vote_collectors := collectors\<rparr>" "effects = map SendEvent events"
    using run False m h
    by (auto simp: handle_epoch_root_quorum_vote_recv_def split: if_splits sum.splits)
  have "root_collectors_ok (cte_collect env) (ct_upgrade_lock self) collectors \<and> (\<forall>e \<in> set events.
      \<exists>m rc. e = EpochRootQcFormed rc \<and> known_membership (cte_collect env) m
        \<and> valid_root_certificate (cte_collect env) (env_multi_sig_verify (cte_env env)) (ct_upgrade_lock self) m rc)"
    by (rule handle_epoch_root_vote_step [OF _ _ known_membershipI [OF m] _ h])
       (use scheme ok in \<open>simp_all add: task_scheme_ok_def task_collectors_ok_def Let_def\<close>)
  then show ?thesis
    using ok s by (fastforce simp: task_collectors_ok_def same_task_def Let_def)
qed

lemma handle_timeout_vote_recv_step:
  assumes scheme: "task_scheme_ok env" and ok: "task_collectors_ok env self"
    and run: "handle_timeout_vote_recv env vote (TimeoutVoteRecv vote) self = (self', effects, r)"
  shows "task_collectors_ok env self' \<and> same_task self self'
    \<and> (\<forall>x \<in> set effects. \<exists>e. x = SendEvent e \<and> event_justified env self (TimeoutVoteRecv vote) e)"
proof (cases "self' = self \<and> effects = []")
  case True
  then show ?thesis using ok by (simp add: same_task_def)
next
  case False
  obtain m where m: "ct_membership env (td_epoch (vote_date vote)) = Inr m"
    using run False by (auto simp: handle_timeout_vote_recv_def split: if_splits sum.splits)
  obtain collectors events r' where
    h: "handle_vote (timeout_vote_kind (cte_collect env)) vote (ct_public_key self) m
       (ct_id self) (TimeoutVoteRecv vote) (ct_upgrade_lock self) NotInTransition (ct_timeout_vote_collectors self)
       = (collectors, events, r')" by (metis prod_cases3)
  have s: "self' = self\<lparr>ct_timeout_vote_collectors := collectors\<rparr>" "effects = map SendEvent events"
    using run False m h by (auto simp: handle_timeout_vote_recv_def split: if_splits sum.splits)
  have "collectors_ok (cte_collect env) (timeout_vote_kind (cte_collect env)) (ct_upgrade_lock self)
      (ct_public_key self) collectors \<and> (\<forall>e \<in> set events. \<exists>m. known_membership (cte_collect env) m
        \<and> certifies (timeout_vote_kind (cte_collect env)) (env_multi_sig_verify (cte_env env))
            (ct_upgrade_lock self) (ct_public_key self) m vote e)"
    by (rule handle_vote_step [OF _ known_membershipI [OF m] _ _ _ h])
       (use scheme ok known_cert_membership_ok [OF scheme known_membershipI [OF m]] in
         \<open>simp_all add: task_scheme_ok_def task_collectors_ok_def Let_def\<close>)
  then show ?thesis
    using ok s by (auto simp: task_collectors_ok_def same_task_def Let_def intro: certifies_justified)
qed

lemma send_high_qc_justified:
  assumes "send_high_qc env view st = Ok e" "ct_cur_view st < view"
  shows "event_justified env st (ViewChange view epoch) e"
  using assms
  by (auto simp: send_high_qc_def Let_def try_bind_Inr_iff block_is_def
      split: sum.splits if_splits option.splits)

lemma enter_epoch_same:
  "ct_public_key (enter_epoch ep self) = ct_public_key self"
  "ct_upgrade_lock (enter_epoch ep self) = ct_upgrade_lock self"
  "ct_cur_view (enter_epoch ep self) = ct_cur_view self"
  "ct_epoch_height (enter_epoch ep self) = ct_epoch_height self"
  "ct_first_epoch (enter_epoch ep self) = ct_first_epoch self"
  "high_qc (ct_consensus (enter_epoch ep self)) = high_qc (ct_consensus self)"
  "next_epoch_high_qc (ct_consensus (enter_epoch ep self)) = next_epoch_high_qc (ct_consensus self)"
  "transition_qc (ct_consensus (enter_epoch ep self)) = transition_qc (ct_consensus self)"
  "state_cert (ct_consensus (enter_epoch ep self)) = state_cert (ct_consensus self)"
  "task_collectors_ok env (enter_epoch ep self) = task_collectors_ok env self"
  by (auto simp: enter_epoch_def task_collectors_ok_def Let_def update_epoch_def
      split: option.splits sum.splits if_splits)

lemma enter_epoch_reachable: "reachable commit (ct_consensus self) (ct_consensus (enter_epoch ep self))"
  by (auto simp: enter_epoch_def split: option.splits sum.splits intro: reachable_step step_epoch)

lemma enter_epoch_justified:
  "event_justified env (enter_epoch ep self) event e = event_justified env self event e"
  by (cases "(env, self, event, e)" rule: event_justified.cases) (simp_all add: enter_epoch_same)

text \<open>What one step of the task keeps: the shared state moves by its own operations.\<close>

definition task_progress ::
  "(('g, 'h) Leaf2 \<Rightarrow> commitment) \<Rightarrow> ('k, 'g, 'h, 'st, 'dl) ConsensusTaskState
     \<Rightarrow> ('k, 'g, 'h, 'st, 'dl) ConsensusTaskState \<Rightarrow> bool" where
  "task_progress commit self self' \<longleftrightarrow>
     ct_public_key self' = ct_public_key self \<and> ct_upgrade_lock self' = ct_upgrade_lock self
     \<and> ct_cur_view self \<le> ct_cur_view self' \<and> opt_le (ct_cur_epoch self) (ct_cur_epoch self')
     \<and> reachable commit (ct_consensus self) (ct_consensus self')"

lemma task_progress_refl [simp]: "task_progress commit self self"
  by (simp add: task_progress_def)

lemma task_progress_trans:
  "task_progress commit a b \<Longrightarrow> task_progress commit b c \<Longrightarrow> task_progress commit a c"
  by (auto simp: task_progress_def intro: order.trans opt_le_trans reachable_trans)

lemma same_task_progress: "same_task self self' \<Longrightarrow> task_progress commit self self'"
  by (simp add: same_task_def task_progress_def)

lemma enter_epoch_progress: "task_progress commit self (enter_epoch ep self)"
proof -
  have "opt_le (ct_cur_epoch self) (ct_cur_epoch (enter_epoch ep self))"
    by (cases "ct_cur_epoch self"; cases ep) (auto simp: enter_epoch_def opt_le_def)
  then show ?thesis by (simp add: task_progress_def enter_epoch_same enter_epoch_reachable)
qed

definition sends_justified where
  "sends_justified env self event effects \<longleftrightarrow>
     (\<forall>e. SendEvent e \<in> set effects \<longrightarrow> event_justified env self event e)"

lemma handle_view_change_step:
  assumes ok: "task_collectors_ok env self"
    and run: "handle_view_change env view ep self = (self', effects, r)"
  shows "task_collectors_ok env self' \<and> task_progress commit self self'
    \<and> sends_justified env self (ViewChange view ep) effects"
proof (cases "ct_cur_view self < view")
  case False
  then show ?thesis using run ok
    by (auto simp: handle_view_change_def Let_def enter_epoch_same sends_justified_def
        enter_epoch_progress)
next
  case True
  let ?s = "enter_epoch ep self"
  let ?sent = "case send_high_qc env view ?s of Inr e \<Rightarrow> [SendEvent e] | Inl _ \<Rightarrow> []"
  have sent: "sends_justified env self (ViewChange view ep) ?sent"
    using send_high_qc_justified [of env view ?s _ ep] True
    by (auto simp: sends_justified_def enter_epoch_same enter_epoch_justified split: sum.splits)
  show ?thesis
  proof (cases "update_view view (ct_consensus ?s)")
    case (Inl e)
    then have "self' = ?s\<lparr>ct_cur_view := view\<rparr>" "effects = ?sent"
      using run True by (auto simp: handle_view_change_def Let_def enter_epoch_same)
    moreover have "task_progress commit ?s (?s\<lparr>ct_cur_view := view\<rparr>)"
      using True by (simp add: task_progress_def enter_epoch_same)
    ultimately show ?thesis
      using sent ok task_progress_trans [OF enter_epoch_progress]
        enter_epoch_same(10) [of env ep self]
      by (auto simp: task_collectors_ok_def Let_def)
  next
    case (Inr c)
    then obtain rest where e: "effects = ?sent @ rest" "\<forall>x. SendEvent x \<notin> set rest"
      and s: "self' = ?s\<lparr>ct_cur_view := view, ct_consensus := c, ct_timeout_task := (view, ep)\<rparr>"
      using run True
      by (auto simp: handle_view_change_def Let_def enter_epoch_same split: sum.splits prod.splits)
    have "task_progress commit ?s self'"
      using True Inr unfolding s
      by (auto simp: task_progress_def enter_epoch_same intro: reachable_step step_view)
    moreover have "task_collectors_ok env self'"
      using ok enter_epoch_same(10) [of env ep self] unfolding s by (auto simp: task_collectors_ok_def Let_def)
    ultimately show ?thesis
      using sent e task_progress_trans [OF enter_epoch_progress] by (auto simp: sends_justified_def)
  qed
qed

lemma handle_timeout_step:
  assumes "handle_timeout env view ep self = (self', effects, r)"
  shows "self' = self \<and> sends_justified env self (Timeout view ep) effects"
  using assms
  by (auto simp: handle_timeout_def sends_justified_def split: if_splits option.splits
      dest!: create_vote_SomeD)

lemma handle_extended_qc_recv_step:
  assumes ok: "task_collectors_ok env self"
    and run: "handle_extended_qc_recv env qc nqc self = (self', effects, r)"
  shows "task_collectors_ok env self' \<and> task_progress commit self self'
    \<and> sends_justified env self (ExtendedQcRecv qc nqc key) effects"
proof (cases "self' = self \<and> effects = []")
  case True
  then show ?thesis using ok by (simp add: sends_justified_def)
next
  case False
  let ?c = "ct_consensus self"
  let ?c1 = "case update_high_qc qc ?c of Inr c \<Rightarrow> c | Inl _ \<Rightarrow> ?c"
  let ?c2 = "case update_next_epoch_high_qc nqc ?c1 of Inr c \<Rightarrow> c | Inl _ \<Rightarrow> ?c1"
  have "reachable commit ?c ?c1" by (auto split: sum.splits intro: reachable_step step_high_qc)
  moreover have "reachable commit ?c1 ?c2"
    by (auto split: sum.splits intro: reachable_step step_next_epoch_high_qc)
  ultimately have re: "reachable commit ?c ?c2" by (rule reachable_trans)
  have s: "self' = self\<lparr>ct_consensus := ?c2\<rparr>"
    using run False by (auto simp: handle_extended_qc_recv_def Let_def split: if_splits sum.splits)
  have "sends_justified env self (ExtendedQcRecv qc nqc key) effects"
    using run False
    by (auto simp: handle_extended_qc_recv_def Let_def sends_justified_def broadcast_view_change_def
        split: if_splits sum.splits)
  then show ?thesis using ok re unfolding s
    by (simp add: task_progress_def task_collectors_ok_def Let_def)
qed

lemma consensus_task_step:
  assumes scheme: "task_scheme_ok env" and ok: "task_collectors_ok env self"
    and run: "consensus_task_handle env event self = (self', effects, r)"
  shows "task_collectors_ok env self' \<and> task_progress commit self self'
    \<and> sends_justified env self event effects"
proof (cases event)
  case (QuorumVoteRecv vote)
  then show ?thesis using run handle_quorum_vote_recv_step [OF scheme ok, of vote]
    by (fastforce simp: consensus_task_handle_def Let_def sends_justified_def same_task_progress split: prod.splits)
next
  case (EpochRootQuorumVoteRecv vote)
  then show ?thesis using run handle_epoch_root_quorum_vote_recv_step [OF scheme ok, of vote]
    by (fastforce simp: consensus_task_handle_def Let_def sends_justified_def same_task_progress split: prod.splits)
next
  case (TimeoutVoteRecv vote)
  then show ?thesis using run handle_timeout_vote_recv_step [OF scheme ok, of vote]
    by (fastforce simp: consensus_task_handle_def Let_def sends_justified_def same_task_progress split: prod.splits)
next
  case (ViewChange view ep)
  then show ?thesis using run handle_view_change_step [OF ok, of view ep]
    by (auto simp: consensus_task_handle_def Let_def split: prod.splits)
next
  case (Timeout view ep)
  then show ?thesis using run handle_timeout_step [of env view ep self] ok
    by (auto simp: consensus_task_handle_def Let_def split: prod.splits)
next
  case (ExtendedQc2Formed eqc)
  then show ?thesis using run ok
    by (auto simp: consensus_task_handle_def Let_def handle_extended_qc_formed_def sends_justified_def
        broadcast_view_change_def split: option.splits)
next
  case (ExtendedQcRecv qc nqc key)
  then show ?thesis using run handle_extended_qc_recv_step [OF ok, of qc nqc self' effects r]
    by (auto simp: consensus_task_handle_def Let_def)
next
  case (SetFirstEpoch view ep)
  then show ?thesis using run ok
    by (auto simp: consensus_task_handle_def Let_def sends_justified_def task_progress_def
        task_collectors_ok_def)
qed (use run ok in \<open>auto simp: consensus_task_handle_def Let_def sends_justified_def\<close>)

section \<open>Runs of the task\<close>

fun consensus_task_run ::
  "('k, 'g, 'h, 'st) ConsensusTaskEnv \<Rightarrow> ('k, 'g) HotShotEvent list
     \<Rightarrow> ('k, 'g, 'h, 'st, 'dl) ConsensusTaskState
     \<Rightarrow> ('k, 'g, 'h, 'st, 'dl) ConsensusTaskState
          \<times> (('k, 'g, 'h, 'st, 'dl) ConsensusTaskState \<times> ('k, 'g) HotShotEvent
               \<times> ('k, 'g) ConsensusEffect list) list" where
  "consensus_task_run env [] self = (self, [])"
| "consensus_task_run env (event # events) self =
     (case consensus_task_handle env event self of (self1, effects, _) \<Rightarrow>
      case consensus_task_run env events self1 of (self2, log) \<Rightarrow>
        (self2, (self, event, effects) # log))"

definition fresh_consensus_task :: "('k, 'g, 'h, 'st, 'dl) ConsensusTaskState \<Rightarrow> bool" where
  "fresh_consensus_task self \<longleftrightarrow> ct_vote_collectors self = [] \<and> ct_next_epoch_vote_collectors self = []
     \<and> ct_timeout_vote_collectors self = [] \<and> ct_epoch_root_vote_collectors self = []"

lemma fresh_consensus_task_ok: "fresh_consensus_task self \<Longrightarrow> task_collectors_ok env self"
  by (simp add: fresh_consensus_task_def task_collectors_ok_def Let_def)

lemma consensus_task_run_invariant:
  assumes scheme: "task_scheme_ok env"
  shows "task_collectors_ok env self \<Longrightarrow> consensus_task_run env events self = (self', log) \<Longrightarrow>
    task_progress commit self self' \<and> (\<forall>(st, event, effects) \<in> set log.
      task_progress commit self st \<and> task_progress commit st self' \<and> sends_justified env st event effects)"
proof (induction events arbitrary: self log)
  case Nil
  then show ?case by simp
next
  case (Cons event events)
  obtain self1 effects r where h: "consensus_task_handle env event self = (self1, effects, r)"
    by (metis prod_cases3)
  obtain log1 where run: "consensus_task_run env events self1 = (self', log1)"
      "log = (self, event, effects) # log1"
    using Cons.prems(2) h by (auto split: prod.splits)
  note step = consensus_task_step [OF scheme Cons.prems(1) h, of commit]
  then have p: "task_progress commit self self1" by blast
  have IH: "task_progress commit self1 self' \<and> (\<forall>(st, event, effects) \<in> set log1.
      task_progress commit self1 st \<and> task_progress commit st self' \<and> sends_justified env st event effects)"
    using Cons.IH [OF _ run(1)] step by blast
  show ?case
    using IH step task_progress_trans [OF p] run(2) by fastforce
qed

text \<open>
  C12: whatever events the consensus task handles, in whatever order, every event it sends is backed
  by what it handled and by its state: a QC, next epoch QC, timeout certificate or pair of epoch root
  certificates is over the data of the vote just received and valid in a membership the coordinator
  gave out; a timeout vote is for the view and epoch that timed out, not for a past view, and the node
  has stake in it; the high QC goes to the next leader only on entering a later view, in the form its
  block requires: the last block of an epoch with the matching QC of the next epoch, a block of the
  transition as the matching transition QCs, an epoch root with the state certificate of its view, any
  other block alone; and a view change follows an extended QC that was formed or validated.
\<close>

theorem consensus_task_messages_justified:
  assumes "task_scheme_ok env" "fresh_consensus_task self"
    and "consensus_task_run env events self = (self', log)"
    and "(state, event, effects) \<in> set log" "SendEvent e \<in> set effects"
  shows "event_justified env state event e"
  using consensus_task_run_invariant [OF assms(1) fresh_consensus_task_ok [OF assms(2)] assms(3)] assms(4,5)
  by (fastforce simp: sends_justified_def)

text \<open>
  C22: the consensus task implements the shared consensus state: every run of it changes that state by
  a sequence of its own operations only, so what holds of all traces of the state holds here, and the
  view and the epoch of the task never go back.
\<close>

theorem consensus_task_implements_consensus_steps:
  assumes "task_scheme_ok env" "fresh_consensus_task self"
    and "consensus_task_run env events self = (self', log)"
  shows "(\<exists>n. consensus_trace commit (ct_consensus self) (replicate n Internal) (ct_consensus self'))
    \<and> ct_cur_view self \<le> ct_cur_view self' \<and> opt_le (ct_cur_epoch self) (ct_cur_epoch self')"
  using consensus_task_run_invariant [OF assms(1) fresh_consensus_task_ok [OF assms(2)] assms(3), of commit]
  by (simp add: task_progress_def reachable_def)

section \<open>A concrete run\<close>

definition demo_consensus_env :: "(nat, nat, unit, nat) ConsensusTaskEnv" where
  "demo_consensus_env = \<lparr>cte_env = demo_env, cte_collect = demo_collect_env, cte_sign = (\<lambda>c. Some 1)\<rparr>"

definition demo_consensus_task :: "(nat, nat, unit, nat, nat) ConsensusTaskState" where
  "demo_consensus_task =
     \<lparr>ct_public_key = 1, ct_vote_collectors = [], ct_epoch_root_vote_collectors = [],
      ct_next_epoch_vote_collectors = [], ct_timeout_vote_collectors = [], ct_cur_view = 5,
      ct_cur_epoch = None, ct_timeout_task = (5, None), ct_consensus = sample_state2, ct_id = 0,
      ct_upgrade_lock = sample_lock, ct_epoch_height = 100, ct_first_epoch = None\<rparr>"

definition demo_consensus_events :: "(nat, nat) HotShotEvent list" where
  "demo_consensus_events = map (\<lambda>k. QuorumVoteRecv (demo_quorum_vote k k)) [1, 2, 1, 4]
     @ [ViewChange 6 (Some 1), Timeout 6 (Some 1), ViewChange 3 (Some 2)]"

definition demo_consensus_run where
  "demo_consensus_run = consensus_task_run demo_consensus_env demo_consensus_events demo_consensus_task"

lemma demo_consensus_run_effects:
  "map (\<lambda>(_, _, effects). length effects) (snd demo_consensus_run) = [0, 0, 0, 1, 3, 3, 0]
   \<and> ct_cur_view (fst demo_consensus_run) = 6 \<and> ct_cur_epoch (fst demo_consensus_run) = Some 2"
  by code_simp

lemma demo_committee_root_ok: "root_membership_ok (demo_committee [1, 2, 3, 4] e)"
proof -
  have "em_stake (demo_committee [1, 2, 3, 4] e) k = Some p \<longleftrightarrow>
      p \<in> set (em_stake_table (demo_committee [1, 2, 3, 4] e)) \<and> stake_key (stake_table_entry p) = k" for k p
    by (auto simp: demo_committee_def Let_def split: if_splits)
  then show ?thesis unfolding root_membership_ok_def by (simp add: stake_table_entries_def)
qed

lemma demo_task_scheme_ok: "task_scheme_ok demo_consensus_env"
proof -
  have "good_memberships demo_collect_env"
    using demo_committee_root_ok by (auto simp: good_memberships_def demo_collect_env_def)
  then show ?thesis
    by (simp add: task_scheme_ok_def demo_consensus_env_def)
       (simp add: demo_collect_env_def demo_env_def sum_scheme_complete)
qed

lemma demo_consensus_task_fresh: "fresh_consensus_task demo_consensus_task"
  by (simp add: fresh_consensus_task_def demo_consensus_task_def)

lemma demo_consensus_run_eq:
  "consensus_task_run demo_consensus_env demo_consensus_events demo_consensus_task
     = (fst demo_consensus_run, snd demo_consensus_run)"
  by (simp add: demo_consensus_run_def)

lemma demo_consensus_run_sends:
  "list_ex (\<lambda>(_, _, effects). list_ex (\<lambda>e. case e of SendEvent _ \<Rightarrow> True | _ \<Rightarrow> False) effects)
     (snd demo_consensus_run)"
  by code_simp

theorem consensus_task_messages_justified_witness:
  "\<exists>state event effects e. (state, event, effects) \<in> set (snd demo_consensus_run)
     \<and> SendEvent e \<in> set effects \<and> event_justified demo_consensus_env state event e"
proof -
  from demo_consensus_run_sends obtain state event effects x where
    x: "(state, event, effects) \<in> set (snd demo_consensus_run)" "x \<in> set effects"
      "case x of SendEvent _ \<Rightarrow> True | _ \<Rightarrow> False"
    by (auto simp: list_ex_iff)
  from x(3) obtain e where "x = SendEvent e" by (cases x) auto
  with x(1,2) show ?thesis
    using consensus_task_messages_justified [OF demo_task_scheme_ok demo_consensus_task_fresh
        demo_consensus_run_eq] by blast
qed

theorem consensus_task_implements_consensus_steps_witness:
  "\<exists>n. consensus_trace sample_leaf_commit sample_state2 (replicate n Internal)
     (ct_consensus (fst demo_consensus_run))"
  using consensus_task_implements_consensus_steps [OF demo_task_scheme_ok demo_consensus_task_fresh
      demo_consensus_run_eq, of sample_leaf_commit]
  by (simp add: demo_consensus_task_def)

end
