(* ===== verification/Quorum_Proposal.thy ===== *)
theory Quorum_Proposal
  imports Quorum_Vote
begin

text \<open>
  Proposing as a leader: \<open>crates/hotshot/task-impls/src/quorum_proposal/\<close>, with \<open>parent_leaf_and_state\<close> of
  \<open>helpers.rs\<close> and the dependencies of \<open>crates/hotshot/task/src/dependency.rs\<close>. The task spawns one
  dependency task for a view that this node leads; when its dependencies complete, the handler chooses
  the QC to propose with, builds the header and sends the signed proposal. Building the header, signing and
  storage are fields of \<open>ProposeEnv\<close>; the clock and the events that arrive while the handler waits are
  \<open>Waiting\<close>. An \<open>unwrap\<close> of missing signatures is the error \<open>MissingSignaturePanic\<close>, as in
  \<open>Proposal_Validation\<close>.
\<close>

section \<open>Events and environment\<close>

text \<open>
  The events that this task reads. \<open>VidDisperseSend\<close> carries the VID dispersal, of which the task reads
  the view only; a builder commitment is a digest; \<open>Vec1\<close> of fees is its first element and the rest.
\<close>

datatype ('k, 'g, 'h, 'm, 'f) LeaderEvent =
    TaskEvent "('k, 'g) HotShotEvent"
  | SendPayloadCommitmentAndMetadata commitment commitment 'm u64 "'f \<times> 'f list"
  | VidDisperseSend u64 'k
  | ProposalPreliminarilyValidated "(('g, 'h) QuorumProposal2, 'g) Proposal"
  | QuorumProposalSend "(('g, 'h) QuorumProposal2, 'g) Proposal" 'k
  | HighQcRecv "'g QuorumCertificate2" "'g NextEpochQuorumCertificate2 option" 'k
  | EpochRootQcRecv "'g EpochRootQuorumCertificate" 'k

record ('m, 'f) CommitmentAndMetadata =
  cam_commitment :: commitment
  cam_builder_commitment :: commitment
  cam_metadata :: 'm
  cam_fees :: "'f \<times> 'f list"
  cam_block_view :: u64

record ('k, 'g, 'h, 'st, 'dl, 'm, 'f) ProposeEnv =
  pe_env :: "('k, 'g, 'h, 'st) Env"
  pe_venv :: "('k, 'g, 'h, 'st, 'dl) VoteEnv"
  pe_new_header :: "'st \<Rightarrow> ('g, 'h) Leaf2 \<Rightarrow> commitment \<Rightarrow> commitment \<Rightarrow> 'm \<Rightarrow> 'f \<Rightarrow> Version \<Rightarrow> u64
     \<Rightarrow> 'h BlockHeader option"
  pe_empty_metadata :: 'm
  pe_empty_builder_commitment :: "'m \<Rightarrow> commitment"
  pe_sign :: "commitment \<Rightarrow> 'g option"
  pe_store_root_qc :: "'g QuorumCertificate2 \<Rightarrow> StateCert \<Rightarrow> bool"

datatype ProposeError =
    EpochsNotEnabled | NoTimeLeft | FetchFailed | ParentViewMissing | ParentViewWithoutLeaf
  | ParentLeafMissing | OldPayloadView | VersionUnknown CertError | NonEmptyTransitionBlock
  | RootStateCertMissing | HeaderFailed | NoProposalMembership | NoProposalLeader
  | NextEpochJustifyMissing | WrongParent | SigningFailed
  | NotViewLeader | AlreadyProposed | TaskExists | InvalidViewSyncCert CertError | RootQcStoreFailed
  | LatestViewNotUpdated | OldNextEpochQc | NoNextEpochMembership

record ('k, 'g) ProposalDependencyHandle =
  ph_view_number :: u64
  ph_public_key :: 'k
  ph_formed_upgrade_certificate :: "'g UpgradeCertificate option"
  ph_upgrade_lock :: "'g UpgradeLock"
  ph_epoch_height :: u64

section \<open>Waiting for certificates\<close>

text \<open>
  What the handler sees of its clock and of its event stream while it waits: the events that are
  queued when it starts, the ones that arrive before the time is up, how many times the loop finds
  time left, and whether the loop ends because the clock passes the limit between its two readings.
\<close>

record ('k, 'g, 'h, 'm, 'f) Waiting =
  wt_queued :: "('k, 'g, 'h, 'm, 'f) LeaderEvent list"
  wt_arriving :: "('k, 'g, 'h, 'm, 'f) LeaderEvent list"
  wt_rounds :: nat
  wt_overrun :: bool

type_synonym 'g qc_with_certs =
  "'g QuorumCertificate2 \<times> 'g NextEpochQuorumCertificate2 option \<times> StateCert option"

definition received_qc :: "('k, 'g, 'h, 'm, 'f) LeaderEvent \<Rightarrow> 'g qc_with_certs option" where
  "received_qc event =
     (case event of
        HighQcRecv qc maybe_next_epoch_qc _ \<Rightarrow> Some (qc, maybe_next_epoch_qc, None)
      | EpochRootQcRecv root_qc _ \<Rightarrow> Some (erc_qc root_qc, None, Some (erc_state_cert root_qc))
      | _ \<Rightarrow> None)"

definition valid_state_cert :: "('k, 'g, 'h, 'st) Env \<Rightarrow> StateCert \<Rightarrow> bool" where
  "valid_state_cert env cert =
     (case env_membership_for_epoch env (Some (lcc_epoch cert)) of
        None \<Rightarrow> False
      | Some membership \<Rightarrow>
          validate_light_client_state_update_certificate (env_verify_state_sig env) cert membership
            = Ok ())"

datatype 'g QcCheck = QcRejected | QcWithoutStateCert | QcChecked "'g qc_with_certs"

definition check_received_qc ::
  "('k, 'g, 'h, 'st) Env \<Rightarrow> ('k, 'g) ProposalDependencyHandle \<Rightarrow> 'g qc_with_certs \<Rightarrow> 'g QcCheck" where
  "check_received_qc env self received =
     (case received of (qc, maybe_next_epoch_qc, maybe_state_cert) \<Rightarrow>
       (if validate_qc_and_next_epoch_qc env qc maybe_next_epoch_qc (ph_upgrade_lock self)
             (ph_epoch_height self) \<noteq> Ok () then QcRejected
        else if qc_block_is is_epoch_root qc (ph_epoch_height self) then
          (case maybe_state_cert of
             Some cert \<Rightarrow>
               (if \<not> valid_state_cert env cert
                   \<or> \<not> check_qc_state_cert_correspondence qc cert (ph_epoch_height self)
                then QcWithoutStateCert
                else QcChecked (qc, maybe_next_epoch_qc, Some cert))
           | None \<Rightarrow> QcWithoutStateCert)
        else QcChecked (qc, maybe_next_epoch_qc, None)))"

datatype 'a Poll = Pending | Ready 'a

fun wait_for_qc_event ::
  "('k, 'g, 'h, 'st) Env \<Rightarrow> ('k, 'g) ProposalDependencyHandle \<Rightarrow> ('k, 'g, 'h, 'm, 'f) LeaderEvent list
     \<Rightarrow> 'g qc_with_certs option Poll" where
  "wait_for_qc_event env self [] = Pending"
| "wait_for_qc_event env self (event # rx) =
     (case received_qc event of
        None \<Rightarrow> wait_for_qc_event env self rx
      | Some received \<Rightarrow>
         (case check_received_qc env self received of
            QcRejected \<Rightarrow> wait_for_qc_event env self rx
          | QcWithoutStateCert \<Rightarrow> Ready None
          | QcChecked certs \<Rightarrow> Ready (Some certs)))"

definition newer_qc :: "'g qc_with_certs \<Rightarrow> 'g qc_with_certs \<Rightarrow> 'g qc_with_certs" where
  "newer_qc highest received =
     (if cert_view_number (fst received) > cert_view_number (fst highest) then received else highest)"

fun drain_highest_qc ::
  "('k, 'g, 'h, 'st) Env \<Rightarrow> ('k, 'g) ProposalDependencyHandle \<Rightarrow> ('k, 'g, 'h, 'm, 'f) LeaderEvent list
     \<Rightarrow> 'g qc_with_certs \<Rightarrow> 'g qc_with_certs" where
  "drain_highest_qc env self [] highest = highest"
| "drain_highest_qc env self (event # rx) highest =
     drain_highest_qc env self rx
       (case received_qc event of
          None \<Rightarrow> highest
        | Some received \<Rightarrow>
           (case check_received_qc env self received of
              QcChecked certs \<Rightarrow> newer_qc highest certs
            | _ \<Rightarrow> highest))"

text \<open>
  The loop that follows hands a clone of its receiver to \<open>wait_for_qc_event\<close> in every round, so each
  round reads the stream from the same position.
\<close>

fun highest_qc_rounds ::
  "('k, 'g, 'h, 'st) Env \<Rightarrow> ('k, 'g) ProposalDependencyHandle \<Rightarrow> ('k, 'g, 'h, 'm, 'f) LeaderEvent list
     \<Rightarrow> bool \<Rightarrow> nat \<Rightarrow> 'g qc_with_certs \<Rightarrow> (ProposeError, 'g qc_with_certs) result" where
  "highest_qc_rounds env self rx overrun 0 highest = (if overrun then Err NoTimeLeft else Ok highest)"
| "highest_qc_rounds env self rx overrun (Suc n) highest =
     (case wait_for_qc_event env self rx of
        Pending \<Rightarrow> Ok highest
      | Ready None \<Rightarrow> highest_qc_rounds env self rx overrun n highest
      | Ready (Some certs) \<Rightarrow> highest_qc_rounds env self rx overrun n (newer_qc highest certs))"

definition stored_highest_qc ::
  "('k, 'g) ProposalDependencyHandle \<Rightarrow> ('k, 'g, 'h, 'st, 'dl) Consensus \<Rightarrow> 'g qc_with_certs" where
  "stored_highest_qc self consensus =
     (let highest_qc = high_qc consensus; h = ph_epoch_height self in
      (highest_qc,
       (if qc_block_is is_last_block highest_qc h then
          (case next_epoch_high_qc consensus of
             Some neqc \<Rightarrow> (if leaf_commit (cert_data neqc) = leaf_commit (cert_data highest_qc)
                           then Some neqc else None)
           | None \<Rightarrow> None)
        else None),
       (if qc_block_is is_epoch_root highest_qc h then state_cert consensus else None)))"

definition wait_for_highest_qc ::
  "('k, 'g, 'h, 'st) Env \<Rightarrow> ('k, 'g) ProposalDependencyHandle \<Rightarrow> ('k, 'g, 'h, 'm, 'f) Waiting
     \<Rightarrow> ('k, 'g, 'h, 'st, 'dl) Consensus \<Rightarrow> (ProposeError, 'g qc_with_certs) result" where
  "wait_for_highest_qc env self waiting consensus =
     (if \<not> epochs_enabled (ph_upgrade_lock self) (ph_view_number self) then Err EpochsNotEnabled
      else highest_qc_rounds env self (wt_arriving waiting) (wt_overrun waiting) (wt_rounds waiting)
             (drain_highest_qc env self (wt_queued waiting) (stored_highest_qc self consensus)))"

type_synonym 'g transition_qcs = "('g QuorumCertificate2 \<times> 'g NextEpochQuorumCertificate2) option"

definition transition_qc_event ::
  "('k, 'g, 'h, 'st) Env \<Rightarrow> ('k, 'g) ProposalDependencyHandle \<Rightarrow> ('k, 'g, 'h, 'm, 'f) LeaderEvent
     \<Rightarrow> 'g transition_qcs \<Rightarrow> 'g transition_qcs" where
  "transition_qc_event env self event best =
     (case event of
        HighQcRecv qc (Some next_epoch_qc) _ \<Rightarrow>
          (if qc_block_is is_transition_block qc (ph_epoch_height self)
              \<and> validate_qc_and_next_epoch_qc env qc (Some next_epoch_qc) (ph_upgrade_lock self)
                  (ph_epoch_height self) = Ok ()
              \<and> (case best of None \<Rightarrow> True | Some (tqc, _) \<Rightarrow> cert_view_number qc > cert_view_number tqc)
           then Some (qc, next_epoch_qc) else best)
      | _ \<Rightarrow> best)"

fun transition_qc_rounds ::
  "('k, 'g, 'h, 'st) Env \<Rightarrow> ('k, 'g) ProposalDependencyHandle \<Rightarrow> bool \<Rightarrow> nat
     \<Rightarrow> ('k, 'g, 'h, 'm, 'f) LeaderEvent list \<Rightarrow> 'g transition_qcs
     \<Rightarrow> (ProposeError, 'g transition_qcs) result" where
  "transition_qc_rounds env self overrun 0 rx best = (if overrun then Err NoTimeLeft else Ok best)"
| "transition_qc_rounds env self overrun (Suc n) [] best = Ok best"
| "transition_qc_rounds env self overrun (Suc n) (event # rx) best =
     transition_qc_rounds env self overrun n rx (transition_qc_event env self event best)"

definition wait_for_transition_qc ::
  "('k, 'g, 'h, 'st) Env \<Rightarrow> ('k, 'g) ProposalDependencyHandle \<Rightarrow> ('k, 'g, 'h, 'm, 'f) Waiting
     \<Rightarrow> ('k, 'g, 'h, 'st, 'dl) Consensus \<Rightarrow> (ProposeError, 'g transition_qcs) result" where
  "wait_for_transition_qc env self waiting consensus =
     (if \<not> epochs_enabled (ph_upgrade_lock self) (ph_view_number self) then Err EpochsNotEnabled
      else transition_qc_rounds env self (wt_overrun waiting) (wt_rounds waiting) (wt_arriving waiting)
             (fold (transition_qc_event env self) (wt_queued waiting) (transition_qc consensus)))"

section \<open>Publishing a proposal\<close>

definition parent_leaf_and_state ::
  "('k, 'g, 'h, 'st) Env \<Rightarrow> ('k, 'g, 'h, 'st, 'dl) VoteEnv \<Rightarrow> 'g UpgradeLock \<Rightarrow> 'g QuorumCertificate2
     \<Rightarrow> u64 \<Rightarrow> ('k, 'g, 'h, 'st, 'dl) Consensus
     \<Rightarrow> ('k, 'g, 'h, 'st, 'dl) Consensus \<times> (ProposeError, ('g, 'h) Leaf2 \<times> 'st) result" where
  "parent_leaf_and_state env venv lock parent_qc h consensus =
     (let view = cert_view_number parent_qc;
          (c, fetched) =
            (if bt_contains_key (validated_state_map consensus) view then (consensus, True)
             else (case fetch_proposal env venv parent_qc lock h consensus of
                     (c, found) \<Rightarrow> (c, found \<noteq> None)))
      in (c,
          if \<not> fetched then Err FetchFailed
          else case bt_get (validated_state_map c) view of
            None \<Rightarrow> Err ParentViewMissing
          | Some parent_view \<Rightarrow>
             (case leaf_and_state parent_view of
                None \<Rightarrow> Err ParentViewWithoutLeaf
              | Some (leaf_commitment', state) \<Rightarrow>
                 (case saved_leaves c leaf_commitment' of
                    None \<Rightarrow> Err ParentLeafMissing
                  | Some leaf \<Rightarrow> Ok (leaf, state)))))"

definition relevant_upgrade_certificate ::
  "u64 \<Rightarrow> 'g UpgradeCertificate option \<Rightarrow> 'g UpgradeCertificate option \<Rightarrow> 'g UpgradeCertificate option"
where
  "relevant_upgrade_certificate view_number parent_cert formed_cert =
     (case (case parent_cert of Some cert \<Rightarrow> Some cert | None \<Rightarrow> formed_cert) of
        Some cert \<Rightarrow> (if is_ok (upgrade_is_relevant cert view_number) then Some cert else None)
      | None \<Rightarrow> None)"

text \<open>
  The checks on the parent QC that apply once epochs are enabled: \<open>Ok False\<close> is the early return
  for a QC without a block number.
\<close>

definition check_parent_qc ::
  "('k, 'g, 'h, 'st, 'dl, 'm, 'f) ProposeEnv \<Rightarrow> ('k, 'g) ProposalDependencyHandle
     \<Rightarrow> ('m, 'f) CommitmentAndMetadata \<Rightarrow> 'g QuorumCertificate2 \<Rightarrow> StateCert option \<Rightarrow> Version
     \<Rightarrow> (ProposeError, bool) result" where
  "check_parent_qc penv self cam parent_qc maybe_state_cert version =
     (let h = ph_epoch_height self; lock = ph_upgrade_lock self;
          upgrade_view' = (case upgrade_view lock of Some v \<Rightarrow> v | None \<Rightarrow> 0)
      in if version_ge version (epochs_version (lock_versions lock))
            \<and> cert_view_number parent_qc > upgrade_view' then
           (case qd_block_number (cert_data parent_qc) of
              None \<Rightarrow> Ok False
            | Some parent_block_number \<Rightarrow>
               (if is_epoch_transition parent_block_number h \<and> \<not> is_last_block parent_block_number h
                   \<and> \<not> (cam_builder_commitment cam
                           = pe_empty_builder_commitment penv (cam_metadata cam)
                         \<and> cam_metadata cam = pe_empty_metadata penv)
                then Err NonEmptyTransitionBlock
                else if is_epoch_root parent_block_number h
                   \<and> \<not> (case maybe_state_cert of
                           Some cert \<Rightarrow> check_qc_state_cert_correspondence parent_qc cert h
                         | None \<Rightarrow> False)
                then Err RootStateCertMissing
                else Ok True))
         else Ok True)"

definition next_drb_of ::
  "('k, 'g, 'h, 'st, 'dl) Consensus \<Rightarrow> u64 \<Rightarrow> u64 option \<Rightarrow> u64 \<Rightarrow> u8 list option" where
  "next_drb_of consensus block_number epoch h =
     (if is_epoch_transition block_number h then
        (case epoch of
           Some epoch_val \<Rightarrow> bt_get (drb_results consensus) (epoch_val + 1)
         | None \<Rightarrow> None)
      else None)"

text \<open>The proposal itself, once the header is built: \<open>Ok None\<close> when the node does not lead the view.\<close>

definition sign_proposal ::
  "('k, 'g, 'h, 'st, 'dl, 'm, 'f) ProposeEnv \<Rightarrow> ('k, 'g) ProposalDependencyHandle \<Rightarrow> Version
     \<Rightarrow> 'g ViewChangeEvidence2 option \<Rightarrow> 'g UpgradeCertificate option \<Rightarrow> ('g, 'h) Leaf2
     \<Rightarrow> 'g qc_with_certs \<Rightarrow> 'h BlockHeader \<Rightarrow> ('k, 'g, 'h, 'st, 'dl) Consensus
     \<Rightarrow> (ProposeError, (('g, 'h) QuorumProposal2, 'g) Proposal option) result" where
  "sign_proposal penv self version evidence upgrade_cert parent_leaf parent header consensus =
     (case parent of (parent_qc, maybe_next_epoch_qc, maybe_state_cert) \<Rightarrow>
      let env = pe_env penv; h = ph_epoch_height self; lock = ph_upgrade_lock self;
          epoch = option_epoch_from_block_number
                    (version_ge version (epochs_version (lock_versions lock)))
                    (hdr_block_number header) h
      in case env_membership_for_epoch env epoch of
           None \<Rightarrow> Err NoProposalMembership
         | Some epoch_membership \<Rightarrow>
          (case em_leader epoch_membership (ph_view_number self) of
             None \<Rightarrow> Err NoProposalLeader
           | Some leader \<Rightarrow>
            (if leader \<noteq> ph_public_key self then Ok None
             else
              (let needs_next_epoch_qc = (epochs_enabled lock (ph_view_number self)
                     \<and> qc_block_is is_epoch_transition parent_qc h)
               in if needs_next_epoch_qc
                     \<and> \<not> (case maybe_next_epoch_qc of
                             Some neqc \<Rightarrow> leaf_commit (cert_data neqc) = leaf_commit (cert_data parent_qc)
                           | None \<Rightarrow> False)
                  then Err NextEpochJustifyMissing
                  else
                   (let proposal =
                          \<lparr>qp_block_header = header, qp_view_number = ph_view_number self,
                           qp_epoch = epoch, qp_justify_qc = parent_qc,
                           qp_next_epoch_justify_qc =
                             (if needs_next_epoch_qc then maybe_next_epoch_qc else None),
                           qp_upgrade_certificate = upgrade_cert, qp_view_change_evidence = evidence,
                           qp_next_drb_result = next_drb_of consensus (hdr_block_number header) epoch h,
                           qp_state_cert = maybe_state_cert\<rparr>;
                        proposed_leaf = from_quorum_proposal proposal
                    in if parent_commitment proposed_leaf \<noteq> env_leaf_commit env parent_leaf
                       then Err WrongParent
                       else case pe_sign penv (env_leaf_commit env proposed_leaf) of
                              None \<Rightarrow> Err SigningFailed
                            | Some signature \<Rightarrow>
                                Ok (Some \<lparr>proposal_data = proposal, proposal_signature = signature\<rparr>))))))"

definition publish_proposal ::
  "('k, 'g, 'h, 'st, 'dl, 'm, 'f) ProposeEnv \<Rightarrow> ('k, 'g) ProposalDependencyHandle
     \<Rightarrow> ('m, 'f) CommitmentAndMetadata \<Rightarrow> 'g ViewChangeEvidence2 option \<Rightarrow> 'g qc_with_certs
     \<Rightarrow> ('k, 'g, 'h, 'st, 'dl) Consensus
     \<Rightarrow> ('k, 'g, 'h, 'st, 'dl) Consensus
          \<times> (ProposeError, (('g, 'h) QuorumProposal2, 'g) Proposal option) result" where
  "publish_proposal penv self cam view_change_evidence' parent consensus =
     (let env = pe_env penv; lock = ph_upgrade_lock self; view = ph_view_number self in
      case parent_leaf_and_state env (pe_venv penv) lock (fst parent) (ph_epoch_height self) consensus of
        (c, Inl e) \<Rightarrow> (c, Err e)
      | (c, Inr (parent_leaf, state)) \<Rightarrow>
         (let upgrade_cert = relevant_upgrade_certificate view (upgrade_certificate parent_leaf)
                               (ph_formed_upgrade_certificate self);
              evidence = (case view_change_evidence' of
                            Some cert \<Rightarrow> (if is_valid_for_view cert view then Some cert else None)
                          | None \<Rightarrow> None)
          in (c,
              if cam_block_view cam \<noteq> view then Err OldPayloadView
              else case lock_version lock view of
                Inl e \<Rightarrow> Err (VersionUnknown e)
              | Inr version \<Rightarrow>
                 (case check_parent_qc penv self cam (fst parent) (snd (snd parent)) version of
                    Inl e \<Rightarrow> Err e
                  | Inr False \<Rightarrow> Ok None
                  | Inr True \<Rightarrow>
                     (case pe_new_header penv state parent_leaf (cam_commitment cam)
                             (cam_builder_commitment cam) (cam_metadata cam) (fst (cam_fees cam))
                             version view of
                        None \<Rightarrow> Err HeaderFailed
                      | Some header \<Rightarrow>
                          sign_proposal penv self version evidence upgrade_cert parent_leaf parent
                            header c)))))"

section \<open>The result of the dependencies\<close>

record ('k, 'g, 'm, 'f) ProposalDeps =
  pd_commit_and_metadata :: "('m, 'f) CommitmentAndMetadata option"
  pd_timeout_certificate :: "'g TimeoutCertificate2 option"
  pd_view_sync_finalize_cert :: "'g ViewSyncFinalizeCertificate2 option"
  pd_vid_share :: "u64 option"
  pd_parent_qc :: "'g QuorumCertificate2 option"
  pd_next_epoch_qc :: "'g NextEpochQuorumCertificate2 option"
  pd_state_cert :: "StateCert option"

definition proposal_deps_none :: "('k, 'g, 'm, 'f) ProposalDeps" where
  "proposal_deps_none =
     \<lparr>pd_commit_and_metadata = None, pd_timeout_certificate = None, pd_view_sync_finalize_cert = None,
      pd_vid_share = None, pd_parent_qc = None, pd_next_epoch_qc = None, pd_state_cert = None\<rparr>"

definition collect_proposal_dep ::
  "('k, 'g, 'h, 'm, 'f) LeaderEvent \<Rightarrow> ('k, 'g, 'm, 'f) ProposalDeps \<Rightarrow> ('k, 'g, 'm, 'f) ProposalDeps"
where
  "collect_proposal_dep event deps =
     (case event of
        SendPayloadCommitmentAndMetadata payload_commitment builder_commitment metadata view fees \<Rightarrow>
          deps\<lparr>pd_commit_and_metadata := Some \<lparr>cam_commitment = payload_commitment,
                 cam_builder_commitment = builder_commitment, cam_metadata = metadata,
                 cam_fees = fees, cam_block_view = view\<rparr>\<rparr>
      | TaskEvent (Qc2Formed (Inr timeout)) \<Rightarrow> deps\<lparr>pd_timeout_certificate := Some timeout\<rparr>
      | TaskEvent (Qc2Formed (Inl qc)) \<Rightarrow> deps\<lparr>pd_parent_qc := Some qc\<rparr>
      | TaskEvent (EpochRootQcFormed root_qc) \<Rightarrow>
          deps\<lparr>pd_parent_qc := Some (erc_qc root_qc), pd_state_cert := Some (erc_state_cert root_qc)\<rparr>
      | TaskEvent (ViewSyncFinalizeCertificateRecv cert) \<Rightarrow>
          deps\<lparr>pd_view_sync_finalize_cert := Some cert\<rparr>
      | VidDisperseSend share _ \<Rightarrow> deps\<lparr>pd_vid_share := Some share\<rparr>
      | TaskEvent (NextEpochQc2Formed qc) \<Rightarrow> deps\<lparr>pd_next_epoch_qc := Some qc\<rparr>
      | _ \<Rightarrow> deps)"

text \<open>The view change evidence and the epoch it names.\<close>

definition proposal_cert ::
  "('k, 'g, 'm, 'f) ProposalDeps \<Rightarrow> ('g ViewChangeEvidence2 \<times> u64 option) option" where
  "proposal_cert deps =
     (case pd_view_sync_finalize_cert deps of
        Some cert \<Rightarrow> Some (ViewSyncEvidence cert, vs_epoch (cert_data cert))
      | None \<Rightarrow>
         (case pd_timeout_certificate deps of
            Some cert \<Rightarrow> Some (TimeoutEvidence cert, td_epoch (cert_data cert))
          | None \<Rightarrow> None))"

text \<open>
  The QC to propose with: \<open>None\<close> when the handler logs an error and gives up. The two waits run one
  after the other, so each has its own view of the stream.
\<close>

definition choose_parent_qc ::
  "('k, 'g, 'h, 'st) Env \<Rightarrow> ('k, 'g) ProposalDependencyHandle \<Rightarrow> ('k, 'g, 'h, 'm, 'f) Waiting
     \<Rightarrow> ('k, 'g, 'h, 'm, 'f) Waiting \<Rightarrow> ('k, 'g, 'm, 'f) ProposalDeps \<Rightarrow> Version
     \<Rightarrow> ('k, 'g, 'h, 'st, 'dl) Consensus \<Rightarrow> 'g qc_with_certs option" where
  "choose_parent_qc env self waiting1 waiting2 deps version consensus =
     (let h = ph_epoch_height self;
          highest = (case wait_for_highest_qc env self waiting2 consensus of
                       Inl _ \<Rightarrow> None | Inr certs \<Rightarrow> Some certs)
      in case pd_parent_qc deps of
        Some qc \<Rightarrow>
          (if qc_block_is is_transition_block qc h
              \<and> (case pd_next_epoch_qc deps of
                   Some neqc \<Rightarrow> leaf_commit (cert_data neqc) \<noteq> leaf_commit (cert_data qc)
                 | None \<Rightarrow> True)
           then None else Some (qc, pd_next_epoch_qc deps, pd_state_cert deps))
      | None \<Rightarrow>
         (if \<not> version_ge version (epochs_version (lock_versions (ph_upgrade_lock self)))
          then Some (high_qc consensus, None, None)
          else case proposal_cert deps of
            None \<Rightarrow> highest
          | Some (_, maybe_epoch) \<Rightarrow>
             (case wait_for_transition_qc env self waiting1 consensus of
                Inr (Some (qc, next_epoch_qc')) \<Rightarrow>
                  (case maybe_epoch of
                     None \<Rightarrow> None
                   | Some epoch \<Rightarrow>
                      (if qc_block_is (\<lambda>bn h. epoch_from_block_number bn h = epoch) qc h
                       then Some (qc, Some next_epoch_qc', None) else highest))
              | _ \<Rightarrow>
                 (case highest of
                    None \<Rightarrow> None
                  | Some certs \<Rightarrow>
                     (if qc_block_is (\<lambda>bn h. is_epoch_transition bn h \<and> \<not> is_last_block bn h)
                           (fst certs) h
                      then None else Some certs)))))"

definition proposal_handle_dep_result ::
  "('k, 'g, 'h, 'st, 'dl, 'm, 'f) ProposeEnv \<Rightarrow> ('k, 'g) ProposalDependencyHandle
     \<Rightarrow> ('k, 'g, 'h, 'm, 'f) Waiting \<Rightarrow> ('k, 'g, 'h, 'm, 'f) Waiting
     \<Rightarrow> ('k, 'g, 'h, 'm, 'f) LeaderEvent list list list \<Rightarrow> ('k, 'g, 'h, 'st, 'dl) Consensus
     \<Rightarrow> ('k, 'g, 'h, 'st, 'dl) Consensus \<times> ('k, 'g, 'h, 'm, 'f) LeaderEvent list" where
  "proposal_handle_dep_result penv self waiting1 waiting2 res consensus =
     (let deps = fold collect_proposal_dep (concat (concat res)) proposal_deps_none in
      case lock_version (ph_upgrade_lock self) (ph_view_number self) of
        Inl _ \<Rightarrow> (consensus, [])
      | Inr version \<Rightarrow>
         (case choose_parent_qc (pe_env penv) self waiting1 waiting2 deps version consensus of
            None \<Rightarrow> (consensus, [])
          | Some parent \<Rightarrow>
             (case (pd_commit_and_metadata deps, pd_vid_share deps) of
                (Some cam, Some _) \<Rightarrow>
                  (case publish_proposal penv self cam (map_option fst (proposal_cert deps)) parent
                          consensus of
                     (c, Inr (Some message)) \<Rightarrow> (c, [QuorumProposalSend message (ph_public_key self)])
                   | (c, _) \<Rightarrow> (c, []))
              | _ \<Rightarrow> (consensus, []))))"

section \<open>Dependencies of a proposal\<close>

text \<open>
  \<open>dependency.rs\<close> for any type of event. An \<open>EventDependency\<close> is a predicate on events and the event it
  was completed with, if any. A dependency is modelled by the set of values with which it can
  complete on a stream: \<open>AndDependency\<close> waits for all its parts and lists their values in the order
  in which they complete, \<open>OrDependency\<close> takes the value of one of them.
\<close>

record 'e EventDep =
  dep_match_fn :: "'e \<Rightarrow> bool"
  dep_completed :: "'e option"

definition new_dep :: "('e \<Rightarrow> bool) \<Rightarrow> 'e EventDep" where
  "new_dep match_fn = \<lparr>dep_match_fn = match_fn, dep_completed = None\<rparr>"

definition mark_as_completed :: "'e \<Rightarrow> 'e EventDep \<Rightarrow> 'e EventDep" where
  "mark_as_completed event dep = dep\<lparr>dep_completed := Some event\<rparr>"

definition event_dep_completes :: "'e list \<Rightarrow> 'e EventDep \<Rightarrow> 'e \<Rightarrow> bool" where
  "event_dep_completes stream dep value \<longleftrightarrow>
     (case dep_completed dep of Some e \<Rightarrow> Some e | None \<Rightarrow> find (dep_match_fn dep) stream) = Some value"

definition and_dep :: "('a \<Rightarrow> bool) list \<Rightarrow> 'a list \<Rightarrow> bool" where
  "and_dep deps values \<longleftrightarrow>
     (\<exists>results. list_all2 (\<lambda>dep. dep) deps results \<and> mset values = mset results)"

definition or_dep :: "('a \<Rightarrow> bool) list \<Rightarrow> 'a \<Rightarrow> bool" where
  "or_dep deps value = list_ex (\<lambda>dep. dep value) deps"

datatype ProposalDependency = PayloadAndMetadata | QcDep | ViewSyncCertDep | TimeoutCertDep | PrecedingProposal | VidShareDep

definition proposal_event_view ::
  "ProposalDependency \<Rightarrow> ('k, 'g, 'h, 'm, 'f) LeaderEvent \<Rightarrow> u64 option" where
  "proposal_event_view dependency_type event =
     (case (dependency_type, event) of
        (QcDep, TaskEvent (Qc2Formed (Inl qc))) \<Rightarrow> Some (cert_view_number qc + 1)
      | (QcDep, TaskEvent (EpochRootQcFormed root_qc)) \<Rightarrow> Some (cert_view_number (erc_qc root_qc) + 1)
      | (TimeoutCertDep, TaskEvent (Qc2Formed (Inr timeout))) \<Rightarrow> Some (cert_view_number timeout + 1)
      | (ViewSyncCertDep, TaskEvent (ViewSyncFinalizeCertificateRecv view_sync_cert)) \<Rightarrow>
          Some (cert_view_number view_sync_cert)
      | (PrecedingProposal, ProposalPreliminarilyValidated proposal) \<Rightarrow>
          Some (qp_view_number (proposal_data proposal) + 1)
      | (PayloadAndMetadata, SendPayloadCommitmentAndMetadata _ _ _ view_number _) \<Rightarrow> Some view_number
      | (VidShareDep, VidDisperseSend view_number _) \<Rightarrow> Some view_number
      | _ \<Rightarrow> None)"

definition proposal_event_dependency ::
  "ProposalDependency \<Rightarrow> u64 \<Rightarrow> ('k, 'g, 'h, 'm, 'f) LeaderEvent EventDep" where
  "proposal_event_dependency dependency_type view_number =
     new_dep (\<lambda>event. proposal_event_view dependency_type event = Some view_number)"

definition outside_transition :: "'g QuorumCertificate2 \<Rightarrow> u64 \<Rightarrow> bool" where
  "outside_transition qc h =
     (case qd_block_number (cert_data qc) of None \<Rightarrow> True | Some bn \<Rightarrow> \<not> is_epoch_transition bn h)"

definition next_epoch_qc_match ::
  "u64 \<Rightarrow> u64 \<Rightarrow> ('k, 'g, 'h, 'm, 'f) LeaderEvent \<Rightarrow> bool" where
  "next_epoch_qc_match view_number h event =
     (case event of
        TaskEvent (NextEpochQc2Formed next_epoch_qc) \<Rightarrow> cert_view_number next_epoch_qc + 1 = view_number
      | TaskEvent (EpochRootQcFormed _) \<Rightarrow> True
      | TaskEvent (Qc2Formed (Inl qc)) \<Rightarrow>
          cert_view_number qc + 1 = view_number \<and> outside_transition qc h
      | _ \<Rightarrow> False)"

record ('k, 'g, 'h, 'm, 'f) ProposalDepends =
  pdp_proposal :: "('k, 'g, 'h, 'm, 'f) LeaderEvent EventDep"
  pdp_qc :: "('k, 'g, 'h, 'm, 'f) LeaderEvent EventDep"
  pdp_view_sync :: "('k, 'g, 'h, 'm, 'f) LeaderEvent EventDep"
  pdp_timeout :: "('k, 'g, 'h, 'm, 'f) LeaderEvent EventDep"
  pdp_payload :: "('k, 'g, 'h, 'm, 'f) LeaderEvent EventDep"
  pdp_vid_share :: "('k, 'g, 'h, 'm, 'f) LeaderEvent EventDep"
  pdp_next_epoch_qc :: "('k, 'g, 'h, 'm, 'f) LeaderEvent EventDep"

definition new_proposal_depends :: "u64 \<Rightarrow> u64 \<Rightarrow> ('k, 'g, 'h, 'm, 'f) ProposalDepends" where
  "new_proposal_depends view_number h =
     \<lparr>pdp_proposal = proposal_event_dependency PrecedingProposal view_number,
      pdp_qc = proposal_event_dependency QcDep view_number,
      pdp_view_sync = proposal_event_dependency ViewSyncCertDep view_number,
      pdp_timeout = proposal_event_dependency TimeoutCertDep view_number,
      pdp_payload = proposal_event_dependency PayloadAndMetadata view_number,
      pdp_vid_share = proposal_event_dependency VidShareDep view_number,
      pdp_next_epoch_qc = new_dep (next_epoch_qc_match view_number h)\<rparr>"

definition complete_proposal_depends ::
  "u64 \<Rightarrow> ('k, 'g, 'h, 'm, 'f) LeaderEvent \<Rightarrow> ('k, 'g, 'h, 'm, 'f) ProposalDepends
     \<Rightarrow> ('k, 'g, 'h, 'm, 'f) ProposalDepends" where
  "complete_proposal_depends h event deps =
     (let done = mark_as_completed event in
      case event of
        SendPayloadCommitmentAndMetadata _ _ _ _ _ \<Rightarrow> deps\<lparr>pdp_payload := done (pdp_payload deps)\<rparr>
      | ProposalPreliminarilyValidated _ \<Rightarrow> deps\<lparr>pdp_proposal := done (pdp_proposal deps)\<rparr>
      | TaskEvent (Qc2Formed (Inr _)) \<Rightarrow> deps\<lparr>pdp_timeout := done (pdp_timeout deps)\<rparr>
      | TaskEvent (Qc2Formed (Inl qc)) \<Rightarrow>
          (if outside_transition qc h then deps\<lparr>pdp_next_epoch_qc := done (pdp_next_epoch_qc deps)\<rparr>
           else deps)\<lparr>pdp_qc := done (pdp_qc deps)\<rparr>
      | TaskEvent (EpochRootQcFormed _) \<Rightarrow>
          deps\<lparr>pdp_next_epoch_qc := done (pdp_next_epoch_qc deps), pdp_qc := done (pdp_qc deps)\<rparr>
      | TaskEvent (ViewSyncFinalizeCertificateRecv _) \<Rightarrow>
          deps\<lparr>pdp_view_sync := done (pdp_view_sync deps)\<rparr>
      | VidDisperseSend _ _ \<Rightarrow> deps\<lparr>pdp_vid_share := done (pdp_vid_share deps)\<rparr>
      | TaskEvent (NextEpochQc2Formed _) \<Rightarrow>
          deps\<lparr>pdp_next_epoch_qc := done (pdp_next_epoch_qc deps)\<rparr>
      | _ \<Rightarrow> deps)"

definition proposal_dependency_chain ::
  "u64 \<Rightarrow> ('k, 'g, 'h, 'm, 'f) ProposalDepends \<Rightarrow> ('k, 'g, 'h, 'm, 'f) LeaderEvent list
     \<Rightarrow> ('k, 'g, 'h, 'm, 'f) LeaderEvent list list list \<Rightarrow> bool" where
  "proposal_dependency_chain view_number deps stream =
     (let dep = event_dep_completes stream;
          secondary =
            [and_dep [dep (pdp_timeout deps)], and_dep [dep (pdp_view_sync deps)],
             (if view_number > 1
              then and_dep [dep (pdp_qc deps), dep (pdp_proposal deps), dep (pdp_next_epoch_qc deps)]
              else and_dep [dep (pdp_qc deps)])];
          primary = [dep (pdp_payload deps), dep (pdp_vid_share deps)]
      in and_dep [or_dep [and_dep [or_dep [and_dep primary], or_dep secondary]]])"

definition create_and_complete_dependencies ::
  "u64 \<Rightarrow> u64 \<Rightarrow> ('k, 'g, 'h, 'm, 'f) LeaderEvent \<Rightarrow> ('k, 'g, 'h, 'm, 'f) LeaderEvent list
     \<Rightarrow> ('k, 'g, 'h, 'm, 'f) LeaderEvent list list list \<Rightarrow> bool" where
  "create_and_complete_dependencies view_number h event =
     proposal_dependency_chain view_number
       (complete_proposal_depends h event (new_proposal_depends view_number h))"

section \<open>The task\<close>

record ('k, 'g, 'h, 'm, 'f) ProposalTask =
  pt_event :: "('k, 'g, 'h, 'm, 'f) LeaderEvent"
  pt_handle :: "('k, 'g) ProposalDependencyHandle"

record ('k, 'g, 'h, 'm, 'f) QuorumProposalTaskState =
  latest_proposed_view :: u64
  qpt_cur_epoch :: "u64 option"
  proposal_dependencies :: "(u64, ('k, 'g, 'h, 'm, 'f) ProposalTask) btree"
  formed_quorum_certificates :: "(u64, 'g QuorumCertificate2) btree"
  formed_next_epoch_quorum_certificates :: "(u64, 'g NextEpochQuorumCertificate2) btree"
  qpt_public_key :: 'k
  formed_upgrade_certificate :: "'g UpgradeCertificate option"
  qpt_upgrade_lock :: "'g UpgradeLock"
  qpt_epoch_height :: u64
  formed_state_cert :: "(u64, StateCert) btree"

datatype ('k, 'g) ProposalTaskEffect = SpawnProposalTask u64 | SendTaskEvent "('k, 'g) HotShotEvent"

type_synonym ('k, 'g, 'h, 'm, 'f) spawn_outcome =
  "('k, 'g, 'h, 'm, 'f) QuorumProposalTaskState \<times> ('k, 'g) ProposalTaskEffect list
     \<times> (ProposeError, unit) result"

definition entitled_to_propose ::
  "('k, 'g, 'h, 'st) Env \<Rightarrow> u64 \<Rightarrow> u64 option \<Rightarrow> EpochTransitionIndicator \<Rightarrow> 'k
     \<Rightarrow> (ProposeError, bool) result" where
  "entitled_to_propose env view_number epoch_number indicator public_key =
     (case env_membership_for_epoch env epoch_number of
        None \<Rightarrow> Err NoProposalMembership
      | Some epoch_membership \<Rightarrow>
         (case em_leader epoch_membership view_number of
            None \<Rightarrow> Err NoProposalLeader
          | Some leader \<Rightarrow>
             (if leader = public_key then Ok True
              else if epoch_number \<noteq> None \<and> indicator = InTransition then
                (case em_epoch epoch_membership of
                   None \<Rightarrow> Err NoNextEpochMembership
                 | Some e \<Rightarrow>
                    (case env_membership_for_epoch env (Some (e + 1)) of
                       None \<Rightarrow> Err NoNextEpochMembership
                     | Some next_membership \<Rightarrow>
                        (case em_leader next_membership view_number of
                           None \<Rightarrow> Err NoProposalLeader
                         | Some next_leader \<Rightarrow> Ok (next_leader = public_key))))
              else Ok False)))"

definition create_proposal_task_if_new ::
  "('k, 'g, 'h, 'st) Env \<Rightarrow> u64 \<Rightarrow> u64 option \<Rightarrow> ('k, 'g, 'h, 'm, 'f) LeaderEvent
     \<Rightarrow> EpochTransitionIndicator \<Rightarrow> ('k, 'g, 'h, 'm, 'f) QuorumProposalTaskState
     \<Rightarrow> ('k, 'g, 'h, 'm, 'f) spawn_outcome" where
  "create_proposal_task_if_new env view_number epoch_number event indicator self =
     (case entitled_to_propose env view_number epoch_number indicator (qpt_public_key self) of
        Inl e \<Rightarrow> (self, [], Err e)
      | Inr may_propose \<Rightarrow>
         (if \<not> may_propose then (self, [], Err NotViewLeader)
          else if \<not> view_number > latest_proposed_view self then (self, [], Err AlreadyProposed)
          else if bt_contains_key (proposal_dependencies self) view_number
          then (self, [], Err TaskExists)
          else
            (self\<lparr>proposal_dependencies := bt_insert view_number
               \<lparr>pt_event = event,
                pt_handle = \<lparr>ph_view_number = view_number, ph_public_key = qpt_public_key self,
                  ph_formed_upgrade_certificate = formed_upgrade_certificate self,
                  ph_upgrade_lock = qpt_upgrade_lock self,
                  ph_epoch_height = qpt_epoch_height self\<rparr>\<rparr> (proposal_dependencies self)\<rparr>,
             [SpawnProposalTask view_number], Ok ())))"

definition update_latest_proposed_view ::
  "u64 \<Rightarrow> ('k, 'g, 'h, 'm, 'f) QuorumProposalTaskState
     \<Rightarrow> ('k, 'g, 'h, 'm, 'f) QuorumProposalTaskState \<times> bool" where
  "update_latest_proposed_view new_view self =
     (if latest_proposed_view self < new_view then
        (self\<lparr>proposal_dependencies :=
                filter (\<lambda>e. \<not> (latest_proposed_view self + 1 \<le> fst e \<and> fst e \<le> new_view))
                  (proposal_dependencies self),
              latest_proposed_view := new_view\<rparr>, True)
      else (self, False))"

definition cancel_tasks ::
  "u64 \<Rightarrow> ('k, 'g, 'h, 'm, 'f) QuorumProposalTaskState
     \<Rightarrow> ('k, 'g, 'h, 'm, 'f) QuorumProposalTaskState" where
  "cancel_tasks view self =
     self\<lparr>proposal_dependencies := bt_split_off view (proposal_dependencies self)\<rparr>"

definition handle_eqc_formed ::
  "u64 \<Rightarrow> commitment \<Rightarrow> u64 option \<Rightarrow> ('k, 'g, 'h, 'm, 'f) QuorumProposalTaskState
     \<Rightarrow> ('k, 'g, 'h, 'st, 'dl) Consensus
     \<Rightarrow> ('k, 'g, 'h, 'm, 'f) QuorumProposalTaskState \<times> ('k, 'g, 'h, 'st, 'dl) Consensus
          \<times> ('k, 'g) ProposalTaskEffect list" where
  "handle_eqc_formed cert_view leaf_commit' block_number task_state consensus =
     (if \<not> epochs_enabled (qpt_upgrade_lock task_state) cert_view then (task_state, consensus, [])
      else if \<not> (case block_number of Some bn \<Rightarrow> is_last_block bn (qpt_epoch_height task_state)
                  | None \<Rightarrow> False)
      then (task_state, consensus, [])
      else case bt_get (formed_quorum_certificates task_state) cert_view of
        None \<Rightarrow> (task_state, consensus, [])
      | Some current_epoch_qc \<Rightarrow>
         (if cert_view_number current_epoch_qc \<noteq> cert_view
             \<or> leaf_commit (cert_data current_epoch_qc) \<noteq> leaf_commit'
          then (task_state, consensus, [])
          else case bt_get (formed_next_epoch_quorum_certificates task_state) cert_view of
            None \<Rightarrow> (task_state, consensus, [])
          | Some next_epoch_qc \<Rightarrow>
             (if cert_view_number current_epoch_qc \<noteq> cert_view
                 \<or> cert_data current_epoch_qc \<noteq> cert_data next_epoch_qc
              then (task_state, consensus, [])
              else
               (let c1 = ignore_err consensus (update_high_qc current_epoch_qc consensus);
                    c2 = ignore_err c1 (update_next_epoch_high_qc next_epoch_qc c1)
                in (task_state\<lparr>formed_quorum_certificates :=
                        bt_split_off cert_view (formed_quorum_certificates task_state),
                      formed_next_epoch_quorum_certificates :=
                        bt_split_off cert_view (formed_next_epoch_quorum_certificates task_state)\<rparr>,
                    c2, [SendTaskEvent (ExtendedQc2Formed current_epoch_qc)])))))"

type_synonym ('k, 'g, 'h, 'st, 'dl, 'm, 'f) propose_outcome =
  "('k, 'g, 'h, 'm, 'f) QuorumProposalTaskState \<times> ('k, 'g, 'h, 'st, 'dl) Consensus
     \<times> ('k, 'g) ProposalTaskEffect list \<times> (ProposeError, unit) result"

definition spawn_in ::
  "('k, 'g, 'h, 'm, 'f) spawn_outcome \<Rightarrow> ('k, 'g, 'h, 'st, 'dl) Consensus
     \<Rightarrow> ('k, 'g) ProposalTaskEffect list \<Rightarrow> ('k, 'g, 'h, 'st, 'dl, 'm, 'f) propose_outcome" where
  "spawn_in outcome consensus effects =
     (case outcome of (self, spawned, r) \<Rightarrow> (self, consensus, effects @ spawned, r))"

definition quorum_proposal_handle ::
  "('k, 'g, 'h, 'st, 'dl, 'm, 'f) ProposeEnv \<Rightarrow> ('k, 'g, 'h, 'm, 'f) LeaderEvent
     \<Rightarrow> ('k, 'g, 'h, 'm, 'f) QuorumProposalTaskState \<Rightarrow> ('k, 'g, 'h, 'st, 'dl) Consensus
     \<Rightarrow> ('k, 'g, 'h, 'st, 'dl, 'm, 'f) propose_outcome" where
  "quorum_proposal_handle penv event self consensus =
     (let env = pe_env penv; h = qpt_epoch_height self;
          indicator = (if qc_block_is (\<lambda>bn h. is_epoch_transition bn h \<and> \<not> is_last_block bn h)
                            (high_qc consensus) h
                       then InTransition else NotInTransition);
          create = (\<lambda>view epoch self. create_proposal_task_if_new env view epoch event indicator self);
          epoch_number = qpt_cur_epoch self
      in case event of
        TaskEvent (UpgradeCertificateFormed cert) \<Rightarrow>
          (if decide_by (cert_data cert) \<ge> latest_proposed_view self + 3
           then self\<lparr>formed_upgrade_certificate := Some cert\<rparr> else self, consensus, [], Ok ())
      | TaskEvent (Qc2Formed (Inr timeout_cert)) \<Rightarrow>
          spawn_in (create (cert_view_number timeout_cert + 1) epoch_number self) consensus []
      | TaskEvent (Qc2Formed (Inl qc)) \<Rightarrow>
          (let view = cert_view_number qc;
               self1 = self\<lparr>formed_quorum_certificates :=
                         bt_insert view qc (formed_quorum_certificates self)\<rparr>
           in case handle_eqc_formed view (leaf_commit (cert_data qc)) (qd_block_number (cert_data qc))
                     self1 consensus of
                (self2, c, effects) \<Rightarrow> spawn_in (create (view + 1) epoch_number self2) c effects)
      | TaskEvent (EpochRootQcFormed root_qc) \<Rightarrow>
          (let qc = erc_qc root_qc; cert = erc_state_cert root_qc;
               self1 = self\<lparr>formed_quorum_certificates :=
                           bt_insert (cert_view_number qc) qc (formed_quorum_certificates self),
                         formed_state_cert := bt_insert (lcc_epoch cert) cert (formed_state_cert self)\<rparr>
           in if \<not> pe_store_root_qc penv qc cert then (self1, consensus, [], Err RootQcStoreFailed)
              else spawn_in (create (cert_view_number qc + 1) epoch_number self1) consensus [])
      | SendPayloadCommitmentAndMetadata _ _ _ view_number _ \<Rightarrow>
          spawn_in (create view_number epoch_number self) consensus []
      | TaskEvent (ViewSyncFinalizeCertificateRecv certificate) \<Rightarrow>
          (let epoch = vs_epoch (cert_data certificate) in
           case env_stake_table_for_epoch env epoch of
             None \<Rightarrow> (self, consensus, [], Err NoProposalMembership)
           | Some membership \<Rightarrow>
              (case is_valid_cert (env_multi_sig_verify env) (env_view_sync_commit env) certificate
                      (stake_table_entries (em_stake_table membership))
                      (em_success_threshold membership) (qpt_upgrade_lock self) of
                 Inl e \<Rightarrow> (self, consensus, [], Err (InvalidViewSyncCert e))
               | Inr _ \<Rightarrow> spawn_in (create (cert_view_number certificate) epoch self) consensus []))
      | ProposalPreliminarilyValidated proposal \<Rightarrow>
          (let view_number = qp_view_number (proposal_data proposal) in
           spawn_in (create (view_number + 1) epoch_number
                      (fst (update_latest_proposed_view view_number self))) consensus [])
      | QuorumProposalSend proposal _ \<Rightarrow>
          (case update_latest_proposed_view (qp_view_number (proposal_data proposal)) self of
             (self', updated) \<Rightarrow>
               (self', consensus, [], if updated then Ok () else Err LatestViewNotUpdated))
      | VidDisperseSend view_number _ \<Rightarrow> spawn_in (create view_number epoch_number self) consensus []
      | TaskEvent (ViewChange view epoch) \<Rightarrow>
          (let self1 = (if epoch_less (qpt_cur_epoch self) epoch
                        then self\<lparr>qpt_cur_epoch := epoch\<rparr> else self)
           in (cancel_tasks (saturating_sub view 1) self1, consensus, [], Ok ()))
      | TaskEvent (Timeout view _) \<Rightarrow>
          (cancel_tasks (saturating_sub view 1) self, consensus, [], Ok ())
      | TaskEvent (NextEpochQc2Formed next_epoch_qc') \<Rightarrow>
          (if \<not> (case next_epoch_high_qc consensus of
                   None \<Rightarrow> True
                 | Some current \<Rightarrow> cert_view_number next_epoch_qc' > cert_view_number current)
           then (self, consensus, [], Err OldNextEpochQc)
           else
            (let view = cert_view_number next_epoch_qc';
                 self1 = self\<lparr>formed_next_epoch_quorum_certificates :=
                   bt_insert view next_epoch_qc' (formed_next_epoch_quorum_certificates self)\<rparr>
             in case handle_eqc_formed view (leaf_commit (cert_data next_epoch_qc'))
                       (qd_block_number (cert_data next_epoch_qc')) self1 consensus of
                  (self2, c, effects) \<Rightarrow> spawn_in (create (view + 1) epoch_number self2) c effects))
      | _ \<Rightarrow> (self, consensus, [], Ok ()))"

definition cancel_proposal_subtasks ::
  "('k, 'g, 'h, 'm, 'f) QuorumProposalTaskState \<Rightarrow> ('k, 'g, 'h, 'm, 'f) QuorumProposalTaskState" where
  "cancel_proposal_subtasks self = self\<lparr>proposal_dependencies := []\<rparr>"

section \<open>Waiting for the highest QC\<close>

lemma wait_for_qc_event_append:
  "wait_for_qc_event env self arrived = Ready r \<Longrightarrow> wait_for_qc_event env self (arrived @ later) = Ready r"
  by (induction arrived) (auto split: option.splits QcCheck.splits)

lemma newer_qc_idem [simp]: "newer_qc (newer_qc highest certs) certs = newer_qc highest certs"
  by (simp add: newer_qc_def)

lemma highest_qc_rounds_once:
  assumes "wait_for_qc_event env self rx = Ready r"
  shows "highest_qc_rounds env self rx False (Suc n) highest =
    Ok (case r of None \<Rightarrow> highest | Some certs \<Rightarrow> newer_qc highest certs)"
proof -
  have stable: "highest_qc_rounds env self rx False n highest =
      Ok highest" if "case r of None \<Rightarrow> True | Some certs \<Rightarrow> newer_qc highest certs = highest" for n highest
    using that by (induction n) (auto simp: assms split: option.splits)
  show ?thesis using stable by (auto simp: assms split: option.splits)
qed

text \<open>
  C36: While a leader waits for the highest QC of the other nodes, every round of its loop reads the
  event stream from the same position. The first QC that passes the checks, or the first epoch root QC
  without a valid state certificate, is therefore the last one the leader looks at: whatever arrives
  later, higher QCs included, does not change the QC it proposes with.
\<close>

theorem later_high_qcs_ignored:
  assumes "epochs_enabled (ph_upgrade_lock self) (ph_view_number self)"
    and "wt_arriving waiting = arrived @ later" "wait_for_qc_event env self arrived = Ready r"
    and "0 < wt_rounds waiting" "\<not> wt_overrun waiting"
  shows "wait_for_highest_qc env self waiting consensus =
    (let drained = drain_highest_qc env self (wt_queued waiting) (stored_highest_qc self consensus)
     in Ok (case r of None \<Rightarrow> drained | Some certs \<Rightarrow> newer_qc drained certs))"
proof -
  obtain n where n: "wt_rounds waiting = Suc n" using assms(4) by (cases "wt_rounds waiting") auto
  have "wait_for_qc_event env self (wt_arriving waiting) = Ready r"
    using assms(2,3) by (simp add: wait_for_qc_event_append)
  from highest_qc_rounds_once [OF this] show ?thesis
    using assms(1,5) by (simp add: wait_for_highest_qc_def Let_def n)
qed

section \<open>Runs of the proposal task\<close>

text \<open>
  The other tasks of the node work on the shared state and the storage in between, so every step may
  see another consensus state and environment. The log has the state before each step.
\<close>

fun proposal_run ::
  "(('k, 'g, 'h, 'st, 'dl, 'm, 'f) ProposeEnv \<times> ('k, 'g, 'h, 'm, 'f) LeaderEvent
      \<times> ('k, 'g, 'h, 'st, 'dl) Consensus) list
     \<Rightarrow> ('k, 'g, 'h, 'm, 'f) QuorumProposalTaskState
     \<Rightarrow> ('k, 'g, 'h, 'm, 'f) QuorumProposalTaskState
          \<times> (('k, 'g, 'h, 'm, 'f) QuorumProposalTaskState \<times> ('k, 'g, 'h, 'm, 'f) LeaderEvent
              \<times> ('k, 'g) ProposalTaskEffect list) list" where
  "proposal_run [] self = (self, [])"
| "proposal_run ((penv, event, consensus) # steps) self =
     (case quorum_proposal_handle penv event self consensus of
        (self', _, effects, _) \<Rightarrow>
         (case proposal_run steps self' of
            (self'', log) \<Rightarrow> (self'', (self, event, effects) # log)))"

definition proposal_task_ok :: "('k, 'g, 'h, 'm, 'f) QuorumProposalTaskState \<Rightarrow> bool" where
  "proposal_task_ok self \<longleftrightarrow>
     bt_wf (proposal_dependencies self) \<and> bt_wf (formed_quorum_certificates self)
     \<and> bt_wf (formed_next_epoch_quorum_certificates self) \<and> bt_wf (formed_state_cert self)
     \<and> (\<forall>view task. bt_get (proposal_dependencies self) view = Some task \<longrightarrow>
          ph_view_number (pt_handle task) = view \<and> latest_proposed_view self < view)
     \<and> (\<forall>view qc. bt_get (formed_quorum_certificates self) view = Some qc \<longrightarrow>
          cert_view_number qc = view)
     \<and> (\<forall>view qc. bt_get (formed_next_epoch_quorum_certificates self) view = Some qc \<longrightarrow>
          cert_view_number qc = view)
     \<and> (\<forall>epoch cert. bt_get (formed_state_cert self) epoch = Some cert \<longrightarrow> lcc_epoch cert = epoch)"

text \<open>What a step may do to the task: the view only grows, and a task is spawned for a newer view only.\<close>

definition proposal_step_ok ::
  "('k, 'g, 'h, 'm, 'f) QuorumProposalTaskState \<Rightarrow> ('k, 'g, 'h, 'm, 'f) QuorumProposalTaskState
     \<Rightarrow> ('k, 'g) ProposalTaskEffect list \<Rightarrow> bool" where
  "proposal_step_ok self self' effects \<longleftrightarrow>
     latest_proposed_view self \<le> latest_proposed_view self'
     \<and> (\<forall>view. SpawnProposalTask view \<in> set effects \<longrightarrow>
          latest_proposed_view self' < view \<and> bt_get (proposal_dependencies self) view = None)"

lemmas bt_wf_intros = bt_wf_insert bt_wf_split_off bt_wf_filter

lemma create_proposal_task_ok:
  assumes "proposal_task_ok self"
    and "create_proposal_task_if_new env view epoch event indicator self = (self', effects, r)"
  shows "proposal_task_ok self' \<and> proposal_step_ok self self' effects"
  using assms
  by (auto simp: create_proposal_task_if_new_def proposal_task_ok_def proposal_step_ok_def bt_get_insert
      bt_contains_key_def bt_wf_intros split: sum.splits if_splits)

lemma update_latest_proposed_view_ok:
  assumes "proposal_task_ok self"
  shows "proposal_task_ok (fst (update_latest_proposed_view view self))
    \<and> proposal_step_ok self (fst (update_latest_proposed_view view self)) []
    \<and> view \<le> latest_proposed_view (fst (update_latest_proposed_view view self))"
proof -
  have "view < v" if "latest_proposed_view self < v" "latest_proposed_view self < view"
    "\<not> (latest_proposed_view self + 1 \<le> v \<and> v \<le> view)" for v
  proof -
    have "latest_proposed_view self + 1 \<le> v" using that(1) by (rule inc_le)
    then show ?thesis using that(3) by simp
  qed
  moreover have "bt_get (filter (\<lambda>e. latest_proposed_view self + 1 \<le> fst e \<longrightarrow> \<not> fst e \<le> view)
        (proposal_dependencies self)) k =
      (if latest_proposed_view self + 1 \<le> k \<longrightarrow> \<not> k \<le> view
       then bt_get (proposal_dependencies self) k else None)" for k
    by (rule bt_get_filter)
  ultimately show ?thesis
    using assms
    by (auto simp: update_latest_proposed_view_def proposal_task_ok_def proposal_step_ok_def bt_wf_intros
        split: if_splits)
qed

lemma cancel_tasks_ok:
  assumes "proposal_task_ok self"
  shows "proposal_task_ok (cancel_tasks view self) \<and> proposal_step_ok self (cancel_tasks view self) []"
  using assms
  by (auto simp: cancel_tasks_def proposal_task_ok_def proposal_step_ok_def bt_get_split_off
      bt_wf_intros split: if_splits)

lemma handle_eqc_formed_ok:
  assumes "proposal_task_ok self"
    and "handle_eqc_formed view comm block_number self consensus = (self', c, effects)"
  shows "proposal_task_ok self' \<and> latest_proposed_view self' = latest_proposed_view self
    \<and> proposal_dependencies self' = proposal_dependencies self
    \<and> (\<forall>v. SpawnProposalTask v \<notin> set effects)"
  using assms
  by (auto simp: handle_eqc_formed_def proposal_task_ok_def bt_get_split_off bt_wf_intros Let_def
      split: if_splits option.splits)

lemma spawn_in_ok:
  assumes "proposal_task_ok self1" "proposal_step_ok self self1 []"
    and "\<And>v. bt_get (proposal_dependencies self1) v = None \<Longrightarrow> bt_get (proposal_dependencies self) v = None \<or> v \<le> latest_proposed_view self1"
    and "\<forall>v. SpawnProposalTask v \<notin> set effects"
    and "spawn_in (create_proposal_task_if_new env view epoch event indicator self1) c effects
      = (self', c', effects', r)"
  shows "proposal_task_ok self' \<and> proposal_step_ok self self' effects'
    \<and> latest_proposed_view self1 \<le> latest_proposed_view self'"
proof -
  obtain self2 sp r2 where cr: "create_proposal_task_if_new env view epoch event indicator self1 = (self2, sp, r2)"
    by (cases "create_proposal_task_if_new env view epoch event indicator self1") auto
  from create_proposal_task_ok [OF assms(1) cr] cr assms(2-5) show ?thesis
    by (auto simp: spawn_in_def proposal_step_ok_def) (meson leD order.trans)+
qed

text \<open>The view of a proposal that an event reports as made.\<close>

definition proposed_in_event :: "('k, 'g, 'h, 'm, 'f) LeaderEvent \<Rightarrow> u64 option" where
  "proposed_in_event event =
     (case event of
        QuorumProposalSend proposal _ \<Rightarrow> Some (qp_view_number (proposal_data proposal))
      | ProposalPreliminarilyValidated proposal \<Rightarrow> Some (qp_view_number (proposal_data proposal))
      | _ \<Rightarrow> None)"

lemma proposal_task_ok_formed:
  assumes "proposal_task_ok self"
  shows "proposal_task_ok (self\<lparr>formed_quorum_certificates :=
      bt_insert (cert_view_number qc) qc (formed_quorum_certificates self)\<rparr>)"
    and "proposal_task_ok (self\<lparr>formed_next_epoch_quorum_certificates :=
      bt_insert (cert_view_number qc) qc (formed_next_epoch_quorum_certificates self)\<rparr>)"
    and "proposal_task_ok (self\<lparr>formed_quorum_certificates :=
        bt_insert (cert_view_number qc) qc (formed_quorum_certificates self),
      formed_state_cert := bt_insert (lcc_epoch cert) cert (formed_state_cert self)\<rparr>)"
    and "proposal_task_ok (self\<lparr>formed_upgrade_certificate := upgrade\<rparr>)"
    and "proposal_task_ok (self\<lparr>qpt_cur_epoch := epoch\<rparr>)"
  using assms by (auto simp: proposal_task_ok_def bt_get_insert bt_wf_intros)

lemma handle_eqc_and_spawn_ok:
  assumes "proposal_task_ok self1" "latest_proposed_view self1 = latest_proposed_view self"
    and "proposal_dependencies self1 = proposal_dependencies self"
    and "(case handle_eqc_formed view comm block_number self1 consensus of
        (self2, c, effects) \<Rightarrow>
          spawn_in (create_proposal_task_if_new env v epoch event indicator self2) c effects)
      = (self', c', effects', r)"
  shows "proposal_task_ok self' \<and> proposal_step_ok self self' effects'"
proof -
  obtain self2 c effects where eqc: "handle_eqc_formed view comm block_number self1 consensus = (self2, c, effects)"
    by (cases "handle_eqc_formed view comm block_number self1 consensus") auto
  from handle_eqc_formed_ok [OF assms(1) this] assms(2-4) show ?thesis
    using spawn_in_ok [of self2 self effects env v epoch event indicator c self' c' effects' r]
    by (simp add: eqc proposal_step_ok_def)
qed

lemma quorum_proposal_handle_ok:
  assumes ok: "proposal_task_ok self"
    and run: "quorum_proposal_handle penv event self consensus = (self', c, effects, r)"
  shows "proposal_task_ok self' \<and> proposal_step_ok self self' effects
    \<and> (\<forall>view. proposed_in_event event = Some view \<longrightarrow> view \<le> latest_proposed_view self')"
proof -
  have same: "proposal_step_ok self self []" by (simp add: proposal_step_ok_def)
  have spawn: "proposal_task_ok self' \<and> proposal_step_ok self self' effects"
    if "spawn_in (create_proposal_task_if_new env v epoch ev indicator self1) consensus []
        = (self', c, effects, r)" "proposal_task_ok self1"
      "latest_proposed_view self1 = latest_proposed_view self"
      "proposal_dependencies self1 = proposal_dependencies self" for env v epoch ev indicator self1
    using spawn_in_ok [OF that(2) _ _ _ that(1), of self] that(3,4) by (simp add: proposal_step_ok_def)
  note spawn0 = spawn [OF _ ok refl refl]
  note up = update_latest_proposed_view_ok [OF ok]
  note formed = proposal_task_ok_formed [OF ok]
  show ?thesis
  proof (cases event)
    case (ProposalPreliminarilyValidated p)
    let ?u = "fst (update_latest_proposed_view (qp_view_number (proposal_data p)) self)"
    have none: "bt_get (proposal_dependencies ?u) v = None \<Longrightarrow>
        bt_get (proposal_dependencies self) v = None \<or> v \<le> latest_proposed_view ?u" for v
      using bt_get_filter [of "\<lambda>k. \<not> (latest_proposed_view self + 1 \<le> k \<and> k \<le> qp_view_number (proposal_data p))"
          "proposal_dependencies self" v]
      by (auto simp: update_latest_proposed_view_def split: if_splits)
    from run ProposalPreliminarilyValidated obtain indicator where
      sp: "spawn_in (create_proposal_task_if_new (pe_env penv) (qp_view_number (proposal_data p) + 1)
        (qpt_cur_epoch self) event indicator ?u) consensus [] = (self', c, effects, r)"
      by (simp add: quorum_proposal_handle_def Let_def)
    from spawn_in_ok [OF conjunct1 [OF up] conjunct1 [OF conjunct2 [OF up]] none _ sp]
      up [of "qp_view_number (proposal_data p)"] ProposalPreliminarilyValidated show ?thesis
      by (auto simp: proposed_in_event_def)
  next
    case (QuorumProposalSend p k)
    with run up [of "qp_view_number (proposal_data p)"] show ?thesis
      by (auto simp: quorum_proposal_handle_def Let_def proposed_in_event_def split: prod.splits)
  next
    case (TaskEvent e)
    then have none: "proposed_in_event event = None" by (simp add: proposed_in_event_def)
    show ?thesis
    proof (cases e)
      case (Qc2Formed cert)
      show ?thesis
      proof (cases cert)
        case (Inl qc)
        with run TaskEvent Qc2Formed show ?thesis
          using handle_eqc_and_spawn_ok [OF formed(1) [where qc = qc], of self] none
          by (simp add: quorum_proposal_handle_def Let_def)
      next
        case (Inr t)
        with run TaskEvent Qc2Formed ok show ?thesis using none
          by (auto simp: quorum_proposal_handle_def Let_def dest: spawn0)
      qed
    next
      case (NextEpochQc2Formed qc)
      with run TaskEvent show ?thesis
        using handle_eqc_and_spawn_ok [OF formed(2) [where qc = qc], of self] none ok same
        by (simp add: quorum_proposal_handle_def Let_def split: if_splits option.splits)
    next
      case (EpochRootQcFormed root)
      note ok1 = formed(3) [where qc = "erc_qc root" and cert = "erc_state_cert root"]
      show ?thesis
      proof (cases "pe_store_root_qc penv (erc_qc root) (erc_state_cert root)")
        case True
        with run TaskEvent EpochRootQcFormed have "proposal_task_ok self' \<and> proposal_step_ok self self' effects"
          by (intro spawn [OF _ ok1]) (simp_all add: quorum_proposal_handle_def Let_def)
        then show ?thesis using none by simp
      next
        case False
        with run TaskEvent EpochRootQcFormed ok1 none show ?thesis
          by (auto simp: quorum_proposal_handle_def Let_def proposal_step_ok_def)
      qed
    next
      case (ViewSyncFinalizeCertificateRecv cert)
      with run TaskEvent ok same show ?thesis using none
        by (auto simp: quorum_proposal_handle_def Let_def split: option.splits sum.splits dest: spawn0)
    next
      case (ViewChange view epoch)
      with run TaskEvent show ?thesis
        using cancel_tasks_ok [OF ok] cancel_tasks_ok [OF formed(5)] none
        by (auto simp: quorum_proposal_handle_def Let_def proposal_step_ok_def split: if_splits)
    next
      case (Timeout view epoch)
      with run TaskEvent show ?thesis
        using cancel_tasks_ok [OF ok] none by (auto simp: quorum_proposal_handle_def Let_def)
    next
      case (UpgradeCertificateFormed cert)
      with run TaskEvent show ?thesis
        using formed(4) ok none same
        by (auto simp: quorum_proposal_handle_def Let_def proposal_step_ok_def split: if_splits)
    qed (use run TaskEvent ok same none in \<open>auto simp: quorum_proposal_handle_def Let_def\<close>)
  qed (use run ok same in \<open>auto simp: quorum_proposal_handle_def Let_def proposed_in_event_def dest: spawn0\<close>)
qed

lemma proposal_run_ok:
  assumes "proposal_task_ok self" "proposal_run steps self = (self', log)"
  shows "proposal_task_ok self' \<and> latest_proposed_view self \<le> latest_proposed_view self'
    \<and> (\<forall>(state, event, effects) \<in> set log. latest_proposed_view self \<le> latest_proposed_view state
         \<and> (\<forall>view. SpawnProposalTask view \<in> set effects \<longrightarrow> latest_proposed_view state < view
              \<and> bt_get (proposal_dependencies state) view = None))"
  using assms
proof (induction steps self arbitrary: self' log rule: proposal_run.induct)
  case (2 penv event consensus steps self)
  obtain self1 c effects r where h: "quorum_proposal_handle penv event self consensus = (self1, c, effects, r)"
    by (cases "quorum_proposal_handle penv event self consensus") auto
  obtain log1 where run: "proposal_run steps self1 = (self', log1)" "log = (self, event, effects) # log1"
    using 2(3) by (auto simp: h split: prod.splits)
  note step = quorum_proposal_handle_ok [OF 2(2) h]
  have "SpawnProposalTask v \<in> set effects \<Longrightarrow> latest_proposed_view self < v" for v
    using step by (auto simp: proposal_step_ok_def)
  with 2(1) [OF h [symmetric] refl refl conjunct1 [OF step] run(1)] step run(2) show ?case
    by (fastforce simp: proposal_step_ok_def)
qed simp

lemma proposal_run_seen:
  assumes "proposal_task_ok self" "proposal_run steps self = (self1, log)"
    and "(state, event, effects) \<in> set log" "proposed_in_event event = Some view"
  shows "view \<le> latest_proposed_view self1"
  using assms(1-3)
proof (induction steps self arbitrary: log rule: proposal_run.induct)
  case (2 penv ev consensus steps self)
  obtain s c effs r where h: "quorum_proposal_handle penv ev self consensus = (s, c, effs, r)"
    by (cases "quorum_proposal_handle penv ev self consensus") auto
  obtain log1 where run: "proposal_run steps s = (self1, log1)" "log = (self, ev, effs) # log1"
    using 2(3) by (auto simp: h split: prod.splits)
  note step = quorum_proposal_handle_ok [OF 2(2) h]
  show ?case
  proof (cases "(state, event, effects) = (self, ev, effs)")
    case True
    then show ?thesis
      using step assms(4) conjunct1 [OF conjunct2 [OF proposal_run_ok [OF conjunct1 [OF step] run(1)]]]
      by (auto intro: order.trans)
  next
    case False
    then show ?thesis
      using 2(1) [OF h [symmetric] refl refl conjunct1 [OF step] run(1)] 2(4) run(2) by auto
  qed
qed simp

text \<open>
  C16: The state of the proposal task stays well-formed in every run: its maps are sorted, every formed
  certificate is kept under its view or epoch, and every pending proposal task is kept under its own
  view, which is newer than the latest proposal. Once a proposal for a view has been seen, no task for
  that view or an earlier one is ever spawned again, and no view has two tasks at once.
\<close>

theorem proposal_task_well_formed:
  assumes "proposal_task_ok self" "proposal_run steps self = (self1, log)"
    and "proposal_run steps' self1 = (self2, log')"
  shows "proposal_task_ok self2
    \<and> (\<forall>(state, event, effects) \<in> set log. \<forall>view. proposed_in_event event = Some view \<longrightarrow>
        (\<forall>(state', event', effects') \<in> set log'. \<forall>view'. SpawnProposalTask view' \<in> set effects' \<longrightarrow>
           view < view' \<and> bt_get (proposal_dependencies state') view' = None))"
proof -
  have "proposal_task_ok self1" using proposal_run_ok [OF assms(1,2)] by simp
  from proposal_run_ok [OF this assms(3)] show ?thesis
    using proposal_run_seen [OF assms(1,2)] by (fastforce intro: order.strict_trans1)
qed

section \<open>What the dependencies deliver\<close>

lemma and_depD:
  assumes "and_dep deps values"
  shows "\<forall>v \<in> set values. \<exists>d \<in> set deps. d v" "\<forall>d \<in> set deps. \<exists>v \<in> set values. d v"
proof -
  obtain results where r: "list_all2 (\<lambda>dep. dep) deps results" "set values = set results"
    using assms by (auto simp: and_dep_def dest: mset_eq_setD)
  from r(1) have "(\<forall>v \<in> set results. \<exists>d \<in> set deps. d v) \<and> (\<forall>d \<in> set deps. \<exists>v \<in> set results. d v)"
    by (induction rule: list_all2_induct) auto
  then show "\<forall>v \<in> set values. \<exists>d \<in> set deps. d v" "\<forall>d \<in> set deps. \<exists>v \<in> set values. d v"
    by (simp_all add: r(2))
qed

lemma and_dep_single: "and_dep [d] values \<longleftrightarrow> (\<exists>v. values = [v] \<and> d v)"
  by (auto simp: and_dep_def list_all2_Cons1)

lemma or_dep_iff [simp]: "or_dep [] v = False" "or_dep (d # ds) v = (d v \<or> or_dep ds v)"
  by (simp_all add: or_dep_def)

text \<open>The dependencies of a proposal, as a list.\<close>

definition all_depends :: "('k, 'g, 'h, 'm, 'f) ProposalDepends \<Rightarrow> ('k, 'g, 'h, 'm, 'f) LeaderEvent EventDep list" where
  "all_depends deps = [pdp_proposal deps, pdp_qc deps, pdp_view_sync deps, pdp_timeout deps, pdp_payload deps,
     pdp_vid_share deps, pdp_next_epoch_qc deps]"

lemma proposal_dependency_chainD:
  assumes "proposal_dependency_chain view deps stream res"
  defines "events \<equiv> set (concat (concat res))"
  shows "\<forall>e \<in> events. \<exists>d \<in> set (all_depends deps). event_dep_completes stream d e"
    and "\<exists>e \<in> events. event_dep_completes stream (pdp_payload deps) e"
    and "\<exists>e \<in> events. event_dep_completes stream (pdp_vid_share deps) e"
    and "\<exists>e \<in> events. event_dep_completes stream (pdp_timeout deps) e
           \<or> event_dep_completes stream (pdp_view_sync deps) e \<or> event_dep_completes stream (pdp_qc deps) e"
proof -
  let ?dep = "event_dep_completes stream"
  let ?primary = "and_dep [?dep (pdp_payload deps), ?dep (pdp_vid_share deps)]"
  let ?third = "if view > 1 then and_dep [?dep (pdp_qc deps), ?dep (pdp_proposal deps), ?dep (pdp_next_epoch_qc deps)]
    else and_dep [?dep (pdp_qc deps)]"
  obtain mid where res: "res = [mid]"
    and mid: "and_dep [or_dep [?primary], or_dep [and_dep [?dep (pdp_timeout deps)],
      and_dep [?dep (pdp_view_sync deps)], ?third]] mid"
    using assms(1) by (auto simp: proposal_dependency_chain_def Let_def and_dep_single)
  from and_depD [OF mid] obtain p s where parts: "p \<in> set mid" "?primary p" "s \<in> set mid"
    "and_dep [?dep (pdp_timeout deps)] s \<or> and_dep [?dep (pdp_view_sync deps)] s \<or> ?third s"
    by auto
  have events: "events = \<Union> (set ` set mid)" by (auto simp: events_def res)
  have each: "\<exists>d \<in> set (all_depends deps). ?dep d e"
    if "?primary l \<or> and_dep [?dep (pdp_timeout deps)] l \<or> and_dep [?dep (pdp_view_sync deps)] l \<or> ?third l"
      "e \<in> set l" for l e
    using that by (auto simp: all_depends_def dest!: and_depD(1) split: if_splits)
  show "\<forall>e \<in> events. \<exists>d \<in> set (all_depends deps). ?dep d e"
    unfolding events using and_depD(1) [OF mid] each by auto
  show "\<exists>e \<in> events. ?dep (pdp_payload deps) e" "\<exists>e \<in> events. ?dep (pdp_vid_share deps) e"
    unfolding events using and_depD(2) [OF parts(2)] parts(1) by auto
  show "\<exists>e \<in> events. ?dep (pdp_timeout deps) e \<or> ?dep (pdp_view_sync deps) e \<or> ?dep (pdp_qc deps) e"
  proof -
    have "\<exists>e \<in> set s. ?dep (pdp_timeout deps) e \<or> ?dep (pdp_view_sync deps) e \<or> ?dep (pdp_qc deps) e"
      using parts(4)
    proof (elim disjE)
      assume "?third s"
      then have "\<exists>e \<in> set s. ?dep (pdp_qc deps) e" by (auto dest!: and_depD(2) split: if_splits)
      then show ?thesis by blast
    qed (auto simp: and_dep_single)
    then show ?thesis unfolding events using parts(3) by blast
  qed
qed

text \<open>
  The event with which a task is created names the view of the task, so each dependency only ever
  delivers events that it matches.
\<close>

definition names_view :: "u64 \<Rightarrow> ('k, 'g, 'h, 'm, 'f) LeaderEvent \<Rightarrow> bool" where
  "names_view view event \<longleftrightarrow>
     (\<forall>dependency w. proposal_event_view dependency event = Some w \<longrightarrow> w = view)
     \<and> (case event of TaskEvent (NextEpochQc2Formed qc) \<Rightarrow> cert_view_number qc + 1 = view | _ \<Rightarrow> True)"

lemma event_dep_completes_new:
  "event_dep_completes stream (new_dep P) e \<Longrightarrow> P e \<and> e \<in> set stream"
  by (auto simp: event_dep_completes_def new_dep_def find_Some_iff)

lemma event_dep_completes_marked:
  "event_dep_completes stream (mark_as_completed event dep) e \<Longrightarrow> e = event"
  by (simp add: event_dep_completes_def mark_as_completed_def)

definition seeded :: "bool \<Rightarrow> 'e \<Rightarrow> 'e EventDep \<Rightarrow> 'e EventDep" where
  "seeded s event dep = (if s then mark_as_completed event dep else dep)"

definition seeds_next_epoch_qc :: "u64 \<Rightarrow> ('k, 'g, 'h, 'm, 'f) LeaderEvent \<Rightarrow> bool" where
  "seeds_next_epoch_qc h event =
     (case event of
        TaskEvent (NextEpochQc2Formed _) \<Rightarrow> True
      | TaskEvent (EpochRootQcFormed _) \<Rightarrow> True
      | TaskEvent (Qc2Formed (Inl qc)) \<Rightarrow> outside_transition qc h
      | _ \<Rightarrow> False)"

lemma complete_proposal_depends_eq:
  fixes event :: "('k, 'g, 'h, 'm, 'f) LeaderEvent"
  defines "seed \<equiv> \<lambda>dep d. seeded (proposal_event_view dep event \<noteq> None) event d"
  shows "complete_proposal_depends h event deps =
    \<lparr>pdp_proposal = seed PrecedingProposal (pdp_proposal deps), pdp_qc = seed QcDep (pdp_qc deps),
     pdp_view_sync = seed ViewSyncCertDep (pdp_view_sync deps),
     pdp_timeout = seed TimeoutCertDep (pdp_timeout deps),
     pdp_payload = seed PayloadAndMetadata (pdp_payload deps),
     pdp_vid_share = seed VidShareDep (pdp_vid_share deps),
     pdp_next_epoch_qc = seeded (seeds_next_epoch_qc h event) event (pdp_next_epoch_qc deps)\<rparr>"
  unfolding seed_def
  by (cases event; simp add: complete_proposal_depends_def proposal_event_view_def seeds_next_epoch_qc_def
      seeded_def Let_def split: HotShotEvent.split sum.split)

lemma seeded_completes:
  assumes "event_dep_completes stream (seeded s event (new_dep P)) e" "s \<Longrightarrow> P event"
  shows "P e \<and> e \<in> set (event # stream)"
  using assms event_dep_completes_marked [of stream event "new_dep P" e] event_dep_completes_new [of stream P e]
  by (auto simp: seeded_def split: if_splits)

lemma proposal_dependency_events:
  fixes stream :: "('k, 'g, 'h, 'm, 'f) LeaderEvent list"
  assumes chain: "create_and_complete_dependencies view h event stream res" and names: "names_view view event"
  defines "events \<equiv> set (concat (concat res))"
  shows "\<forall>e \<in> events. e \<in> set (event # stream)
           \<and> ((\<exists>dependency. proposal_event_view dependency e = Some view) \<or> next_epoch_qc_match view h e)"
    and "\<exists>e \<in> events. proposal_event_view PayloadAndMetadata e = Some view"
    and "\<exists>e \<in> events. proposal_event_view VidShareDep e = Some view"
    and "\<exists>e \<in> events. proposal_event_view TimeoutCertDep e = Some view
           \<or> proposal_event_view ViewSyncCertDep e = Some view \<or> proposal_event_view QcDep e = Some view"
proof -
  let ?deps = "complete_proposal_depends h event (new_proposal_depends view h)"
  note chainD = proposal_dependency_chainD [OF chain [unfolded create_and_complete_dependencies_def]]
  have dep: "proposal_event_view dependency e = Some view \<and> e \<in> set (event # stream)"
    if "event_dep_completes stream (seeded (proposal_event_view dependency event \<noteq> None) event
      (proposal_event_dependency dependency view)) e" for dependency e
    using seeded_completes [OF that [unfolded proposal_event_dependency_def]] names
    by (auto simp: names_view_def)
  have nxt: "next_epoch_qc_match view h e \<and> e \<in> set (event # stream)"
    if "event_dep_completes stream (seeded (seeds_next_epoch_qc h event) event
      (new_dep (next_epoch_qc_match view h))) e" for e
  proof (rule seeded_completes [OF that])
    assume "seeds_next_epoch_qc h event"
    then show "next_epoch_qc_match view h event"
      using names by (auto simp: seeds_next_epoch_qc_def next_epoch_qc_match_def names_view_def
          proposal_event_view_def split: LeaderEvent.splits HotShotEvent.splits sum.splits
          dest: spec [of _ QcDep])
  qed
  note eqs = complete_proposal_depends_eq [of h event] new_proposal_depends_def [of view h]
  have fields: "all_depends ?deps =
      map (\<lambda>d. seeded (proposal_event_view d event \<noteq> None) event (proposal_event_dependency d view))
        [PrecedingProposal, QcDep, ViewSyncCertDep, TimeoutCertDep, PayloadAndMetadata, VidShareDep]
      @ [seeded (seeds_next_epoch_qc h event) event (new_dep (next_epoch_qc_match view h))]"
    by (simp only: all_depends_def eqs ProposalDepends.simps list.map append.simps)
  show "\<forall>e \<in> events. e \<in> set (event # stream)
      \<and> ((\<exists>dependency. proposal_event_view dependency e = Some view) \<or> next_epoch_qc_match view h e)"
  proof
    fix e assume "e \<in> events"
    with chainD(1) obtain d where d: "d \<in> set (all_depends ?deps)" "event_dep_completes stream d e"
      unfolding events_def by blast
    then consider dependency where "event_dep_completes stream
        (seeded (proposal_event_view dependency event \<noteq> None) event (proposal_event_dependency dependency view)) e"
      | "event_dep_completes stream (seeded (seeds_next_epoch_qc h event) event
          (new_dep (next_epoch_qc_match view h))) e"
      unfolding fields set_append set_map list.set by blast
    then show "e \<in> set (event # stream)
        \<and> ((\<exists>dependency. proposal_event_view dependency e = Some view) \<or> next_epoch_qc_match view h e)"
      using dep nxt by cases blast+
  qed
  note chainD' = chainD(2-4) [unfolded eqs ProposalDepends.simps, folded events_def]
  show "\<exists>e \<in> events. proposal_event_view PayloadAndMetadata e = Some view"
    "\<exists>e \<in> events. proposal_event_view VidShareDep e = Some view"
    using chainD'(1,2) dep by blast+
  show "\<exists>e \<in> events. proposal_event_view TimeoutCertDep e = Some view
      \<or> proposal_event_view ViewSyncCertDep e = Some view \<or> proposal_event_view QcDep e = Some view"
    using chainD'(3) dep by blast
qed

section \<open>The collected events\<close>

definition event_parent_qc :: "('k, 'g, 'h, 'm, 'f) LeaderEvent \<Rightarrow> 'g QuorumCertificate2 option" where
  "event_parent_qc event =
     (case event of
        TaskEvent (Qc2Formed (Inl qc)) \<Rightarrow> Some qc
      | TaskEvent (EpochRootQcFormed root) \<Rightarrow> Some (erc_qc root)
      | _ \<Rightarrow> None)"

definition event_evidence :: "('k, 'g, 'h, 'm, 'f) LeaderEvent \<Rightarrow> 'g ViewChangeEvidence2 option" where
  "event_evidence event =
     (case event of
        TaskEvent (Qc2Formed (Inr cert)) \<Rightarrow> Some (TimeoutEvidence cert)
      | TaskEvent (ViewSyncFinalizeCertificateRecv cert) \<Rightarrow> Some (ViewSyncEvidence cert)
      | _ \<Rightarrow> None)"

lemma collect_proposal_dep_fields:
  "pd_parent_qc (collect_proposal_dep event deps) =
     (case event_parent_qc event of Some qc \<Rightarrow> Some qc | None \<Rightarrow> pd_parent_qc deps)"
  "proposal_cert (collect_proposal_dep event deps) = None \<longleftrightarrow>
     event_evidence event = None \<and> proposal_cert deps = None"
  by (cases event; simp add: collect_proposal_dep_def event_parent_qc_def event_evidence_def
      proposal_cert_def split: HotShotEvent.split sum.split option.split)+

lemma collected_parent_qc:
  "pd_parent_qc (fold collect_proposal_dep events deps) = Some qc \<Longrightarrow>
     pd_parent_qc deps = Some qc \<or> (\<exists>e \<in> set events. event_parent_qc e = Some qc)"
proof (induction events arbitrary: deps)
  case (Cons e events)
  from Cons.IH [of "collect_proposal_dep e deps"] Cons.prems show ?case
    by (auto simp: collect_proposal_dep_fields split: option.splits)
qed simp

lemma collected_no_parent_qc:
  "pd_parent_qc (fold collect_proposal_dep events deps) = None \<Longrightarrow>
     pd_parent_qc deps = None \<and> (\<forall>e \<in> set events. event_parent_qc e = None)"
proof (induction events arbitrary: deps)
  case (Cons e events)
  from Cons.IH [of "collect_proposal_dep e deps"] Cons.prems show ?case
    by (auto simp: collect_proposal_dep_fields split: option.splits)
qed simp

lemma collected_no_evidence:
  "proposal_cert (fold collect_proposal_dep events deps) = None \<Longrightarrow>
     proposal_cert deps = None \<and> (\<forall>e \<in> set events. event_evidence e = None)"
proof (induction events arbitrary: deps)
  case (Cons e events)
  from Cons.IH [of "collect_proposal_dep e deps"] Cons.prems show ?case
    by (auto simp: collect_proposal_dep_fields )
qed simp

lemma event_view_fields:
  "event_parent_qc e = Some qc \<Longrightarrow> proposal_event_view QcDep e = Some (cert_view_number qc + 1)"
  "proposal_event_view QcDep e = Some view \<Longrightarrow> event_parent_qc e \<noteq> None"
  "proposal_event_view TimeoutCertDep e = Some view \<Longrightarrow> event_evidence e \<noteq> None"
  "proposal_event_view ViewSyncCertDep e = Some view \<Longrightarrow> event_evidence e \<noteq> None"
  by (auto simp: event_parent_qc_def event_evidence_def proposal_event_view_def
      split: LeaderEvent.splits HotShotEvent.splits sum.splits)

lemma event_parent_qc_cases:
  assumes "event_parent_qc e = Some qc"
    and "(\<exists>dependency. proposal_event_view dependency e = Some view) \<or> next_epoch_qc_match view h e"
  shows "cert_view_number qc + 1 = view \<or> (\<exists>root. e = TaskEvent (EpochRootQcFormed root) \<and> erc_qc root = qc)"
proof -
  have "proposal_event_view dependency e = Some view \<Longrightarrow> cert_view_number qc + 1 = view" for dependency
    using assms(1) by (cases dependency)
      (auto simp: event_parent_qc_def proposal_event_view_def split: LeaderEvent.splits HotShotEvent.splits sum.splits)
  with assms show ?thesis
    by (auto simp: event_parent_qc_def next_epoch_qc_match_def
        split: LeaderEvent.splits HotShotEvent.splits sum.splits)
qed

text \<open>
  With the events of its own view and no epoch root QC of another one, the handler either has the QC
  of the preceding view or view change evidence.
\<close>

lemma collected_parent_or_evidence:
  assumes "create_and_complete_dependencies view h event stream res" "names_view view event"
    and roots: "\<And>root. TaskEvent (EpochRootQcFormed root) \<in> set (event # stream) \<Longrightarrow>
      cert_view_number (erc_qc root) + 1 = view"
  defines "deps \<equiv> fold collect_proposal_dep (concat (concat res)) proposal_deps_none"
  shows "pd_parent_qc deps = Some qc \<Longrightarrow> cert_view_number qc + 1 = view"
    and "pd_parent_qc deps = None \<Longrightarrow> proposal_cert deps \<noteq> None"
proof -
  note ev = proposal_dependency_events [OF assms(1,2)]
  show "cert_view_number qc + 1 = view" if "pd_parent_qc deps = Some qc"
  proof -
    from collected_parent_qc [OF that [unfolded deps_def]] obtain e where
      e: "e \<in> set (concat (concat res))" "event_parent_qc e = Some qc"
      by (auto simp: proposal_deps_none_def)
    from bspec [OF ev(1) e(1)] have m: "e \<in> set (event # stream)"
      "(\<exists>dependency. proposal_event_view dependency e = Some view) \<or> next_epoch_qc_match view h e"
      by (rule conjunct1, rule conjunct2)
    from event_parent_qc_cases [OF e(2) m(2)] show ?thesis
    proof
      assume "\<exists>root. e = TaskEvent (EpochRootQcFormed root) \<and> erc_qc root = qc"
      then show ?thesis using roots m(1) by metis
    qed
  qed
  show "proposal_cert deps \<noteq> None" if "pd_parent_qc deps = None"
  proof
    assume none: "proposal_cert deps = None"
    obtain e where e: "e \<in> set (concat (concat res))" "proposal_event_view TimeoutCertDep e = Some view
        \<or> proposal_event_view ViewSyncCertDep e = Some view \<or> proposal_event_view QcDep e = Some view"
      using ev(4) by blast
    moreover have "event_parent_qc e = None" "event_evidence e = None"
      using collected_no_parent_qc [OF that [unfolded deps_def]]
        collected_no_evidence [OF none [unfolded deps_def]] e(1) by blast+
    ultimately show False using event_view_fields(2-4) by blast
  qed
qed

section \<open>The certificates of a proposal\<close>

text \<open>
  The certificates to propose with are good when the QC is valid, its next epoch QC, if there is one
  for the same leaf, is valid with it, and so is the state certificate.
\<close>

definition parent_ok ::
  "('k, 'g, 'h, 'st) Env \<Rightarrow> ('k, 'g) ProposalDependencyHandle \<Rightarrow> 'g qc_with_certs \<Rightarrow> bool" where
  "parent_ok env self certs \<longleftrightarrow>
     (case certs of (qc, nqc, sc) \<Rightarrow>
       (\<exists>n. validate_qc_and_next_epoch_qc env qc n (ph_upgrade_lock self) (ph_epoch_height self) = Ok ())
       \<and> (\<forall>n. nqc = Some n \<and> leaf_commit (cert_data n) = leaf_commit (cert_data qc) \<longrightarrow>
            validate_qc_and_next_epoch_qc env qc (Some n) (ph_upgrade_lock self) (ph_epoch_height self) = Ok ())
       \<and> (\<forall>s. sc = Some s \<longrightarrow> valid_state_cert env s))"

lemma check_received_qc_ok: "check_received_qc env self received = QcChecked certs \<Longrightarrow> parent_ok env self certs"
  by (auto simp: check_received_qc_def parent_ok_def split: prod.splits if_splits option.splits)

lemma newer_qc_ok: "parent_ok env self a \<Longrightarrow> parent_ok env self b \<Longrightarrow> parent_ok env self (newer_qc a b)"
  by (simp add: newer_qc_def)

lemma wait_for_qc_event_ok:
  "wait_for_qc_event env self rx = Ready (Some certs) \<Longrightarrow> parent_ok env self certs"
  by (induction rx) (auto split: option.splits QcCheck.splits dest: check_received_qc_ok)

lemma drain_highest_qc_ok:
  "parent_ok env self highest \<Longrightarrow> parent_ok env self (drain_highest_qc env self rx highest)"
proof (induction rx arbitrary: highest)
  case (Cons event rx)
  show ?case
  proof (cases "received_qc event")
    case (Some received)
    show ?thesis
    proof (cases "check_received_qc env self received")
      case (QcChecked certs)
      with Some Cons.IH [OF newer_qc_ok [OF Cons.prems check_received_qc_ok [OF QcChecked]]] show ?thesis by simp
    qed (use Some Cons in simp_all)
  qed (use Cons in simp)
qed simp

lemma highest_qc_rounds_ok:
  "parent_ok env self highest \<Longrightarrow> highest_qc_rounds env self rx overrun n highest = Inr certs \<Longrightarrow>
     parent_ok env self certs"
proof (induction n arbitrary: highest)
  case (Suc n)
  show ?case
  proof (cases "wait_for_qc_event env self rx")
    case (Ready r)
    show ?thesis
    proof (cases r)
      case (Some x)
      with Ready Suc.IH [OF newer_qc_ok [OF Suc.prems(1) wait_for_qc_event_ok]] Suc.prems(2) show ?thesis by simp
    qed (use Ready Suc in simp)
  qed (use Suc.prems in simp)
qed (simp split: if_splits)

lemma wait_for_highest_qc_ok:
  assumes "parent_ok env self (stored_highest_qc self c)" "wait_for_highest_qc env self waiting c = Inr certs"
  shows "parent_ok env self certs"
  using assms by (auto simp: wait_for_highest_qc_def split: if_splits
      intro: highest_qc_rounds_ok drain_highest_qc_ok)

definition transition_ok ::
  "('k, 'g, 'h, 'st) Env \<Rightarrow> ('k, 'g) ProposalDependencyHandle \<Rightarrow> 'g transition_qcs \<Rightarrow> bool" where
  "transition_ok env self best \<longleftrightarrow> (\<forall>qc n. best = Some (qc, n) \<longrightarrow> parent_ok env self (qc, Some n, None))"

lemma transition_qc_event_ok:
  "transition_ok env self best \<Longrightarrow> transition_ok env self (transition_qc_event env self event best)"
  by (auto simp: transition_ok_def transition_qc_event_def parent_ok_def
      split: LeaderEvent.splits option.splits if_splits)

lemma transition_qc_rounds_ok:
  "transition_ok env self best \<Longrightarrow> transition_qc_rounds env self overrun n rx best = Inr best' \<Longrightarrow>
     transition_ok env self best'"
  by (induction env self overrun n rx best rule: transition_qc_rounds.induct)
     (auto split: if_splits intro: transition_qc_event_ok)

lemma wait_for_transition_qc_ok:
  assumes "transition_ok env self (transition_qc c)" "wait_for_transition_qc env self waiting c = Inr best"
  shows "transition_ok env self best"
proof -
  have "transition_ok env self (fold (transition_qc_event env self) events b)" if "transition_ok env self b" for events b
    using that by (induction events arbitrary: b) (auto intro: transition_qc_event_ok)
  with assms show ?thesis
    by (auto simp: wait_for_transition_qc_def split: if_splits intro: transition_qc_rounds_ok)
qed

lemma choose_parent_qc_ok:
  assumes "choose_parent_qc env self w1 w2 deps version c = Some certs"
    and "version_ge version (epochs_version (lock_versions (ph_upgrade_lock self)))"
    and "\<And>qc. pd_parent_qc deps = Some qc \<Longrightarrow> parent_ok env self (qc, pd_next_epoch_qc deps, pd_state_cert deps)"
    and "parent_ok env self (stored_highest_qc self c)" "transition_ok env self (transition_qc c)"
  shows "parent_ok env self certs" "pd_parent_qc deps = Some qc \<Longrightarrow> fst certs = qc"
proof -
  have high: "wait_for_highest_qc env self w2 c = Inr x \<Longrightarrow> parent_ok env self x" for x
    using wait_for_highest_qc_ok [OF assms(4)] .
  have trans: "wait_for_transition_qc env self w1 c = Inr (Some (q, n)) \<Longrightarrow> parent_ok env self (q, Some n, None)" for q n
    using wait_for_transition_qc_ok [OF assms(5)] by (fastforce simp: transition_ok_def)
  show "parent_ok env self certs"
    using assms(1-3) high trans
    by (auto simp: choose_parent_qc_def Let_def split: option.splits sum.splits if_splits prod.splits)
  show "pd_parent_qc deps = Some qc \<Longrightarrow> fst certs = qc"
    using assms(1) by (auto simp: choose_parent_qc_def Let_def split: if_splits option.splits)
qed

section \<open>Published proposals\<close>

lemma sign_proposal_Some:
  assumes "sign_proposal penv self version evidence upgrade_cert parent_leaf parent header c = Inr (Some p)"
  defines "data \<equiv> proposal_data p" and "env \<equiv> pe_env penv"
  shows "qp_block_header data = header" "qp_view_number data = ph_view_number self"
    "qp_epoch data = option_epoch_from_block_number
       (version_ge version (epochs_version (lock_versions (ph_upgrade_lock self))))
       (hdr_block_number header) (ph_epoch_height self)"
    "\<exists>m. env_membership_for_epoch env (qp_epoch data) = Some m
       \<and> em_leader m (ph_view_number self) = Some (ph_public_key self)"
    "qp_justify_qc data = fst parent" "qp_upgrade_certificate data = upgrade_cert"
    "qp_view_change_evidence data = evidence" "qp_state_cert data = snd (snd parent)"
    "qp_next_epoch_justify_qc data =
       (if epochs_enabled (ph_upgrade_lock self) (ph_view_number self)
           \<and> qc_block_is is_epoch_transition (fst parent) (ph_epoch_height self)
        then fst (snd parent) else None)"
    "epochs_enabled (ph_upgrade_lock self) (ph_view_number self) \<Longrightarrow>
     qc_block_is is_epoch_transition (fst parent) (ph_epoch_height self) \<Longrightarrow>
       \<exists>n. fst (snd parent) = Some n \<and> leaf_commit (cert_data n) = leaf_commit (cert_data (fst parent))"
    "leaf_commit (cert_data (fst parent)) = env_leaf_commit env parent_leaf"
    "pe_sign penv (env_leaf_commit env (from_quorum_proposal data)) = Some (proposal_signature p)"
proof -
  obtain qc nqc sc where parent: "parent = (qc, nqc, sc)" by (cases parent)
  note run = assms(1) [unfolded sign_proposal_def parent Let_def prod.case]
  note splits = option.splits if_splits
  show "qp_block_header data = header" "qp_view_number data = ph_view_number self"
    "qp_epoch data = option_epoch_from_block_number
       (version_ge version (epochs_version (lock_versions (ph_upgrade_lock self))))
       (hdr_block_number header) (ph_epoch_height self)"
    "\<exists>m. env_membership_for_epoch env (qp_epoch data) = Some m
       \<and> em_leader m (ph_view_number self) = Some (ph_public_key self)"
    "qp_justify_qc data = fst parent" "qp_upgrade_certificate data = upgrade_cert"
    "qp_view_change_evidence data = evidence" "qp_state_cert data = snd (snd parent)"
    "qp_next_epoch_justify_qc data =
       (if epochs_enabled (ph_upgrade_lock self) (ph_view_number self)
           \<and> qc_block_is is_epoch_transition (fst parent) (ph_epoch_height self)
        then fst (snd parent) else None)"
    "leaf_commit (cert_data (fst parent)) = env_leaf_commit env parent_leaf"
    "pe_sign penv (env_leaf_commit env (from_quorum_proposal data)) = Some (proposal_signature p)"
    using run unfolding data_def env_def parent
    by (auto simp: from_quorum_proposal_def split: splits)
  show "\<exists>n. fst (snd parent) = Some n \<and> leaf_commit (cert_data n) = leaf_commit (cert_data (fst parent))"
    if "epochs_enabled (ph_upgrade_lock self) (ph_view_number self)"
      "qc_block_is is_epoch_transition (fst parent) (ph_epoch_height self)"
    using run that unfolding parent by (auto split: splits)
qed

lemma publish_proposal_Some:
  assumes "publish_proposal penv self cam evidence parent c = (c', Inr (Some p))"
  obtains comm parent_leaf state header version upgrade_cert where
    "saved_leaves c' comm = Some parent_leaf"
    "cam_block_view cam = ph_view_number self"
    "lock_version (ph_upgrade_lock self) (ph_view_number self) = Inr version"
    "check_parent_qc penv self cam (fst parent) (snd (snd parent)) version = Inr True"
    "pe_new_header penv state parent_leaf (cam_commitment cam) (cam_builder_commitment cam)
       (cam_metadata cam) (fst (cam_fees cam)) version (ph_view_number self) = Some header"
    "sign_proposal penv self version
       (case evidence of Some cert \<Rightarrow> (if is_valid_for_view cert (ph_view_number self) then Some cert else None)
        | None \<Rightarrow> None) upgrade_cert parent_leaf parent header c' = Inr (Some p)"
proof -
  obtain parent_leaf state where pl: "parent_leaf_and_state (pe_env penv) (pe_venv penv) (ph_upgrade_lock self)
      (fst parent) (ph_epoch_height self) c = (c', Inr (parent_leaf, state))"
    using assms by (auto simp: publish_proposal_def Let_def split: prod.splits sum.splits)
  have saved: "\<exists>comm. saved_leaves c' comm = Some parent_leaf"
    using pl by (auto simp: parent_leaf_and_state_def Let_def split: prod.splits if_splits option.splits)
  show thesis
    using assms saved that
    by (auto simp: publish_proposal_def Let_def pl split: if_splits sum.splits bool.splits option.splits)
qed

lemma handle_dep_result_sent:
  assumes "proposal_handle_dep_result penv self w1 w2 res c = (c', effects)"
    and "QuorumProposalSend p key \<in> set effects"
  defines "deps \<equiv> fold collect_proposal_dep (concat (concat res)) proposal_deps_none"
  obtains version parent cam where "key = ph_public_key self"
    "lock_version (ph_upgrade_lock self) (ph_view_number self) = Inr version"
    "choose_parent_qc (pe_env penv) self w1 w2 deps version c = Some parent"
    "pd_commit_and_metadata deps = Some cam"
    "publish_proposal penv self cam (map_option fst (proposal_cert deps)) parent c = (c', Inr (Some p))"
  using assms that
  by (auto simp: proposal_handle_dep_result_def Let_def split: sum.splits option.splits prod.splits)

lemma next_block_in_transition:
  fixes b h :: u64
  assumes "5 < h" "unat b + 1 + unat h < 2 ^ 64"
    and "is_epoch_transition (b + 1) h" "\<not> is_transition_block (b + 1) h"
  shows "is_epoch_transition b h \<and> \<not> is_last_block b h"
proof -
  have b1: "unat (b + 1) = Suc (unat b)"
    using assms(2) unat_add_no_overflow [of b 1] by simp
  then have "b + 1 \<noteq> 0" by (metis unat_0 nat.distinct(1))
  note next_pos = block_position [OF this assms(1)]
  have h5: "5 < unat h" using assms(1) by (simp add: word_less_nat_alt)
  have r: "Suc (unat b) mod unat h = 0 \<or> unat h - 3 < Suc (unat b) mod unat h"
    using assms(2-4) next_pos(1,3) by (auto simp: b1)
  show ?thesis
  proof (cases "b = 0")
    case True
    then show ?thesis using r h5 by (simp add: True)
  next
    case False
    have "unat b + unat h < 2 ^ 64" using assms(2) by simp
    note pos = block_position [OF False assms(1) this]
    have "unat b mod unat h \<noteq> 0 \<and> unat h - 3 \<le> unat b mod unat h"
      using r h5 by (auto simp: mod_Suc split: if_splits)
    then show ?thesis using pos(3,4) by simp
  qed
qed

section \<open>Leader and replica agree\<close>

text \<open>
  What a leader relies on: signatures made with its key verify, and a new header is the next block and
  carries the payload commitments it is built from. Its parent certificates are as in \<open>parent_ok\<close>, the
  view change evidence it received is valid.
\<close>

definition leader_scheme_ok :: "('k, 'g, 'h, 'st, 'dl, 'm, 'f) ProposeEnv \<Rightarrow> 'k \<Rightarrow> bool" where
  "leader_scheme_ok penv key \<longleftrightarrow>
     (\<forall>comm g. pe_sign penv comm = Some g \<longrightarrow> env_validate (pe_env penv) key g comm)
     \<and> (\<forall>st leaf pc bc md fee version view hdr.
          pe_new_header penv st leaf pc bc md fee version view = Some hdr \<longrightarrow>
            hdr_block_number hdr = leaf_height leaf + 1
            \<and> (bc = pe_empty_builder_commitment penv md \<and> md = pe_empty_metadata penv \<longrightarrow>
                 env_block_is_empty (pe_env penv) hdr))"

definition leader_certs_ok ::
  "('k, 'g, 'h, 'st) Env \<Rightarrow> ('k, 'g) ProposalDependencyHandle
     \<Rightarrow> ('k, 'g, 'h, 'm, 'f) LeaderEvent list list list \<Rightarrow> ('k, 'g, 'h, 'st, 'dl) Consensus \<Rightarrow> bool" where
  "leader_certs_ok env self res c \<longleftrightarrow>
     (let deps = fold collect_proposal_dep (concat (concat res)) proposal_deps_none in
      (\<forall>qc. pd_parent_qc deps = Some qc \<longrightarrow>
         parent_ok env self (qc, pd_next_epoch_qc deps, pd_state_cert deps))
      \<and> parent_ok env self (stored_highest_qc self c) \<and> transition_ok env self (transition_qc c)
      \<and> (\<forall>evidence epoch. proposal_cert deps = Some (evidence, epoch) \<longrightarrow>
           validate_view_change_evidence env (ph_upgrade_lock self) (ph_view_number self) evidence = Ok ()))"

text \<open>
  A replica that can judge the proposal: it has the configuration of the leader and the membership of
  the proposal's epoch, it is not ahead of the proposal, and the upgrade certificate, if there is one,
  is valid.
\<close>

definition replica_ready ::
  "('k, 'g, 'h, 'st) Env \<Rightarrow> ('k, 'g) ProposalDependencyHandle \<Rightarrow> ('g, 'h) QuorumProposal2
     \<Rightarrow> ('k, 'g) ValidationInfo \<Rightarrow> ('k, 'g, 'h, 'st, 'dl) Consensus \<Rightarrow> bool" where
  "replica_ready env self data info c \<longleftrightarrow>
     vi_upgrade_lock info = ph_upgrade_lock self \<and> vi_epoch_height info = ph_epoch_height self
     \<and> env_membership_for_epoch env (qp_epoch data) = Some (vi_membership info)
     \<and> em_epoch (vi_membership info) = qp_epoch data
     \<and> cur_view c \<le> qp_view_number data \<and> validate_current_epoch data info c = Ok ()
     \<and> (\<forall>cert. qp_upgrade_certificate data = Some cert \<longrightarrow>
          is_valid_cert (env_multi_sig_verify env) (env_upgrade_commit env) cert
            (stake_table_entries (em_stake_table (vi_membership info)))
            (em_upgrade_threshold (vi_membership info)) (ph_upgrade_lock self) = Ok ())"

text \<open>The parent QC names the height of the leaf that it certifies.\<close>

definition names_parent_height ::
  "('k, 'g, 'h, 'st) Env \<Rightarrow> 'g QuorumCertificate2 \<Rightarrow> ('k, 'g, 'h, 'st, 'dl) Consensus \<Rightarrow> bool" where
  "names_parent_height env qc c \<longleftrightarrow>
     (\<forall>comm leaf. saved_leaves c comm = Some leaf \<and> env_leaf_commit env leaf = leaf_commit (cert_data qc) \<longrightarrow>
        qd_block_number (cert_data qc) = Some (leaf_height leaf))"

lemma evidence_valid_for_view:
  "validate_view_change_evidence env lock view evidence = Ok () \<Longrightarrow> is_valid_for_view evidence view"
  by (auto simp: validate_view_change_evidence_def is_valid_for_view_def split: ViewChangeEvidence2.splits)

lemma validate_qc_without_next_epoch:
  assumes "validate_qc_and_next_epoch_qc env qc n lock h = Ok ()" "\<not> qc_block_is is_epoch_transition qc h"
  shows "validate_qc_and_next_epoch_qc env qc None lock h = Ok ()"
  using assms
  by (auto simp: validate_qc_and_next_epoch_qc_def qc_block_is_def try_bind_Inr_iff split: option.splits)

lemma check_parent_qc_True:
  assumes "check_parent_qc penv self cam qc sc version = Inr True"
    and "version_ge version (epochs_version (lock_versions (ph_upgrade_lock self)))"
    and "(case upgrade_view (ph_upgrade_lock self) of Some v \<Rightarrow> v | None \<Rightarrow> 0) < cert_view_number qc"
  shows "\<exists>b. qd_block_number (cert_data qc) = Some b
    \<and> (is_epoch_transition b (ph_epoch_height self) \<and> \<not> is_last_block b (ph_epoch_height self) \<longrightarrow>
         cam_builder_commitment cam = pe_empty_builder_commitment penv (cam_metadata cam)
         \<and> cam_metadata cam = pe_empty_metadata penv)
    \<and> (is_epoch_root b (ph_epoch_height self) \<longrightarrow>
         (\<exists>cert. sc = Some cert \<and> check_qc_state_cert_correspondence qc cert (ph_epoch_height self)))"
  using assms by (auto simp: check_parent_qc_def Let_def split: option.splits if_splits)

text \<open>The facts about a sent proposal that do not depend on a replica.\<close>

lemma sent_proposal_facts:
  assumes deps: "create_and_complete_dependencies (ph_view_number self) (ph_epoch_height self) event stream res"
      "names_view (ph_view_number self) event"
      "\<And>root. TaskEvent (EpochRootQcFormed root) \<in> set (event # stream) \<Longrightarrow>
         cert_view_number (erc_qc root) + 1 = ph_view_number self"
    and sent: "proposal_handle_dep_result penv self w1 w2 res c = (c', effects)"
      "QuorumProposalSend p key \<in> set effects"
    and certs_ok: "leader_certs_ok (pe_env penv) self res c"
    and epochs: "version_at_least_epochs (ph_upgrade_lock self) (ph_view_number self)"
      "epochs_enabled (ph_upgrade_lock self) (ph_view_number self)"
  defines "env \<equiv> pe_env penv" and "data \<equiv> proposal_data p" and "h \<equiv> ph_epoch_height self"
  defines "qc \<equiv> qp_justify_qc data"
  obtains comm parent_leaf cam state version where
    "saved_leaves c' comm = Some parent_leaf" "env_leaf_commit env parent_leaf = leaf_commit (cert_data qc)"
    "pe_new_header penv state parent_leaf (cam_commitment cam) (cam_builder_commitment cam)
       (cam_metadata cam) (fst (cam_fees cam)) version (ph_view_number self) = Some (qp_block_header data)"
    "check_parent_qc penv self cam qc (qp_state_cert data) version = Inr True"
    "version_ge version (epochs_version (lock_versions (ph_upgrade_lock self)))"
    "qp_view_number data = ph_view_number self"
    "qp_epoch data = option_epoch_from_block_number True (hdr_block_number (qp_block_header data)) h"
    "\<exists>m. env_membership_for_epoch env (qp_epoch data) = Some m
       \<and> em_leader m (ph_view_number self) = Some (ph_public_key self)"
    "pe_sign penv (env_leaf_commit env (from_quorum_proposal data)) = Some (proposal_signature p)"
    "validate_qc_and_next_epoch_qc env qc (qp_next_epoch_justify_qc data) (ph_upgrade_lock self) h = Ok ()"
    "\<forall>s. qp_state_cert data = Some s \<longrightarrow> valid_state_cert env s"
    "cert_view_number qc = ph_view_number self - 1
     \<or> (\<exists>ev. qp_view_change_evidence data = Some ev
          \<and> validate_view_change_evidence env (ph_upgrade_lock self) (ph_view_number self) ev = Ok ())"
proof -
  let ?lock = "ph_upgrade_lock self" and ?v = "ph_view_number self"
  let ?deps = "fold collect_proposal_dep (concat (concat res)) proposal_deps_none"
  obtain version parent cam where "key = ph_public_key self" and ver: "lock_version ?lock ?v = Inr version"
    and choose: "choose_parent_qc env self w1 w2 ?deps version c = Some parent"
    and "pd_commit_and_metadata ?deps = Some cam" and publish:
    "publish_proposal penv self cam (map_option fst (proposal_cert ?deps)) parent c = (c', Inr (Some p))"
    unfolding env_def by (rule handle_dep_result_sent [OF sent])
  obtain comm parent_leaf state header version' upgrade_cert where
    leaf: "saved_leaves c' comm = Some parent_leaf" and "cam_block_view cam = ?v" and
    pub: "lock_version ?lock ?v = Inr version'"
    "check_parent_qc penv self cam (fst parent) (snd (snd parent)) version' = Inr True"
    "pe_new_header penv state parent_leaf (cam_commitment cam) (cam_builder_commitment cam)
       (cam_metadata cam) (fst (cam_fees cam)) version' ?v = Some header"
    "sign_proposal penv self version'
       (case map_option fst (proposal_cert ?deps) of
          Some cert \<Rightarrow> (if is_valid_for_view cert ?v then Some cert else None) | None \<Rightarrow> None)
       upgrade_cert parent_leaf parent header c' = Inr (Some p)"
    by (rule publish_proposal_Some [OF publish])
  note signed = sign_proposal_Some [OF pub(4), folded env_def data_def]
  have v': "version' = version" using pub(1) ver by simp
  have ge: "version_ge version (epochs_version (lock_versions ?lock))"
    using epochs(1) ver by (simp add: version_at_least_epochs_def)
  have certs: "parent_ok env self parent" and formed: "\<And>q. pd_parent_qc ?deps = Some q \<Longrightarrow> fst parent = q"
    using choose_parent_qc_ok [OF choose ge] certs_ok by (auto simp: leader_certs_ok_def Let_def env_def)
  have parent: "fst parent = qc" "snd (snd parent) = qp_state_cert data" by (simp_all add: signed(5,8) qc_def)
  have qc_valid: "validate_qc_and_next_epoch_qc env qc (qp_next_epoch_justify_qc data) ?lock h = Ok ()"
    unfolding parent(1) [symmetric]
    using certs signed(10) epochs(2) validate_qc_without_next_epoch [of env "fst parent"]
    by (auto simp: signed(9) parent_ok_def h_def split: prod.splits)
  have evidence: "cert_view_number qc = ?v - 1 \<or> (\<exists>ev. qp_view_change_evidence data = Some ev
      \<and> validate_view_change_evidence env ?lock ?v ev = Ok ())"
  proof (cases "pd_parent_qc ?deps")
    case None
    from collected_parent_or_evidence(2) [OF deps this] obtain ev epoch where
      ev: "proposal_cert ?deps = Some (ev, epoch)" by (auto simp: not_None_eq)
    have "validate_view_change_evidence env ?lock ?v ev = Ok ()"
      using certs_ok ev by (auto simp: leader_certs_ok_def Let_def env_def)
    with ev evidence_valid_for_view [OF this] show ?thesis by (simp add: signed(7))
  next
    case (Some q)
    with collected_parent_or_evidence(1) [OF deps Some] formed [OF Some] show ?thesis
      by (simp add: parent(1) eq_diff_eq)
  qed
  have states: "\<forall>s. qp_state_cert data = Some s \<longrightarrow> valid_state_cert env s"
    using certs parent(2) by (auto simp: parent_ok_def split: prod.splits)
  show thesis
  proof (rule that [OF leaf _ _ _ ge])
    show "env_leaf_commit env parent_leaf = leaf_commit (cert_data qc)" using signed(11) parent(1) by simp
    show "pe_new_header penv state parent_leaf (cam_commitment cam) (cam_builder_commitment cam)
       (cam_metadata cam) (fst (cam_fees cam)) version ?v = Some (qp_block_header data)"
      using pub(3) by (simp add: v' signed(1))
    show "check_parent_qc penv self cam qc (qp_state_cert data) version = Inr True"
      using pub(2) by (simp add: v' parent)
    show "qp_epoch data = option_epoch_from_block_number True (hdr_block_number (qp_block_header data)) h"
      using signed(3) ge by (simp add: v' signed(1) h_def)
  qed (use signed(2,4,12) qc_valid states evidence in \<open>simp_all\<close>)
qed


section \<open>An epoch root QC of another view\<close>

lemma and_depI: "list_all2 (\<lambda>dep. dep) deps values \<Longrightarrow> and_dep deps values"
  by (auto simp: and_dep_def)

text \<open>
  The dependency on the next epoch QC accepts an epoch root QC of any view, and the handler takes the QC
  of whatever epoch root QC it finds among its events as the parent.
\<close>

text \<open>
  C37: When an epoch root QC of another view arrives between the creation of a proposal task and the QC
  of the preceding view, the dependencies complete with it, and a proposal the handler sends has that
  QC as its parent and no view change evidence, so every replica rejects it.
\<close>

theorem foreign_epoch_root_qc_proposed:
  fixes prev :: "(('g, 'h) QuorumProposal2, 'g) Proposal" and h view :: u64
    and pc bc :: commitment and md :: 'm and fees :: "'f \<times> 'f list" and k :: 'k
    and qc :: "'g QuorumCertificate2" and root :: "'g EpochRootQuorumCertificate"
  assumes "1 < view" "cert_view_number qc + 1 = view" "qp_view_number (proposal_data prev) + 1 = view"
    and "cert_view_number (erc_qc root) + 1 \<noteq> view"
  defines "event \<equiv> SendPayloadCommitmentAndMetadata pc bc md view fees"
    and "vid \<equiv> VidDisperseSend view k"
    and "formed \<equiv> TaskEvent (Qc2Formed (Inl qc))" and "foreign \<equiv> TaskEvent (EpochRootQcFormed root)"
  defines "res \<equiv> [[[event, vid], [formed, ProposalPreliminarilyValidated prev, foreign]]]"
  shows "create_and_complete_dependencies view h event
      [vid, ProposalPreliminarilyValidated prev, foreign, formed] res
    \<and> (\<forall>penv self w1 w2 c c' effects p key.
        ph_view_number self = view
        \<and> proposal_handle_dep_result penv self w1 w2 res c = (c', effects)
        \<and> QuorumProposalSend p key \<in> set effects \<longrightarrow>
        qp_justify_qc (proposal_data p) = erc_qc root
        \<and> (\<forall>env info r. validate_preliminary env p info r \<noteq> Ok ()))"
proof (intro conjI allI impI; (elim conjE)?)
  show "create_and_complete_dependencies view h event
      [vid, ProposalPreliminarilyValidated prev, foreign, formed] res"
    unfolding create_and_complete_dependencies_def proposal_dependency_chain_def complete_proposal_depends_eq
      new_proposal_depends_def Let_def res_def
    using assms(1-4)
    by (auto simp: and_dep_single event_dep_completes_def seeded_def mark_as_completed_def new_dep_def
        proposal_event_dependency_def proposal_event_view_def seeds_next_epoch_qc_def next_epoch_qc_match_def
        event_def vid_def formed_def foreign_def intro!: and_depI)
next
  fix penv self w1 w2 c c' effects p key
  assume v: "ph_view_number self = view"
    and sent: "proposal_handle_dep_result penv self w1 w2 res c = (c', effects)"
      "QuorumProposalSend p key \<in> set effects"
  let ?deps = "fold collect_proposal_dep (concat (concat res)) proposal_deps_none"
  have deps: "pd_parent_qc ?deps = Some (erc_qc root)" "proposal_cert ?deps = None"
    by (simp_all add: res_def event_def vid_def formed_def foreign_def collect_proposal_dep_def
        proposal_deps_none_def proposal_cert_def)
  obtain version parent cam where "key = ph_public_key self"
    "lock_version (ph_upgrade_lock self) (ph_view_number self) = Inr version"
    and choose: "choose_parent_qc (pe_env penv) self w1 w2 ?deps version c = Some parent"
    and "pd_commit_and_metadata ?deps = Some cam"
    and publish: "publish_proposal penv self cam (map_option fst (proposal_cert ?deps)) parent c = (c', Inr (Some p))"
    by (rule handle_dep_result_sent [OF sent])
  obtain comm parent_leaf state header version' upgrade_cert where
    signed: "sign_proposal penv self version'
       (case map_option fst (proposal_cert ?deps) of
          Some cert \<Rightarrow> (if is_valid_for_view cert (ph_view_number self) then Some cert else None) | None \<Rightarrow> None)
       upgrade_cert parent_leaf parent header c' = Inr (Some p)"
    by (rule publish_proposal_Some [OF publish])
  have "fst parent = erc_qc root"
    using choose deps(1) by (auto simp: choose_parent_qc_def Let_def split: if_splits option.splits)
  with sign_proposal_Some(2,5,7) [OF signed] deps(2) v have data:
    "qp_justify_qc (proposal_data p) = erc_qc root" "qp_view_number (proposal_data p) = view"
    "qp_view_change_evidence (proposal_data p) = None" by simp_all
  show "qp_justify_qc (proposal_data p) = erc_qc root" by (rule data(1))
  have "cert_view_number (erc_qc root) \<noteq> view - 1" using assms(4) by auto
  then show "validate_preliminary env p info r \<noteq> Ok ()" for env info r
    by (auto simp: validate_preliminary_Ok validate_proposal_view_and_certs_def Let_def try_bind_Inr_iff data)
qed

section \<open>Examples\<close>

definition lead_lock :: "nat UpgradeLock" where
  "lead_lock = \<lparr>decided_upgrade_certificate = None,
     lock_versions = \<lparr>base_version = (0, 3), upgrade_version = (0, 3), epochs_version = (0, 3)\<rparr>\<rparr>"

definition lead_env :: "(nat, nat, unit, nat) Env" where
  "lead_env = demo_env\<lparr>env_membership_for_epoch := (\<lambda>e. Some (demo_membership\<lparr>em_epoch := e\<rparr>))\<rparr>"

definition lead_penv :: "(nat, nat, unit, nat, nat, unit, unit) ProposeEnv" where
  "lead_penv =
     \<lparr>pe_env = lead_env, pe_venv = demo_venv,
      pe_new_header = (\<lambda>st leaf pc bc md fee version view.
        Some \<lparr>hdr_block_number = leaf_height leaf + 1, hdr_payload_commitment = pc, hdr_fields = ()\<rparr>),
      pe_empty_metadata = (), pe_empty_builder_commitment = (\<lambda>md. 0), pe_sign = (\<lambda>comm. Some 1),
      pe_store_root_qc = (\<lambda>qc cert. True)\<rparr>"

definition lead_handle :: "(nat, nat) ProposalDependencyHandle" where
  "lead_handle = \<lparr>ph_view_number = 3, ph_public_key = 1, ph_formed_upgrade_certificate = None,
     ph_upgrade_lock = lead_lock, ph_epoch_height = 10\<rparr>"

definition lead_qc :: "u64 \<Rightarrow> nat QuorumCertificate2" where
  "lead_qc v = (sample_qc (sample_leaf_commit (if v = 2 then sample_leaf2 else sample_leaf1)) v)
     \<lparr>cert_signatures := Some (1, [True])\<rparr>"

definition lead_prev :: "((nat, unit) QuorumProposal2, nat) Proposal" where
  "lead_prev = demo_proposal\<lparr>proposal_data := (proposal_data demo_proposal)\<lparr>qp_view_number := 2\<rparr>\<rparr>"

type_synonym demo_event = "(nat, nat, unit, unit, unit) LeaderEvent"

definition lead_payload :: demo_event where
  "lead_payload = SendPayloadCommitmentAndMetadata 7 0 () 3 ((), [])"

definition lead_vid :: demo_event where "lead_vid = VidDisperseSend 3 1"

definition lead_formed :: demo_event where "lead_formed = TaskEvent (Qc2Formed (Inl (lead_qc 2)))"

definition lead_stream :: "demo_event list" where
  "lead_stream = [lead_vid, ProposalPreliminarilyValidated lead_prev, lead_formed]"

definition lead_res :: "demo_event list list list" where
  "lead_res = [[[lead_payload, lead_vid], [lead_formed, ProposalPreliminarilyValidated lead_prev, lead_formed]]]"

definition no_wait :: "(nat, nat, unit, unit, unit) Waiting" where
  "no_wait = \<lparr>wt_queued = [], wt_arriving = [], wt_rounds = 0, wt_overrun = False\<rparr>"

definition lead_proposal :: "((nat, unit) QuorumProposal2, nat) Proposal" where
  "lead_proposal =
     \<lparr>proposal_data =
        \<lparr>qp_block_header = \<lparr>hdr_block_number = 3, hdr_payload_commitment = 7, hdr_fields = ()\<rparr>,
         qp_view_number = 3, qp_epoch = Some 1, qp_justify_qc = lead_qc 2,
         qp_next_epoch_justify_qc = None, qp_upgrade_certificate = None,
         qp_view_change_evidence = None, qp_next_drb_result = None, qp_state_cert = None\<rparr>,
      proposal_signature = 1\<rparr>"

lemma lead_epochs:
  "lock_version lead_lock v = Inr (0, 3)" "epochs_enabled lead_lock v" "upgrade_view lead_lock = None"
  "version_ge (0, 3) (epochs_version (lock_versions lead_lock))"
  by (simp_all add: lead_lock_def lock_version_def epochs_enabled_def version_infallible_def
      upgrade_view_def version_ge_def)

lemma lead_env_simps:
  "env_leaf_commit lead_env = sample_leaf_commit"
  "env_membership_for_epoch lead_env e = Some (demo_membership\<lparr>em_epoch := e\<rparr>)"
  "em_leader demo_membership v = Some 1"
  by (simp_all add: lead_env_def demo_env_def demo_membership_def Let_def)

lemma lead_parent:
  "parent_leaf_and_state lead_env demo_venv lock (lead_qc 2) h sample_state2 = (sample_state2, Ok (sample_leaf2, 12))"
  by (simp add: parent_leaf_and_state_def lead_qc_def sample_qc_def sample_state2_facts bt_contains_key_def
      bt_get_def leaf_and_state_def)

lemma lead_qc_simps:
  "qd_block_number (cert_data (lead_qc v)) = Some v" "cert_view_number (lead_qc v) = v"
  "leaf_commit (cert_data (lead_qc 2)) = sample_leaf_commit sample_leaf2"
  by (simp_all add: lead_qc_def sample_qc_def)

lemma lead_blocks: "\<not> is_epoch_transition 2 10" "\<not> is_epoch_root 2 10" "\<not> is_transition_block 2 10"
  "\<not> is_epoch_transition 3 10" "option_epoch_from_block_number True 3 10 = Some 1"
  by code_simp+

lemma lead_leaf: "leaf_height sample_leaf2 = 2" "upgrade_certificate sample_leaf2 = None"
  by (simp_all add: sample_leaf2_def sample_leaf_def leaf_height_def)

lemma lead_signed:
  "sign_proposal lead_penv lead_handle (0, 3) None None sample_leaf2 (lead_qc 2, None, None)
     \<lparr>hdr_block_number = 3, hdr_payload_commitment = 7, hdr_fields = ()\<rparr> sample_state2 = Inr (Some lead_proposal)"
  by (simp add: sign_proposal_def lead_penv_def lead_handle_def lead_env_simps lead_epochs lead_blocks Let_def
      qc_block_is_def lead_qc_simps from_quorum_proposal_def next_drb_of_def lead_proposal_def)

lemma lead_checked: "check_parent_qc lead_penv lead_handle cam (lead_qc 2) None (0, 3) = Inr True"
  by (simp add: check_parent_qc_def lead_handle_def lead_epochs lead_qc_simps lead_blocks Let_def)

lemma lead_published:
  assumes "cam_block_view cam = 3" "cam_commitment cam = 7"
  shows "publish_proposal lead_penv lead_handle cam None (lead_qc 2, None, None) sample_state2
    = (sample_state2, Inr (Some lead_proposal))"
proof -
  have f: "pe_env lead_penv = lead_env" "pe_venv lead_penv = demo_venv" "ph_view_number lead_handle = 3"
    "ph_upgrade_lock lead_handle = lead_lock" "ph_formed_upgrade_certificate lead_handle = None"
    "pe_new_header lead_penv st sample_leaf2 7 bc md fee ver v =
       Some \<lparr>hdr_block_number = 3, hdr_payload_commitment = 7, hdr_fields = ()\<rparr>" for st bc md fee ver v
    by (simp_all add: lead_penv_def lead_handle_def lead_leaf)
  show ?thesis
    by (simp add: publish_proposal_def Let_def f lead_parent lead_leaf relevant_upgrade_certificate_def assms
        lead_epochs lead_checked lead_signed)
qed

lemma lead_sent:
  "proposal_handle_dep_result lead_penv lead_handle w1 w2 lead_res sample_state2
     = (sample_state2, [QuorumProposalSend lead_proposal 1])"
proof -
  have f: "ph_view_number lead_handle = 3" "ph_upgrade_lock lead_handle = lead_lock" "ph_public_key lead_handle = 1"
    "ph_epoch_height lead_handle = 10" by (simp_all add: lead_handle_def)
  show ?thesis
    by (simp add: proposal_handle_dep_result_def lead_res_def collect_proposal_dep_def proposal_deps_none_def
        lead_payload_def lead_vid_def lead_formed_def f lead_epochs choose_parent_qc_def
        qc_block_is_def lead_qc_simps lead_blocks lead_published proposal_cert_def Let_def)
qed

lemma lead_dependencies: "create_and_complete_dependencies 3 10 lead_payload lead_stream lead_res"
  unfolding create_and_complete_dependencies_def proposal_dependency_chain_def complete_proposal_depends_eq
    new_proposal_depends_def Let_def lead_res_def
  by (auto simp: and_dep_single event_dep_completes_def seeded_def mark_as_completed_def new_dep_def
      proposal_event_dependency_def proposal_event_view_def seeds_next_epoch_qc_def next_epoch_qc_match_def
      lead_payload_def lead_vid_def lead_formed_def lead_stream_def lead_prev_def lead_qc_simps
      outside_transition_def lead_blocks intro!: and_depI)

lemma lead_qc_valid:
  "validate_qc_and_next_epoch_qc lead_env (lead_qc 2) None lead_lock 10 = Ok ()"
  "validate_qc_and_next_epoch_qc lead_env (high_qc sample_state2) None lead_lock 10 = Ok ()"
proof -
  have "is_ok (validate_qc_and_next_epoch_qc lead_env (lead_qc 2) None lead_lock 10)"
    "is_ok (validate_qc_and_next_epoch_qc lead_env (high_qc sample_state2) None lead_lock 10)"
    by code_simp+
  then show "validate_qc_and_next_epoch_qc lead_env (lead_qc 2) None lead_lock 10 = Ok ()"
    "validate_qc_and_next_epoch_qc lead_env (high_qc sample_state2) None lead_lock 10 = Ok ()"
    by (auto simp: is_ok_iff)
qed

lemma lead_certs_ok: "leader_certs_ok lead_env lead_handle lead_res sample_state2"
proof -
  have f: "ph_upgrade_lock lead_handle = lead_lock" "ph_epoch_height lead_handle = 10"
    by (simp_all add: lead_handle_def)
  have "stored_highest_qc lead_handle sample_state2 = (high_qc sample_state2, None, None)"
    by (simp add: stored_highest_qc_def f sample_state2_eq sample_genesis_def consensus_new_def sample_qc_def
        qc_block_is_def is_last_block_def is_epoch_root_def Let_def)
  then have "parent_ok lead_env lead_handle (stored_highest_qc lead_handle sample_state2)"
    "parent_ok lead_env lead_handle (lead_qc 2, None, None)"
    using lead_qc_valid by (auto simp: parent_ok_def f)
  moreover have "transition_qc sample_state2 = None"
    by (simp add: sample_state2_eq sample_genesis_def consensus_new_def)
  ultimately show ?thesis
    by (simp add: leader_certs_ok_def lead_res_def collect_proposal_dep_def proposal_deps_none_def
        lead_payload_def lead_vid_def lead_formed_def transition_ok_def proposal_cert_def)
qed

definition lead_info :: "(nat, nat) ValidationInfo" where
  "lead_info = \<lparr>vi_membership = demo_membership\<lparr>em_epoch := Some 1\<rparr>, vi_upgrade_lock = lead_lock,
     vi_epoch_height = 10, vi_first_epoch = None\<rparr>"

lemma lead_replica_ready: "replica_ready lead_env lead_handle (proposal_data lead_proposal) lead_info sample_state2"
proof -
  have "is_ok (validate_current_epoch (proposal_data lead_proposal) lead_info sample_state2)" by code_simp
  then have "validate_current_epoch (proposal_data lead_proposal) lead_info sample_state2 = Ok ()"
    by (auto simp: is_ok_iff)
  moreover have "cur_view sample_state2 \<le> 3" by (simp add: sample_state2_eq sample_genesis_def consensus_new_def)
  ultimately show ?thesis
    by (simp add: replica_ready_def lead_handle_def lead_info_def lead_proposal_def lead_env_simps)
qed


definition lead_root :: "nat EpochRootQuorumCertificate" where
  "lead_root = \<lparr>erc_qc = lead_qc 1, erc_state_cert = demo_state_cert\<rparr>"

definition foreign_res :: "demo_event list list list" where
  "foreign_res = [[[lead_payload, lead_vid],
     [lead_formed, ProposalPreliminarilyValidated lead_prev, TaskEvent (EpochRootQcFormed lead_root)]]]"

definition foreign_sent where
  "foreign_sent = snd (proposal_handle_dep_result lead_penv lead_handle no_wait no_wait foreign_res sample_state2)"

lemma foreign_sent_run:
  "case foreign_sent of [QuorumProposalSend p key] \<Rightarrow> cert_view_number (qp_justify_qc (proposal_data p)) = 1 | _ \<Rightarrow> False"
  by code_simp

theorem foreign_epoch_root_qc_proposed_witness:
  "\<exists>p key. QuorumProposalSend p key \<in> set foreign_sent
     \<and> validate_preliminary lead_env p lead_info sample_state2 \<noteq> Ok ()"
proof -
  have "\<exists>p key. foreign_sent = [QuorumProposalSend p key]"
    using foreign_sent_run by (auto split: list.splits LeaderEvent.splits)
  then obtain p key where p: "QuorumProposalSend p key \<in> set foreign_sent" by (metis list.set_intros(1))
  obtain c' where run: "proposal_handle_dep_result lead_penv lead_handle no_wait no_wait foreign_res sample_state2
      = (c', foreign_sent)"
    by (cases "proposal_handle_dep_result lead_penv lead_handle no_wait no_wait foreign_res sample_state2")
      (simp add: foreign_sent_def)
  have all: "\<forall>penv self w1 w2 c c' effects p key. ph_view_number self = 3
      \<and> proposal_handle_dep_result penv self w1 w2 foreign_res c = (c', effects)
      \<and> QuorumProposalSend p key \<in> set effects \<longrightarrow> qp_justify_qc (proposal_data p) = erc_qc lead_root
        \<and> (\<forall>env info r. validate_preliminary env p info r \<noteq> Ok ())"
    unfolding foreign_res_def lead_payload_def lead_vid_def lead_formed_def
    by (rule conjunct2 [OF foreign_epoch_root_qc_proposed])
      (simp_all add: lead_qc_simps lead_prev_def lead_root_def)
  have "ph_view_number lead_handle = 3
      \<and> proposal_handle_dep_result lead_penv lead_handle no_wait no_wait foreign_res sample_state2 = (c', foreign_sent)
      \<and> QuorumProposalSend p key \<in> set foreign_sent"
    using run p by (simp add: lead_handle_def)
  from mp [OF all [THEN spec, THEN spec, THEN spec, THEN spec, THEN spec, THEN spec, THEN spec, THEN spec,
      THEN spec] this]
  have "validate_preliminary lead_env p lead_info sample_state2 \<noteq> Ok ()" by blast
  with p show ?thesis by blast
qed

definition late_wait :: "(nat, nat, unit, unit, unit) Waiting" where
  "late_wait = \<lparr>wt_queued = [], wt_arriving = [HighQcRecv (lead_qc 1) None 2, HighQcRecv (lead_qc 2) None 3],
     wt_rounds = 5, wt_overrun = False\<rparr>"

theorem later_high_qcs_ignored_witness:
  "(\<exists>nqc sc. wait_for_highest_qc lead_env lead_handle late_wait sample_state2 = Ok (lead_qc 1, nqc, sc))
   \<and> wait_for_qc_event lead_env lead_handle (drop 1 (wt_arriving late_wait)) = Ready (Some (lead_qc 2, None, None))"
proof -
  have "wait_for_qc_event lead_env lead_handle [HighQcRecv (lead_qc 1) None 2] = Ready (Some (lead_qc 1, None, None))"
    "wait_for_qc_event lead_env lead_handle (drop 1 (wt_arriving late_wait)) = Ready (Some (lead_qc 2, None, None))"
    by code_simp+
  note evs = this
  have "cert_view_number (high_qc sample_state2) = 0"
    by (simp add: sample_state2_eq sample_genesis_def consensus_new_def sample_qc_def)
  moreover have "epochs_enabled (ph_upgrade_lock lead_handle) (ph_view_number lead_handle)"
    by (simp add: lead_handle_def lead_epochs)
  ultimately show ?thesis
    using evs later_high_qcs_ignored [OF _ _ evs(1), of late_wait "[HighQcRecv (lead_qc 2) None 3]" sample_state2]
    by (simp add: late_wait_def stored_highest_qc_def newer_qc_def lead_qc_simps Let_def)
qed

definition lead_task :: "(nat, nat, unit, unit, unit) QuorumProposalTaskState" where
  "lead_task = \<lparr>latest_proposed_view = 0, qpt_cur_epoch = Some 1, proposal_dependencies = [],
     formed_quorum_certificates = [], formed_next_epoch_quorum_certificates = [], qpt_public_key = 1,
     formed_upgrade_certificate = None, qpt_upgrade_lock = lead_lock, qpt_epoch_height = 10,
     formed_state_cert = []\<rparr>"

definition lead_run1 where
  "lead_run1 = proposal_run [(lead_penv, lead_payload, sample_state2),
     (lead_penv, QuorumProposalSend lead_proposal 1, sample_state2)] lead_task"

definition lead_run2 where
  "lead_run2 = proposal_run [(lead_penv, lead_vid, sample_state2), (lead_penv, VidDisperseSend 4 1, sample_state2)]
     (fst lead_run1)"

lemma lead_runs:
  "map (\<lambda>(_, _, effects). length effects) (snd lead_run1) = [1, 0]"
  "map (\<lambda>(_, _, effects). map (\<lambda>e. case e of SpawnProposalTask v \<Rightarrow> v | _ \<Rightarrow> 0) effects) (snd lead_run2) = [[], [4]]"
  by code_simp+

theorem proposal_task_well_formed_witness:
  "proposal_task_ok (fst lead_run2) \<and> map (\<lambda>(_, _, effects). length effects) (snd lead_run2) = [0, 1]"
proof -
  have "proposal_task_ok lead_task" by (simp add: proposal_task_ok_def lead_task_def)
  from proposal_task_well_formed [OF this surjective_pairing surjective_pairing] have "proposal_task_ok (fst lead_run2)"
    unfolding lead_run2_def lead_run1_def by blast
  then show ?thesis
    using arg_cong [OF lead_runs(2), of "map length"] by (simp add: comp_def case_prod_unfold)
qed

end
