(* ===== verification/Spec2Isabelle.thy ===== *)
theory Spec2Isabelle
  imports Prelude Epochs Stake_Table Quorum_Cert Vote_Accumulator Drb Leaf Consensus_State
    Proposal_Validation Decide Stake_Events Epoch_Committees Quorum_Vote
    Block_Payload App_Header Ledger Sequencer_State Events Vote_Collection View_Sync
    Consensus_Task Quorum_Proposal
begin

text \<open>
  Verification of the consensus core of the Espresso network (HotShot) and of the application state
  of its sequencer.

  \<^bold>\<open>The program.\<close> A sequencer node runs HotShot, a leader-based consensus protocol in the style of
  HotStuff-2 with epochs, proof of stake and data availability certificates. A node keeps one shared
  \<open>Consensus\<close> object and a set of event-driven tasks that read and change it. A leader's proposal
  carries the certificate (QC) of its parent; a replica validates it, walks the chain of leaves to see
  what it decides, and, once it also has the DA certificate and its VID share, votes; votes are
  accumulated into the next QC. Who may vote, with how much stake, and who leads a view is answered by
  the stake table of the epoch, which is replayed from the events of a contract on the L1 and
  randomised by a beacon (DRB). When no proposal arrives, timeout votes and view synchronisation
  move the nodes to a common view. What is agreed on is the header of the sequencer: a leader builds it
  from its parent, the L1 and the fee and reward ledgers, and a replica replays it before it votes.
  Paths below are relative to \<open>src/\<close>, \<open>types\<close>, \<open>task-impls\<close> and
  \<open>task\<close> are the crates under \<open>crates/hotshot\<close>.

  \<^bold>\<open>The theories.\<close>

  \<^item> \<open>Prelude\<close>: machine integers and commitments as words, \<open>Result\<close> as a sum with \<open>Ok\<close>, \<open>Err\<close> and
    \<open>try_bind\<close> for \<open>?\<close>, checked and saturating arithmetic, \<open>BTreeMap\<close> as a sorted association list,
    little-endian bytes, and the lemmas on them that the components share.
  \<^item> \<open>Epochs\<close> (\<open>types/src/utils.rs\<close>): the block-number predicates that cut the chain into epochs, on
    64-bit words. The lemmas characterise the epoch of a block, the phases of an epoch and its
    boundaries by inequalities between naturals.
  \<^item> \<open>Stake_Table\<close> (\<open>types/src/stake_table.rs\<close>): entries, totals and thresholds in \<open>U256\<close>, and the
    locale \<open>stake_membership\<close>, the contract that certificate checking and vote accumulation rely on:
    a committee and a threshold above two thirds of its stake. Its lemma is the intersection of quorums.
  \<^item> \<open>Quorum_Cert\<close> (\<open>types/src/qc.rs\<close>, \<open>simple_certificate.rs\<close>, \<open>message.rs\<close>): assembly and check of
    bit-vector certificates, certificate validity, and the protocol version of a view.
  \<^item> \<open>Vote_Accumulator\<close> (\<open>types/src/vote.rs\<close>, light-client certificates of \<open>task-impls/src/helpers.rs\<close>):
    both accumulators with every early return and panic. Every certificate that leaves an accumulator
    is valid, each member counts once, and a certificate is formed exactly when the threshold is met.
  \<^item> \<open>Drb\<close> (\<open>types/src/drb.rs\<close>): the checkpointed hash chain and the stake-weighted choice of a leader.
    The chain is an iterated hash that can be resumed, and the chance of a leader is its stake.
  \<^item> \<open>Leaf\<close> (\<open>types/src/data.rs\<close>, \<open>utils.rs\<close>): leaves, proposals, view change evidence, views of the
    state map.
  \<^item> \<open>Consensus_State\<close> (\<open>types/src/consensus.rs\<close>): the shared state with all its operations, the step
    relation \<open>consensus_step\<close> and its traces. Views, QCs and the lock never go back, no action is
    approved twice in a view, stored leaves stay consistent with the state map, the walk over ancestors
    returns and follows parent commitments, garbage collection keeps the decided leaf.
  \<^item> \<open>Proposal_Validation\<close> (\<open>task-impls/src/helpers.rs\<close>, \<open>quorum_proposal_recv/\<close>): the handler of a
    received proposal. It refines traces of \<open>consensus_step\<close>, returns, and a proposal is only reported as
    validated when its certificates and its view change evidence are valid and extending it is safe.
  \<^item> \<open>Decide\<close> (\<open>task-impls/src/helpers.rs\<close>, \<open>quorum_vote/handlers.rs\<close>): the two-chain and three-chain
    decide rules and the handler that applies them. A decide event reports a chain of certified leaves
    down to the last decided one, the loop of the two-chain rule computes the chain of its inductive
    reference, and the handler neither panics nor loops.
  \<^item> \<open>Stake_Events\<close> (\<open>types/src/v0/impls/stake_table.rs\<close>): ordering, replay and selection of the stake
    table events, and their fetching in chunks of blocks. The replayed stake is the net delegation of
    the history, the active validators are the top stakers.
  \<^item> \<open>Epoch_Committees\<close> (the same file): the \<open>Membership\<close> implementation. Interpretations \<open>quorum\<close> and
    \<open>da_quorum\<close> discharge the contract \<open>stake_membership\<close> for the committees of every reachable state, so
    two valid certificates of an epoch share signers with more than a third of its stake.
  \<^item> \<open>Quorum_Vote\<close> (\<open>task-impls/src/quorum_vote/\<close>, \<open>task/src/dependency.rs\<close>, \<open>types/src/data/vid_disperse.rs\<close>):
    the vote task, its dependencies on events and the handler that sends the vote. A vote vouches for a
    proposal that agrees with the DA certificate and the VID share of its view, a view gets one vote
    task, and the weights of VID shares stay within bounds.
  \<^item> \<open>Events\<close> (\<open>task-impls/src/events.rs\<close>, \<open>types/src/simple_vote.rs\<close>): the events and votes that the
    tasks below exchange.
  \<^item> \<open>Vote_Collection\<close> (\<open>task-impls/src/vote_collection.rs\<close>): the collectors of every vote type and of
    epoch roots. The locale \<open>view_collectors\<close> is what a map of collectors by view promises; its
    interpretations \<open>votes\<close> and \<open>root_votes\<close> cover both kinds. Only valid certificates leave a collector,
    and votes with the threshold yield one; two theorems show how a forged or replayed vote prevents it.
  \<^item> \<open>View_Sync\<close> (\<open>task-impls/src/view_sync.rs\<close>): the replica state machine and the main task with its
    relays. Every message it sends is backed by a certificate, a timeout or votes; its panics are
    characterised, and so are the replicas that garbage collection and timers miss.
  \<^item> \<open>Consensus_Task\<close> (\<open>task-impls/src/consensus/\<close>): votes, view changes, timeouts and extended QCs. Its
    messages are justified by what it received, and it refines traces of \<open>consensus_step\<close>.
  \<^item> \<open>Quorum_Proposal\<close> (\<open>task-impls/src/quorum_proposal/\<close>, \<open>task/src/dependency.rs\<close>): the leader's side of
    a proposal, from the dependencies of a view to the signed message. What a leader sends, the
    replicas of \<open>Proposal_Validation\<close> accept; its state is well-formed and never goes back to a view; two
    theorems show QCs that it misses or takes wrongly.
  \<^item> \<open>Block_Payload\<close> (\<open>types/src/v0/impls/block/\<close>): namespaces and transactions as bytes. What is built
    is valid and reads back as the transactions that were put in; reading arbitrary bytes is total.
  \<^item> \<open>App_Header\<close> (\<open>types/src/v0/impls/header.rs\<close>, \<open>chain_config.rs\<close>, \<open>fee_info.rs\<close>): headers of the
    three versions, chain configurations and their commitments, which bind the fields of a header.
  \<^item> \<open>Ledger\<close> (\<open>types/src/v0/impls/state.rs\<close>, \<open>reward.rs\<close>): fee and reward accounts over Merkle trees.
    The block reward is paid out exactly, and fees move between accounts without loss.
  \<^item> \<open>Sequencer_State\<close> (\<open>state.rs\<close>, \<open>header.rs\<close>, \<open>l1.rs\<close>): proposing and validating a header. An
    accepted header satisfies every rule of the protocol, and a header that the node proposes is one
    that it accepts.

  \<^bold>\<open>Reading the model.\<close> A struct is a record, an enum a datatype. An operation on \<open>&mut self\<close> takes
  the state and returns it updated; where a Rust function changes the state before it fails, the model
  returns the state together with the result. \<open>Result\<close> is \<open>('e, 'a) result\<close> with an error constructor
  per failing check. An outer \<open>None\<close> is a panic, or a walk that does not return; theorems that a handler
  returns state that it is not \<open>None\<close>. What is sent on a channel or handed to storage, when the code
  only logs its failure, is a list of effects. Signature schemes, hashes, the application's block and
  state, storage and the network are parameters, gathered in the records \<open>Env\<close>, \<open>DecideEnv\<close>,
  \<open>VoteEnv\<close>, \<open>CollectEnv\<close>, \<open>TaskEnv\<close>, \<open>ConsensusTaskEnv\<close>, \<open>ProposeEnv\<close> and \<open>SeqEnv\<close> or arguments of the definitions that use them; what a theorem needs of them
  (\<open>commit_binds\<close>, \<open>aggregate_complete\<close>, \<open>tree_laws\<close>) is a named hypothesis, and the witnesses instantiate them
  with concrete functions. The answers of the membership coordinator for an epoch are taken as fixed
  while a task runs.

  \<^bold>\<open>Bounds and fuel.\<close> Machine integers keep their width. Where a theorem needs that a sum of stakes
  does not wrap, \<open>stake_fits\<close> or an explicit bound says so. The walk over ancestors is a
  \<open>partial_function\<close>, because it loops on a cyclic store; \<open>acyclic_leaves\<close> is what makes it return and the
  traces of the consensus state keep it. The block ranges of
  \<open>chunks\<close> take fuel, which bounds the number of ranges: \<open>chunks_cover\<close> shows that one more than the number
  of blocks is enough. \<open>l1_fuel\<close> is this bound for the deposits that a header claims.

  \<^bold>\<open>Not modelled.\<close> Networking, message encoding and the libp2p and CDN layers; persistence and the
  query, events and status services; the REST interfaces; the generated contract bindings and the
  deployment tools; the light-client circuit and its prover; the block builders; the DA, VID,
  transaction and upgrade tasks; the catchup of memberships from peers. The manifest gives the reason for each.
\<close>

end
